(* ===== verification/Prelude.thy ===== *)
theory Prelude
  imports Main
    "HOL-Library.Word"
    "HOL-Library.List_Lexorder"
    "HOL-Library.Char_ord"
begin

text \<open>
  Shared vocabulary of the development: machine integers, results of fallible code,
  big-endian byte encodings, length-prefixed fields, the bytes of a string, and ordered
  association lists for \<^verbatim>\<open>BTreeMap\<close>.  Nothing here models a particular component; the
  lemmas are the ones several component theories share.
\<close>

named_theorems codec_simps \<open>equations that decode what an encoder produced\<close>
named_theorems result_simps \<open>equations for results of fallible operations\<close>

subsection \<open>Machine integers and results\<close>

type_synonym u8 = "8 word"
type_synonym u16 = "16 word"
type_synonym u32 = "32 word"
type_synonym u64 = "64 word"
type_synonym i32 = "32 word"
type_synonym byte = "8 word"

type_synonym ('e, 'a) result = "'e + 'a"

abbreviation Ok :: "'a \<Rightarrow> ('e, 'a) result" where "Ok \<equiv> Inr"
abbreviation Err :: "'e \<Rightarrow> ('e, 'a) result" where "Err \<equiv> Inl"

text \<open>The question-mark operator: stop at the first error.\<close>

definition and_then :: "('e, 'a) result \<Rightarrow> ('a \<Rightarrow> ('e, 'b) result) \<Rightarrow> ('e, 'b) result" where
  "and_then r f = (case r of Inl e \<Rightarrow> Inl e | Inr a \<Rightarrow> f a)"

definition ok_or :: "'a option \<Rightarrow> 'e \<Rightarrow> ('e, 'a) result" where
  "ok_or x e = (case x of None \<Rightarrow> Inl e | Some a \<Rightarrow> Inr a)"

definition map_err :: "('e \<Rightarrow> 'f) \<Rightarrow> ('e, 'a) result \<Rightarrow> ('f, 'a) result" where
  "map_err f r = (case r of Inl e \<Rightarrow> Inl (f e) | Inr a \<Rightarrow> Inr a)"

definition is_ok :: "('e, 'a) result \<Rightarrow> bool" where
  "is_ok r = (case r of Inl _ \<Rightarrow> False | Inr _ \<Rightarrow> True)"

lemma and_then_simps [simp, result_simps]:
  "and_then (Ok a) f = f a"
  "and_then (Err e) f = Err e"
  by (simp_all add: and_then_def)

lemma ok_or_simps [simp, result_simps]:
  "ok_or (Some a) e = Ok a"
  "ok_or None e = Err e"
  by (simp_all add: ok_or_def)

lemma map_err_simps [simp, result_simps]:
  "map_err f (Ok a) = Ok a"
  "map_err f (Err e) = Err (f e)"
  by (simp_all add: map_err_def)

lemma map_err_Ok_iff: "map_err f r = Ok a \<longleftrightarrow> r = Ok a"
  by (cases r) auto

lemma is_ok_simps [simp, result_simps]: "is_ok (Ok a)" "\<not> is_ok (Err e)"
  by (simp_all add: is_ok_def)

lemma and_then_Ok_iff: "and_then r f = Ok b \<longleftrightarrow> (\<exists>a. r = Ok a \<and> f a = Ok b)"
  by (cases r) auto

lemma ok_or_Ok_iff: "ok_or x e = Ok a \<longleftrightarrow> x = Some a"
  by (cases x) auto

lemma is_ok_iff: "is_ok r \<longleftrightarrow> (\<exists>a. r = Ok a)"
  by (cases r) auto

lemmas result_iffs = and_then_Ok_iff ok_or_Ok_iff map_err_Ok_iff is_ok_iff

subsection \<open>Big-endian encodings\<close>

text \<open>\<open>nat_be k n\<close> is the \<open>k\<close> low bytes of \<open>n\<close>, most significant first.\<close>

fun nat_be :: "nat \<Rightarrow> nat \<Rightarrow> byte list" where
  "nat_be 0 n = []"
| "nat_be (Suc k) n = nat_be k (n div 256) @ [of_nat (n mod 256)]"

definition nat_of_be :: "byte list \<Rightarrow> nat" where
  "nat_of_be bs = foldl (\<lambda>a b. 256 * a + unat b) 0 bs"

definition u32_to_be_bytes :: "u32 \<Rightarrow> byte list" where
  "u32_to_be_bytes n = nat_be 4 (unat n)"

definition u32_from_be_bytes :: "byte list \<Rightarrow> u32" where
  "u32_from_be_bytes bs = of_nat (nat_of_be bs)"

definition u64_to_be_bytes :: "u64 \<Rightarrow> byte list" where
  "u64_to_be_bytes n = nat_be 8 (unat n)"

lemma u32_bound: "unat (n :: u32) < 256 ^ 4"
proof -
  have "unat n < 2 ^ LENGTH(32)" by (rule unsigned_less)
  then show ?thesis by simp
qed

lemma u64_bound: "unat (n :: u64) < 256 ^ 8"
proof -
  have "unat n < 2 ^ LENGTH(64)" by (rule unsigned_less)
  then show ?thesis by simp
qed

lemma length_nat_be [simp]: "length (nat_be k n) = k"
  by (induction k arbitrary: n) auto

lemma nat_of_be_snoc [simp]: "nat_of_be (bs @ [b]) = 256 * nat_of_be bs + unat b"
  by (simp add: nat_of_be_def)

lemma unat_byte_of_mod [simp]: "unat (of_nat (n mod 256) :: byte) = n mod 256"
  by (simp add: unat_of_nat)

lemma nat_of_be_nat_be [codec_simps]: "nat_of_be (nat_be k n) = n mod 256 ^ k"
proof (induction k arbitrary: n)
  case 0
  then show ?case by (simp add: nat_of_be_def)
next
  case (Suc k)
  have "256 * (n div 256 mod 256 ^ k) + n mod 256 = n mod (256 * 256 ^ k)"
    by (simp add: mod_mult2_eq)
  with Suc show ?case by simp
qed

lemma nat_be_inj: "nat_be k m = nat_be k n \<Longrightarrow> m < 256 ^ k \<Longrightarrow> n < 256 ^ k \<Longrightarrow> m = n"
  by (metis mod_less nat_of_be_nat_be)

lemma u32_bytes_roundtrip [simp, codec_simps]:
  "u32_from_be_bytes (u32_to_be_bytes n) = n"
proof -
  have "unat n < 256 ^ 4" by (rule u32_bound)
  then show ?thesis
    by (simp add: u32_from_be_bytes_def u32_to_be_bytes_def nat_of_be_nat_be)
qed

lemma length_u32_to_be_bytes [simp]: "length (u32_to_be_bytes n) = 4"
  by (simp add: u32_to_be_bytes_def)

lemma length_u64_to_be_bytes [simp]: "length (u64_to_be_bytes n) = 8"
  by (simp add: u64_to_be_bytes_def)

lemma u64_to_be_bytes_inj [simp]: "u64_to_be_bytes m = u64_to_be_bytes n \<longleftrightarrow> m = n"
proof
  assume "u64_to_be_bytes m = u64_to_be_bytes n"
  moreover have "unat m < 256 ^ 8" "unat n < 256 ^ 8" by (rule u64_bound)+
  ultimately show "m = n"
    unfolding u64_to_be_bytes_def by (metis nat_be_inj word_unat_eq_iff)
qed simp

lemma u32_to_be_bytes_inj [simp]: "u32_to_be_bytes m = u32_to_be_bytes n \<longleftrightarrow> m = n"
  by (metis u32_bytes_roundtrip)

subsection \<open>Length-prefixed fields\<close>

text \<open>
  Rust's \<open>field.len() as u32\<close> truncates to 32 bits; \<open>of_nat\<close> into \<^typ>\<open>u32\<close> does the
  same.  A concatenation of prefixed fields determines the fields as long as every length
  fits.
\<close>

definition prefixed :: "byte list \<Rightarrow> byte list" where
  "prefixed field = u32_to_be_bytes (of_nat (length field)) @ field"

lemma length_prefixed [simp]: "length (prefixed f) = 4 + length f"
  by (simp add: prefixed_def)

lemma prefixed_append_inject:
  assumes eq: "prefixed a @ xs = prefixed b @ ys"
    and a: "length a < 2 ^ 32" and b: "length b < 2 ^ 32"
  shows "a = b \<and> xs = ys"
proof -
  have "u32_to_be_bytes (of_nat (length a)) = u32_to_be_bytes (of_nat (length b))"
    and rest: "a @ xs = b @ ys"
    using eq by (simp_all add: prefixed_def)
  then have "(of_nat (length a) :: u32) = of_nat (length b)" by simp
  then have "unat (of_nat (length a) :: u32) = unat (of_nat (length b) :: u32)" by simp
  then have "length a = length b"
    using a b by (simp add: unat_of_nat)
  with rest show ?thesis by simp
qed

lemma concat_prefixed_inject:
  assumes "concat (map prefixed fs) = concat (map prefixed gs)"
    and "length fs = length gs"
    and "\<forall>f \<in> set fs. length f < 2 ^ 32" and "\<forall>g \<in> set gs. length g < 2 ^ 32"
  shows "fs = gs"
  using assms(2,1,3,4)
proof (induction fs gs rule: list_induct2)
  case Nil
  then show ?case by simp
next
  case (Cons f fs g gs)
  then have "f = g \<and> concat (map prefixed fs) = concat (map prefixed gs)"
    using prefixed_append_inject [of f "concat (map prefixed fs)" g "concat (map prefixed gs)"]
    by simp
  with Cons show ?case by simp
qed

subsection \<open>Strings as bytes\<close>

text \<open>
  A Rust string is its UTF-8 bytes; here a \<^typ>\<open>string\<close> is the list of those bytes as
  \<^typ>\<open>char\<close>, so length and order agree with the source (both compare bytewise).
\<close>

definition as_bytes :: "string \<Rightarrow> byte list" where
  "as_bytes s = map (\<lambda>c. of_nat (of_char c)) s"

lemma length_as_bytes [simp]: "length (as_bytes s) = length s"
  by (simp add: as_bytes_def)

lemma byte_of_char_inj: "(of_nat (of_char c) :: byte) = of_nat (of_char d) \<Longrightarrow> c = d"
proof -
  assume h: "(of_nat (of_char c) :: byte) = of_nat (of_char d)"
  have "unat (of_nat (of_char c) :: byte) = (of_char c :: nat)" for c
    using nat_of_char_less_256 [of c] by (simp add: unat_of_nat)
  with h have "(of_char c :: nat) = of_char d" by metis
  then show "c = d" by simp
qed

lemma as_bytes_inj [simp]: "as_bytes s = as_bytes t \<longleftrightarrow> s = t"
proof
  assume "as_bytes s = as_bytes t"
  then show "s = t"
    unfolding as_bytes_def
    by (rule map_injective) (auto intro!: injI dest: byte_of_char_inj)
qed simp

subsection \<open>Ordered association lists\<close>

text \<open>
  A \<^verbatim>\<open>BTreeMap\<close> is its list of entries in key order.  \<open>entry_update k d f m\<close> is
  \<^verbatim>\<open>m.entry(k).or_insert(d)\<close> followed by \<open>f\<close> on the slot.
\<close>

fun entry_update :: "'k::linorder \<Rightarrow> 'v \<Rightarrow> ('v \<Rightarrow> 'v) \<Rightarrow> ('k \<times> 'v) list \<Rightarrow> ('k \<times> 'v) list" where
  "entry_update k d f [] = [(k, f d)]"
| "entry_update k d f ((a, v) # m) =
     (if k < a then (k, f d) # (a, v) # m
      else if k = a then (a, f v) # m
      else (a, v) # entry_update k d f m)"

definition keys_sorted :: "('k::linorder \<times> 'v) list \<Rightarrow> bool" where
  "keys_sorted m \<longleftrightarrow> sorted_wrt (<) (map fst m)"

lemma keys_sorted_Nil [simp]: "keys_sorted []"
  by (simp add: keys_sorted_def)

lemma keys_entry_update: "fst ` set (entry_update k d f m) = insert k (fst ` set m)"
  by (induction k d f m rule: entry_update.induct) auto

lemma keys_sorted_entry_update:
  "keys_sorted m \<Longrightarrow> keys_sorted (entry_update k d f m)"
proof (induction k d f m rule: entry_update.induct)
  case (2 k d f a v m)
  have "x \<in> insert k (fst ` set m)" if "x \<in> fst ` set (entry_update k d f m)" for x
    using that by (simp add: keys_entry_update)
  with 2 show ?case
    by (fastforce simp: keys_sorted_def)
qed (simp add: keys_sorted_def)

lemma map_of_entry_update:
  "keys_sorted m \<Longrightarrow>
   map_of (entry_update k d f m) =
   (map_of m)(k \<mapsto> f (case map_of m k of None \<Rightarrow> d | Some v \<Rightarrow> v))"
proof (induction k d f m rule: entry_update.induct)
  case (2 k d f a v m)
  have none: "map_of m k = None" if "k < a"
    using 2(2) that by (auto simp: keys_sorted_def map_of_eq_None_iff)
  have "keys_sorted m" using 2(2) by (simp add: keys_sorted_def)
  then show ?case
    using 2(1) none by (auto simp: fun_eq_iff)
qed (simp add: fun_eq_iff)

lemma keys_sorted_distinct: "keys_sorted m \<Longrightarrow> distinct (map fst m)"
  by (simp add: keys_sorted_def strict_sorted_iff)

end
