(* ===== verification/Crypto_Api.thy ===== *)
theory Crypto_Api
  imports Prelude
begin

text \<open>
  The third-party primitives the program calls, as a record of functions that the models
  take as an argument: \<^verbatim>\<open>hex\<close>, \<^verbatim>\<open>sha2\<close> and \<^verbatim>\<open>ed25519-dalek\<close>.  What the code relies on is
  named here and appears as a hypothesis of the theorems that need it.  A small concrete
  instance shows that the hypotheses can hold together.
\<close>

record 'sk crypto =
  hex_encode :: "byte list \<Rightarrow> string"
  hex_decode :: "string \<Rightarrow> byte list option"
  sha256 :: "byte list \<Rightarrow> byte list"
  ed_sign :: "'sk \<Rightarrow> byte list \<Rightarrow> byte list"
  ed_public :: "'sk \<Rightarrow> byte list"
  ed_key_ok :: "byte list \<Rightarrow> bool"
  ed_verify :: "byte list \<Rightarrow> byte list \<Rightarrow> byte list \<Rightarrow> bool"

text \<open>Hex encodes two characters a byte and decodes what it encoded.\<close>

definition hex_law :: "'sk crypto \<Rightarrow> bool" where
  "hex_law c \<longleftrightarrow> (\<forall>bs. hex_decode c (hex_encode c bs) = Some bs \<and>
                      length (hex_encode c bs) = 2 * length bs)"

text \<open>Public keys are 32 valid bytes, signatures 64, and a signature verifies under its key.\<close>

definition sign_law :: "'sk crypto \<Rightarrow> bool" where
  "sign_law c \<longleftrightarrow> (\<forall>k m. length (ed_public c k) = 32 \<and> ed_key_ok c (ed_public c k) \<and>
                        length (ed_sign c k m) = 64 \<and> ed_verify c (ed_public c k) m (ed_sign c k m))"

text \<open>Unforgeability of one key: only messages its holder signed verify under it.\<close>

definition unforgeable :: "'sk crypto \<Rightarrow> byte list \<Rightarrow> byte list set \<Rightarrow> bool" where
  "unforgeable c pk msgs \<longleftrightarrow> (\<forall>m s. ed_verify c pk m s \<longrightarrow> m \<in> msgs)"

subsection \<open>Checking a hex-encoded signature\<close>

text \<open>
  The sequence of conversions shared by \<^verbatim>\<open>verify_frame\<close>, \<^verbatim>\<open>verify_signature\<close> and the
  handshake: decode the key, require 32 bytes, parse it, decode the signature, require 64
  bytes, verify.
\<close>

datatype sig_error = SigBadKey | SigBadSignature

definition parse_public_key :: "'sk crypto \<Rightarrow> string \<Rightarrow> byte list option" where
  "parse_public_key c pk_hex = (case hex_decode c pk_hex of
       None \<Rightarrow> None
     | Some pk \<Rightarrow> if length pk = 32 \<and> ed_key_ok c pk then Some pk else None)"

definition verify_hex :: "'sk crypto \<Rightarrow> string \<Rightarrow> byte list \<Rightarrow> string \<Rightarrow> (sig_error, unit) result" where
  "verify_hex c pk_hex msg sig_hex =
     and_then (ok_or (parse_public_key c pk_hex) SigBadKey) (\<lambda>pk.
     and_then (ok_or (hex_decode c sig_hex) SigBadSignature) (\<lambda>sg.
       if length sg \<noteq> 64 then Err SigBadSignature
       else if ed_verify c pk msg sg then Ok () else Err SigBadSignature))"

lemma parse_public_key_Some:
  "parse_public_key c h = Some pk \<longleftrightarrow> hex_decode c h = Some pk \<and> length pk = 32 \<and> ed_key_ok c pk"
  by (auto simp: parse_public_key_def split: option.splits)

lemma verify_hex_Ok:
  "verify_hex c pk_hex msg sig_hex = Ok () \<longleftrightarrow>
   (\<exists>pk sg. parse_public_key c pk_hex = Some pk \<and> hex_decode c sig_hex = Some sg \<and>
            length sg = 64 \<and> ed_verify c pk msg sg)"
  by (auto simp: verify_hex_def and_then_def ok_or_def split: option.splits)

lemma verify_hex_signed:
  assumes "hex_law c" and "sign_law c"
  shows "verify_hex c (hex_encode c (ed_public c k)) m (hex_encode c (ed_sign c k m)) = Ok ()"
  using assms by (auto simp: verify_hex_Ok parse_public_key_Some hex_law_def sign_law_def)

lemma verify_hex_unforgeable:
  assumes "verify_hex c pk_hex m sig_hex = Ok ()" and "hex_decode c pk_hex = Some pk"
    and "unforgeable c pk msgs"
  shows "m \<in> msgs"
  using assms by (auto simp: verify_hex_Ok parse_public_key_Some unforgeable_def)

subsection \<open>A concrete instance\<close>

definition hex_digit :: "nat \<Rightarrow> char" where
  "hex_digit n = (if n < 10 then char_of (48 + n) else char_of (87 + n))"

definition hex_value :: "char \<Rightarrow> nat option" where
  "hex_value ch = (let n = of_char ch in
     if 48 \<le> n \<and> n < 58 then Some (n - 48)
     else if 97 \<le> n \<and> n < 103 then Some (n - 87)
     else if 65 \<le> n \<and> n < 71 then Some (n - 55) else None)"

fun hex_of :: "byte list \<Rightarrow> string" where
  "hex_of [] = []"
| "hex_of (b # bs) = hex_digit (unat b div 16) # hex_digit (unat b mod 16) # hex_of bs"

fun of_hex :: "string \<Rightarrow> byte list option" where
  "of_hex [] = Some []"
| "of_hex [_] = None"
| "of_hex (a # b # s) = (case (hex_value a, hex_value b, of_hex s) of
     (Some h, Some l, Some bs) \<Rightarrow> Some (of_nat (16 * h + l) # bs) | _ \<Rightarrow> None)"

definition demo_crypto :: "byte crypto" where
  "demo_crypto = \<lparr> hex_encode = hex_of, hex_decode = of_hex,
     sha256 = (\<lambda>bs. take 32 (bs @ replicate 32 0)),
     ed_sign = (\<lambda>k m. replicate 64 k), ed_public = (\<lambda>k. replicate 32 k),
     ed_key_ok = (\<lambda>pk. True), ed_verify = (\<lambda>pk m s. pk \<noteq> [] \<and> s = replicate 64 (hd pk)) \<rparr>"

lemma hex_value_digit: "n < 16 \<Longrightarrow> hex_value (hex_digit n) = Some n"
  by (auto simp: hex_value_def hex_digit_def Let_def)

lemma of_hex_hex_of [simp]: "of_hex (hex_of bs) = Some bs"
proof (induction bs)
  case (Cons b bs)
  have "unat b < 256" using unsigned_less [of b] by simp
  then show ?case using Cons by (simp add: hex_value_digit)
qed simp

lemma length_hex_of [simp]: "length (hex_of bs) = 2 * length bs"
  by (induction bs) auto

lemma demo_hex_law: "hex_law demo_crypto"
  by (simp add: hex_law_def demo_crypto_def)

lemma demo_sign_law: "sign_law demo_crypto"
  by (simp add: sign_law_def demo_crypto_def)

end
