(* ===== verification/Files.thy ===== *)
theory Files
  imports Prelude
begin

text \<open>
  The part of \<^verbatim>\<open>std::fs\<close> and \<^verbatim>\<open>std::path\<close> the program uses.  A path is its list of
  components below the root.  The file system is a map from paths to contents; every
  operation consults a fault oracle, so the theorems hold for every pattern of I/O errors.
  A failed write leaves whatever the oracle says at the path it was writing (a truncated or
  partial file), or the old content.
\<close>

type_synonym path = "string list"

datatype io_kind = NotFound | PermissionDenied | AlreadyExists | UnexpectedEof | TimedOut | OtherIo

datatype fs_op =
    Op_Read path
  | Op_Write path
  | Op_Rename path path
  | Op_Mkdir path
  | Op_Remove path
  | Op_Create path
  | Op_Sync path

type_synonym fs = "path \<Rightarrow> string option"

text \<open>\<open>None\<close>: the operation succeeds; \<open>Some (e, left)\<close>: it fails with \<open>e\<close>, and a failed write
  leaves \<open>left\<close> at its path.\<close>

type_synonym faults = "fs_op \<Rightarrow> (io_kind \<times> string option) option"

definition no_faults :: faults where
  "no_faults op = None"

definition fs_read :: "faults \<Rightarrow> fs \<Rightarrow> path \<Rightarrow> (io_kind, string) result" where
  "fs_read fl m p = (case fl (Op_Read p) of
       Some (e, _) \<Rightarrow> Err e
     | None \<Rightarrow> ok_or (m p) NotFound)"

definition fs_write :: "faults \<Rightarrow> fs \<Rightarrow> path \<Rightarrow> string \<Rightarrow> fs \<times> (io_kind, unit) result" where
  "fs_write fl m p body = (case fl (Op_Write p) of
       Some (e, left) \<Rightarrow> (m(p := left), Err e)
     | None \<Rightarrow> (m(p \<mapsto> body), Ok ()))"

text \<open>Rename replaces the destination in one step, or changes nothing.\<close>

definition fs_rename :: "faults \<Rightarrow> fs \<Rightarrow> path \<Rightarrow> path \<Rightarrow> fs \<times> (io_kind, unit) result" where
  "fs_rename fl m p q = (case fl (Op_Rename p q) of
       Some (e, _) \<Rightarrow> (m, Err e)
     | None \<Rightarrow> (case m p of
           None \<Rightarrow> (m, Err NotFound)
         | Some body \<Rightarrow> ((m(p := None))(q \<mapsto> body), Ok ())))"

definition fs_mkdir :: "faults \<Rightarrow> path \<Rightarrow> (io_kind, unit) result" where
  "fs_mkdir fl p = (case fl (Op_Mkdir p) of Some (e, _) \<Rightarrow> Err e | None \<Rightarrow> Ok ())"

definition fs_remove :: "faults \<Rightarrow> fs \<Rightarrow> path \<Rightarrow> fs \<times> (io_kind, unit) result" where
  "fs_remove fl m p = (case fl (Op_Remove p) of
       Some (e, _) \<Rightarrow> (m, Err e)
     | None \<Rightarrow> (case m p of None \<Rightarrow> (m, Err NotFound) | Some _ \<Rightarrow> (m(p := None), Ok ())))"

text \<open>\<open>create_new\<close> refuses an existing file; \<open>sync_all\<close> changes nothing a reader sees.\<close>

definition fs_create_new :: "faults \<Rightarrow> fs \<Rightarrow> path \<Rightarrow> fs \<times> (io_kind, unit) result" where
  "fs_create_new fl m p = (case fl (Op_Create p) of
       Some (e, _) \<Rightarrow> (m, Err e)
     | None \<Rightarrow> if m p = None then (m(p \<mapsto> []), Ok ()) else (m, Err AlreadyExists))"

definition fs_sync :: "faults \<Rightarrow> path \<Rightarrow> (io_kind, unit) result" where
  "fs_sync fl p = (case fl (Op_Sync p) of Some (e, _) \<Rightarrow> Err e | None \<Rightarrow> Ok ())"

definition parent :: "path \<Rightarrow> path option" where
  "parent p = (if p = [] then None else Some (butlast p))"

text \<open>The file stem: up to the last dot, unless that dot starts the name.\<close>

definition file_stem :: "string \<Rightarrow> string" where
  "file_stem f =
     (let s = rev (drop 1 (dropWhile (\<lambda>c. c \<noteq> CHR ''.'') (rev f)))
      in if CHR ''.'' \<in> set f \<and> s \<noteq> [] then s else f)"

definition with_extension :: "path \<Rightarrow> string \<Rightarrow> path" where
  "with_extension p ext =
     (if p = [] then p else butlast p @ [file_stem (last p) @ CHR ''.'' # ext])"

definition to_string_lossy :: "path \<Rightarrow> string" where
  "to_string_lossy p = (if p = [] then ''/'' else concat (map (\<lambda>c. CHR ''/'' # c) p))"

text \<open>
  Writing a sibling and renaming it over the target: the idiom shared by
  \<^verbatim>\<open>Config::save\<close> and \<^verbatim>\<open>VersionedConfig::save_sidecar\<close>.  The error carries the path the
  code reports.
\<close>

definition write_via_tmp ::
  "faults \<Rightarrow> fs \<Rightarrow> path \<Rightarrow> path \<Rightarrow> string \<Rightarrow> fs \<times> (path \<times> io_kind, unit) result" where
  "write_via_tmp fl m tmp p body =
     (case (case parent p of
              Some d \<Rightarrow> (case fs_mkdir fl d of Inl e \<Rightarrow> Err (d, e) | Inr _ \<Rightarrow> Ok ())
            | None \<Rightarrow> Ok ()) of
        Inl e \<Rightarrow> (m, Err e)
      | Inr _ \<Rightarrow>
        (case fs_write fl m tmp body of
           (m1, Inl e) \<Rightarrow> (m1, Err (tmp, e))
         | (m1, Inr _) \<Rightarrow>
           (case fs_rename fl m1 tmp p of
              (m2, Inl e) \<Rightarrow> (m2, Err (p, e))
            | (m2, Inr _) \<Rightarrow> (m2, Ok ()))))"

lemma write_via_tmp_atomic:
  assumes "tmp \<noteq> p" and "write_via_tmp fl m tmp p body = (m', r)"
  shows "m' p = (if is_ok r then Some body else m p)"
    and "q \<noteq> tmp \<Longrightarrow> q \<noteq> p \<Longrightarrow> m' q = m q"
proof -
  show "m' p = (if is_ok r then Some body else m p)"
    using assms
    by (auto simp: write_via_tmp_def fs_write_def fs_rename_def
        split: option.splits sum.splits prod.splits)
  show "m' q = m q" if "q \<noteq> tmp" "q \<noteq> p"
    using assms that
    by (auto simp: write_via_tmp_def fs_write_def fs_rename_def
        split: option.splits sum.splits prod.splits)
qed

lemma write_via_tmp_no_faults:
  "write_via_tmp no_faults m tmp p body = ((m(tmp := None))(p \<mapsto> body), Ok ())"
  by (auto simp: write_via_tmp_def fs_write_def fs_rename_def fs_mkdir_def no_faults_def
      split: option.splits)

lemma fs_read_no_faults [simp]: "fs_read no_faults m p = ok_or (m p) NotFound"
  by (simp add: fs_read_def no_faults_def)

lemma with_extension_neq:
  assumes "p \<noteq> []" and "last p \<noteq> file_stem (last p) @ CHR ''.'' # ext"
  shows "with_extension p ext \<noteq> p"
proof
  assume "with_extension p ext = p"
  then have "last p = file_stem (last p) @ CHR ''.'' # ext"
    using assms(1) by (metis with_extension_def last_snoc)
  with assms(2) show False by contradiction
qed

end
