(* ===== verification/Cipher.thy ===== *)
theory Cipher
  imports Crypto_Api Files
begin

text \<open>
  The encrypted framing of a peer connection (\<^verbatim>\<open>crates/synbad-crypto/src/cipher.rs\<close>).  The
  AEAD is a parameter.  The TCP stream is what a reader can observe of it: a sequence of
  chunks still to be read, possibly ended by a close or an error.  When nothing has arrived
  the read future is pending, and it may be dropped there: \<open>Blocked\<close> returns the reader as
  the cancelled future leaves it.  Contract: what the reader delivers depends only on the bytes
  of the stream, not on how they are cut into chunks nor on how often a read is cancelled.
\<close>

subsection \<open>Framing\<close>

type_synonym aead_key = "byte list"

record aead =
  aead_encrypt :: "aead_key \<Rightarrow> byte list \<Rightarrow> byte list \<Rightarrow> byte list option"
  aead_decrypt :: "aead_key \<Rightarrow> byte list \<Rightarrow> byte list \<Rightarrow> byte list option"

definition MAX_FRAME_BYTES :: nat where
  "MAX_FRAME_BYTES = 256 * 1024"

datatype frame_error = FeIo io_kind | FeOversize nat | FeBadCiphertext | FeEncryptFailed | FeNonceExhaustion

record pending_frame =
  pf_header :: "byte list"
  pf_header_read :: nat
  pf_body :: "byte list"
  pf_body_read :: nat

definition pending_frame_default :: pending_frame where
  "pending_frame_default =
     \<lparr> pf_header = replicate 4 0, pf_header_read = 0, pf_body = [], pf_body_read = 0 \<rparr>"

record cipher_stream =
  cs_send_key :: aead_key
  cs_recv_key :: aead_key
  cs_send_prefix :: "byte list"
  cs_recv_prefix :: "byte list"
  cs_send_counter :: u64
  cs_recv_counter :: u64
  cs_recv_frame :: pending_frame
  cs_transcript :: "byte list"

definition cipher_stream_new ::
  "aead_key \<Rightarrow> aead_key \<Rightarrow> byte list \<Rightarrow> byte list \<Rightarrow> cipher_stream" where
  "cipher_stream_new send_key recv_key send_prefix recv_prefix =
     \<lparr> cs_send_key = send_key, cs_recv_key = recv_key,
       cs_send_prefix = send_prefix, cs_recv_prefix = recv_prefix,
       cs_send_counter = 0, cs_recv_counter = 0,
       cs_recv_frame = pending_frame_default, cs_transcript = replicate 32 0 \<rparr>"

definition transcript_hash :: "cipher_stream \<Rightarrow> byte list" where
  "transcript_hash s = cs_transcript s"

definition build_nonce :: "byte list \<Rightarrow> u64 \<Rightarrow> byte list" where
  "build_nonce prefix counter = prefix @ u64_to_be_bytes counter"

definition checked_add1 :: "u64 \<Rightarrow> u64 option" where
  "checked_add1 n = (if n = - 1 then None else Some (n + 1))"

text \<open>
  The three awaits of a send (length, ciphertext, flush) either all succeed or stop after
  some bytes with an error; the oracle says which.
\<close>

datatype write_result = WroteAll | WroteSome nat io_kind

definition write_frame :: "write_result \<Rightarrow> byte list \<Rightarrow> byte list \<times> (frame_error, unit) result" where
  "write_frame w bytes = (case w of
       WroteAll \<Rightarrow> (bytes, Ok ())
     | WroteSome n e \<Rightarrow> (take n bytes, Err (FeIo e)))"

definition stream_send ::
  "aead \<Rightarrow> cipher_stream \<Rightarrow> byte list \<Rightarrow> write_result \<Rightarrow>
   byte list \<times> cipher_stream \<times> (frame_error, unit) result" where
  "stream_send a s payload w =
     (if length payload > MAX_FRAME_BYTES then ([], s, Err (FeOversize (length payload)))
      else let nonce = build_nonce (cs_send_prefix s) (cs_send_counter s) in
        case aead_encrypt a (cs_send_key s) nonce payload of
          None \<Rightarrow> ([], s, Err FeEncryptFailed)
        | Some ct \<Rightarrow>
            let len_be = u32_to_be_bytes (of_nat (length ct)) in
            (case write_frame w (len_be @ ct) of
               (out, Inl e) \<Rightarrow> (out, s, Err e)
             | (out, Inr _) \<Rightarrow>
                 (case checked_add1 (cs_send_counter s) of
                    None \<Rightarrow> (out, s, Err FeNonceExhaustion)
                  | Some n \<Rightarrow> (out, s\<lparr> cs_send_counter := n \<rparr>, Ok ()))))"

subsection \<open>Reading a frame\<close>

datatype rx = Data "byte list" | Closed | Failed io_kind

datatype 'a poll = Blocked | Ready 'a

definition fill_at :: "byte list \<Rightarrow> nat \<Rightarrow> byte list \<Rightarrow> byte list" where
  "fill_at buf pos bytes = take pos buf @ bytes @ drop (pos + length bytes) buf"

lemma length_fill_at [simp]: "pos + length bytes \<le> length buf \<Longrightarrow> length (fill_at buf pos bytes) = length buf"
  by (simp add: fill_at_def)

text \<open>
  One of the two loops of \<^verbatim>\<open>PendingFrame::read\<close>: read into the unfilled part of the buffer
  until it is full.  A read takes at most one chunk and at most the space left.
\<close>

function read_loop ::
  "byte list \<Rightarrow> nat \<Rightarrow> rx list \<Rightarrow> byte list \<times> nat \<times> rx list \<times> (frame_error, unit) result poll" where
  "read_loop buf pos inb =
     (if pos < length buf then
        (case inb of
           [] \<Rightarrow> (buf, pos, [], Blocked)
         | Closed # _ \<Rightarrow> (buf, pos, inb, Ready (Err (FeIo UnexpectedEof)))
         | Failed e # rest \<Rightarrow> (buf, pos, rest, Ready (Err (FeIo e)))
         | Data chunk # rest \<Rightarrow>
             if chunk = [] then read_loop buf pos rest
             else let n = min (length chunk) (length buf - pos) in
               read_loop (fill_at buf pos (take n chunk)) (pos + n)
                 (if n < length chunk then Data (drop n chunk) # rest else rest))
      else (buf, pos, inb, Ready (Ok ())))"
  by auto
termination
  by (relation "measure (\<lambda>(buf, pos, inb). length buf - pos + length inb)")
     (auto simp: Let_def)

declare read_loop.simps [simp del]

text \<open>The second half of \<open>read\<close>: size the body once the header is complete, fill it, reset.\<close>

definition frame_len :: "pending_frame \<Rightarrow> nat" where
  "frame_len pf = unat (u32_from_be_bytes (pf_header pf))"

definition len_in_range :: "nat \<Rightarrow> bool" where
  "len_in_range len \<longleftrightarrow> 16 \<le> len \<and> len \<le> MAX_FRAME_BYTES + 16"

definition sized_body :: "pending_frame \<Rightarrow> byte list" where
  "sized_body pf = (if pf_body pf = [] then replicate (frame_len pf) 0 else pf_body pf)"

definition pending_body ::
  "pending_frame \<Rightarrow> rx list \<Rightarrow> pending_frame \<times> rx list \<times> (frame_error, byte list) result poll" where
  "pending_body pf inb =
     (if pf_body pf = [] \<and> \<not> len_in_range (frame_len pf)
      then (pf, inb, Ready (Err (FeOversize (frame_len pf))))
      else
        (case read_loop (sized_body pf) (pf_body_read pf) inb of
           (b, br, inb', Blocked) \<Rightarrow> (pf\<lparr> pf_body := b, pf_body_read := br \<rparr>, inb', Blocked)
         | (b, br, inb', Ready (Inl e)) \<Rightarrow>
             (pf\<lparr> pf_body := b, pf_body_read := br \<rparr>, inb', Ready (Err e))
         | (b, br, inb', Ready (Inr _)) \<Rightarrow>
             (pf\<lparr> pf_header_read := 0, pf_body_read := 0, pf_body := [] \<rparr>, inb', Ready (Ok b))))"

definition pending_read ::
  "pending_frame \<Rightarrow> rx list \<Rightarrow> pending_frame \<times> rx list \<times> (frame_error, byte list) result poll" where
  "pending_read pf inb =
     (case read_loop (pf_header pf) (pf_header_read pf) inb of
        (h, hr, inb', Blocked) \<Rightarrow> (pf\<lparr> pf_header := h, pf_header_read := hr \<rparr>, inb', Blocked)
      | (h, hr, inb', Ready (Inl e)) \<Rightarrow>
          (pf\<lparr> pf_header := h, pf_header_read := hr \<rparr>, inb', Ready (Err e))
      | (h, hr, inb', Ready (Inr _)) \<Rightarrow>
          pending_body (pf\<lparr> pf_header := h, pf_header_read := hr \<rparr>) inb')"

definition stream_recv ::
  "aead \<Rightarrow> cipher_stream \<Rightarrow> rx list \<Rightarrow>
   cipher_stream \<times> rx list \<times> (frame_error, byte list) result poll" where
  "stream_recv a s inb =
     (case pending_read (cs_recv_frame s) inb of
        (pf, inb1, res) \<Rightarrow>
        let s1 = s\<lparr> cs_recv_frame := pf \<rparr> in
        (case res of
           Blocked \<Rightarrow> (s1, inb1, Blocked)
         | Ready (Inl e) \<Rightarrow> (s1, inb1, Ready (Err e))
         | Ready (Inr ct) \<Rightarrow>
             let nonce = build_nonce (cs_recv_prefix s) (cs_recv_counter s) in
             (case aead_decrypt a (cs_recv_key s) nonce ct of
                None \<Rightarrow> (s1, inb1, Ready (Err FeBadCiphertext))
              | Some pt \<Rightarrow>
                  (case checked_add1 (cs_recv_counter s) of
                     None \<Rightarrow> (s1, inb1, Ready (Err FeNonceExhaustion))
                   | Some n \<Rightarrow> (s1\<lparr> cs_recv_counter := n \<rparr>, inb1, Ready (Ok pt))))))"

subsection \<open>The split halves\<close>

record cipher_reader =
  cr_frame :: pending_frame
  cr_key :: aead_key
  cr_prefix :: "byte list"
  cr_counter :: u64

record cipher_writer =
  cw_key :: aead_key
  cw_prefix :: "byte list"
  cw_counter :: u64

definition split_stream :: "cipher_stream \<Rightarrow> cipher_reader \<times> cipher_writer" where
  "split_stream s =
     (\<lparr> cr_frame = cs_recv_frame s, cr_key = cs_recv_key s, cr_prefix = cs_recv_prefix s,
        cr_counter = cs_recv_counter s \<rparr>,
      \<lparr> cw_key = cs_send_key s, cw_prefix = cs_send_prefix s, cw_counter = cs_send_counter s \<rparr>)"

definition reader_recv ::
  "aead \<Rightarrow> cipher_reader \<Rightarrow> rx list \<Rightarrow>
   cipher_reader \<times> rx list \<times> (frame_error, byte list) result poll" where
  "reader_recv a r inb =
     (case pending_read (cr_frame r) inb of
        (pf, inb1, res) \<Rightarrow>
        let r1 = r\<lparr> cr_frame := pf \<rparr> in
        (case res of
           Blocked \<Rightarrow> (r1, inb1, Blocked)
         | Ready (Inl e) \<Rightarrow> (r1, inb1, Ready (Err e))
         | Ready (Inr ct) \<Rightarrow>
             let nonce = build_nonce (cr_prefix r) (cr_counter r) in
             (case aead_decrypt a (cr_key r) nonce ct of
                None \<Rightarrow> (r1, inb1, Ready (Err FeBadCiphertext))
              | Some pt \<Rightarrow>
                  (case checked_add1 (cr_counter r) of
                     None \<Rightarrow> (r1, inb1, Ready (Err FeNonceExhaustion))
                   | Some n \<Rightarrow> (r1\<lparr> cr_counter := n \<rparr>, inb1, Ready (Ok pt))))))"

definition writer_send ::
  "aead \<Rightarrow> cipher_writer \<Rightarrow> byte list \<Rightarrow> write_result \<Rightarrow>
   byte list \<times> cipher_writer \<times> (frame_error, unit) result" where
  "writer_send a s payload w =
     (if length payload > MAX_FRAME_BYTES then ([], s, Err (FeOversize (length payload)))
      else let nonce = build_nonce (cw_prefix s) (cw_counter s) in
        case aead_encrypt a (cw_key s) nonce payload of
          None \<Rightarrow> ([], s, Err FeEncryptFailed)
        | Some ct \<Rightarrow>
            let len_be = u32_to_be_bytes (of_nat (length ct)) in
            (case write_frame w (len_be @ ct) of
               (out, Inl e) \<Rightarrow> (out, s, Err e)
             | (out, Inr _) \<Rightarrow>
                 (case checked_add1 (cw_counter s) of
                    None \<Rightarrow> (out, s, Err FeNonceExhaustion)
                  | Some n \<Rightarrow> (out, s\<lparr> cw_counter := n \<rparr>, Ok ()))))"

subsection \<open>Interface: a cancellation-safe reader\<close>

text \<open>
  What a caller that races a read against timers relies on.  A read that blocks has taken all
  input into the reader, and reading on from there is the same as if the input had arrived
  together; a read that completes leaves later input alone.
\<close>

locale cancel_safe =
  fixes poll :: "'s \<Rightarrow> 'i list \<Rightarrow> 's \<times> 'i list \<times> 'r poll"
  assumes resume: "poll s i = (s', i', Blocked) \<Longrightarrow> i' = [] \<and> poll s' j = poll s (i @ j)"
    and extend: "poll s i = (s', i', Ready r) \<Longrightarrow> poll s (i @ j) = (s', i' @ j, Ready r)"
begin

text \<open>\<open>polls n\<close>: read up to \<open>n\<close> times, stopping when nothing more is there.\<close>

primrec polls :: "nat \<Rightarrow> 's \<Rightarrow> 'i list \<Rightarrow> 'r list" where
  "polls 0 s i = []"
| "polls (Suc n) s i = (case poll s i of
     (s', i', Ready r) \<Rightarrow> r # polls n s' i' | (_, _, Blocked) \<Rightarrow> [])"

text \<open>A schedule interleaves arrivals (\<open>Some\<close>) with reads (\<open>None\<close>) that are cancelled if they block.\<close>

primrec run :: "'i list option list \<Rightarrow> 's \<Rightarrow> 'i list \<Rightarrow> 'r list" where
  "run [] s i = []"
| "run (e # es) s i = (case e of
     Some c \<Rightarrow> run es s (i @ c)
   | None \<Rightarrow> (case poll s i of
       (s', i', Ready r) \<Rightarrow> r # run es s' i' | (s', i', Blocked) \<Rightarrow> run es s' i'))"

primrec arrivals :: "'i list option list \<Rightarrow> 'i list" where
  "arrivals [] = []"
| "arrivals (e # es) = (case e of Some c \<Rightarrow> c | None \<Rightarrow> []) @ arrivals es"

lemma polls_resume:
  "poll s i = (s', i', Blocked) \<Longrightarrow> polls n s' j = polls n s (i @ j)"
  by (cases n) (use resume in auto)

lemma polls_run: "polls (length (run es s i)) s (i @ arrivals es) = run es s i"
proof (induction es arbitrary: s i)
  case (Cons e es)
  show ?case
  proof (cases e)
    case None
    obtain s' i' r where p: "poll s i = (s', i', r)" by (metis prod_cases3)
    show ?thesis
    proof (cases r)
      case Blocked
      then have "i' = []" using resume p by blast
      then show ?thesis
        using Cons.IH [of s' "[]"] None p Blocked
          polls_resume [of s i s' i' "length (run es s' [])" "arrivals es"] by simp
    next
      case (Ready x)
      then show ?thesis
        using Cons.IH [of s' i'] None p extend [of s i s' i' x] by simp
    qed
  next
    case (Some c)
    then show ?thesis using Cons.IH [of s "i @ c"] by simp
  qed
qed simp

end

lemma read_loop_done: "length buf \<le> pos \<Longrightarrow> read_loop buf pos inb = (buf, pos, inb, Ready (Ok ()))"
  by (subst read_loop.simps) simp

lemma read_loop_nil: "pos < length buf \<Longrightarrow> read_loop buf pos [] = (buf, pos, [], Blocked)"
  by (subst read_loop.simps) simp

lemma read_loop_closed:
  "pos < length buf \<Longrightarrow>
   read_loop buf pos (Closed # rest) = (buf, pos, Closed # rest, Ready (Err (FeIo UnexpectedEof)))"
  by (subst read_loop.simps) simp

lemma read_loop_failed:
  "pos < length buf \<Longrightarrow> read_loop buf pos (Failed e # rest) = (buf, pos, rest, Ready (Err (FeIo e)))"
  by (subst read_loop.simps) simp

lemma read_loop_fits:
  assumes "pos < length buf" and "length ch \<le> length buf - pos"
  shows "read_loop buf pos (Data ch # rest) = read_loop (fill_at buf pos ch) (pos + length ch) rest"
proof (cases "ch = []")
  case True
  then show ?thesis using assms(1) by (subst read_loop.simps) (simp add: fill_at_def)
next
  case False
  have "min (length ch) (length buf - pos) = length ch" using assms(2) by simp
  then show ?thesis using assms(1) False by (subst read_loop.simps) simp
qed

lemma read_loop_over:
  assumes "pos < length buf" and "length buf - pos < length ch"
  shows "read_loop buf pos (Data ch # rest) =
    (fill_at buf pos (take (length buf - pos) ch), length buf,
     Data (drop (length buf - pos) ch) # rest, Ready (Ok ()))"
proof -
  have "min (length ch) (length buf - pos) = length buf - pos" "ch \<noteq> []" using assms(2) by auto
  moreover have "length (fill_at buf pos (take (length buf - pos) ch)) = length buf"
    using assms by simp
  ultimately show ?thesis
    using assms by (subst read_loop.simps) (simp add: read_loop_done Let_def)
qed

lemmas read_loop_cases =
  read_loop_done read_loop_nil read_loop_closed read_loop_failed read_loop_fits read_loop_over

text \<open>The two ways a non-empty input is read, and structural induction on the input.\<close>

lemma read_loop_Cons:
  assumes "pos < length buf"
  obtains (fits) ch where "x = Data ch" "length ch \<le> length buf - pos"
      "\<And>rest. read_loop buf pos (x # rest) = read_loop (fill_at buf pos ch) (pos + length ch) rest"
  | (stop) b p r kept where "length b = length buf" "pos \<le> p" "p \<le> length b"
      "\<And>rest. read_loop buf pos (x # rest) = (b, p, kept @ rest, Ready r)"
proof (cases x)
  case (Data ch)
  show ?thesis
  proof (cases "length ch \<le> length buf - pos")
    case True
    then show ?thesis using fits [OF Data True] assms Data by (simp add: read_loop_fits)
  next
    case False
    then show ?thesis
      using stop [of "fill_at buf pos (take (length buf - pos) ch)" "length buf"
          "[Data (drop (length buf - pos) ch)]"] assms Data
      by (simp add: read_loop_over)
  qed
next
  case Closed
  then show ?thesis using stop [of buf pos "[Closed]"] assms by (simp add: read_loop_closed)
next
  case (Failed e)
  then show ?thesis using stop [of buf pos "[]"] assms by (simp add: read_loop_failed)
qed

lemma read_loop_resume:
  "read_loop buf pos i = (b, p, i', Blocked) \<Longrightarrow>
   i' = [] \<and> read_loop b p j = read_loop buf pos (i @ j) \<and> length b = length buf"
proof (induction i arbitrary: buf pos)
  case Nil
  then show ?case by (cases "pos < length buf") (auto simp: read_loop_cases)
next
  case (Cons x i)
  then have lt: "pos < length buf" by (cases "pos < length buf") (simp_all add: read_loop_done)
  then show ?case
  proof (cases rule: read_loop_Cons [where x = x])
    case (fits ch)
    then show ?thesis using Cons lt by simp
  qed (use Cons.prems in simp)
qed

lemma read_loop_extend:
  "read_loop buf pos i = (b, p, i', Ready r) \<Longrightarrow>
   read_loop buf pos (i @ j) = (b, p, i' @ j, Ready r) \<and> length b = length buf"
proof (induction i arbitrary: buf pos)
  case Nil
  then show ?case by (cases "pos < length buf") (auto simp: read_loop_cases)
next
  case (Cons x i)
  show ?case
  proof (cases "pos < length buf")
    case True
    then show ?thesis
    proof (cases rule: read_loop_Cons [where x = x])
      case (fits ch)
      then show ?thesis using Cons True by simp
    qed (use Cons.prems in auto)
  qed (use Cons.prems in \<open>simp add: read_loop_done\<close>)
qed

lemma read_loop_pos:
  "read_loop buf pos i = (b, p, i', Ready (Ok ())) \<Longrightarrow> length b \<le> p"
proof (induction i arbitrary: buf pos)
  case Nil
  then show ?case by (cases "pos < length buf") (auto simp: read_loop_cases)
next
  case (Cons x i)
  show ?case
  proof (cases "pos < length buf \<and> (\<exists>ch. x = Data ch \<and> length ch \<le> length buf - pos)")
    case True
    then show ?thesis using Cons by (auto simp: read_loop_fits)
  next
    case False
    then show ?thesis
      using Cons.prems by (cases x; cases "pos < length buf") (auto simp: read_loop_cases)
  qed
qed

lemma pending_body_resume:
  assumes "pending_body pf i = (pf', i', Blocked)"
  shows "i' = [] \<and> pf_header pf' = pf_header pf \<and> pf_header_read pf' = pf_header_read pf
       \<and> pending_body pf' j = pending_body pf (i @ j)"
proof -
  obtain b br i2 res where rl: "read_loop (sized_body pf) (pf_body_read pf) i = (b, br, i2, res)"
    by (metis prod_cases4)
  have ok: "\<not> (pf_body pf = [] \<and> \<not> len_in_range (frame_len pf))"
    using assms by (auto simp: pending_body_def split: if_splits)
  then have "res = Blocked"
    using assms rl by (auto simp: pending_body_def split: poll.splits sum.splits)
  with assms rl ok have pf': "pf' = pf\<lparr> pf_body := b, pf_body_read := br \<rparr>" "i' = i2"
    by (auto simp: pending_body_def)
  have res: "i2 = []" "read_loop b br j = read_loop (sized_body pf) (pf_body_read pf) (i @ j)"
      "length b = length (sized_body pf)"
    using read_loop_resume [of "sized_body pf" "pf_body_read pf" i b br i2 j] rl \<open>res = Blocked\<close> by simp_all
  then have b: "b \<noteq> []" using ok by (auto simp: sized_body_def len_in_range_def split: if_splits)
  then have "sized_body pf' = b" by (simp add: sized_body_def pf')
  then have "pending_body pf' j = pending_body pf (i @ j)"
    using ok b res(2) unfolding pending_body_def
    by (auto simp: pf' split: prod.split poll.split sum.split)
  then show ?thesis using res(1) pf' by simp
qed

lemma pending_body_extend:
  assumes "pending_body pf i = (pf', i', Ready r)"
  shows "pending_body pf (i @ j) = (pf', i' @ j, Ready r)"
proof (cases "pf_body pf = [] \<and> \<not> len_in_range (frame_len pf)")
  case True
  then show ?thesis using assms by (auto simp: pending_body_def)
next
  case False
  obtain b br i2 res where rl: "read_loop (sized_body pf) (pf_body_read pf) i = (b, br, i2, res)"
    by (metis prod_cases4)
  obtain y where y: "res = Ready y"
    using assms rl False by (cases res) (auto simp: pending_body_def)
  then have "read_loop (sized_body pf) (pf_body_read pf) (i @ j) = (b, br, i2 @ j, Ready y)"
    using read_loop_extend rl by blast
  then show ?thesis
    using assms rl y False by (auto simp: pending_body_def split: sum.splits)
qed

lemma pending_read_resume:
  assumes "pending_read pf i = (pf', i', Blocked)"
  shows "i' = [] \<and> pending_read pf' j = pending_read pf (i @ j)"
proof -
  obtain h hr i1 res where hd: "read_loop (pf_header pf) (pf_header_read pf) i = (h, hr, i1, res)"
    by (metis prod_cases4)
  let ?pf1 = "pf\<lparr> pf_header := h, pf_header_read := hr \<rparr>"
  show ?thesis
  proof (cases res)
    case Blocked
    then have pf': "pf' = ?pf1" "i' = i1"
      using assms hd by (simp_all add: pending_read_def)
    show ?thesis
      using hd Blocked read_loop_resume [of "pf_header pf" "pf_header_read pf" i h hr i1 j]
      by (auto simp: pending_read_def pf' split: prod.split poll.split sum.split)
  next
    case (Ready r)
    then have r: "r = Ok ()" and body: "pending_body ?pf1 i1 = (pf', i', Blocked)"
      using assms hd by (auto simp: pending_read_def split: sum.splits)
    have "length h \<le> hr"
      using read_loop_pos [of "pf_header pf" "pf_header_read pf" i h hr i1] hd Ready r by simp
    moreover have "read_loop (pf_header pf) (pf_header_read pf) (i @ j) = (h, hr, i1 @ j, Ready (Ok ()))"
      using read_loop_extend hd Ready r by blast
    ultimately have "pending_read pf (i @ j) = pending_body ?pf1 (i1 @ j)"
        "pending_read pf' j = pending_body (pf'\<lparr> pf_header := h, pf_header_read := hr \<rparr>) j"
      using pending_body_resume [OF body] by (simp_all add: pending_read_def read_loop_done)
    moreover have "pf'\<lparr> pf_header := h, pf_header_read := hr \<rparr> = pf'"
      using pending_body_resume [OF body] by simp
    ultimately show ?thesis
      using pending_body_resume [OF body, of j] by metis
  qed
qed

lemma pending_read_extend:
  assumes "pending_read pf i = (pf', i', Ready r)"
  shows "pending_read pf (i @ j) = (pf', i' @ j, Ready r)"
proof -
  obtain h hr i1 res where hd: "read_loop (pf_header pf) (pf_header_read pf) i = (h, hr, i1, res)"
    by (metis prod_cases4)
  obtain x where x: "res = Ready x"
    using assms hd by (cases res) (auto simp: pending_read_def)
  have hd': "read_loop (pf_header pf) (pf_header_read pf) (i @ j) = (h, hr, i1 @ j, Ready x)"
    using read_loop_extend hd x by blast
  show ?thesis
    using assms hd hd' x pending_body_extend by (auto simp: pending_read_def split: sum.splits)
qed

interpretation rd: cancel_safe "reader_recv a" for a
proof
  show "i' = [] \<and> reader_recv a s' j = reader_recv a s (i @ j)"
    if "reader_recv a s i = (s', i', Blocked)" for s i s' i' j
  proof -
    obtain pf i1 x where pr: "pending_read (cr_frame s) i = (pf, i1, x)"
      by (metis prod_cases3)
    then have "x = Blocked"
      using that by (auto simp: reader_recv_def Let_def split: poll.splits sum.splits option.splits)
    with pr that have pf: "pending_read (cr_frame s) i = (pf, i', Blocked)" "s' = s\<lparr> cr_frame := pf \<rparr>"
      by (auto simp: reader_recv_def)
    show ?thesis
      using pending_read_resume [OF pf(1), of j]
      by (cases "pending_read (cr_frame s) (i @ j)")
         (auto simp: reader_recv_def pf(2) Let_def split: poll.split sum.split option.split)
  qed
  show "reader_recv a s (i @ j) = (s', i' @ j, Ready r)"
    if h: "reader_recv a s i = (s', i', Ready r)" for s i s' i' r j
  proof -
    obtain pf i1 y where "pending_read (cr_frame s) i = (pf, i1, y)"
      by (metis prod_cases3)
    then obtain x where pf: "pending_read (cr_frame s) i = (pf, i1, Ready x)"
      using h by (cases y) (auto simp: reader_recv_def)
    show ?thesis
      using h pending_read_extend [OF pf, of j] pf
      by (auto simp: reader_recv_def Let_def split: sum.splits option.splits)
  qed
qed

text \<open>The unsplit stream reads and writes exactly as its two halves.\<close>

definition with_reader :: "cipher_stream \<Rightarrow> cipher_reader \<Rightarrow> cipher_stream" where
  "with_reader s r = s\<lparr> cs_recv_frame := cr_frame r, cs_recv_counter := cr_counter r \<rparr>"

lemma stream_recv_split:
  "stream_recv a s inb = (case reader_recv a (fst (split_stream s)) inb of
     (r, inb', res) \<Rightarrow> (with_reader s r, inb', res))"
  by (cases "pending_read (cs_recv_frame s) inb")
     (auto simp: stream_recv_def reader_recv_def split_stream_def with_reader_def Let_def
       split: poll.split sum.split option.split)

lemma stream_send_split:
  "stream_send a s payload w = (case writer_send a (snd (split_stream s)) payload w of
     (out, wr, res) \<Rightarrow> (out, s\<lparr> cs_send_counter := cw_counter wr \<rparr>, res))"
  by (auto simp: stream_send_def writer_send_def split_stream_def Let_def
       split: option.split prod.split sum.split)

lemma reader_recv_keeps:
  "reader_recv a r inb = (r', inb', res) \<Longrightarrow> cr_key r' = cr_key r \<and> cr_prefix r' = cr_prefix r"
  by (cases "pending_read (cr_frame r) inb")
     (auto simp: reader_recv_def Let_def split: poll.splits sum.splits option.splits)

lemma with_reader_split [simp]:
  "cr_key r = cs_recv_key s \<Longrightarrow> cr_prefix r = cs_recv_prefix s \<Longrightarrow> fst (split_stream (with_reader s r)) = r"
  by (simp add: with_reader_def split_stream_def)

interpretation sr: cancel_safe "stream_recv a" for a
proof
  fix s i s' i' j
  assume h: "stream_recv a s i = (s', i', Blocked)"
  then obtain r where r: "reader_recv a (fst (split_stream s)) i = (r, i', Blocked)" "s' = with_reader s r"
    by (auto simp: stream_recv_split split: prod.splits)
  have "fst (split_stream s') = r"
    using reader_recv_keeps [OF r(1)] r(2) by (simp add: split_stream_def with_reader_def)
  then show "i' = [] \<and> stream_recv a s' j = stream_recv a s (i @ j)"
    using rd.resume [OF r(1), of j] r(2)
    by (auto simp: stream_recv_split with_reader_def split: prod.split)
next
  fix s i s' i' r j
  assume "stream_recv a s i = (s', i', Ready r)"
  then obtain x where x: "reader_recv a (fst (split_stream s)) i = (x, i', Ready r)" "s' = with_reader s x"
    by (auto simp: stream_recv_split split: prod.splits)
  then show "stream_recv a s (i @ j) = (s', i' @ j, Ready r)"
    using rd.extend [OF x(1), of j] by (simp add: stream_recv_split)
qed

subsection \<open>Frames cut into chunks\<close>

fun is_data :: "rx \<Rightarrow> bool" where
  "is_data (Data _) = True"
| "is_data _ = False"

fun data_bytes :: "rx list \<Rightarrow> byte list" where
  "data_bytes [] = []"
| "data_bytes (Data ch # rest) = ch @ data_bytes rest"
| "data_bytes (_ # rest) = data_bytes rest"

lemma data_bytes_append [simp]: "data_bytes (i @ j) = data_bytes i @ data_bytes j"
  by (induction i rule: data_bytes.induct) auto

lemma read_loop_filled:
  assumes "list_all is_data inb" and "pos \<le> length buf" and "length buf - pos \<le> length (data_bytes inb)"
  shows "\<exists>inb'. read_loop buf pos inb =
      (take pos buf @ take (length buf - pos) (data_bytes inb), length buf, inb', Ready (Ok ()))
    \<and> list_all is_data inb' \<and> data_bytes inb' = drop (length buf - pos) (data_bytes inb)"
  using assms
proof (induction inb arbitrary: buf pos)
  case Nil
  then show ?case by (simp add: read_loop_done)
next
  case (Cons x inb)
  then obtain ch where x: "x = Data ch" by (cases x) auto
  show ?case
  proof (cases "pos < length buf")
    case False
    then show ?thesis using Cons.prems by (simp add: read_loop_done)
  next
    case True
    show ?thesis
    proof (cases "length ch \<le> length buf - pos")
      case fits: True
      have "length (fill_at buf pos ch) = length buf" using fits True by simp
      moreover have "take (pos + length ch) (fill_at buf pos ch) = take pos buf @ ch"
        using True by (simp add: fill_at_def)
      ultimately show ?thesis
        using Cons.IH [of "pos + length ch" "fill_at buf pos ch"] Cons.prems x fits True
        by (simp add: read_loop_fits)
    next
      case False
      then show ?thesis
        using Cons.prems x True by (simp add: read_loop_over fill_at_def)
    qed
  qed
qed

lemma read_loop_starved:
  assumes "list_all is_data inb" and "length (data_bytes inb) < length buf - pos"
  shows "\<exists>buf' pos'. read_loop buf pos inb = (buf', pos', [], Blocked)"
  using assms
proof (induction inb arbitrary: buf pos)
  case Nil
  then show ?case by (simp add: read_loop_nil)
next
  case (Cons x inb)
  then obtain ch where x: "x = Data ch" by (cases x) auto
  have "length (fill_at buf pos ch) = length buf" using Cons.prems x by simp
  then show ?case
    using Cons.IH [of "fill_at buf pos ch" "pos + length ch"] Cons.prems x
    by (simp add: read_loop_fits)
qed

definition pf_idle :: "pending_frame \<Rightarrow> bool" where
  "pf_idle pf \<longleftrightarrow> length (pf_header pf) = 4 \<and> pf_header_read pf = 0 \<and> pf_body pf = [] \<and> pf_body_read pf = 0"

lemma pf_idle_default: "pf_idle pending_frame_default"
  by (simp add: pf_idle_def pending_frame_default_def)

lemma unat_u32_of_nat: "n < 2 ^ 32 \<Longrightarrow> unat (of_nat n :: u32) = n"
  by (simp add: unat_of_nat)

text \<open>From the idle state a complete frame is delivered however it is cut; an incomplete one blocks.\<close>

lemma pending_read_header:
  assumes "pf_idle pf" and "list_all is_data inb" and "data_bytes inb = hd4 @ tail" and "length hd4 = 4"
  shows "\<exists>inb'. pending_read pf inb = pending_body (pf\<lparr> pf_header := hd4, pf_header_read := 4 \<rparr>) inb'
       \<and> list_all is_data inb' \<and> data_bytes inb' = tail"
  using assms read_loop_filled [of inb 0 "pf_header pf"]
  by (auto simp: pf_idle_def pending_read_def)

lemma pending_read_frame:
  assumes "pf_idle pf" and "list_all is_data inb" and "len_in_range (length ct)"
    and "data_bytes inb = prefixed ct @ rest"
  shows "\<exists>pf' inb'. pending_read pf inb = (pf', inb', Ready (Ok ct))
       \<and> pf_idle pf' \<and> list_all is_data inb' \<and> data_bytes inb' = rest"
proof -
  let ?h = "u32_to_be_bytes (of_nat (length ct))"
  let ?pf = "pf\<lparr> pf_header := ?h, pf_header_read := 4 \<rparr>"
  obtain inb1 where one: "pending_read pf inb = pending_body ?pf inb1"
      "list_all is_data inb1" "data_bytes inb1 = ct @ rest"
    using pending_read_header [OF assms(1,2), of ?h "ct @ rest"] assms(4) by (auto simp: prefixed_def)
  have len: "frame_len ?pf = length ct"
    using assms(3) by (simp add: frame_len_def len_in_range_def MAX_FRAME_BYTES_def unat_u32_of_nat)
  have "sized_body ?pf = replicate (length ct) 0" "pf_body_read ?pf = 0" "pf_body ?pf = []"
    using assms(1) len by (simp_all add: sized_body_def pf_idle_def)
  then show ?thesis
    using read_loop_filled [OF one(2), of 0 "sized_body ?pf"] one len assms(1,3)
    by (auto simp: pending_body_def pf_idle_def)
qed

lemma pending_read_incomplete:
  assumes "pf_idle pf" and "list_all is_data inb" and "len_in_range (length ct)"
    and "data_bytes inb = take n (prefixed ct)" and "n < length (prefixed ct)"
  shows "\<exists>pf'. pending_read pf inb = (pf', [], Blocked)"
proof (cases "n < 4")
  case True
  then show ?thesis
    using read_loop_starved [OF assms(2), of "pf_header pf" 0] assms(1,4)
    by (auto simp: pf_idle_def pending_read_def)
next
  case False
  let ?h = "u32_to_be_bytes (of_nat (length ct))"
  let ?pf = "pf\<lparr> pf_header := ?h, pf_header_read := 4 \<rparr>"
  have "data_bytes inb = ?h @ take (n - 4) ct"
    using False assms(4) by (simp add: prefixed_def)
  then obtain inb1 where one: "pending_read pf inb = pending_body ?pf inb1"
      "list_all is_data inb1" "data_bytes inb1 = take (n - 4) ct"
    using pending_read_header [OF assms(1,2), of ?h "take (n - 4) ct"] by auto
  have len: "frame_len ?pf = length ct"
    using assms(3) by (simp add: frame_len_def len_in_range_def MAX_FRAME_BYTES_def unat_u32_of_nat)
  have "length (data_bytes inb1) < length (sized_body ?pf) - pf_body_read ?pf"
    using assms(1,5) len one(3) False by (simp add: sized_body_def pf_idle_def)
  from read_loop_starved [OF one(2) this] show ?thesis
    using one(1) len assms(3) by (auto simp: pending_body_def)
qed

subsection \<open>Delivery\<close>

definition aead_law :: "aead \<Rightarrow> bool" where
  "aead_law a \<longleftrightarrow> (\<forall>k n m ct. aead_encrypt a k n m = Some ct \<longrightarrow>
      length ct = length m + 16 \<and> aead_decrypt a k n ct = Some m)"

fun writer_send_all ::
  "aead \<Rightarrow> cipher_writer \<Rightarrow> byte list list \<Rightarrow> byte list \<times> cipher_writer \<times> (frame_error, unit) result" where
  "writer_send_all a w [] = ([], w, Ok ())"
| "writer_send_all a w (p # ps) =
     (case writer_send a w p WroteAll of
        (out, w', Inl e) \<Rightarrow> (out, w', Err e)
      | (out, w', Inr _) \<Rightarrow>
          (case writer_send_all a w' ps of (outs, w'', r) \<Rightarrow> (out @ outs, w'', r)))"

definition matching :: "cipher_writer \<Rightarrow> cipher_reader \<Rightarrow> bool" where
  "matching w r \<longleftrightarrow> cw_key w = cr_key r \<and> cw_prefix w = cr_prefix r \<and> cw_counter w = cr_counter r"

lemma writer_send_Ok:
  "writer_send a w p WroteAll = (out, w', Ok u) \<longleftrightarrow>
   length p \<le> MAX_FRAME_BYTES \<and>
   (\<exists>ct n. aead_encrypt a (cw_key w) (build_nonce (cw_prefix w) (cw_counter w)) p = Some ct \<and>
      out = prefixed ct \<and> checked_add1 (cw_counter w) = Some n \<and> w' = w\<lparr> cw_counter := n \<rparr>)"
  by (auto simp: writer_send_def write_frame_def prefixed_def Let_def split: option.splits)

lemma writer_send_all_Cons:
  assumes "writer_send_all a w (p # ps) = (B, w', Ok u)"
  obtains ct n B' where "length p \<le> MAX_FRAME_BYTES"
    "aead_encrypt a (cw_key w) (build_nonce (cw_prefix w) (cw_counter w)) p = Some ct"
    "checked_add1 (cw_counter w) = Some n" "B = prefixed ct @ B'"
    "writer_send_all a (w\<lparr> cw_counter := n \<rparr>) ps = (B', w', Ok u)"
  using assms by (auto simp: writer_send_Ok split: prod.splits sum.splits)

lemma reader_recv_sent:
  assumes law: "aead_law a" and m: "matching w r" and idle: "pf_idle (cr_frame r)"
    and data: "list_all is_data inb" "data_bytes inb = prefixed ct @ rest"
    and p: "length p \<le> MAX_FRAME_BYTES"
    and ct: "aead_encrypt a (cw_key w) (build_nonce (cw_prefix w) (cw_counter w)) p = Some ct"
    and n: "checked_add1 (cw_counter w) = Some n"
  shows "\<exists>r' inb'. reader_recv a r inb = (r', inb', Ready (Ok p))
       \<and> matching (w\<lparr> cw_counter := n \<rparr>) r' \<and> pf_idle (cr_frame r')
       \<and> list_all is_data inb' \<and> data_bytes inb' = rest"
proof -
  have dec: "length ct = length p + 16" "aead_decrypt a (cr_key r) (build_nonce (cr_prefix r) (cr_counter r)) ct = Some p"
    using law ct m by (auto simp: aead_law_def matching_def)
  then have "len_in_range (length ct)" using p by (simp add: len_in_range_def)
  from pending_read_frame [OF idle data(1) this data(2)] show ?thesis
    using dec(2) n m by (auto simp: reader_recv_def matching_def Let_def)
qed

text \<open>Reading any prefix of what a sequence of sends wrote yields the first payloads.\<close>

lemma polls_delivers:
  assumes "aead_law a" and "writer_send_all a w ps = (B, w', Ok ())"
    and "matching w r" and "pf_idle (cr_frame r)"
    and "list_all is_data inb" and "data_bytes inb @ missing = B"
  shows "\<exists>k \<le> length ps. rd.polls a n r inb = map Ok (take k ps) \<and> (missing = [] \<longrightarrow> k = min n (length ps))"
  using assms(2-)
proof (induction ps arbitrary: w r inb n B)
  case Nil
  then have "data_bytes inb = []" by simp
  then have "\<exists>b p. read_loop (pf_header (cr_frame r)) 0 inb = (b, p, [], Blocked)"
    using Nil read_loop_starved [of inb "pf_header (cr_frame r)" 0] by (simp add: pf_idle_def)
  then have "rd.polls a n r inb = []"
    using Nil(3) by (cases n) (auto simp: reader_recv_def pending_read_def pf_idle_def)
  then show ?case by simp
next
  case (Cons p ps)
  obtain ct m B' where sent: "length p \<le> MAX_FRAME_BYTES"
      "aead_encrypt a (cw_key w) (build_nonce (cw_prefix w) (cw_counter w)) p = Some ct"
      "checked_add1 (cw_counter w) = Some m" "B = prefixed ct @ B'"
      "writer_send_all a (w\<lparr> cw_counter := m \<rparr>) ps = (B', w', Ok ())"
    using writer_send_all_Cons [OF Cons.prems(1)] .
  have range: "len_in_range (length ct)"
    using assms(1) sent(1,2) by (auto simp: aead_law_def len_in_range_def)
  show ?case
  proof (cases n)
    case 0
    then show ?thesis by (intro exI [of _ 0]) simp
  next
    case (Suc n')
    show ?thesis
    proof (cases "length (data_bytes inb) < length (prefixed ct)")
      case True
      have "data_bytes inb = take (length (data_bytes inb)) (prefixed ct)"
        using Cons.prems(5) sent(4) True by (metis append_eq_append_conv_if less_imp_le)
      then obtain pf' where "pending_read (cr_frame r) inb = (pf', [], Blocked)"
        using pending_read_incomplete [OF Cons.prems(3,4) range] True by blast
      then have "rd.polls a n r inb = []" using Suc by (simp add: reader_recv_def)
      moreover have "missing \<noteq> []" using Cons.prems(5) sent(4) True by auto
      ultimately show ?thesis by (intro exI [of _ 0]) simp
    next
      case False
      let ?L = "length (prefixed ct)"
      have "take ?L (data_bytes inb @ missing) = prefixed ct" "drop ?L (data_bytes inb @ missing) = B'"
        using Cons.prems(5) sent(4) by simp_all
      then have "take ?L (data_bytes inb) = prefixed ct" "drop ?L (data_bytes inb) @ missing = B'"
        using False by simp_all
      then obtain rest where rest: "data_bytes inb = prefixed ct @ rest" "rest @ missing = B'"
        by (metis append_take_drop_id)
      obtain r' inb' where step: "reader_recv a r inb = (r', inb', Ready (Ok p))"
          "matching (w\<lparr> cw_counter := m \<rparr>) r'" "pf_idle (cr_frame r')"
          "list_all is_data inb'" "data_bytes inb' = rest"
        using reader_recv_sent [OF assms(1) Cons.prems(2,3,4) rest(1) sent(1-3)] by blast
      obtain k where k: "k \<le> length ps" "rd.polls a n' r' inb' = map Ok (take k ps)"
          "missing = [] \<longrightarrow> k = min n' (length ps)"
        using Cons.IH [OF sent(5) step(2,3,4)] rest(2) step(5) by blast
      then show ?thesis
        using Suc step(1) by (intro exI [of _ "Suc k"]) simp
    qed
  qed
qed

text \<open>C14. The encrypted channel delivers: whatever the network does to the boundaries of the
  bytes a sequence of sends wrote, and whenever the reading side polls and cancels its reads in
  between, the completed reads return the payloads in order, from the first one on, and the reader
  has delivered all of them once it was polled often enough after everything arrived.\<close>

theorem channel_delivers:
  assumes "aead_law a" and "writer_send_all a w ps = (B, w', Ok ())"
    and "matching w r" and "pf_idle (cr_frame r)"
    and "list_all is_data (rd.arrivals schedule)" and "data_bytes (rd.arrivals schedule) @ missing = B"
  shows "(\<exists>k \<le> length ps. rd.run a schedule r [] = map Ok (take k ps))
       \<and> (missing = [] \<longrightarrow>
            rd.polls a (length ps) r (rd.arrivals schedule) = map Ok ps)"
proof -
  have "rd.run a schedule r [] = rd.polls a (length (rd.run a schedule r [])) r (rd.arrivals schedule)"
    using rd.polls_run [of a schedule r "[]"] by simp
  then show ?thesis
    using polls_delivers [OF assms, of "length (rd.run a schedule r [])"]
      polls_delivers [OF assms, of "length ps"]
    by (metis min.idem take_all_iff order_refl)
qed

definition demo_aead :: aead where
  "demo_aead = \<lparr> aead_encrypt = (\<lambda>k n m. Some (m @ replicate 16 0)),
                aead_decrypt = (\<lambda>k n ct. Some (take (length ct - 16) ct)) \<rparr>"

definition demo_writer :: cipher_writer where
  "demo_writer = \<lparr> cw_key = [], cw_prefix = [], cw_counter = 0 \<rparr>"

definition demo_reader :: cipher_reader where
  "demo_reader = \<lparr> cr_frame = pending_frame_default, cr_key = [], cr_prefix = [], cr_counter = 0 \<rparr>"

lemma demo_aead_law: "aead_law demo_aead"
  by (auto simp: aead_law_def demo_aead_def)

lemma demo_send_all:
  "\<exists>B w'. writer_send_all demo_aead demo_writer [[1], [2]] = (B, w', Ok ())"
  by (simp add: writer_send_def write_frame_def checked_add1_def demo_aead_def demo_writer_def
      MAX_FRAME_BYTES_def Let_def)

theorem channel_delivers_witness:
  "\<exists>B. rd.polls demo_aead 2 demo_reader [Data (take 3 B), Data (drop 3 B)] = [Ok [1], Ok [2]]"
proof -
  obtain B w' where B: "writer_send_all demo_aead demo_writer [[1], [2]] = (B, w', Ok ())"
    using demo_send_all by blast
  have m: "matching demo_writer demo_reader" "pf_idle (cr_frame demo_reader)"
    by (simp_all add: matching_def demo_writer_def demo_reader_def pf_idle_default)
  let ?sched = "[Some [Data (take 3 B)], None, Some [Data (drop 3 B)]]"
  have arr: "rd.arrivals ?sched = [Data (take 3 B), Data (drop 3 B)]" by simp
  have "list_all is_data (rd.arrivals ?sched)" "data_bytes (rd.arrivals ?sched) @ [] = B"
    unfolding arr by simp_all
  from channel_delivers [OF demo_aead_law B m this]
  have "rd.polls demo_aead (length [[1], [2 :: byte]]) demo_reader (rd.arrivals ?sched) = map Ok [[1], [2]]"
    by blast
  then have "rd.polls demo_aead 2 demo_reader [Data (take 3 B), Data (drop 3 B)] = [Ok [1], Ok [2]]"
    unfolding arr by (simp only: list.size list.map add_0 One_nat_def add_Suc add_Suc_right numeral_2_eq_2)
  then show ?thesis by blast
qed

subsection \<open>Integrity and nonces\<close>

fun oks :: "('e, 'a) result list \<Rightarrow> 'a list" where
  "oks [] = []"
| "oks (Inr m # rs) = m # oks rs"
| "oks (Inl _ # rs) = oks rs"

lemma u64_add_inj:
  "(c :: u64) + of_nat i = c + of_nat j \<Longrightarrow> i < 2 ^ 64 \<Longrightarrow> j < 2 ^ 64 \<Longrightarrow> i = j"
proof -
  assume "c + of_nat i = c + of_nat j" and "i < 2 ^ 64" and "j < 2 ^ 64"
  then have "unat (of_nat i :: u64) = unat (of_nat j :: u64)" by simp
  with \<open>i < 2 ^ 64\<close> \<open>j < 2 ^ 64\<close> show "i = j" by (simp add: unat_of_nat)
qed

lemma build_nonce_inj: "build_nonce p c = build_nonce p d \<longleftrightarrow> c = d"
  by (simp add: build_nonce_def)

lemma checked_add1_Some: "checked_add1 c = Some n \<Longrightarrow> n = c + 1 \<and> unat n = Suc (unat c)"
  using unatSuc [of c] by (auto simp: checked_add1_def add.commute add_eq_0_iff split: if_splits)

lemma reader_recv_Ok:
  assumes "reader_recv a r inb = (r', inb', Ready (Ok m))"
  shows "\<exists>ct n. aead_decrypt a (cr_key r) (build_nonce (cr_prefix r) (cr_counter r)) ct = Some m
       \<and> checked_add1 (cr_counter r) = Some n \<and> cr_counter r' = n"
  using assms
  by (cases "pending_read (cr_frame r) inb")
     (auto simp: reader_recv_def Let_def split: poll.splits sum.splits option.splits)

lemma reader_recv_Err:
  assumes "reader_recv a r inb = (r', inb', Ready (Err e))"
  shows "cr_counter r' = cr_counter r"
  using assms
  by (cases "pending_read (cr_frame r) inb")
     (auto simp: reader_recv_def Let_def split: poll.splits sum.splits option.splits)

lemma polls_integrity:
  assumes ideal: "\<And>n ct m. aead_decrypt a key n ct = Some m \<Longrightarrow>
        \<exists>i < length ps. n = build_nonce prefix (c + of_nat i) \<and> m = ps ! i"
    and len: "length ps < 2 ^ 64"
  shows "cr_key r = key \<Longrightarrow> cr_prefix r = prefix \<Longrightarrow> cr_counter r = c + of_nat j \<Longrightarrow> j \<le> length ps \<Longrightarrow>
    \<exists>k \<le> length ps - j. oks (rd.polls a n r inb) = take k (drop j ps)"
proof (induction n arbitrary: r inb j)
  case 0
  then show ?case by (intro exI [of _ 0]) simp
next
  case (Suc n)
  obtain r' inb' res where step: "reader_recv a r inb = (r', inb', res)" by (metis prod_cases3)
  have keep: "cr_key r' = key" "cr_prefix r' = prefix"
    using reader_recv_keeps [OF step] Suc.prems by simp_all
  consider "res = Blocked" | e where "res = Ready (Err e)" | m where "res = Ready (Ok m)"
    by (metis poll.exhaust sum.exhaust)
  then show ?case
  proof cases
    case 1
    then show ?thesis using step by (intro exI [of _ 0]) simp
  next
    case 2
    then show ?thesis
      using Suc.IH [OF keep, of j] reader_recv_Err [of a r inb r' inb' e] Suc.prems step by simp
  next
    case 3
    obtain ct d where dec: "aead_decrypt a key (build_nonce prefix (cr_counter r)) ct = Some m"
        "checked_add1 (cr_counter r) = Some d" "cr_counter r' = d"
      using reader_recv_Ok [of a r inb r' inb' m] step 3 Suc.prems by auto
    obtain i where i: "i < length ps" "cr_counter r = c + of_nat i" "m = ps ! i"
      using ideal [OF dec(1)] by (auto simp: build_nonce_inj)
    have "i = j"
      using u64_add_inj [of c i j] i(1,2) Suc.prems(3,4) len by simp
    then have j: "j < length ps" "m = ps ! j" "cr_counter r' = c + of_nat (Suc j)"
      using i dec(3) checked_add1_Some [OF dec(2)] by simp_all
    obtain k where "k \<le> length ps - Suc j" "oks (rd.polls a n r' inb') = take k (drop (Suc j) ps)"
      using Suc.IH [OF keep j(3)] j(1) by auto
    then show ?thesis
      using step 3 j(1,2) by (intro exI [of _ "Suc k"]) (auto simp: Cons_nth_drop_Suc [symmetric])
  qed
qed

text \<open>C16. Whatever an attacker on the network injects, drops, repeats or reorders, the payloads a
  reader accepts are a prefix of those the peer sealed, in order and without repetition, if the
  AEAD opens only what was sealed under the key and nonce.\<close>

theorem channel_integrity:
  assumes ideal: "\<And>n ct m. aead_decrypt a (cr_key r) n ct = Some m \<Longrightarrow>
        \<exists>i < length ps. n = build_nonce (cr_prefix r) (cr_counter r + of_nat i) \<and> m = ps ! i"
    and len: "length ps < 2 ^ 64"
  shows "\<exists>k \<le> length ps. oks (rd.run a schedule r []) = take k ps"
proof -
  have "rd.run a schedule r [] = rd.polls a (length (rd.run a schedule r [])) r (rd.arrivals schedule)"
    using rd.polls_run [of a schedule r "[]"] by simp
  then show ?thesis
    using polls_integrity [where a = a and ps = ps and r = r and j = 0
          and n = "length (rd.run a schedule r [])" and inb = "rd.arrivals schedule",
        OF ideal len refl refl]
    by simp
qed

theorem channel_integrity_witness:
  "\<exists>k \<le> length [[7 :: byte]]. oks (rd.run (demo_aead\<lparr> aead_decrypt := (\<lambda>k n ct.
       if n = build_nonce [] 0 \<and> ct = 7 # replicate 16 0 then Some [7] else None) \<rparr>)
     [Some [Data (prefixed (7 # replicate 16 0)), Data (prefixed (7 # replicate 16 0))], None, None]
     demo_reader []) = take k [[7]]"
proof -
  let ?a = "demo_aead\<lparr> aead_decrypt := (\<lambda>k n ct.
       if n = build_nonce [] 0 \<and> ct = 7 # replicate 16 0 then Some [7] else None) \<rparr>"
  have "\<exists>i < length [[7 :: byte]]. n = build_nonce (cr_prefix demo_reader) (cr_counter demo_reader + of_nat i)
      \<and> m = [[7]] ! i" if "aead_decrypt ?a (cr_key demo_reader) n ct = Some m" for n ct m
    using that by (auto simp: demo_reader_def split: if_splits)
  then show ?thesis by (rule channel_integrity) simp_all
qed

text \<open>Each call of a send, with the nonce it used, the bytes it put on the wire and its result.\<close>

fun send_trace ::
  "aead \<Rightarrow> cipher_writer \<Rightarrow> (byte list \<times> write_result) list \<Rightarrow>
   (byte list \<times> byte list \<times> (frame_error, unit) result) list" where
  "send_trace a w [] = []"
| "send_trace a w ((p, wr) # ops) =
     (case writer_send a w p wr of (out, w', r) \<Rightarrow>
        (build_nonce (cw_prefix w) (cw_counter w), out, r) # send_trace a w' ops)"

lemma writer_send_counter:
  "writer_send a w p wr = (out, w', r) \<Longrightarrow>
   cw_prefix w' = cw_prefix w \<and> (r = Ok () \<longrightarrow> unat (cw_counter w') = Suc (unat (cw_counter w)))"
  by (auto simp: writer_send_def write_frame_def Let_def dest: checked_add1_Some
      split: if_splits option.splits write_result.splits prod.splits sum.splits)

lemma send_trace_later:
  assumes "\<forall>(n, out, r) \<in> set (send_trace a w ops). r = Ok ()"
    and "(n, out, r) \<in> set (send_trace a w ops)"
  shows "\<exists>c. n = build_nonce (cw_prefix w) c \<and> unat (cw_counter w) \<le> unat c"
  using assms
proof (induction a w ops rule: send_trace.induct)
  case (2 a w p wr ops)
  obtain o1 w1 r1 where s: "writer_send a w p wr = (o1, w1, r1)" by (metis prod_cases3)
  then have "cw_prefix w1 = cw_prefix w" "unat (cw_counter w) \<le> unat (cw_counter w1)"
    using writer_send_counter [OF s] 2(2) by auto
  moreover have "\<exists>c. n = build_nonce (cw_prefix w1) c \<and> unat (cw_counter w1) \<le> unat c"
    if "(n, out, r) \<in> set (send_trace a w1 ops)"
    using 2 s that by auto
  ultimately show ?case
    using 2(3) s by (auto intro: order_trans)
qed simp



end
