(* ===== verification/Handshake.thy ===== *)
theory Handshake
  imports Cipher
begin

text \<open>
  The transport handshake (\<^verbatim>\<open>crates/synbad-crypto/src/handshake.rs\<close>): two fixed-size hello
  messages in clear, key derivation, and in authenticated mode one signed frame in each direction
  over the new channel.  X25519, HKDF, SHA-256, ed25519, hex and JSON are parameters; ephemeral
  keys and nonces, drawn at random in the source, are arguments.
\<close>

subsection \<open>Messages and keys\<close>

definition PROTOCOL_VERSION :: byte where "PROTOCOL_VERSION = 1"

definition TRANSCRIPT_DOMAIN :: "byte list" where
  "TRANSCRIPT_DOMAIN = as_bytes ''synbad-crypto-v1''"

definition HKDF_INFO :: "byte list" where
  "HKDF_INFO = as_bytes ''synbad-crypto-v1-keys''"

definition MAX_AUTH_FRAME_BYTES :: nat where "MAX_AUTH_FRAME_BYTES = 1024"

datatype auth_decode = AdFrame frame_error | AdJson

datatype handshake_error =
    HeIo io_kind
  | HeBadVersion byte
  | HeAuthModeMismatch
  | HeMalformed string
  | HeBadPeerSignature
  | HeUnexpectedPeer string string
  | HeUntrustedPeer
  | HeAuthDecode auth_decode

datatype 'sk handshake_mode = Authenticated (our_signing_key: 'sk) (our_machine_id: string) | Anonymous

fun auth_flag :: "'sk handshake_mode \<Rightarrow> byte" where
  "auth_flag (Authenticated _ _) = 1"
| "auth_flag Anonymous = 0"

datatype peer_auth = PeerAuthenticated string "byte list" | PeerAnonymous

record auth_frame =
  af_machine_id :: string
  af_ed25519_pub_hex :: string
  af_sig_hex :: string

text \<open>The primitives beyond \<^typ>\<open>'sk crypto\<close>: X25519, HKDF-SHA256 with a 72-byte output, the AEAD
  and the JSON of an auth frame.\<close>

record ('sk, 'xk) handshake_api =
  hs_crypto :: "'sk crypto"
  hs_aead :: aead
  x_public :: "'xk \<Rightarrow> byte list"
  x_dh :: "'xk \<Rightarrow> byte list \<Rightarrow> byte list"
  hkdf72 :: "byte list \<Rightarrow> byte list \<Rightarrow> byte list \<Rightarrow> byte list"
  auth_to_vec :: "auth_frame \<Rightarrow> byte list option"
  auth_from_slice :: "byte list \<Rightarrow> auth_frame option"

definition transcript_bytes ::
  "byte \<Rightarrow> byte list \<Rightarrow> byte list \<Rightarrow> byte list \<Rightarrow> byte list \<Rightarrow> byte list" where
  "transcript_bytes flag init_pub nonce_i resp_pub nonce_r =
     TRANSCRIPT_DOMAIN @ [PROTOCOL_VERSION, flag] @ init_pub @ nonce_i @ resp_pub @ nonce_r"

definition finalize_keys ::
  "('sk, 'xk) handshake_api \<Rightarrow> bool \<Rightarrow> 'xk \<Rightarrow> byte list \<Rightarrow> byte \<Rightarrow> byte list \<Rightarrow> byte list \<Rightarrow>
   byte list \<Rightarrow> byte list \<Rightarrow> byte list \<times> cipher_stream" where
  "finalize_keys api initiator our_eph_sk peer_eph_pk flag init_pub resp_pub nonce_i nonce_r =
     (let shared = x_dh api our_eph_sk peer_eph_pk;
          transcript = sha256 (hs_crypto api) (transcript_bytes flag init_pub nonce_i resp_pub nonce_r);
          okm = hkdf72 api transcript shared HKDF_INFO;
          k_i_to_r = take 32 okm;
          k_r_to_i = take 32 (drop 32 okm);
          np_i_to_r = take 4 (drop 64 okm);
          np_r_to_i = take 4 (drop 68 okm);
          (send_key, recv_key, send_prefix, recv_prefix) =
            (if initiator then (k_i_to_r, k_r_to_i, np_i_to_r, np_r_to_i)
             else (k_r_to_i, k_i_to_r, np_r_to_i, np_i_to_r))
      in (transcript, cipher_stream_new send_key recv_key send_prefix recv_prefix))"

subsection \<open>Auth frames\<close>

definition our_auth_frame :: "'sk crypto \<Rightarrow> 'sk \<Rightarrow> string \<Rightarrow> byte list \<Rightarrow> auth_frame" where
  "our_auth_frame c sk machine_id transcript =
     \<lparr> af_machine_id = machine_id, af_ed25519_pub_hex = hex_encode c (ed_public c sk),
       af_sig_hex = hex_encode c (ed_sign c sk transcript) \<rparr>"

definition send_auth_frame ::
  "('sk, 'xk) handshake_api \<Rightarrow> cipher_stream \<Rightarrow> 'sk \<Rightarrow> string \<Rightarrow> byte list \<Rightarrow> write_result \<Rightarrow>
   byte list \<times> cipher_stream \<times> (handshake_error, unit) result" where
  "send_auth_frame api cipher sk machine_id transcript w =
     (case auth_to_vec api (our_auth_frame (hs_crypto api) sk machine_id transcript) of
        None \<Rightarrow> ([], cipher, Err (HeMalformed ''auth frame''))
      | Some body \<Rightarrow>
          (case stream_send (hs_aead api) cipher body w of
             (out, cipher', r) \<Rightarrow> (out, cipher', map_err (\<lambda>e. HeAuthDecode (AdFrame e)) r)))"

definition decode_auth_frame ::
  "('sk, 'xk) handshake_api \<Rightarrow> byte list \<Rightarrow> (handshake_error, auth_frame) result" where
  "decode_auth_frame api bytes =
     (if length bytes > MAX_AUTH_FRAME_BYTES then Err (HeMalformed ''auth frame too large'')
      else ok_or (auth_from_slice api bytes) (HeAuthDecode AdJson))"

definition recv_auth_frame ::
  "('sk, 'xk) handshake_api \<Rightarrow> cipher_stream \<Rightarrow> rx list \<Rightarrow>
   cipher_stream \<times> rx list \<times> (handshake_error, auth_frame) result poll" where
  "recv_auth_frame api cipher inb =
     (case stream_recv (hs_aead api) cipher inb of
        (cipher', inb', Blocked) \<Rightarrow> (cipher', inb', Blocked)
      | (cipher', inb', Ready r) \<Rightarrow>
          (cipher', inb', Ready (and_then (map_err (\<lambda>e. HeAuthDecode (AdFrame e)) r) (decode_auth_frame api))))"

definition verify_auth_frame ::
  "'sk crypto \<Rightarrow> auth_frame \<Rightarrow> byte list \<Rightarrow> (handshake_error, byte list) result" where
  "verify_auth_frame c frame transcript =
     and_then (ok_or (hex_decode c (af_ed25519_pub_hex frame)) (HeMalformed ''auth ed25519_pub_hex'')) (\<lambda>pk.
       if length pk \<noteq> 32 then Err (HeMalformed ''ed25519 key wrong length'')
       else if \<not> ed_key_ok c pk then Err (HeMalformed ''ed25519 key not on curve'')
       else and_then (ok_or (hex_decode c (af_sig_hex frame)) (HeMalformed ''auth sig_hex'')) (\<lambda>sg.
         if length sg \<noteq> 64 then Err (HeMalformed ''sig wrong length'')
         else if ed_verify c pk transcript sg then Ok pk else Err HeBadPeerSignature))"

subsection \<open>The two roles\<close>

text \<open>\<^verbatim>\<open>read_exact\<close> into a buffer of \<open>n\<close> bytes.\<close>

definition read_exact :: "nat \<Rightarrow> rx list \<Rightarrow> rx list \<times> (handshake_error, byte list) result poll" where
  "read_exact n inb = (case read_loop (replicate n 0) 0 inb of
       (_, _, inb', Blocked) \<Rightarrow> (inb', Blocked)
     | (_, _, inb', Ready (Inl (FeIo e))) \<Rightarrow> (inb', Ready (Err (HeIo e)))
     | (_, _, inb', Ready (Inl _)) \<Rightarrow> (inb', Ready (Err (HeIo OtherIo)))
     | (buf, _, inb', Ready (Inr _)) \<Rightarrow> (inb', Ready (Ok buf)))"

type_synonym handshake_out =
  "byte list \<times> rx list \<times> (handshake_error, cipher_stream \<times> peer_auth) result poll"

definition hello1_bytes :: "byte \<Rightarrow> byte list \<Rightarrow> byte list \<Rightarrow> byte list" where
  "hello1_bytes flag eph_pk nonce = [PROTOCOL_VERSION, flag] @ eph_pk @ nonce"

definition hello2_bytes :: "byte list \<Rightarrow> byte list \<Rightarrow> byte list" where
  "hello2_bytes eph_pk nonce = eph_pk @ nonce"

definition check_expected ::
  "(string \<times> byte list) option \<Rightarrow> auth_frame \<Rightarrow> byte list \<Rightarrow> (handshake_error, peer_auth) result" where
  "check_expected expected frame peer_pk =
     (case expected of
        None \<Rightarrow> Ok (PeerAuthenticated (af_machine_id frame) peer_pk)
      | Some (want_id, want_pk) \<Rightarrow>
          if want_id \<noteq> af_machine_id frame then Err (HeUnexpectedPeer (af_machine_id frame) want_id)
          else if want_pk \<noteq> peer_pk then Err HeBadPeerSignature
          else Ok (PeerAuthenticated (af_machine_id frame) peer_pk))"

text \<open>The authenticated tail of \<^verbatim>\<open>initiate\<close>: send our frame, read and check theirs.\<close>

definition initiate_auth ::
  "('sk, 'xk) handshake_api \<Rightarrow> 'sk handshake_mode \<Rightarrow> (string \<times> byte list) option \<Rightarrow> byte list \<Rightarrow>
   cipher_stream \<Rightarrow> rx list \<Rightarrow> write_result \<Rightarrow> handshake_out" where
  "initiate_auth api mode expected transcript cipher inb w =
     (case mode of
        Anonymous \<Rightarrow> ([], inb, Ready (Ok (cipher\<lparr> cs_transcript := transcript \<rparr>, PeerAnonymous)))
      | Authenticated sk machine_id \<Rightarrow>
          (case send_auth_frame api cipher sk machine_id transcript w of
             (out, _, Inl e) \<Rightarrow> (out, inb, Ready (Err e))
           | (out, c1, Inr _) \<Rightarrow>
               (case recv_auth_frame api c1 inb of
                  (_, inb', Blocked) \<Rightarrow> (out, inb', Blocked)
                | (c2, inb', Ready r) \<Rightarrow>
                    (out, inb', Ready (and_then r (\<lambda>frame.
                       and_then (verify_auth_frame (hs_crypto api) frame transcript) (\<lambda>peer_pk.
                       and_then (check_expected expected frame peer_pk) (\<lambda>peer.
                         Ok (c2\<lparr> cs_transcript := transcript \<rparr>, peer)))))))))"

definition initiate ::
  "('sk, 'xk) handshake_api \<Rightarrow> 'sk handshake_mode \<Rightarrow> (string \<times> byte list) option \<Rightarrow> 'xk \<Rightarrow>
   byte list \<Rightarrow> rx list \<Rightarrow> write_result \<Rightarrow> write_result \<Rightarrow> handshake_out" where
  "initiate api mode expected our_eph_sk nonce_i inb w1 w2 =
     (let our_eph_pk = x_public api our_eph_sk;
          (out1, r1) = write_frame w1 (hello1_bytes (auth_flag mode) our_eph_pk nonce_i)
      in case r1 of
           Inl _ \<Rightarrow> (out1, inb, Ready (Err (HeIo (case w1 of WroteSome _ e \<Rightarrow> e | WroteAll \<Rightarrow> OtherIo))))
         | Inr _ \<Rightarrow>
             (case read_exact 48 inb of
                (inb1, Blocked) \<Rightarrow> (out1, inb1, Blocked)
              | (inb1, Ready (Inl e)) \<Rightarrow> (out1, inb1, Ready (Err e))
              | (inb1, Ready (Inr hello2)) \<Rightarrow>
                  let peer_eph_pk = take 32 hello2;
                      nonce_r = drop 32 hello2;
                      (transcript, cipher) = finalize_keys api True our_eph_sk peer_eph_pk
                        (auth_flag mode) our_eph_pk peer_eph_pk nonce_i nonce_r;
                      (out2, inb2, res) = initiate_auth api mode expected transcript cipher inb1 w2
                  in (out1 @ out2, inb2, res)))"

definition accept_auth ::
  "('sk, 'xk) handshake_api \<Rightarrow> 'sk handshake_mode \<Rightarrow> (string \<Rightarrow> byte list option) \<Rightarrow> byte list \<Rightarrow>
   cipher_stream \<Rightarrow> rx list \<Rightarrow> write_result \<Rightarrow> handshake_out" where
  "accept_auth api mode resolve_pubkey transcript cipher inb w =
     (case mode of
        Anonymous \<Rightarrow> ([], inb, Ready (Ok (cipher\<lparr> cs_transcript := transcript \<rparr>, PeerAnonymous)))
      | Authenticated sk machine_id \<Rightarrow>
          (case recv_auth_frame api cipher inb of
             (_, inb', Blocked) \<Rightarrow> ([], inb', Blocked)
           | (_, inb', Ready (Inl e)) \<Rightarrow> ([], inb', Ready (Err e))
           | (c1, inb', Ready (Inr frame)) \<Rightarrow>
               (case and_then (verify_auth_frame (hs_crypto api) frame transcript) (\<lambda>peer_pk.
                     and_then (ok_or (resolve_pubkey (af_machine_id frame)) HeUntrustedPeer) (\<lambda>want_pk.
                       if want_pk \<noteq> peer_pk then Err HeBadPeerSignature else Ok peer_pk)) of
                  Inl e \<Rightarrow> ([], inb', Ready (Err e))
                | Inr peer_pk \<Rightarrow>
                    (case send_auth_frame api c1 sk machine_id transcript w of
                       (out, _, Inl e) \<Rightarrow> (out, inb', Ready (Err e))
                     | (out, c2, Inr _) \<Rightarrow>
                         (out, inb', Ready (Ok (c2\<lparr> cs_transcript := transcript \<rparr>,
                            PeerAuthenticated (af_machine_id frame) peer_pk)))))))"

definition accept ::
  "('sk, 'xk) handshake_api \<Rightarrow> 'sk handshake_mode \<Rightarrow> (string \<Rightarrow> byte list option) \<Rightarrow> 'xk \<Rightarrow>
   byte list \<Rightarrow> rx list \<Rightarrow> write_result \<Rightarrow> write_result \<Rightarrow> handshake_out" where
  "accept api mode resolve_pubkey our_eph_sk nonce_r inb w1 w2 =
     (case read_exact 50 inb of
        (inb1, Blocked) \<Rightarrow> ([], inb1, Blocked)
      | (inb1, Ready (Inl e)) \<Rightarrow> ([], inb1, Ready (Err e))
      | (inb1, Ready (Inr hello1)) \<Rightarrow>
          if hello1 ! 0 \<noteq> PROTOCOL_VERSION then ([], inb1, Ready (Err (HeBadVersion (hello1 ! 0))))
          else if hello1 ! 1 \<noteq> auth_flag mode then ([], inb1, Ready (Err HeAuthModeMismatch))
          else
            let peer_eph_pk = take 32 (drop 2 hello1);
                nonce_i = drop 34 hello1;
                our_eph_pk = x_public api our_eph_sk;
                (out1, r1) = write_frame w1 (hello2_bytes our_eph_pk nonce_r)
            in case r1 of
                 Inl _ \<Rightarrow> (out1, inb1, Ready (Err (HeIo (case w1 of WroteSome _ e \<Rightarrow> e | WroteAll \<Rightarrow> OtherIo))))
               | Inr _ \<Rightarrow>
                   let (transcript, cipher) = finalize_keys api False our_eph_sk peer_eph_pk
                         (auth_flag mode) peer_eph_pk our_eph_pk nonce_i nonce_r;
                       (out2, inb2, res) = accept_auth api mode resolve_pubkey transcript cipher inb1 w2
                   in (out1 @ out2, inb2, res))"

subsection \<open>Mirrored ends of a channel\<close>

definition mirrored :: "cipher_stream \<Rightarrow> cipher_stream \<Rightarrow> bool" where
  "mirrored s r \<longleftrightarrow>
     matching (snd (split_stream s)) (fst (split_stream r)) \<and>
     matching (snd (split_stream r)) (fst (split_stream s)) \<and>
     pf_idle (cs_recv_frame s) \<and> pf_idle (cs_recv_frame r) \<and> cs_transcript s = cs_transcript r"

lemma mirrored_sym: "mirrored s r \<Longrightarrow> mirrored r s"
  by (simp add: mirrored_def)

lemma mirrored_set_transcript:
  "mirrored s r \<Longrightarrow> mirrored (s\<lparr> cs_transcript := t \<rparr>) (r\<lparr> cs_transcript := t \<rparr>)"
  by (simp add: mirrored_def split_stream_def)

lemma finalize_keys_mirrored:
  assumes "x_dh api ski pr = x_dh api skr pi"
    and "finalize_keys api True ski pr flag pi pr ni nr = (ti, ci)"
    and "finalize_keys api False skr pi flag pi pr ni nr = (tr, cr)"
  shows "ti = tr \<and> mirrored ci cr \<and> cs_send_counter ci = 0 \<and> cs_send_counter cr = 0"
  using assms
  by (auto simp: finalize_keys_def Let_def mirrored_def matching_def split_stream_def
      cipher_stream_new_def pf_idle_default)

lemma stream_exchange:
  assumes law: "aead_law a" and mir: "mirrored s r"
    and send: "stream_send a s p WroteAll = (out, s', Ok ())"
    and data: "list_all is_data inb" "data_bytes inb = out @ rest"
  shows "\<exists>r' inb'. stream_recv a r inb = (r', inb', Ready (Ok p)) \<and> mirrored s' r'
       \<and> list_all is_data inb' \<and> data_bytes inb' = rest \<and> snd (split_stream r') = snd (split_stream r)"
proof -
  let ?w = "snd (split_stream s)" and ?r = "fst (split_stream r)"
  obtain w' where w': "writer_send a ?w p WroteAll = (out, w', Ok ())"
      "s' = s\<lparr> cs_send_counter := cw_counter w' \<rparr>"
    using send by (auto simp: stream_send_split split: prod.splits)
  then obtain ct n where ct: "length p \<le> MAX_FRAME_BYTES"
      "aead_encrypt a (cw_key ?w) (build_nonce (cw_prefix ?w) (cw_counter ?w)) p = Some ct"
      "checked_add1 (cw_counter ?w) = Some n" "out = prefixed ct" "w' = ?w\<lparr> cw_counter := n \<rparr>"
    by (auto simp: writer_send_Ok)
  have m: "matching ?w ?r" "pf_idle (cr_frame ?r)"
    using mir by (auto simp: mirrored_def split_stream_def)
  obtain r1 inb' where r1: "reader_recv a ?r inb = (r1, inb', Ready (Ok p))"
      "matching (?w\<lparr> cw_counter := n \<rparr>) r1" "pf_idle (cr_frame r1)"
      "list_all is_data inb'" "data_bytes inb' = rest"
    using reader_recv_sent [OF law m data(1) _ ct(1-3), of rest] data(2) ct(4) by auto
  have "stream_recv a r inb = (with_reader r r1, inb', Ready (Ok p))"
    using r1(1) by (simp add: stream_recv_split)
  moreover have "mirrored s' (with_reader r r1)"
    using mir r1(2,3) w'(2) ct(5) reader_recv_keeps [OF r1(1)]
    by (simp add: mirrored_def matching_def split_stream_def with_reader_def)
  ultimately show ?thesis
    using r1(4,5) by (auto simp: with_reader_def split_stream_def)
qed

lemma stream_send_succeeds:
  assumes "aead_encrypt a (cs_send_key s) (build_nonce (cs_send_prefix s) 0) p \<noteq> None"
    and "length p \<le> MAX_FRAME_BYTES" and "cs_send_counter s = 0"
  obtains out s' where "stream_send a s p WroteAll = (out, s', Ok ())"
proof -
  have "\<exists>out s'. stream_send a s p WroteAll = (out, s', Ok ())"
    using assms by (auto simp: stream_send_def write_frame_def checked_add1_def Let_def)
  then show ?thesis using that by blast
qed

lemma read_exact_data:
  assumes "list_all is_data inb" and "data_bytes inb = bs @ rest" and "length bs = n"
  shows "\<exists>inb'. read_exact n inb = (inb', Ready (Ok bs)) \<and> list_all is_data inb' \<and> data_bytes inb' = rest"
  using read_loop_filled [OF assms(1), of 0 "replicate n 0"] assms(2,3)
  by (auto simp: read_exact_def)

lemma verify_our_auth_frame:
  assumes "hex_law c" and "sign_law c"
  shows "verify_auth_frame c (our_auth_frame c sk i t) t = Ok (ed_public c sk)"
  using assms by (simp add: verify_auth_frame_def our_auth_frame_def hex_law_def sign_law_def)

subsection \<open>Two honest machines\<close>

text \<open>Documented behaviour of the primitives; and that an auth frame of a given machine serialises
  within the limit.\<close>

definition channel_laws :: "('sk, 'xk) handshake_api \<Rightarrow> bool" where
  "channel_laws api \<longleftrightarrow> aead_law (hs_aead api)
     \<and> (\<forall>k n m. aead_encrypt (hs_aead api) k n m \<noteq> None)
     \<and> (\<forall>f b. auth_to_vec api f = Some b \<longrightarrow> auth_from_slice api b = Some f)"

definition dh_laws :: "('sk, 'xk) handshake_api \<Rightarrow> bool" where
  "dh_laws api \<longleftrightarrow> (\<forall>s. length (x_public api s) = 32)
     \<and> (\<forall>s t. x_dh api s (x_public api t) = x_dh api t (x_public api s))"

lemma dh_pub_length: "dh_laws api \<Longrightarrow> length (x_public api s) = 32"
  unfolding dh_laws_def by blast

lemma dh_commute: "dh_laws api \<Longrightarrow> x_dh api s (x_public api t) = x_dh api t (x_public api s)"
  unfolding dh_laws_def by blast

definition auth_fits :: "('sk, 'xk) handshake_api \<Rightarrow> 'sk \<Rightarrow> string \<Rightarrow> bool" where
  "auth_fits api sk machine_id \<longleftrightarrow> (\<forall>t. \<exists>b.
     auth_to_vec api (our_auth_frame (hs_crypto api) sk machine_id t) = Some b
     \<and> length b \<le> MAX_AUTH_FRAME_BYTES)"

lemma send_auth_ok:
  assumes laws: "channel_laws api" and fits: "auth_fits api sk machine_id" and cnt: "cs_send_counter s = 0"
  obtains body out s' where
    "auth_to_vec api (our_auth_frame (hs_crypto api) sk machine_id t) = Some body"
    "auth_from_slice api body = Some (our_auth_frame (hs_crypto api) sk machine_id t)"
    "length body \<le> MAX_AUTH_FRAME_BYTES"
    "stream_send (hs_aead api) s body WroteAll = (out, s', Ok ())"
    "send_auth_frame api s sk machine_id t WroteAll = (out, s', Ok ())"
proof -
  obtain body where body: "auth_to_vec api (our_auth_frame (hs_crypto api) sk machine_id t) = Some body"
      "length body \<le> MAX_AUTH_FRAME_BYTES"
    using fits by (auto simp: auth_fits_def)
  obtain out s' where "stream_send (hs_aead api) s body WroteAll = (out, s', Ok ())"
    using laws cnt body(2)
    by (auto simp: channel_laws_def MAX_AUTH_FRAME_BYTES_def MAX_FRAME_BYTES_def
        intro: stream_send_succeeds [of "hs_aead api" s body])
  moreover have "auth_from_slice api body = Some (our_auth_frame (hs_crypto api) sk machine_id t)"
    using body(1) laws by (simp add: channel_laws_def)
  ultimately show ?thesis
    using that [of body out s'] body by (simp add: send_auth_frame_def)
qed

lemma stream_send_same_half:
  assumes "snd (split_stream r') = snd (split_stream r)" and "stream_send a r p w = (out, s, res)"
  shows "\<exists>s'. stream_send a r' p w = (out, s', res)"
  using assms by (auto simp: stream_send_split split: prod.splits)

lemma recv_auth_ok:
  assumes laws: "channel_laws api" and mir: "mirrored s r"
    and send: "stream_send (hs_aead api) s body WroteAll = (out, s', Ok ())"
    and body: "auth_from_slice api body = Some frame" "length body \<le> MAX_AUTH_FRAME_BYTES"
    and data: "list_all is_data inb" "data_bytes inb = out @ rest"
  shows "\<exists>r' inb'. recv_auth_frame api r inb = (r', inb', Ready (Ok frame)) \<and> mirrored s' r'
       \<and> list_all is_data inb' \<and> data_bytes inb' = rest \<and> snd (split_stream r') = snd (split_stream r)"
proof -
  have "aead_law (hs_aead api)" using laws by (simp add: channel_laws_def)
  from stream_exchange [OF this mir send data] show ?thesis
    using body by (auto simp: recv_auth_frame_def decode_auth_frame_def)
qed

lemma initiate_run:
  assumes "length nonce_r = 16" and "length (x_public api eph_r) = 32"
    and "finalize_keys api True eph_i (x_public api eph_r) (auth_flag (Authenticated sk_i id_i))
           (x_public api eph_i) (x_public api eph_r) nonce_i nonce_r = (t, c0)"
    and "list_all is_data inb" and "data_bytes inb = hello2_bytes (x_public api eph_r) nonce_r @ in_r"
    and "send_auth_frame api c0 sk_i id_i t WroteAll = (out_i, c1, Ok ())"
    and "\<And>inb'. list_all is_data inb' \<Longrightarrow> data_bytes inb' = in_r \<Longrightarrow>
           \<exists>c2 rest. recv_auth_frame api c1 inb' = (c2, rest, Ready (Ok frame)) \<and> P c2 rest"
    and "verify_auth_frame (hs_crypto api) frame t = Ok pk" and "af_machine_id frame = id_r"
  shows "\<exists>c2 rest. initiate api (Authenticated sk_i id_i) (Some (id_r, pk)) eph_i nonce_i inb WroteAll WroteAll
      = (hello1_bytes 1 (x_public api eph_i) nonce_i @ out_i, rest,
         Ready (Ok (c2\<lparr> cs_transcript := t \<rparr>, PeerAuthenticated id_r pk))) \<and> P c2 rest"
proof -
  obtain inb1 where one: "read_exact 48 inb = (inb1, Ready (Ok (hello2_bytes (x_public api eph_r) nonce_r)))"
      "list_all is_data inb1" "data_bytes inb1 = in_r"
    using read_exact_data [OF assms(4,5)] assms(1,2) by (auto simp: hello2_bytes_def)
  obtain c2 rest where two: "recv_auth_frame api c1 inb1 = (c2, rest, Ready (Ok frame))" "P c2 rest"
    using assms(7) [OF one(2,3)] by blast
  have h2: "take 32 (hello2_bytes (x_public api eph_r) nonce_r) = x_public api eph_r"
      "drop 32 (hello2_bytes (x_public api eph_r) nonce_r) = nonce_r"
    using assms(1,2) by (simp_all add: hello2_bytes_def)
  show ?thesis
    using one(1) two assms(3,6,8,9)
    by (simp add: initiate_def initiate_auth_def write_frame_def h2 check_expected_def) blast
qed

lemma accept_run:
  assumes "length nonce_i = 16" and "length (x_public api eph_i) = 32"
    and "finalize_keys api False eph_r (x_public api eph_i) (auth_flag (Authenticated sk_r id_r))
           (x_public api eph_i) (x_public api eph_r) nonce_i nonce_r = (t, c0)"
    and "list_all is_data inb" and "data_bytes inb = hello1_bytes 1 (x_public api eph_i) nonce_i @ in_i"
    and "\<And>inb'. list_all is_data inb' \<Longrightarrow> data_bytes inb' = in_i \<Longrightarrow>
           \<exists>c1 c2 rest. recv_auth_frame api c0 inb' = (c1, rest, Ready (Ok frame))
             \<and> send_auth_frame api c1 sk_r id_r t WroteAll = (out_r, c2, Ok ()) \<and> P c2 rest"
    and "verify_auth_frame (hs_crypto api) frame t = Ok pk" and "resolve (af_machine_id frame) = Some pk"
  shows "\<exists>c2 rest. accept api (Authenticated sk_r id_r) resolve eph_r nonce_r inb WroteAll WroteAll
      = (hello2_bytes (x_public api eph_r) nonce_r @ out_r, rest,
         Ready (Ok (c2\<lparr> cs_transcript := t \<rparr>, PeerAuthenticated (af_machine_id frame) pk))) \<and> P c2 rest"
proof -
  let ?h1 = "hello1_bytes 1 (x_public api eph_i) nonce_i"
  obtain inb1 where one: "read_exact 50 inb = (inb1, Ready (Ok ?h1))"
      "list_all is_data inb1" "data_bytes inb1 = in_i"
    using read_exact_data [OF assms(4,5)] assms(1,2) by (auto simp: hello1_bytes_def)
  obtain c1 c2 rest where two: "recv_auth_frame api c0 inb1 = (c1, rest, Ready (Ok frame))"
      "send_auth_frame api c1 sk_r id_r t WroteAll = (out_r, c2, Ok ())" "P c2 rest"
    using assms(6) [OF one(2,3)] by blast
  have h1: "?h1 ! 0 = PROTOCOL_VERSION" "?h1 ! 1 = 1" "take 32 (drop 2 ?h1) = x_public api eph_i"
      "drop 34 ?h1 = nonce_i"
    using assms(1,2) by (simp_all add: hello1_bytes_def)
  show ?thesis
    using one(1) two assms(3,7,8)
    by (simp add: accept_def accept_auth_def write_frame_def h1 del: One_nat_def) blast
qed

text \<open>The two auth frames over mirrored fresh streams, for any chunking of either and whatever follows them.\<close>

definition reply_read ::
  "('sk, 'xk) handshake_api \<Rightarrow> cipher_stream \<Rightarrow> cipher_stream \<Rightarrow> auth_frame \<Rightarrow> byte list \<Rightarrow> bool" where
  "reply_read api ci1 c2 frame out_r \<longleftrightarrow> (\<forall>inb tl. list_all is_data inb \<and> data_bytes inb = out_r @ tl \<longrightarrow> (\<exists>c3 rest.
      recv_auth_frame api ci1 inb = (c3, rest, Ready (Ok frame)) \<and> mirrored c2 c3
      \<and> list_all is_data rest \<and> data_bytes rest = tl \<and> snd (split_stream c3) = snd (split_stream ci1)))"

lemma stream_send_half:
  "stream_send a r p w = (out, s, Ok ()) \<Longrightarrow> stream_send a r' p w = (out, s', Ok ()) \<Longrightarrow>
   snd (split_stream r') = snd (split_stream r) \<Longrightarrow> snd (split_stream s') = snd (split_stream s)"
  by (auto simp: stream_send_split split_stream_def split: prod.splits)

lemma stream_send_counter:
  "stream_send a r p w = (out, s, Ok ()) \<Longrightarrow> cs_send_counter s = cs_send_counter r + 1"
  by (auto simp: stream_send_def checked_add1_def Let_def split: if_splits option.splits prod.splits sum.splits)

lemma auth_exchange:
  assumes laws: "channel_laws api" and fits: "auth_fits api sk_i id_i" "auth_fits api sk_r id_r"
    and mir: "mirrored ci0 cr0" and cnt: "cs_send_counter ci0 = 0" "cs_send_counter cr0 = 0"
  obtains out_i out_r ci1 cr1 where
    "send_auth_frame api ci0 sk_i id_i t WroteAll = (out_i, ci1, Ok ())"
    "cs_send_counter ci1 = 1" "cs_send_counter cr1 = 1"
    "\<And>inb tl. list_all is_data inb \<Longrightarrow> data_bytes inb = out_i @ tl \<Longrightarrow> \<exists>c1 c2 rest.
       recv_auth_frame api cr0 inb = (c1, rest, Ready (Ok (our_auth_frame (hs_crypto api) sk_i id_i t)))
     \<and> send_auth_frame api c1 sk_r id_r t WroteAll = (out_r, c2, Ok ())
     \<and> list_all is_data rest \<and> data_bytes rest = tl \<and> snd (split_stream c2) = snd (split_stream cr1)
     \<and> reply_read api ci1 c2 (our_auth_frame (hs_crypto api) sk_r id_r t) out_r"
proof -
  let ?c = "hs_crypto api" and ?a = "hs_aead api"
  obtain b_i out_i ci1 where si: "auth_to_vec api (our_auth_frame ?c sk_i id_i t) = Some b_i"
      "auth_from_slice api b_i = Some (our_auth_frame ?c sk_i id_i t)"
      "length b_i \<le> MAX_AUTH_FRAME_BYTES" "stream_send ?a ci0 b_i WroteAll = (out_i, ci1, Ok ())"
      "send_auth_frame api ci0 sk_i id_i t WroteAll = (out_i, ci1, Ok ())"
    using send_auth_ok [OF laws fits(1) cnt(1)] by blast
  obtain b_r out_r cr1 where sr: "auth_to_vec api (our_auth_frame ?c sk_r id_r t) = Some b_r"
      "auth_from_slice api b_r = Some (our_auth_frame ?c sk_r id_r t)"
      "length b_r \<le> MAX_AUTH_FRAME_BYTES" "stream_send ?a cr0 b_r WroteAll = (out_r, cr1, Ok ())"
      "send_auth_frame api cr0 sk_r id_r t WroteAll = (out_r, cr1, Ok ())"
    using send_auth_ok [OF laws fits(2) cnt(2)] by blast
  have resp: "\<exists>c1 c2 rest.
       recv_auth_frame api cr0 inb = (c1, rest, Ready (Ok (our_auth_frame ?c sk_i id_i t)))
     \<and> send_auth_frame api c1 sk_r id_r t WroteAll = (out_r, c2, Ok ())
     \<and> list_all is_data rest \<and> data_bytes rest = tl \<and> snd (split_stream c2) = snd (split_stream cr1)
     \<and> reply_read api ci1 c2 (our_auth_frame ?c sk_r id_r t) out_r"
    if d: "list_all is_data inb" "data_bytes inb = out_i @ tl" for inb tl
  proof -
    obtain c1 rest where r: "recv_auth_frame api cr0 inb = (c1, rest, Ready (Ok (our_auth_frame ?c sk_i id_i t)))"
        "mirrored ci1 c1" "snd (split_stream c1) = snd (split_stream cr0)" "list_all is_data rest" "data_bytes rest = tl"
      using recv_auth_ok [OF laws mir si(4,2,3) d] by auto
    obtain c2 where c2: "stream_send ?a c1 b_r WroteAll = (out_r, c2, Ok ())"
      using stream_send_same_half [OF r(3) sr(4)] by blast
    then have "send_auth_frame api c1 sk_r id_r t WroteAll = (out_r, c2, Ok ())"
      using sr(1) by (simp add: send_auth_frame_def)
    moreover have "reply_read api ci1 c2 (our_auth_frame ?c sk_r id_r t) out_r"
      unfolding reply_read_def using recv_auth_ok [OF laws mirrored_sym [OF r(2)] c2 sr(2,3)] by blast
    ultimately show ?thesis using r stream_send_half [OF sr(4) c2 r(3)] by blast
  qed
  show ?thesis
    by (rule that [OF si(5) _ _ resp]) (use stream_send_counter [OF si(4)] stream_send_counter [OF sr(4)] cnt in simp_all)
qed

lemma split_set_transcript [simp]: "split_stream (c\<lparr> cs_transcript := t \<rparr>) = split_stream c"
  by (simp add: split_stream_def)

lemma finalize_keys_transcript:
  "finalize_keys api b sk pk f ip rp ni nr = (t, c) \<Longrightarrow>
   t = sha256 (hs_crypto api) (transcript_bytes f ip ni rp nr)"
  by (simp add: finalize_keys_def Let_def split: prod.splits)

definition session_transcript ::
  "('sk, 'xk) handshake_api \<Rightarrow> 'xk \<Rightarrow> byte list \<Rightarrow> 'xk \<Rightarrow> byte list \<Rightarrow> byte list" where
  "session_transcript api eph_i nonce_i eph_r nonce_r =
     sha256 (hs_crypto api) (transcript_bytes 1 (x_public api eph_i) nonce_i (x_public api eph_r) nonce_r)"

definition proves :: "'sk crypto \<Rightarrow> 'sk \<Rightarrow> string \<Rightarrow> byte list \<Rightarrow> bool" where
  "proves c sk i t \<longleftrightarrow> verify_auth_frame c (our_auth_frame c sk i t) t = Ok (ed_public c sk)"

text \<open>Both ends of the handshake, on any chunking of their messages and of whatever follows them.\<close>

lemma handshake_streams:
  assumes laws: "channel_laws api" and dh: "dh_laws api"
    and ver: "proves (hs_crypto api) sk_i id_i (session_transcript api eph_i nonce_i eph_r nonce_r)"
      "proves (hs_crypto api) sk_r id_r (session_transcript api eph_i nonce_i eph_r nonce_r)"
    and fits: "auth_fits api sk_i id_i" "auth_fits api sk_r id_r"
    and nonces: "length nonce_i = 16" "length nonce_r = 16"
    and trust: "resolve id_i = Some (ed_public (hs_crypto api) sk_i)"
  obtains o_i o_r s_i s_r where "cs_send_counter s_i = 1" "cs_send_counter s_r = 1"
    "\<And>inb_i inb_r tl_i tl_r. list_all is_data inb_i \<Longrightarrow> data_bytes inb_i = o_r @ tl_i \<Longrightarrow>
      list_all is_data inb_r \<Longrightarrow> data_bytes inb_r = o_i @ tl_r \<Longrightarrow>
      \<exists>c_i c_r rest_i rest_r.
         initiate api (Authenticated sk_i id_i) (Some (id_r, ed_public (hs_crypto api) sk_r)) eph_i nonce_i
           inb_i WroteAll WroteAll
         = (o_i, rest_i, Ready (Ok (c_i, PeerAuthenticated id_r (ed_public (hs_crypto api) sk_r))))
       \<and> accept api (Authenticated sk_r id_r) resolve eph_r nonce_r inb_r WroteAll WroteAll
         = (o_r, rest_r, Ready (Ok (c_r, PeerAuthenticated id_i (ed_public (hs_crypto api) sk_i))))
       \<and> mirrored c_i c_r \<and> snd (split_stream c_i) = snd (split_stream s_i) \<and> snd (split_stream c_r) = snd (split_stream s_r)
       \<and> list_all is_data rest_i \<and> data_bytes rest_i = tl_i \<and> list_all is_data rest_r \<and> data_bytes rest_r = tl_r"
proof -
  let ?c = "hs_crypto api" and ?pi = "x_public api eph_i" and ?pr = "x_public api eph_r"
  have pub: "length ?pi = 32" "length ?pr = 32"
    using dh by (simp_all add: dh_pub_length)
  obtain t ci0 where fi:
      "finalize_keys api True eph_i ?pr (auth_flag (Authenticated sk_i id_i)) ?pi ?pr nonce_i nonce_r = (t, ci0)"
    by fastforce
  obtain t' cr0 where fr:
      "finalize_keys api False eph_r ?pi (auth_flag (Authenticated sk_r id_r)) ?pi ?pr nonce_i nonce_r = (t', cr0)"
    by fastforce
  have "x_dh api eph_i ?pr = x_dh api eph_r ?pi" by (rule dh_commute [OF dh])
  from finalize_keys_mirrored [OF this fi [unfolded auth_flag.simps] fr [unfolded auth_flag.simps]]
  have t: "t' = t" and mir: "mirrored ci0 cr0" "cs_send_counter ci0 = 0" "cs_send_counter cr0 = 0"
    by simp_all
  let ?fi = "our_auth_frame ?c sk_i id_i t" and ?fr = "our_auth_frame ?c sk_r id_r t"
  have "t = session_transcript api eph_i nonce_i eph_r nonce_r"
    using finalize_keys_transcript [OF fi] by (simp add: session_transcript_def)
  then have v: "verify_auth_frame ?c ?fi t = Ok (ed_public ?c sk_i)" "verify_auth_frame ?c ?fr t = Ok (ed_public ?c sk_r)"
    using ver by (simp_all add: proves_def)
  have ids: "af_machine_id (our_auth_frame ?c sk i t) = i" for sk i
    by (simp add: our_auth_frame_def)
  show ?thesis
  proof (rule auth_exchange [OF laws fits mir, where t = t], goal_cases)
    case ex: (1 out_i out_r ci1 cr1)
    show ?thesis
    proof (rule that [OF ex(2,3), of "hello2_bytes ?pr nonce_r @ out_r" "hello1_bytes 1 ?pi nonce_i @ out_i"], goal_cases)
      case d: (1 inb_i inb_r tl_i tl_r)
      obtain c2 rest_r where acc:
          "accept api (Authenticated sk_r id_r) resolve eph_r nonce_r inb_r WroteAll WroteAll
           = (hello2_bytes ?pr nonce_r @ out_r, rest_r, Ready (Ok (c2\<lparr> cs_transcript := t \<rparr>, PeerAuthenticated id_i (ed_public ?c sk_i))))"
          "list_all is_data rest_r \<and> data_bytes rest_r = tl_r \<and> snd (split_stream c2) = snd (split_stream cr1)
           \<and> reply_read api ci1 c2 ?fr out_r"
        using accept_run [where P = "\<lambda>c2 rest. list_all is_data rest \<and> data_bytes rest = tl_r
            \<and> snd (split_stream c2) = snd (split_stream cr1) \<and> reply_read api ci1 c2 ?fr out_r",
          OF nonces(1) pub(1) fr [unfolded t] d(3) d(4) [unfolded append_assoc] ex(4) v(1), of resolve] trust
        by (auto simp: ids)
      have reply: "\<exists>c3 rest. recv_auth_frame api ci1 inb = (c3, rest, Ready (Ok ?fr)) \<and> mirrored c2 c3 \<and> list_all is_data rest
          \<and> data_bytes rest = tl_i \<and> snd (split_stream c3) = snd (split_stream ci1)"
        if "list_all is_data inb" "data_bytes inb = out_r @ tl_i" for inb
        using acc(2) that unfolding reply_read_def by blast
      obtain c3 rest_i where ini:
          "initiate api (Authenticated sk_i id_i) (Some (id_r, ed_public ?c sk_r)) eph_i nonce_i inb_i WroteAll WroteAll
           = (hello1_bytes 1 ?pi nonce_i @ out_i, rest_i, Ready (Ok (c3\<lparr> cs_transcript := t \<rparr>, PeerAuthenticated id_r (ed_public ?c sk_r))))"
          "mirrored c2 c3 \<and> list_all is_data rest_i \<and> data_bytes rest_i = tl_i \<and> snd (split_stream c3) = snd (split_stream ci1)"
        using initiate_run [where P = "\<lambda>c3 rest. mirrored c2 c3 \<and> list_all is_data rest \<and> data_bytes rest = tl_i
            \<and> snd (split_stream c3) = snd (split_stream ci1)",
          OF nonces(2) pub(2) fi d(1) d(2) [unfolded append_assoc] ex(1) reply v(2) ids]
        by blast
      show ?case
        using acc ini mirrored_set_transcript [OF mirrored_sym] unfolding split_set_transcript
        by (intro exI [of _ "c3\<lparr> cs_transcript := t \<rparr>"] exI [of _ "c2\<lparr> cs_transcript := t \<rparr>"] exI [of _ rest_i] exI [of _ rest_r]) simp
    qed
  qed
qed

text \<open>C17. Two honest machines that know each other's keys complete the handshake, however the
  network cuts their messages and whatever follows them: each learns the other's identity, both hold the same transcript
  hash, each one's sending key, nonce prefix and counter are the other's receiving ones, and no byte that follows
  the handshake is lost.\<close>

theorem handshake_completes:
  assumes "channel_laws api" and "dh_laws api"
    and "hex_law (hs_crypto api)" and "sign_law (hs_crypto api)" and "auth_fits api sk_i id_i" and "auth_fits api sk_r id_r"
    and "length nonce_i = 16" and "length nonce_r = 16"
    and "resolve id_i = Some (ed_public (hs_crypto api) sk_i)"
  shows "\<exists>o_i o_r. \<forall>inb_i inb_r tl_i tl_r.
      list_all is_data inb_i \<and> data_bytes inb_i = o_r @ tl_i \<and> list_all is_data inb_r \<and> data_bytes inb_r = o_i @ tl_r \<longrightarrow>
      (\<exists>c_i c_r rest_i rest_r.
         initiate api (Authenticated sk_i id_i) (Some (id_r, ed_public (hs_crypto api) sk_r)) eph_i nonce_i
           inb_i WroteAll WroteAll
         = (o_i, rest_i, Ready (Ok (c_i, PeerAuthenticated id_r (ed_public (hs_crypto api) sk_r))))
       \<and> accept api (Authenticated sk_r id_r) resolve eph_r nonce_r inb_r WroteAll WroteAll
         = (o_r, rest_r, Ready (Ok (c_r, PeerAuthenticated id_i (ed_public (hs_crypto api) sk_i))))
       \<and> mirrored c_i c_r \<and> data_bytes rest_i = tl_i \<and> data_bytes rest_r = tl_r)"
proof (rule handshake_streams [where resolve = resolve and id_i = id_i and id_r = id_r and eph_i = eph_i and eph_r = eph_r,
    OF assms(1,2) _ _ assms(5-9)], goal_cases)
  case 1
  show ?case using assms(3,4) by (simp add: proves_def verify_our_auth_frame)
next
  case 2
  show ?case using assms(3,4) by (simp add: proves_def verify_our_auth_frame)
next
  case (3 o_i o_r s_i s_r)
  show ?case by (rule exI [of _ o_i], rule exI [of _ o_r]) (use 3(3) in blast)
qed

definition demo_frame :: "byte \<Rightarrow> string \<Rightarrow> auth_frame" where
  "demo_frame sk i = our_auth_frame demo_crypto sk i []"

definition demo_api :: "(byte, byte) handshake_api" where
  "demo_api = \<lparr> hs_crypto = demo_crypto, hs_aead = demo_aead, x_public = (\<lambda>k. replicate 32 k),
     x_dh = (\<lambda>s p. [s * hd p]), hkdf72 = (\<lambda>t k i. replicate 72 0),
     auth_to_vec = (\<lambda>f. if f = demo_frame 5 ''a'' then Some [1]
                        else if f = demo_frame 7 ''b'' then Some [2] else None),
     auth_from_slice = (\<lambda>b. if b = [1] then Some (demo_frame 5 ''a'')
                        else if b = [2] then Some (demo_frame 7 ''b'') else None) \<rparr>"

lemma demo_api_simps [simp]:
  "hs_crypto demo_api = demo_crypto" "hs_aead demo_api = demo_aead"
  by (simp_all add: demo_api_def)

lemma demo_channel_laws: "channel_laws demo_api"
proof -
  have "auth_from_slice demo_api b = Some f" if "auth_to_vec demo_api f = Some b" for f b
    using that by (auto simp: demo_api_def split: if_splits)
  moreover have "aead_encrypt demo_aead k n m \<noteq> None" for k n m
    by (simp add: demo_aead_def)
  ultimately show ?thesis
    using demo_aead_law by (simp add: channel_laws_def)
qed

lemma demo_dh_laws: "dh_laws demo_api"
  by (simp add: dh_laws_def demo_api_def mult.commute)

lemma demo_auth_fits: "auth_fits demo_api 5 ''a''" "auth_fits demo_api 7 ''b''"
proof -
  have "our_auth_frame demo_crypto k i t = demo_frame k i" for k i t
    by (simp add: demo_frame_def our_auth_frame_def demo_crypto_def)
  then show "auth_fits demo_api 5 ''a''" "auth_fits demo_api 7 ''b''"
    unfolding auth_fits_def demo_api_simps by (simp_all add: demo_api_def MAX_AUTH_FRAME_BYTES_def)
qed

theorem handshake_completes_witness:
  "\<exists>o_i o_r c_i rest. initiate demo_api (Authenticated 5 ''a'') (Some (''b'', replicate 32 7)) 2
      (replicate 16 1) [Data o_r] WroteAll WroteAll
    = (o_i, rest, Ready (Ok (c_i, PeerAuthenticated ''b'' (replicate 32 7))))"
proof -
  have pk: "ed_public demo_crypto k = replicate 32 k" for k by (simp add: demo_crypto_def)
  have n: "length (replicate 16 (1 :: byte)) = 16" "length (replicate 16 (2 :: byte)) = 16" by simp_all
  have hex: "hex_law (hs_crypto demo_api)" "sign_law (hs_crypto demo_api)"
    by (simp_all add: demo_hex_law demo_sign_law)
  define res :: "string \<Rightarrow> byte list option"
    where "res = (\<lambda>i. if i = ''a'' then Some (replicate 32 5) else None)"
  have "res ''a'' = Some (ed_public (hs_crypto demo_api) 5)"
    by (simp add: res_def pk)
  from handshake_completes [where resolve = res and eph_i = 2 and eph_r = 3,
      OF demo_channel_laws demo_dh_laws hex demo_auth_fits n this]
  show ?thesis
    apply (elim exE)
    subgoal for o_i o_r
      apply (drule spec [of _ "[Data o_r]"], drule spec [of _ "[Data o_i]"], drule spec [of _ "[]"], drule spec [of _ "[]"], drule mp)
       apply simp
      apply (simp only: pk demo_api_simps)
      apply blast
      done
    done
qed

subsection \<open>Against an active attacker\<close>

text \<open>The keys and prefixes of a stream, which the data phase never changes.\<close>

definition stream_keys :: "cipher_stream \<Rightarrow> aead_key \<times> aead_key \<times> byte list \<times> byte list" where
  "stream_keys s = (cs_send_key s, cs_recv_key s, cs_send_prefix s, cs_recv_prefix s)"

definition flip_keys :: "aead_key \<times> aead_key \<times> byte list \<times> byte list \<Rightarrow> aead_key \<times> aead_key \<times> byte list \<times> byte list" where
  "flip_keys k = (case k of (a, b, c, d) \<Rightarrow> (b, a, d, c))"

lemma stream_keys_send: "stream_send a s p w = (out, s', r) \<Longrightarrow> stream_keys s' = stream_keys s"
  by (auto simp: stream_send_split stream_keys_def split: prod.splits)

lemma stream_keys_recv: "stream_recv a s inb = (s', inb', r) \<Longrightarrow> stream_keys s' = stream_keys s"
  by (auto simp: stream_recv_split stream_keys_def with_reader_def split: prod.splits)

lemma stream_keys_transcript [simp]: "stream_keys (s\<lparr> cs_transcript := t \<rparr>) = stream_keys s"
  by (simp add: stream_keys_def)

lemma send_auth_keys: "send_auth_frame api s sk i t w = (out, s', r) \<Longrightarrow> stream_keys s' = stream_keys s"
  by (auto simp: send_auth_frame_def split: option.splits prod.splits dest: stream_keys_send)

lemma recv_auth_keys: "recv_auth_frame api s inb = (s', inb', r) \<Longrightarrow> stream_keys s' = stream_keys s"
  by (auto simp: recv_auth_frame_def split: prod.splits poll.splits dest: stream_keys_recv)

lemma read_exact_length: "read_exact n inb = (inb', Ready (Ok bs)) \<Longrightarrow> length bs = n"
  using read_loop_extend [of "replicate n 0" 0 inb]
  by (fastforce simp: read_exact_def split: prod.splits poll.splits sum.splits frame_error.splits)

lemma verify_auth_frame_Ok:
  "verify_auth_frame c f t = Ok pk \<Longrightarrow> \<exists>sg. ed_verify c pk t sg"
  by (auto simp: verify_auth_frame_def result_iffs split: if_splits)

lemma check_expected_Ok:
  "check_expected (Some (i, k)) f pk = Ok peer \<Longrightarrow> pk = k \<and> peer = PeerAuthenticated i k"
  by (auto simp: check_expected_def split: if_splits)

lemma transcript_bytes_inject:
  assumes "transcript_bytes f a b c d = transcript_bytes f' a' b' c' d'"
    and "length a = length a'" "length b = length b'" "length c = length c'"
  shows "f = f' \<and> a = a' \<and> b = b' \<and> c = c' \<and> d = d'"
  using assms by (simp add: transcript_bytes_def)

lemma initiate_auth_Ok:
  assumes "initiate_auth api (Authenticated sk i) (Some (pid, ppk)) t c0 inb w = (out, rest, Ready (Ok (c, peer)))"
  shows "peer = PeerAuthenticated pid ppk \<and> stream_keys c = stream_keys c0 \<and> cs_transcript c = t
       \<and> (\<exists>sg. ed_verify (hs_crypto api) ppk t sg)"
proof -
  obtain o1 c1 r1 where s: "send_auth_frame api c0 sk i t w = (o1, c1, r1)" by (metis prod_cases3)
  obtain c2 inb2 r2 where r: "recv_auth_frame api c1 inb = (c2, inb2, r2)" by (metis prod_cases3)
  from assms s r obtain frame pk where "c = c2\<lparr> cs_transcript := t \<rparr>"
      "verify_auth_frame (hs_crypto api) frame t = Ok pk" "check_expected (Some (pid, ppk)) frame pk = Ok peer"
    by (auto simp: initiate_auth_def result_iffs split: sum.splits poll.splits)
  then show ?thesis
    using send_auth_keys [OF s] recv_auth_keys [OF r] check_expected_Ok verify_auth_frame_Ok by fastforce
qed

lemma initiate_Ok:
  assumes "initiate api (Authenticated sk i) (Some (pid, ppk)) eph ni inb w1 w2 = (out, rest, Ready (Ok (c, peer)))"
  obtains pr nr c0 where "length pr = 32" "length nr = 16"
    "finalize_keys api True eph pr 1 (x_public api eph) pr ni nr = (cs_transcript c, c0)"
    "stream_keys c = stream_keys c0" "peer = PeerAuthenticated pid ppk"
    "\<exists>sg. ed_verify (hs_crypto api) ppk (cs_transcript c) sg"
proof -
  obtain inb1 h2 where h2: "read_exact 48 inb = (inb1, Ready (Ok h2))"
    using assms by (auto simp: initiate_def Let_def split: prod.splits sum.splits poll.splits)
  obtain t c0 where f: "finalize_keys api True eph (take 32 h2) 1 (x_public api eph) (take 32 h2) ni (drop 32 h2) = (t, c0)"
    by fastforce
  obtain o2 where "initiate_auth api (Authenticated sk i) (Some (pid, ppk)) t c0 inb1 w2
      = (o2, rest, Ready (Ok (c, peer)))"
    using assms h2 f by (auto simp: initiate_def Let_def split: prod.splits sum.splits)
  from initiate_auth_Ok [OF this] show ?thesis
    using that [of "take 32 h2" "drop 32 h2" c0] f read_exact_length [OF h2] by simp
qed

lemma finalize_keys_flip:
  assumes "x_dh api ski pr = x_dh api skr pi"
  shows "stream_keys (snd (finalize_keys api True ski pr f pi pr ni nr)) =
         flip_keys (stream_keys (snd (finalize_keys api False skr pi f pi pr ni nr)))"
  using assms by (simp add: finalize_keys_def Let_def stream_keys_def flip_keys_def cipher_stream_new_def)


lemma accept_auth_Ok:
  assumes "accept_auth api (Authenticated sk i) resolve t c0 inb w = (out, rest, Ready (Ok (c, peer)))"
  shows "\<exists>pid ppk. peer = PeerAuthenticated pid ppk \<and> resolve pid = Some ppk
       \<and> stream_keys c = stream_keys c0 \<and> cs_transcript c = t \<and> (\<exists>sg. ed_verify (hs_crypto api) ppk t sg)"
proof -
  obtain c1 inb1 r1 where r: "recv_auth_frame api c0 inb = (c1, inb1, r1)" by (metis prod_cases3)
  obtain o1 c2 r2 where s: "send_auth_frame api c1 sk i t w = (o1, c2, r2)" by (metis prod_cases3)
  from assms r s obtain frame pk where "c = c2\<lparr> cs_transcript := t \<rparr>"
      "peer = PeerAuthenticated (af_machine_id frame) pk"
      "verify_auth_frame (hs_crypto api) frame t = Ok pk" "resolve (af_machine_id frame) = Some pk"
    by (auto simp: accept_auth_def and_then_def ok_or_def split: sum.splits poll.splits option.splits if_splits)
  then show ?thesis
    using send_auth_keys [OF s] recv_auth_keys [OF r] verify_auth_frame_Ok by fastforce
qed

lemma accept_Ok:
  assumes "accept api (Authenticated sk i) resolve eph nr inb w1 w2 = (out, rest, Ready (Ok (c, peer)))"
  obtains pi ni c0 pid ppk where "length pi = 32" "length ni = 16"
    "finalize_keys api False eph pi 1 pi (x_public api eph) ni nr = (cs_transcript c, c0)"
    "stream_keys c = stream_keys c0" "peer = PeerAuthenticated pid ppk" "resolve pid = Some ppk"
    "\<exists>sg. ed_verify (hs_crypto api) ppk (cs_transcript c) sg"
proof -
  obtain inb1 h1 where h1: "read_exact 50 inb = (inb1, Ready (Ok h1))"
    using assms by (auto simp: accept_def split: prod.splits sum.splits poll.splits)
  have guards: "h1 ! 0 = PROTOCOL_VERSION" "h1 ! 1 = 1"
    using assms h1 by (auto simp: accept_def Let_def split: if_splits)
  let ?pi = "take 32 (drop 2 h1)" and ?ni = "drop 34 h1"
  obtain t c0 where f: "finalize_keys api False eph ?pi 1 ?pi (x_public api eph) ?ni nr = (t, c0)"
    by fastforce
  obtain o2 where "accept_auth api (Authenticated sk i) resolve t c0 inb1 w2 = (o2, rest, Ready (Ok (c, peer)))"
    using assms h1 f guards by (auto simp: accept_def Let_def split: prod.splits sum.splits)
  from accept_auth_Ok [OF this] show ?thesis
    using that [of ?pi ?ni c0] f read_exact_length [OF h1] by fastforce
qed


text \<open>An instance in which only the transcript of the one session verifies.\<close>

definition demo_transcript :: "byte list" where
  "demo_transcript = sha256 demo_crypto
     (transcript_bytes 1 (replicate 32 2) (replicate 16 1) (replicate 32 3) (replicate 16 2))"

definition strict_api :: "(byte, byte) handshake_api" where
  "strict_api = demo_api\<lparr> hs_crypto := demo_crypto\<lparr> ed_verify := (\<lambda>pk m s. m = demo_transcript) \<rparr> \<rparr>"

definition demo_resolve :: "string \<Rightarrow> byte list option" where
  "demo_resolve i = (if i = ''a'' then Some (replicate 32 5) else None)"

lemma strict_laws: "channel_laws strict_api" "dh_laws strict_api"
proof -
  show "channel_laws strict_api"
    using demo_channel_laws by (simp add: channel_laws_def strict_api_def)
  show "dh_laws strict_api"
    using demo_dh_laws by (simp add: dh_laws_def strict_api_def)
qed

lemma strict_frame: "our_auth_frame (hs_crypto strict_api) k i t = demo_frame k i"
  by (simp add: strict_api_def demo_frame_def our_auth_frame_def demo_crypto_def)

lemma strict_fits: "auth_fits strict_api 5 ''a''" "auth_fits strict_api 7 ''b''"
  unfolding auth_fits_def strict_frame
  by (simp_all add: strict_api_def demo_api_def MAX_AUTH_FRAME_BYTES_def)

lemma strict_verify: "verify_auth_frame (hs_crypto strict_api) (demo_frame k i) demo_transcript = Ok (replicate 32 k)"
  by (simp add: strict_api_def verify_auth_frame_def demo_frame_def our_auth_frame_def demo_crypto_def)

lemma strict_pub: "x_public strict_api k = replicate 32 k"
  by (simp add: strict_api_def demo_api_def)

lemma strict_unforgeable: "demo_transcript \<in> ts \<Longrightarrow> unforgeable (hs_crypto strict_api) pk ts"
  by (simp add: unforgeable_def strict_api_def)

lemma strict_pk: "ed_public (hs_crypto strict_api) k = replicate 32 k"
  by (simp add: strict_api_def demo_crypto_def)

lemma strict_transcript:
  "sha256 (hs_crypto strict_api) (transcript_bytes 1 (x_public strict_api 2) (replicate 16 1) (x_public strict_api 3) (replicate 16 2))
   = demo_transcript"
  unfolding demo_transcript_def strict_pub by (simp add: strict_api_def)

lemma strict_runs:
  "(\<exists>inb out rest c. initiate strict_api (Authenticated 5 ''a'') (Some (''b'', replicate 32 7)) 2
      (replicate 16 1) inb WroteAll WroteAll = (out, rest, Ready (Ok (c, PeerAuthenticated ''b'' (replicate 32 7)))))
   \<and> (\<exists>inb out rest c. accept strict_api (Authenticated 7 ''b'') demo_resolve 3 (replicate 16 2) inb
      WroteAll WroteAll = (out, rest, Ready (Ok (c, PeerAuthenticated ''a'' (replicate 32 5)))))"
proof (rule handshake_streams [where resolve = demo_resolve and id_i = "''a''" and id_r = "''b''" and sk_i = 5 and sk_r = 7
    and eph_i = 2 and eph_r = 3 and nonce_i = "replicate 16 1" and nonce_r = "replicate 16 2", OF strict_laws _ _ strict_fits],
    goal_cases)
  case (6 o_i o_r s_i s_r)
  have d: "list_all is_data [Data bs]" "data_bytes [Data bs] = bs @ []" for bs by simp_all
  show ?case using 6(3) [OF d d] unfolding strict_pk by blast
qed (simp_all add: proves_def session_transcript_def strict_transcript strict_frame strict_verify strict_pk demo_resolve_def)



end
