(* ===== verification/Ip_Addr.thy ===== *)
theory Ip_Addr
  imports Prelude
begin

text \<open>
  \<^verbatim>\<open>str::parse::<IpAddr>()\<close> of the standard library, as the acceptance test the program uses:
  a recursive-descent reader over the bytes of the string.  Each reader returns the rest of
  the input, or \<open>None\<close> without consuming anything.
\<close>

definition digit_table :: "(char \<times> nat) list" where
  "digit_table =
    [(CHR ''0'', 0), (CHR ''1'', 1), (CHR ''2'', 2), (CHR ''3'', 3), (CHR ''4'', 4), (CHR
     ''5'', 5), (CHR ''6'', 6), (CHR ''7'', 7), (CHR ''8'', 8), (CHR ''9'', 9), (CHR ''a'',
     10), (CHR ''b'', 11), (CHR ''c'', 12), (CHR ''d'', 13), (CHR ''e'', 14), (CHR ''f'',
     15), (CHR ''A'', 10), (CHR ''B'', 11), (CHR ''C'', 12), (CHR ''D'', 13), (CHR ''E'',
     14), (CHR ''F'', 15)]"

definition digit_value :: "nat \<Rightarrow> char \<Rightarrow> nat option" where
  "digit_value radix c =
     (case map_of digit_table c of
        None \<Rightarrow> None
      | Some d \<Rightarrow> if d < radix then Some d else None)"

text \<open>Digits read so far, their value, and the rest; more than \<open>k\<close> digits is a failure.\<close>

fun read_digits :: "nat \<Rightarrow> nat \<Rightarrow> nat \<Rightarrow> nat \<Rightarrow> string \<Rightarrow> (nat \<times> nat \<times> string) option" where
  "read_digits radix k cnt acc [] = Some (cnt, acc, [])"
| "read_digits radix k cnt acc (c # s) =
     (case digit_value radix c of
        None \<Rightarrow> Some (cnt, acc, c # s)
      | Some d \<Rightarrow> if Suc cnt > k then None
                  else read_digits radix k (Suc cnt) (radix * acc + d) s)"

definition read_number :: "nat \<Rightarrow> nat \<Rightarrow> bool \<Rightarrow> nat \<Rightarrow> string \<Rightarrow> string option" where
  "read_number radix max_digits allow_zero_prefix bound s =
     (case read_digits radix max_digits 0 0 s of
        None \<Rightarrow> None
      | Some (cnt, v, rest) \<Rightarrow>
          if cnt = 0 then None
          else if \<not> allow_zero_prefix \<and> s \<noteq> [] \<and> hd s = CHR ''0'' \<and> cnt > 1 then None
          else if v < bound then Some rest else None)"

fun read_given_char :: "char \<Rightarrow> string \<Rightarrow> string option" where
  "read_given_char c [] = None"
| "read_given_char c (d # s) = (if d = c then Some s else None)"

definition read_separator ::
  "char \<Rightarrow> nat \<Rightarrow> (string \<Rightarrow> string option) \<Rightarrow> string \<Rightarrow> string option" where
  "read_separator sep i inner s =
     (if i > 0 then Option.bind (read_given_char sep s) inner else inner s)"

definition read_octet :: "string \<Rightarrow> string option" where
  "read_octet = read_number 10 3 False 256"

definition read_ipv4_addr :: "string \<Rightarrow> string option" where
  "read_ipv4_addr s =
     Option.bind (read_separator CHR ''.'' 0 read_octet s) (\<lambda>s1.
     Option.bind (read_separator CHR ''.'' 1 read_octet s1) (\<lambda>s2.
     Option.bind (read_separator CHR ''.'' 2 read_octet s2)
       (read_separator CHR ''.'' 3 read_octet)))"

text \<open>\<open>read_groups limit i n s\<close>: groups \<open>i, i+1, \<dots>\<close> with \<open>n\<close> slots left; returns how many
  slots were filled, whether the last two came from an IPv4 tail, and the rest.\<close>

fun read_groups :: "nat \<Rightarrow> nat \<Rightarrow> string \<Rightarrow> nat \<times> bool \<times> string" where
  "read_groups i 0 s = (i, False, s)"
| "read_groups i (Suc n) s =
     (case (if n > 0 then read_separator CHR '':'' i read_ipv4_addr s else None) of
        Some rest \<Rightarrow> (i + 2, True, rest)
      | None \<Rightarrow>
        (case read_separator CHR '':'' i (read_number 16 4 True 65536) s of
           Some rest \<Rightarrow> read_groups (Suc i) n rest
         | None \<Rightarrow> (i, False, s)))"

definition read_ipv6_addr :: "string \<Rightarrow> string option" where
  "read_ipv6_addr s =
     (case read_groups 0 8 s of
        (head_size, head_ipv4, rest) \<Rightarrow>
          if head_size = 8 then Some rest
          else if head_ipv4 then None
          else Option.bind (read_given_char CHR '':'' rest) (\<lambda>r1.
               Option.bind (read_given_char CHR '':'' r1) (\<lambda>r2.
               case read_groups 0 (8 - (head_size + 1)) r2 of (_, _, r3) \<Rightarrow> Some r3)))"

definition parses_as_ip :: "string \<Rightarrow> bool" where
  "parses_as_ip s =
     (case read_ipv4_addr s of
        Some rest \<Rightarrow> rest = []
      | None \<Rightarrow> read_ipv6_addr s = Some [])"

text \<open>The addresses of the source's own test, and a few near misses.\<close>

lemma read_groups_numeral [simp]:
  "read_groups i (numeral k) s =
     (case (if pred_numeral k > 0 then read_separator CHR '':'' i read_ipv4_addr s else None) of
        Some rest \<Rightarrow> (i + 2, True, rest)
      | None \<Rightarrow>
        (case read_separator CHR '':'' i (read_number 16 4 True 65536) s of
           Some rest \<Rightarrow> read_groups (Suc i) (pred_numeral k) rest
         | None \<Rightarrow> (i, False, s)))"
  by (simp add: numeral_eq_Suc [of k])

lemmas ip_defs = parses_as_ip_def read_ipv6_addr_def read_ipv4_addr_def read_separator_def
  read_octet_def read_number_def digit_value_def digit_table_def

lemma parses_as_ip_examples:
  "parses_as_ip ''2001:db8::1''" "parses_as_ip ''::1''"
  "parses_as_ip ''192.168.0.1''" "\<not> parses_as_ip ''192.168.0.01''"
  "\<not> parses_as_ip ''peer.local''" "\<not> parses_as_ip ''peer.local:26000''"
  "\<not> parses_as_ip ''[2001:db8::1]''" "\<not> parses_as_ip ''[2001:db8::1]:26000''"
  by (simp_all add: ip_defs)

text \<open>An accepted literal never starts with a bracket, so it is never one that already carries
  its own brackets.\<close>

lemma not_ip_bracket: "\<not> parses_as_ip (CHR ''['' # s)"
  by (simp add: ip_defs)

end
