(* ===== verification/Config.thy ===== *)
theory Config
  imports Files Ip_Addr
begin

text \<open>
  \<^verbatim>\<open>synbad-config\<close>: the configuration document, its validation, its persistence and the two
  files generated from it for the Deskflow Core (\<^verbatim>\<open>crates/synbad-config/src/lib.rs\<close>).
  TOML is a third-party format: its writer and reader are arguments \<open>ser\<close> and \<open>de\<close>.
  Paths inside the document are strings; a \<^verbatim>\<open>BTreeMap\<close> is its ordered list of entries.
\<close>

subsection \<open>Floating-point gains\<close>

text \<open>
  A gain is kept as its 32 bits.  IEEE equality is what the derived \<^verbatim>\<open>PartialEq\<close> uses: a NaN
  equals nothing, and the two zeros are equal.
\<close>

type_synonym f32 = "32 word"

definition f32_is_nan :: "f32 \<Rightarrow> bool" where
  "f32_is_nan b \<longleftrightarrow> unat b mod 2 ^ 31 > 0x7F800000"

definition f32_is_zero :: "f32 \<Rightarrow> bool" where
  "f32_is_zero b \<longleftrightarrow> unat b mod 2 ^ 31 = 0"

definition f32_eq :: "f32 \<Rightarrow> f32 \<Rightarrow> bool" where
  "f32_eq a b \<longleftrightarrow> \<not> f32_is_nan a \<and> \<not> f32_is_nan b \<and> (a = b \<or> f32_is_zero a \<and> f32_is_zero b)"

definition f32_one :: f32 where
  "f32_one = 0x3F800000"

lemma f32_eq_refl_iff [simp]: "f32_eq a a \<longleftrightarrow> \<not> f32_is_nan a"
  by (simp add: f32_eq_def)

lemma f32_one_not_nan [simp]: "\<not> f32_is_nan f32_one"
  by (simp add: f32_is_nan_def f32_one_def)

subsection \<open>The configuration document\<close>

datatype node_role = Server | Client

datatype side = Left | Right | Up | Down

record grid_position =
  pos_x :: i32
  pos_y :: i32
  pos_w :: u32
  pos_h :: u32

record monitor_info =
  mon_x :: i32
  mon_y :: i32
  mon_w :: u32
  mon_h :: u32
  mon_primary :: bool

record screen =
  screen_name :: string
  screen_aliases :: "string list"
  screen_position :: grid_position
  screen_monitors :: "monitor_info list"

record link =
  link_from :: string
  link_side :: side
  link_to :: string

record peer_audio_routing =
  routing_enabled :: bool
  send_to_peer :: bool
  receive_from_peer :: bool

record audio_config =
  audio_enabled :: bool
  input_device :: "string option"
  output_device :: "string option"
  input_gain :: f32
  output_gain :: f32
  per_peer :: "(string \<times> peer_audio_routing) list"
  signal_port :: u16

record binary_paths =
  core_path :: "string option"

record config =
  role :: node_role
  server_name :: string
  server_address :: "string option"
  port :: u16
  service_port :: u16
  sync_port :: u16
  screens :: "screen list"
  links :: "link list"
  options :: "(string \<times> string) list"
  clipboard_sharing :: bool
  autostart :: bool
  binaries :: binary_paths
  audio :: audio_config

definition default_port :: u16 where "default_port = 24800"
definition default_service_port :: u16 where "default_service_port = 24850"
definition default_sync_port :: u16 where "default_sync_port = 24851"
definition default_audio_signal_port :: u16 where "default_audio_signal_port = 24852"

definition audio_config_default :: audio_config where
  "audio_config_default =
     \<lparr> audio_enabled = False, input_device = None, output_device = None,
       input_gain = f32_one, output_gain = f32_one, per_peer = [],
       signal_port = default_audio_signal_port \<rparr>"

definition config_default :: config where
  "config_default =
     \<lparr> role = Server, server_name = ''this-machine'', server_address = None,
       port = default_port, service_port = default_service_port, sync_port = default_sync_port,
       screens = [\<lparr> screen_name = ''this-machine'', screen_aliases = [],
                    screen_position = \<lparr> pos_x = 0, pos_y = 0, pos_w = 160, pos_h = 120 \<rparr>,
                    screen_monitors = [] \<rparr>],
       links = [], options = [], clipboard_sharing = True, autostart = True,
       binaries = \<lparr> core_path = None \<rparr>, audio = audio_config_default \<rparr>"

text \<open>Derived equality of the two structs that carry floats; every other type's is equality.\<close>

definition audio_config_eq :: "audio_config \<Rightarrow> audio_config \<Rightarrow> bool" where
  "audio_config_eq a b \<longleftrightarrow>
     audio_enabled a = audio_enabled b \<and> input_device a = input_device b \<and>
     output_device a = output_device b \<and> f32_eq (input_gain a) (input_gain b) \<and>
     f32_eq (output_gain a) (output_gain b) \<and> per_peer a = per_peer b \<and>
     signal_port a = signal_port b"

definition config_eq :: "config \<Rightarrow> config \<Rightarrow> bool" where
  "config_eq a b \<longleftrightarrow>
     role a = role b \<and> server_name a = server_name b \<and> server_address a = server_address b \<and>
     port a = port b \<and> service_port a = service_port b \<and> sync_port a = sync_port b \<and>
     screens a = screens b \<and> links a = links b \<and> options a = options b \<and>
     clipboard_sharing a = clipboard_sharing b \<and> autostart a = autostart b \<and>
     binaries a = binaries b \<and> audio_config_eq (audio a) (audio b)"

definition gains_are_numbers :: "config \<Rightarrow> bool" where
  "gains_are_numbers c \<longleftrightarrow>
     \<not> f32_is_nan (input_gain (audio c)) \<and> \<not> f32_is_nan (output_gain (audio c))"

lemma config_eq_refl_iff: "config_eq c c \<longleftrightarrow> gains_are_numbers c"
  by (simp add: config_eq_def audio_config_eq_def gains_are_numbers_def)

subsection \<open>Sides and monitors\<close>

fun opposite :: "side \<Rightarrow> side" where
  "opposite Left = Right"
| "opposite Right = Left"
| "opposite Up = Down"
| "opposite Down = Up"

fun as_synergy :: "side \<Rightarrow> string" where
  "as_synergy Left = ''left''"
| "as_synergy Right = ''right''"
| "as_synergy Up = ''up''"
| "as_synergy Down = ''down''"

lemma opposite_opposite [simp]: "opposite (opposite s) = s"
  by (cases s) auto

text \<open>Signed minimum and maximum of 32-bit values; sums and differences wrap.\<close>

definition i32_min :: "i32 \<Rightarrow> i32 \<Rightarrow> i32" where
  "i32_min a b = (if sint b < sint a then b else a)"

definition i32_max :: "i32 \<Rightarrow> i32 \<Rightarrow> i32" where
  "i32_max a b = (if sint a \<le> sint b then b else a)"

definition bbox_step :: "i32 \<times> i32 \<times> i32 \<times> i32 \<Rightarrow> monitor_info \<Rightarrow> i32 \<times> i32 \<times> i32 \<times> i32" where
  "bbox_step acc m = (case acc of (min_x, min_y, max_x, max_y) \<Rightarrow>
     (i32_min min_x (mon_x m), i32_min min_y (mon_y m),
      i32_max max_x (mon_x m + mon_w m), i32_max max_y (mon_y m + mon_h m)))"

definition i32_MAX :: i32 where "i32_MAX = 0x7FFFFFFF"
definition i32_MIN :: i32 where "i32_MIN = 0x80000000"

definition monitor_bbox :: "screen \<Rightarrow> (u32 \<times> u32) option" where
  "monitor_bbox s =
     (if screen_monitors s = [] then None
      else case foldl bbox_step (i32_MAX, i32_MAX, i32_MIN, i32_MIN) (screen_monitors s) of
             (min_x, min_y, max_x, max_y) \<Rightarrow> Some (max_x - min_x, max_y - min_y))"

subsection \<open>Addresses\<close>

fun dec_digits :: "nat \<Rightarrow> string" where
  "dec_digits n = (if n < 10 then [char_of (48 + n)]
                   else dec_digits (n div 10) @ [char_of (48 + n mod 10)])"

declare dec_digits.simps [simp del]

definition u16_to_string :: "u16 \<Rightarrow> string" where
  "u16_to_string p = dec_digits (unat p)"

definition starts_with :: "string \<Rightarrow> string \<Rightarrow> bool" where
  "starts_with s p \<longleftrightarrow> take (length p) s = p"

definition ends_with :: "string \<Rightarrow> string \<Rightarrow> bool" where
  "ends_with s p \<longleftrightarrow> length p \<le> length s \<and> drop (length s - length p) s = p"

definition host_port :: "string \<Rightarrow> u16 \<Rightarrow> string" where
  "host_port host p =
     (if CHR '':'' \<in> set host \<and> \<not> starts_with host ''[''
      then ''['' @ host @ '']:'' @ u16_to_string p
      else host @ '':'' @ u16_to_string p)"

definition remote_address :: "config \<Rightarrow> string option" where
  "remote_address c = (case server_address c of
       None \<Rightarrow> None
     | Some address \<Rightarrow>
         if parses_as_ip address \<or> CHR '':'' \<notin> set address \<or>
            (starts_with address ''['' \<and> ends_with address '']'')
         then Some (host_port address (port c))
         else Some address)"

subsection \<open>Validation\<close>

datatype invalid_reason =
    ServerNameUnknown string
  | LinkFromUnknown string
  | LinkToUnknown string
  | LinkSelfLoop string
  | ClientNeedsAddress

datatype config_error =
    CfgIo path io_kind
  | CfgTomlDe
  | CfgTomlSer
  | CfgInvalid invalid_reason

fun validate_links :: "screen list \<Rightarrow> link list \<Rightarrow> (config_error, unit) result" where
  "validate_links ss [] = Ok ()"
| "validate_links ss (l # ls) =
     (if link_from l \<notin> screen_name ` set ss then Err (CfgInvalid (LinkFromUnknown (link_from l)))
      else if link_to l \<notin> screen_name ` set ss then Err (CfgInvalid (LinkToUnknown (link_to l)))
      else if link_from l = link_to l then Err (CfgInvalid (LinkSelfLoop (link_from l)))
      else validate_links ss ls)"

definition validate :: "config \<Rightarrow> (config_error, unit) result" where
  "validate c =
     (if list_all (\<lambda>s. screen_name s \<noteq> server_name c) (screens c)
      then Err (CfgInvalid (ServerNameUnknown (server_name c)))
      else and_then (validate_links (screens c) (links c)) (\<lambda>_.
           if role c = Client \<and> server_address c = None
           then Err (CfgInvalid ClientNeedsAddress)
           else Ok ()))"

subsection \<open>Persistence\<close>

definition config_load ::
  "(string \<Rightarrow> config option) \<Rightarrow> faults \<Rightarrow> fs \<Rightarrow> path \<Rightarrow> (config_error, config option) result" where
  "config_load de fl m p = (case fs_read fl m p of
       Inr s \<Rightarrow> (case de s of
           None \<Rightarrow> Err CfgTomlDe
         | Some cfg \<Rightarrow> and_then (validate cfg) (\<lambda>_. Ok (Some cfg)))
     | Inl e \<Rightarrow> if e = NotFound then Ok None else Err (CfgIo p e))"

definition config_save ::
  "(config \<Rightarrow> string option) \<Rightarrow> faults \<Rightarrow> fs \<Rightarrow> config \<Rightarrow> path \<Rightarrow> fs \<times> (config_error, unit) result" where
  "config_save ser fl m c p =
     (case validate c of
        Inl e \<Rightarrow> (m, Err e)
      | Inr _ \<Rightarrow> (case ser c of
          None \<Rightarrow> (m, Err CfgTomlSer)
        | Some body \<Rightarrow>
            (case write_via_tmp fl m (with_extension p ''toml.tmp'') p body of
               (m', Inl (q, e)) \<Rightarrow> (m', Err (CfgIo q e))
             | (m', Inr _) \<Rightarrow> (m', Ok ()))))"

subsection \<open>What the Core consumes\<close>

definition core_view :: "config \<Rightarrow> config" where
  "core_view c = c\<lparr> service_port := 0, sync_port := 0, audio := audio_config_default,
                    autostart := True \<rparr>"

definition core_inputs_differ :: "config \<Rightarrow> config \<Rightarrow> bool" where
  "core_inputs_differ a b \<longleftrightarrow> \<not> config_eq (core_view a) (core_view b)"

subsection \<open>The generated screen layout\<close>

definition ln :: "string \<Rightarrow> string" where
  "ln s = s @ [CHR 0x0A]"

definition em_dash :: string where
  "em_dash = [CHR 0xE2, CHR 0x80, CHR 0x94]"

definition banner :: "string \<Rightarrow> string" where
  "banner mark = ln (mark @ '' Generated by Synbad. DO NOT EDIT '' @ em_dash
                     @ '' regenerated from config.toml.'')"

abbreviation tab :: string where "tab \<equiv> [CHR 0x09]"

definition add_link :: "(string \<times> (side \<times> string) list) list \<Rightarrow> link \<Rightarrow>
    (string \<times> (side \<times> string) list) list" where
  "add_link m l =
     entry_update (link_to l) [] (\<lambda>es. es @ [(opposite (link_side l), link_from l)])
       (entry_update (link_from l) [] (\<lambda>es. es @ [(link_side l, link_to l)]) m)"

definition by_from :: "link list \<Rightarrow> (string \<times> (side \<times> string) list) list" where
  "by_from ls = foldl add_link [] ls"

definition screens_section :: "config \<Rightarrow> string" where
  "screens_section c =
     ln ''section: screens''
     @ concat (map (\<lambda>s. ln (tab @ screen_name s @ '':'')) (screens c))
     @ ln ''end'' @ ln []"

definition aliases_section :: "config \<Rightarrow> string" where
  "aliases_section c =
     (if list_ex (\<lambda>s. screen_aliases s \<noteq> []) (screens c)
      then ln ''section: aliases''
           @ concat (map (\<lambda>s. if screen_aliases s = [] then []
                     else ln (tab @ screen_name s @ '':'')
                          @ concat (map (\<lambda>a. ln (tab @ tab @ a)) (screen_aliases s))) (screens c))
           @ ln ''end'' @ ln []
      else [])"

definition edge_line :: "side \<times> string \<Rightarrow> string" where
  "edge_line e = ln (tab @ tab @ as_synergy (fst e) @ ''(0,100) = '' @ snd e @ ''(0,100)'')"

definition links_section :: "config \<Rightarrow> string" where
  "links_section c =
     (if links c = [] then []
      else ln ''section: links''
           @ concat (map (\<lambda>(f, es). ln (tab @ f @ '':'') @ concat (map edge_line es))
                      (by_from (links c)))
           @ ln ''end'' @ ln [])"

definition options_section :: "config \<Rightarrow> string" where
  "options_section c =
     (if options c \<noteq> [] \<or> \<not> clipboard_sharing c
      then ln ''section: options''
           @ (if clipboard_sharing c then [] else ln (tab @ ''clipboardSharing = false''))
           @ concat (map (\<lambda>(k, v). ln (tab @ k @ '' = '' @ v)) (options c))
           @ ln ''end''
      else [])"

definition generate_synergy_conf :: "config \<Rightarrow> string" where
  "generate_synergy_conf c =
     banner ''#'' @ ln [] @ screens_section c @ aliases_section c @ links_section c
     @ options_section c"

definition generate_deskflow_settings :: "config \<Rightarrow> path \<Rightarrow> string" where
  "generate_deskflow_settings c screen_conf_path =
     banner '';'' @ ln []
     @ ln ''[core]''
     @ ln (''coreMode='' @ (case role c of Client \<Rightarrow> ''1'' | Server \<Rightarrow> ''2''))
     @ ln (''computerName='' @ server_name c)
     @ ln (''port='' @ u16_to_string (port c))
     @ ln ''processMode=1''
     @ ln []
     @ (case role c of
          Client \<Rightarrow> ln ''[client]''
            @ (case remote_address c of None \<Rightarrow> [] | Some addr \<Rightarrow> ln (''remoteHost='' @ addr))
        | Server \<Rightarrow> ln ''[server]'' @ ln ''externalConfig=true''
            @ ln (''externalConfigFile='' @ to_string_lossy screen_conf_path))"

subsection \<open>Validation: what an accepted document guarantees\<close>

lemma validate_links_iff:
  "validate_links ss ls = Ok () \<longleftrightarrow>
   (\<forall>l \<in> set ls. link_from l \<in> screen_name ` set ss \<and> link_to l \<in> screen_name ` set ss \<and>
                 link_from l \<noteq> link_to l)"
  by (induction ss ls rule: validate_links.induct) auto

lemma result_unit_cases: "r = Ok () \<or> (\<exists>e. r = Err e)"
  by (cases r) auto

text \<open>\<open>validate\<close> accepts a document exactly when the server screen exists, every link joins
  two different existing screens, and a client names its server.\<close>

theorem validate_iff:
  "validate c = Ok () \<longleftrightarrow>
   server_name c \<in> screen_name ` set (screens c) \<and>
   (\<forall>l \<in> set (links c). link_from l \<in> screen_name ` set (screens c) \<and>
        link_to l \<in> screen_name ` set (screens c) \<and> link_from l \<noteq> link_to l) \<and>
   (role c = Client \<longrightarrow> server_address c \<noteq> None)"
proof -
  have "list_all (\<lambda>s. screen_name s \<noteq> server_name c) (screens c) \<longleftrightarrow>
        server_name c \<notin> screen_name ` set (screens c)"
    by (auto simp: list_all_iff) (metis imageI)
  then show ?thesis
    using result_unit_cases [of "validate_links (screens c) (links c)"]
    by (auto simp: validate_def validate_links_iff [symmetric])
qed

theorem validate_iff_witness:
  "validate config_default = Ok () \<and>
   validate (config_default\<lparr>role := Client\<rparr>) \<noteq> Ok () \<and>
   validate (config_default\<lparr>links := [\<lparr>link_from = ''this-machine'', link_side = Left,
                                      link_to = ''ghost''\<rparr>]\<rparr>) \<noteq> Ok ()"
  by (auto simp: validate_iff config_default_def)

subsection \<open>Persistence\<close>

lemma config_save_Ok:
  assumes "config_save ser fl m c p = (m', Ok ())"
  obtains body where "validate c = Ok ()" "ser c = Some body"
    "write_via_tmp fl m (with_extension p ''toml.tmp'') p body = (m', Ok ())"
  using assms
  by (auto simp: config_save_def split: sum.splits option.splits prod.splits)

lemma config_save_Err:
  assumes "config_save ser fl m c p = (m', Err e)"
  shows "m' = m \<or>
    (\<exists>body err. write_via_tmp fl m (with_extension p ''toml.tmp'') p body = (m', Err err))"
  using assms
  by (fastforce simp: config_save_def split: sum.splits option.splits prod.splits)

text \<open>C13. Whatever I/O errors occur, \<open>Config::save\<close> leaves at the configuration path either the
  complete serialisation of a valid document (and then it reported success) or exactly what
  was there before; and what a successful save wrote loads back as the same document.\<close>

theorem config_save_atomic:
  assumes tmp: "with_extension p ''toml.tmp'' \<noteq> p"
    and save: "config_save ser fl m c p = (m', r)"
    and toml: "\<And>s. ser c = Some s \<Longrightarrow> de s = Some c"
  shows "(is_ok r \<longrightarrow> validate c = Ok () \<and> m' p = ser c \<and>
                     config_load de no_faults m' p = Ok (Some c)) \<and>
         (\<not> is_ok r \<longrightarrow> m' p = m p)"
proof (cases r)
  case (Inl e)
  then show ?thesis
    using config_save_Err [of ser fl m c p m' e] save write_via_tmp_atomic(1) [OF tmp]
    by fastforce
next
  case (Inr u)
  then obtain body where body: "validate c = Ok ()" "ser c = Some body"
      "write_via_tmp fl m (with_extension p ''toml.tmp'') p body = (m', Ok ())"
    using save by (auto elim: config_save_Ok)
  then have "m' p = Some body"
    using write_via_tmp_atomic(1) [OF tmp body(3)] by simp
  with body Inr toml show ?thesis
    by (simp add: config_load_def)
qed

theorem config_save_atomic_witness:
  "(let p = [''etc'', ''config.toml'']; ser = (\<lambda>c. Some ''doc''); de = (\<lambda>s. Some config_default);
        m' = fst (config_save ser no_faults Map.empty config_default p)
    in m' p = Some ''doc'' \<and> config_load de no_faults m' p = Ok (Some config_default))"
proof -
  define p where "p = [''etc'', ''config.toml'']"
  define ser :: "config \<Rightarrow> string option" where "ser = (\<lambda>c. Some ''doc'')"
  define de :: "string \<Rightarrow> config option" where "de = (\<lambda>s. Some config_default)"
  have v: "validate config_default = Ok ()"
    by (auto simp: validate_def config_default_def)
  have tmp: "with_extension p ''toml.tmp'' \<noteq> p"
    by (simp add: p_def with_extension_def)
  have save: "config_save ser no_faults Map.empty config_default p =
        ((Map.empty(with_extension p ''toml.tmp'' := None))(p \<mapsto> ''doc''), Ok ())"
    using v by (simp add: config_save_def ser_def write_via_tmp_no_faults)
  have "ser config_default = Some s \<Longrightarrow> de s = Some config_default" for s
    by (simp add: de_def)
  from config_save_atomic [OF tmp save this] show ?thesis
    using save by (simp add: Let_def p_def [symmetric] ser_def [symmetric] de_def [symmetric])
       (simp add: ser_def)
qed

subsection \<open>Silent edits\<close>

text \<open>If an edit does not count as a change of the Core's inputs, the Core would be started
  from byte-identical generated files and the same binary override.\<close>

theorem core_inputs_differ_sound:
  assumes "\<not> core_inputs_differ a b"
  shows "generate_synergy_conf a = generate_synergy_conf b \<and>
         generate_deskflow_settings a conf = generate_deskflow_settings b conf \<and>
         binaries a = binaries b \<and> role a = role b"
proof -
  have same: "role a = role b" "server_name a = server_name b"
    "server_address a = server_address b" "port a = port b" "screens a = screens b"
    "links a = links b" "options a = options b" "clipboard_sharing a = clipboard_sharing b"
    "binaries a = binaries b"
    using assms by (simp_all add: core_inputs_differ_def core_view_def config_eq_def)
  then have "remote_address a = remote_address b" 
    by (simp add: remote_address_def split: option.split)
  with same have "generate_deskflow_settings a conf = generate_deskflow_settings b conf"
    by (simp add: generate_deskflow_settings_def split: node_role.split)
  with same show ?thesis
    by (simp add: generate_synergy_conf_def screens_section_def aliases_section_def
        links_section_def options_section_def)
qed

theorem core_inputs_differ_sound_witness:
  "generate_synergy_conf (config_default\<lparr>sync_port := 4000, autostart := False\<rparr>) =
     generate_synergy_conf config_default \<and>
   \<not> core_inputs_differ (config_default\<lparr>sync_port := 4000, autostart := False\<rparr>) config_default"
proof -
  have nd: "\<not> core_inputs_differ (config_default\<lparr>sync_port := 4000, autostart := False\<rparr>)
              config_default"
    by (simp add: core_inputs_differ_def core_view_def config_eq_def audio_config_eq_def
        audio_config_default_def)
  show ?thesis using core_inputs_differ_sound [OF nd, of "[]"] nd by simp
qed

subsection \<open>Links in both directions\<close>

text \<open>The edges leaving \<open>f\<close> that one link contributes, in the order they are pushed.\<close>

definition edges_of :: "string \<Rightarrow> link \<Rightarrow> (side \<times> string) list" where
  "edges_of f l =
     (if link_from l = f then [(link_side l, link_to l)] else [])
     @ (if link_to l = f then [(opposite (link_side l), link_from l)] else [])"

lemma keys_sorted_add_link: "keys_sorted m \<Longrightarrow> keys_sorted (add_link m l)"
  by (simp add: add_link_def keys_sorted_entry_update)

lemma lookup_add_link:
  "keys_sorted m \<Longrightarrow>
   map_of (add_link m l) f =
   (if edges_of f l = [] then map_of m f
    else Some ((case map_of m f of None \<Rightarrow> [] | Some es \<Rightarrow> es) @ edges_of f l))"
  by (auto simp: add_link_def edges_of_def map_of_entry_update keys_sorted_entry_update
      split: option.splits)

lemma foldl_add_link:
  assumes "keys_sorted m"
  shows "keys_sorted (foldl add_link m ls) \<and>
   (\<forall>f. map_of (foldl add_link m ls) f =
      (if concat (map (edges_of f) ls) = [] then map_of m f
       else Some ((case map_of m f of None \<Rightarrow> [] | Some es \<Rightarrow> es) @ concat (map (edges_of f) ls))))"
  using assms
proof (induction ls arbitrary: m)
  case Nil
  then show ?case by simp
next
  case (Cons l ls)
  then have "keys_sorted (add_link m l)" by (simp add: keys_sorted_add_link)
  from Cons.IH [OF this] Cons.prems show ?case
    by (auto simp: lookup_add_link split: option.splits)
qed

lemma map_of_by_from:
  "map_of (by_from ls) f =
   (if concat (map (edges_of f) ls) = [] then None else Some (concat (map (edges_of f) ls)))"
  using foldl_add_link [of "[]" ls] by (simp add: by_from_def)

lemma keys_sorted_by_from: "keys_sorted (by_from ls)"
  using foldl_add_link [of "[]" ls] by (simp add: by_from_def)

text \<open>The link table written into the layout has one block per screen, in strictly
  increasing name order; a screen's block lists exactly the edges of the user's links and
  their implicit reverses, so an edge is present iff its reverse is.\<close>

theorem by_from_bidirectional:
  "sorted_wrt (<) (map fst (by_from ls)) \<and>
   (\<exists>es. (f, es) \<in> set (by_from ls) \<and> (s, t) \<in> set es) =
     (\<exists>l \<in> set ls. (link_from l = f \<and> link_side l = s \<and> link_to l = t) \<or>
                   (link_to l = f \<and> opposite (link_side l) = s \<and> link_from l = t)) \<and>
   (\<exists>es. (f, es) \<in> set (by_from ls) \<and> (s, t) \<in> set es) =
     (\<exists>es. (t, es) \<in> set (by_from ls) \<and> (opposite s, f) \<in> set es)"
proof -
  have mem: "(g, es) \<in> set (by_from ls) \<longleftrightarrow> map_of (by_from ls) g = Some es" for g es
    using keys_sorted_distinct [OF keys_sorted_by_from] by (simp add: map_of_eq_Some_iff)
  have edge: "(\<exists>es. (g, es) \<in> set (by_from ls) \<and> (q, h) \<in> set es) \<longleftrightarrow>
     (\<exists>l \<in> set ls. (link_from l = g \<and> link_side l = q \<and> link_to l = h) \<or>
                   (link_to l = g \<and> opposite (link_side l) = q \<and> link_from l = h))" for g q h
    unfolding mem map_of_by_from by (auto simp: edges_of_def split: if_splits)
  have swap: "opposite q = r \<longleftrightarrow> q = opposite r" for q r by auto
  have sym: "((link_from l = f \<and> link_side l = s \<and> link_to l = t) \<or>
              (link_to l = f \<and> opposite (link_side l) = s \<and> link_from l = t)) \<longleftrightarrow>
             ((link_from l = t \<and> link_side l = opposite s \<and> link_to l = f) \<or>
              (link_to l = t \<and> opposite (link_side l) = opposite s \<and> link_from l = f))" for l
    by (auto simp: swap)
  show ?thesis
    using keys_sorted_by_from [of ls] unfolding edge keys_sorted_def
    by (simp only: sym)
qed

theorem by_from_bidirectional_witness:
  "(\<exists>es. (''beta'', es) \<in> set (by_from [\<lparr>link_from = ''alpha'', link_side = Right, link_to = ''beta''\<rparr>])
         \<and> (Left, ''alpha'') \<in> set es)"
  unfolding by_from_bidirectional [THEN conjunct2, THEN conjunct1] by simp

subsection \<open>The monitor bounding box\<close>

lemma sint_i32_min: "sint (i32_min a b) = min (sint a) (sint b)"
  by (simp add: i32_min_def min_def)

lemma sint_i32_max: "sint (i32_max a b) = max (sint a) (sint b)"
  by (simp add: i32_max_def max_def)

lemma sint_i32_range: "- (2 ^ 31) \<le> sint (x :: i32)" "sint (x :: i32) < 2 ^ 31"
proof -
  have "- (2 ^ (LENGTH(32) - 1)) \<le> sint x" by (rule sint_ge)
  then show "- (2 ^ 31) \<le> sint x" by simp
  have "sint x < 2 ^ (LENGTH(32) - 1)" by (rule sint_lt)
  then show "sint x < 2 ^ 31" by simp
qed

text \<open>The right edge of a monitor as an integer, and when the 32-bit sum computes it.\<close>

lemma sint_add_width:
  fixes x :: i32 and w :: u32
  assumes "sint x + uint w < 2 ^ 31"
  shows "sint (x + w) = sint x + uint w"
proof -
  have "- (2 ^ 31) \<le> sint x + uint w"
    using sint_i32_range(1) [of x] uint_ge_0 [of w] by linarith
  then have "signed_take_bit 31 (sint x + uint w) = sint x + uint w"
    using assms by (intro signed_take_bit_int_eq_self) simp_all
  moreover have "sint (word_of_int (sint x + uint w) :: i32) = signed_take_bit 31 (sint x + uint w)"
    by (subst signed_of_int) simp
  ultimately show ?thesis by simp
qed

definition monitor_fits :: "monitor_info \<Rightarrow> bool" where
  "monitor_fits m \<longleftrightarrow> sint (mon_x m) + uint (mon_w m) < 2 ^ 31 \<and>
                    sint (mon_y m) + uint (mon_h m) < 2 ^ 31"

abbreviation right_edge :: "monitor_info \<Rightarrow> int" where
  "right_edge m \<equiv> sint (mon_x m) + uint (mon_w m)"

abbreviation bottom_edge :: "monitor_info \<Rightarrow> int" where
  "bottom_edge m \<equiv> sint (mon_y m) + uint (mon_h m)"

lemma Min_insert_insert: "finite S \<Longrightarrow> Min (insert (min a b) S) = Min (insert a (insert b S))"
  for a :: int
  by (cases "S = {}") (auto simp: min.assoc)

lemma Max_insert_insert: "finite S \<Longrightarrow> Max (insert (max a b) S) = Max (insert a (insert b S))"
  for a :: int
  by (cases "S = {}") (auto simp: max.assoc)

lemma bbox_step_simp:
  "bbox_step (a, b, c, d) m =
     (i32_min a (mon_x m), i32_min b (mon_y m),
      i32_max c (mon_x m + mon_w m), i32_max d (mon_y m + mon_h m))"
  by (simp add: bbox_step_def)

lemma foldl_bbox_step:
  assumes "\<forall>m \<in> set ms. monitor_fits m"
    and "foldl bbox_step (a, b, c, d) ms = (a', b', c', d')"
  shows "sint a' = Min (insert (sint a) ((\<lambda>m. sint (mon_x m)) ` set ms)) \<and>
         sint b' = Min (insert (sint b) ((\<lambda>m. sint (mon_y m)) ` set ms)) \<and>
         sint c' = Max (insert (sint c) (right_edge ` set ms)) \<and>
         sint d' = Max (insert (sint d) (bottom_edge ` set ms))"
  using assms
proof (induction ms arbitrary: a b c d)
  case Nil
  then show ?case by simp
next
  case (Cons m ms)
  then have "foldl bbox_step (i32_min a (mon_x m), i32_min b (mon_y m),
      i32_max c (mon_x m + mon_w m), i32_max d (mon_y m + mon_h m)) ms = (a', b', c', d')"
    and fits: "monitor_fits m" "\<forall>m \<in> set ms. monitor_fits m"
    by (simp_all add: bbox_step_simp)
  from Cons.IH [OF fits(2) this(1)] fits(1) show ?case
    by (simp add: sint_i32_min sint_i32_max sint_add_width monitor_fits_def
        Min_insert_insert Max_insert_insert)
qed

lemma uint_diff_i32:
  fixes a b :: i32
  assumes "sint b \<le> sint a"
  shows "uint (a - b) = sint a - sint b"
proof -
  have "sint a - sint b < 2 ^ 32"
    using sint_i32_range(2) [of a] sint_i32_range(1) [of b] by simp
  then have "take_bit 32 (sint a - sint b) = sint a - sint b"
    using assms by (intro take_bit_int_eq_self) simp_all
  moreover have "uint (word_of_int (sint a - sint b) :: i32) = take_bit 32 (sint a - sint b)"
    by (subst unsigned_of_int) simp
  ultimately show ?thesis by simp
qed

text \<open>When no monitor's right or bottom edge leaves the signed 32-bit range, the bounding box
  is exact: the width is the largest right edge minus the smallest left edge, the height
  likewise, both as non-negative integers without wrap-around.\<close>

theorem monitor_bbox_exact:
  assumes ne: "screen_monitors s \<noteq> []"
    and fits: "\<forall>m \<in> set (screen_monitors s). monitor_fits m"
  shows "\<exists>w h. monitor_bbox s = Some (w, h) \<and>
     uint w = Max (right_edge ` set (screen_monitors s))
              - Min ((\<lambda>m. sint (mon_x m)) ` set (screen_monitors s)) \<and>
     uint h = Max (bottom_edge ` set (screen_monitors s))
              - Min ((\<lambda>m. sint (mon_y m)) ` set (screen_monitors s))"
proof -
  let ?M = "set (screen_monitors s)"
  obtain a b c d where
    f: "foldl bbox_step (i32_MAX, i32_MAX, i32_MIN, i32_MIN) (screen_monitors s) = (a, b, c, d)"
    by (metis prod_cases4)
  have ext: "sint i32_MAX = 2 ^ 31 - 1" "sint i32_MIN = - (2 ^ 31)"
    by (simp_all add: i32_MAX_def i32_MIN_def)
  have ne': "?M \<noteq> {}" using ne by simp
  define m0 where "m0 = hd (screen_monitors s)"
  have m0: "m0 \<in> ?M" using ne by (simp add: m0_def)
  have lo: "Min (insert (2 ^ 31 - 1) (g ` ?M)) = Min (g ` ?M)" if "\<And>m. g m < 2 ^ 31"
    for g :: "monitor_info \<Rightarrow> int"
  proof -
    have "Min (g ` ?M) \<le> g m0" using m0 by simp
    moreover have "g m0 < 2 ^ 31" by (rule that)
    ultimately show ?thesis using ne' by simp
  qed
  have hi: "Max (insert (- (2 ^ 31)) (g ` ?M)) = Max (g ` ?M)" if "\<And>m. - (2 ^ 31) \<le> g m"
    for g :: "monitor_info \<Rightarrow> int"
  proof -
    have "g m0 \<le> Max (g ` ?M)" using m0 by simp
    moreover have "- (2 ^ 31) \<le> g m0" by (rule that)
    ultimately show ?thesis using ne' by simp
  qed
  have edge: "- (2 ^ 31) \<le> sint x + uint w" for x :: i32 and w :: u32
    using sint_i32_range(1) [of x] uint_ge_0 [of w] by linarith
  from foldl_bbox_step [OF fits f] have
    abcd: "sint a = Min ((\<lambda>m. sint (mon_x m)) ` ?M)" "sint b = Min ((\<lambda>m. sint (mon_y m)) ` ?M)"
          "sint c = Max (right_edge ` ?M)" "sint d = Max (bottom_edge ` ?M)"
    using lo [of "\<lambda>m. sint (mon_x m)"] lo [of "\<lambda>m. sint (mon_y m)"]
      hi [of right_edge] hi [of bottom_edge] sint_i32_range(2) edge
    by (simp_all add: ext)
  have ord: "Min ((\<lambda>m. sint (g m)) ` ?M) \<le> Max ((\<lambda>m. sint (g m) + uint (e m)) ` ?M)"
    for g :: "monitor_info \<Rightarrow> i32" and e :: "monitor_info \<Rightarrow> u32"
  proof -
    have "Min ((\<lambda>m. sint (g m)) ` ?M) \<le> sint (g m0)" using m0 by simp
    also have "\<dots> \<le> sint (g m0) + uint (e m0)" by simp
    also have "\<dots> \<le> Max ((\<lambda>m. sint (g m) + uint (e m)) ` ?M)" using m0 by simp
    finally show ?thesis .
  qed
  have "uint (c - a) = sint c - sint a" "uint (d - b) = sint d - sint b"
    using ord [of mon_x mon_w] ord [of mon_y mon_h] abcd by (simp_all add: uint_diff_i32)
  with abcd ne f show ?thesis by (simp add: monitor_bbox_def)
qed

theorem monitor_bbox_exact_witness:
  "(let l = \<lparr>mon_x = - 1920, mon_y = 0, mon_w = 1920, mon_h = 1080, mon_primary = False\<rparr>;
        r = \<lparr>mon_x = 0, mon_y = - 100, mon_w = 2560, mon_h = 1440, mon_primary = True\<rparr>;
        s = \<lparr>screen_name = ''a'', screen_aliases = [], screen_position =
              \<lparr>pos_x = 0, pos_y = 0, pos_w = 0, pos_h = 0\<rparr>, screen_monitors = [l, r]\<rparr>
    in monitor_bbox s = Some (4480, 1440))"
proof -
  define l where "l = \<lparr>mon_x = - 1920, mon_y = 0, mon_w = 1920, mon_h = 1080, mon_primary = False\<rparr>"
  define r where "r = \<lparr>mon_x = 0, mon_y = - 100, mon_w = 2560, mon_h = 1440, mon_primary = True\<rparr>"
  define s where "s = \<lparr>screen_name = ''a'', screen_aliases = [], screen_position =
              \<lparr>pos_x = 0, pos_y = 0, pos_w = 0, pos_h = 0\<rparr>, screen_monitors = [l, r]\<rparr>"
  have "screen_monitors s \<noteq> []" by (simp add: s_def)
  moreover have "\<forall>m \<in> set (screen_monitors s). monitor_fits m"
    by (simp add: s_def l_def r_def monitor_fits_def)
  ultimately obtain w h where b: "monitor_bbox s = Some (w, h)" "uint w = 4480" "uint h = 1440"
    using monitor_bbox_exact [of s] by (auto simp: s_def l_def r_def)
  then have "w = 4480" "h = 1440" by (simp_all add: word_uint_eq_iff)
  with b(1) show ?thesis
    by (simp add: Let_def l_def [symmetric] r_def [symmetric] s_def [symmetric])
qed

end
