(* ===== verification/Ipc_Types.thy ===== *)
theory Ipc_Types
  imports Config
begin

text \<open>
  The wire types of the IPC crate (\<^verbatim>\<open>crates/synbad-ipc/src/lib.rs\<close>) with the source's
  constructors: peers found by discovery, trusted peers, the state of the supervised Core,
  and the requests, responses and events exchanged between daemon and GUI.
\<close>

record discovered_peer =
  dp_machine_id :: string
  dp_display_name :: string
  dp_host :: string
  dp_addresses :: "string list"
  dp_service_port :: u16
  dp_core_port :: u16
  dp_sync_port :: u16
  dp_audio_port :: u16
  dp_fingerprint :: string
  dp_protocol_version :: u32
  dp_config_head :: string

record trusted_peer =
  tp_machine_id :: string
  tp_display_name :: string
  tp_public_key_hex :: string
  tp_fingerprint :: string
  tp_paired_at_unix :: u64

datatype sync_direction = Inbound | Outbound

record audio_device_info =
  ad_name :: string
  ad_is_default :: bool
  ad_native_sample_rate :: u32
  ad_channels :: u16
  ad_is_loopback :: bool

record peer_audio_status =
  as_machine_id :: string
  as_display_name :: string
  as_sending_to_peer :: bool
  as_receiving_from_peer :: bool
  as_rtt_ms :: "u32 option"
  as_last_error :: "string option"

datatype daemon_state =
    Stopped
  | Starting
  | Running (running_pid: u32)
  | Reconnecting (attempt: u32) (next_retry_secs: u64)
  | Crashed (crash_exit_code: "i32 option")

fun is_running :: "daemon_state \<Rightarrow> bool" where
  "is_running (Running _) = True"
| "is_running Starting = True"
| "is_running _ = False"

definition is_active :: "daemon_state \<Rightarrow> bool" where
  "is_active s \<longleftrightarrow> is_running s \<or>
     (case s of Reconnecting _ _ \<Rightarrow> True | Crashed _ \<Rightarrow> True | _ \<Rightarrow> False)"

datatype request =
    GetStatus
  | GetConfig
  | SetConfig config
  | Start
  | Stop
  | Restart
  | Subscribe
  | ListPeers
  | GetLocalIdentity
  | StartPairing string
  | ConfirmPairing (cp_session_id: string) (cp_accept: bool)
  | ListTrustedPeers
  | RevokeTrust string
  | ListAudioDevices
  | SetAudioConfig audio_config
  | GetAudioStatus
  | Shutdown

datatype response =
    RespOk
  | RespStatus daemon_state "string list" "string list" "string option"
  | RespConfig config
  | RespPeers "discovered_peer list"
  | RespLocalIdentity string string
  | RespTrustedPeers "trusted_peer list"
  | RespAudioDevices "audio_device_info list" "audio_device_info list"
  | RespAudioStatus "peer_audio_status list"
  | RespError string

datatype event =
    EvLog string
  | EvState daemon_state
  | EvConfigChanged
  | EvPeerConnected string
  | EvPeerDisconnected string
  | EvActiveScreen string
  | EvPeerDiscovered discovered_peer
  | EvPeerLost string
  | EvPairingProposed string string string string string
  | EvPairingCompleted trusted_peer
  | EvPairingFailed string string
  | EvTrustRevoked string
  | EvSyncStarted string sync_direction
  | EvSyncCompleted string sync_direction bool string
  | EvSyncFailed string sync_direction string
  | EvAudioDevicesChanged
  | EvAudioPeerStatus peer_audio_status
  | EvAudioPeerRemoved string
  | EvAudioError "string option" string

lemma is_active_iff: "is_active s \<longleftrightarrow> s \<noteq> Stopped"
  by (cases s) (auto simp: is_active_def)

end
