(* ===== verification/Log_Parse.thy ===== *)
theory Log_Parse
  imports Ipc_Types
begin

text \<open>
  Recognising the Core's log lines (\<^verbatim>\<open>crates/synbad-ipc/src/log_parse.rs\<close>).  Strings are their
  UTF-8 bytes; the white space that \<^verbatim>\<open>trim_start\<close> removes is spelled out byte for byte.
\<close>

subsection \<open>String operations\<close>

definition strip_prefix :: "string \<Rightarrow> string \<Rightarrow> string option" where
  "strip_prefix p s = (if take (length p) s = p then Some (drop (length p) s) else None)"

fun find_char :: "char \<Rightarrow> string \<Rightarrow> nat option" where
  "find_char c [] = None"
| "find_char c (x # xs) = (if x = c then Some 0 else map_option Suc (find_char c xs))"

definition is_ascii_digit :: "char \<Rightarrow> bool" where
  "is_ascii_digit c \<longleftrightarrow> (48 :: nat) \<le> of_char c \<and> (of_char c :: nat) \<le> 57"

text \<open>Length in bytes of the white-space character a string starts with; 0 if it starts with none.\<close>

definition ws_len :: "string \<Rightarrow> nat" where
  "ws_len s = (case map (of_char :: char \<Rightarrow> nat) (take 3 s) of
      [] \<Rightarrow> 0
    | a # r \<Rightarrow>
        if a = 32 \<or> (9 \<le> a \<and> a \<le> 13) then 1
        else (case r of
            [] \<Rightarrow> 0
          | b # t \<Rightarrow>
              if a = 194 \<and> (b = 133 \<or> b = 160) then 2
              else (case t of
                  [] \<Rightarrow> 0
                | c # _ \<Rightarrow>
                    if (a = 225 \<and> b = 154 \<and> c = 128)
                     \<or> (a = 226 \<and> b = 128 \<and> ((128 \<le> c \<and> c \<le> 138) \<or> c = 168 \<or> c = 169 \<or> c = 175))
                     \<or> (a = 226 \<and> b = 129 \<and> c = 159)
                     \<or> (a = 227 \<and> b = 128 \<and> c = 128)
                    then 3 else 0)))"

function trim_start :: "string \<Rightarrow> string" where
  "trim_start s = (if ws_len s = 0 then s else trim_start (drop (ws_len s) s))"
  by auto
termination
proof (relation "measure length")
  fix s :: string
  assume "ws_len s \<noteq> 0"
  moreover have "ws_len [] = 0" by (simp add: ws_len_def)
  ultimately show "(drop (ws_len s) s, s) \<in> measure length" by (cases s) auto
qed simp

declare trim_start.simps [simp del]

subsection \<open>The parser\<close>

definition log_levels :: "string list" where
  "log_levels = [''NOTE: '', ''WARNING: '', ''ERROR: '', ''FATAL: '', ''INFO: '', ''DEBUG: '',
     ''DEBUG1: '', ''DEBUG2: '']"

fun strip_first :: "string list \<Rightarrow> string \<Rightarrow> string" where
  "strip_first [] s = s"
| "strip_first (p # ps) s = (case strip_prefix p s of Some rest \<Rightarrow> rest | None \<Rightarrow> strip_first ps s)"

definition strip_timestamp :: "string \<Rightarrow> string" where
  "strip_timestamp trimmed =
     (case strip_prefix ''['' trimmed of
        Some rest \<Rightarrow> (case find_char (CHR '']'') rest of
            Some i \<Rightarrow> trim_start (drop (i + 1) rest)
          | None \<Rightarrow> trimmed)
      | None \<Rightarrow>
          if list_all (\<lambda>c. is_ascii_digit c \<or> c = CHR ''-'') (take 10 trimmed) then
            (case find_char (CHR '' '') trimmed of
               Some i \<Rightarrow> trim_start (drop (i + 1) trimmed)
             | None \<Rightarrow> trimmed)
          else trimmed)"

definition strip_log_prefix :: "string \<Rightarrow> string" where
  "strip_log_prefix line = strip_first log_levels (strip_timestamp (trim_start line))"

definition is_client_server_disconnect :: "string \<Rightarrow> bool" where
  "is_client_server_disconnect line \<longleftrightarrow> starts_with (strip_log_prefix line) ''disconnected from server''"

definition is_core_ready :: "string \<Rightarrow> bool" where
  "is_core_ready line \<longleftrightarrow> (let body = strip_log_prefix line in
     starts_with body ''connected to server'' \<or> starts_with body ''started server'')"

definition is_client_connected :: "string \<Rightarrow> bool" where
  "is_client_connected line \<longleftrightarrow> starts_with (strip_log_prefix line) ''connected to server''"

definition quote :: string where "quote = [CHR 0x22]"

definition extract_quoted_after :: "string \<Rightarrow> string \<Rightarrow> string \<Rightarrow> string option" where
  "extract_quoted_after body prefix suffix =
     Option.bind (strip_prefix prefix body) (\<lambda>after_prefix.
     Option.bind (strip_prefix quote after_prefix) (\<lambda>after_quote.
     Option.bind (find_char (CHR 0x22) after_quote) (\<lambda>close.
     Option.bind (strip_prefix quote (drop close after_quote)) (\<lambda>rest.
     Option.bind (strip_prefix suffix rest) (\<lambda>_. Some (take close after_quote))))))"

definition extract_switch :: "string \<Rightarrow> (string \<times> string) option" where
  "extract_switch body =
     Option.bind (strip_prefix (''switch from '' @ quote) body) (\<lambda>rest.
     Option.bind (find_char (CHR 0x22) rest) (\<lambda>from_end.
     Option.bind (strip_prefix (quote @ '' to '' @ quote) (drop from_end rest)) (\<lambda>to_block.
     Option.bind (find_char (CHR 0x22) to_block) (\<lambda>to_end.
       Some (take from_end rest, take to_end to_block)))))"

definition log_parse :: "string \<Rightarrow> event option" where
  "log_parse line =
     (let body = strip_log_prefix line in
      case extract_quoted_after body ''client '' '' has connected'' of
        Some name \<Rightarrow> Some (EvPeerConnected name)
      | None \<Rightarrow>
        (case extract_quoted_after body ''client '' '' has disconnected'' of
           Some name \<Rightarrow> Some (EvPeerDisconnected name)
         | None \<Rightarrow> map_option (\<lambda>(_, to). EvActiveScreen to) (extract_switch body)))"

subsection \<open>Recognition\<close>

lemma strip_prefix_append [simp]: "strip_prefix p (p @ s) = Some s"
  by (simp add: strip_prefix_def)

lemma strip_prefix_simps:
  "strip_prefix [] s = Some s"
  "strip_prefix (c # p) [] = None"
  "strip_prefix (c # p) (d # s) = (if c = d then strip_prefix p s else None)"
  by (auto simp: strip_prefix_def)

lemma strip_prefix_head_neq: "p = c # p' \<Longrightarrow> s = d # s' \<Longrightarrow> c \<noteq> d \<Longrightarrow> strip_prefix p s = None"
  by (simp add: strip_prefix_def)

lemma find_char_first: "c \<notin> set xs \<Longrightarrow> find_char c (xs @ c # ys) = Some (length xs)"
  by (induction xs) auto

lemma trim_start_id: "ws_len s = 0 \<Longrightarrow> trim_start s = s"
  by (subst trim_start.simps) simp

lemma ws_len_visible:
  "(32 :: nat) < of_char c \<Longrightarrow> (of_char c :: nat) < 127 \<Longrightarrow> ws_len (c # s) = 0"
  by (auto simp: ws_len_def split: list.splits)

text \<open>Optional bracketed time stamp, optional level, then the message.\<close>

definition stamped :: "string option \<Rightarrow> string \<Rightarrow> string" where
  "stamped ts msg = (case ts of None \<Rightarrow> msg | Some t \<Rightarrow> ''['' @ t @ ''] '' @ msg)"

definition levelled :: "string option \<Rightarrow> string \<Rightarrow> string" where
  "levelled lvl msg = (case lvl of None \<Rightarrow> msg | Some l \<Rightarrow> l @ msg)"

definition known_level :: "string option \<Rightarrow> bool" where
  "known_level lvl \<longleftrightarrow> (case lvl of None \<Rightarrow> True | Some l \<Rightarrow> l \<in> set log_levels)"

definition lower_start :: "string \<Rightarrow> bool" where
  "lower_start s \<longleftrightarrow> s \<noteq> [] \<and> (97 :: nat) \<le> of_char (hd s) \<and> (of_char (hd s) :: nat) \<le> 122"

lemma strip_first_levelled:
  assumes "known_level lvl" and "lower_start msg"
  shows "strip_first log_levels (levelled lvl msg) = msg"
proof -
  obtain c r where msg: "msg = c # r" and c: "(97 :: nat) \<le> of_char c"
    using assms(2) by (cases msg) (auto simp: lower_start_def)
  have neq: "c \<noteq> CHR ''N''" "c \<noteq> CHR ''W''" "c \<noteq> CHR ''E''" "c \<noteq> CHR ''F''" "c \<noteq> CHR ''I''" "c \<noteq> CHR ''D''"
    using c by auto
  have "strip_first log_levels msg = msg"
    using neq [symmetric] by (simp add: msg log_levels_def strip_prefix_simps)
  moreover have "list_all (\<lambda>l. strip_first log_levels (l @ msg) = msg) log_levels"
    unfolding log_levels_def list.pred_inject append_Cons append_Nil
    by (simp only: strip_first.simps strip_prefix_simps list.pred_inject append.simps char.inject option.case if_True if_False simp_thms)
  ultimately show ?thesis
    using assms(1) by (cases lvl) (simp_all add: levelled_def known_level_def list_all_iff)
qed

lemma levelled_letter:
  assumes "known_level lvl" and "lower_start msg"
  obtains c r where "levelled lvl msg = c # r" "(65 :: nat) \<le> of_char c" "(of_char c :: nat) \<le> 122"
    "c \<noteq> CHR ''[''"
proof -
  obtain c r where msg: "msg = c # r" and c: "(97 :: nat) \<le> of_char c" "(of_char c :: nat) \<le> 122"
    using assms(2) by (cases msg) (auto simp: lower_start_def)
  show ?thesis
  proof (cases lvl)
    case None
    have "c \<noteq> CHR ''[''" using c(1) by auto
    then show ?thesis using that [of c r] c msg None by (simp add: levelled_def)
  next
    case (Some l)
    then have "l \<in> set log_levels" using assms(1) by (simp add: known_level_def)
    moreover have "list_all (\<lambda>l. l \<noteq> [] \<and> (65 :: nat) \<le> of_char (hd l) \<and> (of_char (hd l) :: nat) \<le> 90) log_levels"
      by (simp add: log_levels_def)
    ultimately have "l \<noteq> [] \<and> (65 :: nat) \<le> of_char (hd l) \<and> (of_char (hd l) :: nat) \<le> 90"
      unfolding list_all_iff by blast
    then have "\<exists>d r'. l = d # r' \<and> (65 :: nat) \<le> of_char d \<and> (of_char d :: nat) \<le> 90"
      by (cases l) simp_all
    then obtain d r' where d: "l = d # r'" "(65 :: nat) \<le> of_char d" "(of_char d :: nat) \<le> 90" by blast
    then have "d \<noteq> CHR ''[''" by auto
    then show ?thesis
      using that [of d "r' @ msg"] Some d by (simp add: levelled_def)
  qed
qed

lemma strip_log_prefix_stamped:
  assumes "known_level lvl" and "lower_start msg" and "\<And>t. ts = Some t \<Longrightarrow> CHR '']'' \<notin> set t"
  shows "strip_log_prefix (stamped ts (levelled lvl msg)) = msg"
proof -
  obtain c r where l: "levelled lvl msg = c # r" and c: "(65 :: nat) \<le> of_char c" "(of_char c :: nat) \<le> 122"
    and bracket: "c \<noteq> CHR ''[''"
    using levelled_letter [OF assms(1,2)] by blast
  have trim: "trim_start (levelled lvl msg) = levelled lvl msg"
    using c unfolding l by (intro trim_start_id ws_len_visible) auto
  have "strip_timestamp (trim_start (stamped ts (levelled lvl msg))) = levelled lvl msg"
  proof (cases ts)
    case None
    have "\<not> (is_ascii_digit c \<or> c = CHR ''-'')"
      using c by (auto simp: is_ascii_digit_def)
    then show ?thesis
      using None trim bracket by (simp add: stamped_def strip_timestamp_def l strip_prefix_def)
  next
    case (Some t)
    let ?line = "CHR ''['' # t @ CHR '']'' # CHR '' '' # levelled lvl msg"
    have "trim_start ?line = ?line"
      by (intro trim_start_id ws_len_visible) auto
    moreover have "find_char (CHR '']'') (t @ CHR '']'' # CHR '' '' # levelled lvl msg) = Some (length t)"
      using assms(3) [OF Some] by (rule find_char_first)
    moreover have "trim_start (CHR '' '' # levelled lvl msg) = levelled lvl msg"
      using trim by (subst trim_start.simps) (simp add: ws_len_def split: list.splits)
    ultimately show ?thesis
      using Some by (simp add: stamped_def strip_timestamp_def strip_prefix_def)
  qed
  then show ?thesis
    using strip_first_levelled [OF assms(1,2)] by (simp add: strip_log_prefix_def)
qed

lemma extract_quoted_after_hit:
  assumes "CHR 0x22 \<notin> set name"
  shows "extract_quoted_after (p @ quote @ name @ quote @ s @ rest) p s = Some name"
proof -
  have "find_char (CHR 0x22) (name @ CHR 0x22 # s @ rest) = Some (length name)"
    using assms by (rule find_char_first)
  then show ?thesis
    by (simp add: extract_quoted_after_def strip_prefix_def quote_def)
qed

lemma extract_quoted_after_other_suffix:
  assumes "CHR 0x22 \<notin> set name" and "strip_prefix s rest = None"
  shows "extract_quoted_after (p @ quote @ name @ quote @ rest) p s = None"
proof -
  have "find_char (CHR 0x22) (name @ CHR 0x22 # rest) = Some (length name)"
    using assms(1) by (rule find_char_first)
  then show ?thesis
    using assms(2) by (simp add: extract_quoted_after_def strip_prefix_def quote_def split: if_splits)
qed

lemma extract_switch_hit:
  assumes "CHR 0x22 \<notin> set a" and "CHR 0x22 \<notin> set b"
  shows "extract_switch (''switch from '' @ quote @ a @ quote @ '' to '' @ quote @ b @ quote @ rest) = Some (a, b)"
proof -
  have "find_char (CHR 0x22) (a @ CHR 0x22 # y) = Some (length a)" for y
    using assms(1) by (rule find_char_first)
  moreover have "find_char (CHR 0x22) (b @ CHR 0x22 # rest) = Some (length b)"
    using assms(2) by (rule find_char_first)
  ultimately show ?thesis
    by (simp add: extract_switch_def strip_prefix_def quote_def)
qed

text \<open>A connect, disconnect or screen-switch line of the Core is recognised with the screen name
  unchanged, behind any known log level and any bracketed time stamp, whatever follows on the line.\<close>

theorem log_parse_recognises:
  assumes lvl: "known_level lvl" and ts: "\<And>t. ts = Some t \<Longrightarrow> CHR '']'' \<notin> set t"
    and names: "CHR 0x22 \<notin> set name" "CHR 0x22 \<notin> set other"
  shows "log_parse (stamped ts (levelled lvl (''client '' @ quote @ name @ quote @ '' has connected'' @ rest)))
           = Some (EvPeerConnected name)
       \<and> log_parse (stamped ts (levelled lvl (''client '' @ quote @ name @ quote @ '' has disconnected'' @ rest)))
           = Some (EvPeerDisconnected name)
       \<and> log_parse (stamped ts (levelled lvl
           (''switch from '' @ quote @ other @ quote @ '' to '' @ quote @ name @ quote @ rest)))
           = Some (EvActiveScreen name)"
proof -
  have body: "strip_log_prefix (stamped ts (levelled lvl (''client '' @ m))) = ''client '' @ m"
      "strip_log_prefix (stamped ts (levelled lvl (''switch from '' @ m))) = ''switch from '' @ m" for m
    by (rule strip_log_prefix_stamped [OF lvl _ ts]; simp add: lower_start_def)+
  have dis: "extract_quoted_after (''client '' @ quote @ name @ quote @ '' has disconnected'' @ rest)
      ''client '' '' has connected'' = None"
    using names(1) by (rule extract_quoted_after_other_suffix) (simp add: strip_prefix_def)
  have sw: "extract_quoted_after (''switch from '' @ m) ''client '' x = None" for m x
    by (simp add: extract_quoted_after_def strip_prefix_def)
  note hit = extract_quoted_after_hit [OF names(1), of "''client ''"]
  show ?thesis
    unfolding log_parse_def body Let_def dis sw hit extract_switch_hit [OF names(2,1)]
    by (simp only: option.case option.map prod.case simp_thms)
qed

theorem log_parse_recognises_witness:
  "log_parse (''[2026] NOTE: client '' @ quote @ ''laptop'' @ quote @ '' has connected'')
     = Some (EvPeerConnected ''laptop'')"
proof -
  have "known_level (Some ''NOTE: '')" by (simp add: known_level_def log_levels_def)
  from log_parse_recognises [OF this, of "Some ''2026''" "''laptop''" "''x''" "[]"]
  show ?thesis by (simp add: stamped_def levelled_def)
qed

end
