(* ===== verification/Core_Proc.thy ===== *)
theory Core_Proc
  imports Log_Parse
begin

text \<open>
  The supervised Deskflow Core (\<^verbatim>\<open>crates/synbadd/src/supervisor/core_proc.rs\<close> and the arms of the
  run loop in \<^verbatim>\<open>supervisor/mod.rs\<close> that concern it): start, resolution of the binary off the loop,
  spawn, exit, backed-off restart, stop.

  Every method of \<^verbatim>\<open>Supervisor\<close> is a function on the record \<open>core_sup\<close> (and on its extensions).
  Times are milliseconds; the clock reading of a method is its argument \<open>now\<close>.  What the
  operating system answers (the outcome of \<^verbatim>\<open>spawn\<close>, file-system faults, the exits that arrive
  while \<^verbatim>\<open>stop_core\<close> waits) and what the release resolver returns are arguments too.  Three fields
  record effects for the theorems: \<open>s_tasks\<close> the configurations captured by resolution tasks in
  flight, \<open>s_spawns\<close> the command lines spawned, \<open>s_killed\<close> the children sent a kill.
\<close>

subsection \<open>Constants and state\<close>

definition LOG_TAIL :: nat where "LOG_TAIL = 500"
definition MIN_BACKOFF :: nat where "MIN_BACKOFF = 500"
definition MAX_BACKOFF :: nat where "MAX_BACKOFF = 30000"
definition CLIENT_MAX_BACKOFF :: nat where "CLIENT_MAX_BACKOFF = 10000"
definition MAX_FAST_FAILS :: nat where "MAX_FAST_FAILS = 5"
definition CORE_CONNECT_TIMEOUT :: nat where "CORE_CONNECT_TIMEOUT = 30000"
definition CORE_HEALTHY_WINDOW :: nat where "CORE_HEALTHY_WINDOW = 60000"
definition CIRCUIT_BREAKER_MAX :: nat where "CIRCUIT_BREAKER_MAX = 300000"

lemmas core_consts = LOG_TAIL_def MIN_BACKOFF_def MAX_BACKOFF_def CLIENT_MAX_BACKOFF_def
  MAX_FAST_FAILS_def CORE_CONNECT_TIMEOUT_def CORE_HEALTHY_WINDOW_def CIRCUIT_BREAKER_MAX_def

text \<open>The two directories everything else is placed in.\<close>

record dirs =
  config_dir :: path
  state_dir :: path

definition config_file :: "dirs \<Rightarrow> path" where
  "config_file d = config_dir d @ [''config.toml'']"
definition config_versions_file :: "dirs \<Rightarrow> path" where
  "config_versions_file d = config_dir d @ [''config.versions.json'']"
definition generated_conf :: "dirs \<Rightarrow> path" where
  "generated_conf d = state_dir d @ [''synergy.conf'']"
definition generated_settings :: "dirs \<Rightarrow> path" where
  "generated_settings d = state_dir d @ [''deskflow.ini'']"
definition user_stopped_marker :: "dirs \<Rightarrow> path" where
  "user_stopped_marker d = state_dir d @ [''user-stopped'']"

datatype core_layout =
    Unified string
  | SplitLegacy (legacy_server: string) (legacy_client: string)

text \<open>An exit status: its code, and its text, which the platform chooses.\<close>

record exit_status =
  es_code :: "i32 option"
  es_text :: string

record core_sup =
  s_config :: config
  s_state :: daemon_state
  s_connected_peers :: "string set"
  s_active_screen :: "string option"
  s_log_tail :: "string list"
  s_events :: "event list"
  s_desired_running :: bool
  s_child_kill :: "u32 option"
  s_backoff :: nat
  s_restart_at :: "nat option"
  s_exits :: "(u32 \<times> exit_status) list"
  s_child_pid :: "u32 option"
  s_core_resolving :: bool
  s_shutdown :: bool
  s_core_ready_at :: "nat option"
  s_core_connect_deadline :: "nat option"
  s_core_disk_log :: bool
  s_fast_fail_count :: u32
  s_fs :: fs
  s_tasks :: "config list"
  s_spawns :: "(string \<times> string list) list"
  s_killed :: "u32 list"

subsection \<open>Number and duration texts\<close>

definition show_u32 :: "u32 \<Rightarrow> string" where
  "show_u32 n = dec_digits (unat n)"

definition show_i32 :: "i32 \<Rightarrow> string" where
  "show_i32 n = (if sint n < 0 then CHR ''-'' # dec_digits (nat (- sint n)) else dec_digits (nat (sint n)))"

definition show_code :: "i32 option \<Rightarrow> string" where
  "show_code c = (case c of None \<Rightarrow> ''None'' | Some n \<Rightarrow> ''Some('' @ show_i32 n @ '')'')"

definition show_millis :: "nat \<Rightarrow> string" where
  "show_millis ms =
     (if 1000 \<le> ms then
        dec_digits (ms div 1000)
        @ (let r = ms mod 1000 in
           if r = 0 then []
           else CHR ''.'' # rev (dropWhile (\<lambda>c. c = CHR ''0'')
                  (rev (map (\<lambda>d. char_of (48 + d)) [r div 100, r div 10 mod 10, r mod 10]))))
        @ ''s''
      else if 0 < ms then dec_digits ms @ ''ms'' else ''0ns'')"

definition saturating_succ :: "u32 \<Rightarrow> u32" where
  "saturating_succ n = (if n = - 1 then n else n + 1)"

subsection \<open>State changes and the log tail\<close>

definition send_event :: "event \<Rightarrow> 'a core_sup_scheme \<Rightarrow> 'a core_sup_scheme" where
  "send_event e s = s\<lparr> s_events := s_events s @ [e] \<rparr>"

definition set_state :: "daemon_state \<Rightarrow> 'a core_sup_scheme \<Rightarrow> 'a core_sup_scheme" where
  "set_state new s =
     (if s_state s \<noteq> new then
        (let s1 = (if is_running new then s
                   else s\<lparr> s_connected_peers := {}, s_active_screen := None \<rparr>)
         in send_event (EvState new) (s1\<lparr> s_state := new \<rparr>))
      else s)"

definition note_structured :: "event \<Rightarrow> 'a core_sup_scheme \<Rightarrow> 'a core_sup_scheme" where
  "note_structured e s = (case e of
       EvPeerConnected name \<Rightarrow> s\<lparr> s_connected_peers := insert name (s_connected_peers s) \<rparr>
     | EvPeerDisconnected name \<Rightarrow> s\<lparr> s_connected_peers := s_connected_peers s - {name} \<rparr>
     | EvActiveScreen name \<Rightarrow> s\<lparr> s_active_screen := Some name \<rparr>
     | _ \<Rightarrow> s)"

definition push_log :: "string \<Rightarrow> string list \<Rightarrow> string list" where
  "push_log line tail = (if LOG_TAIL \<le> length tail then drop 1 tail else tail) @ [line]"

definition record_log :: "string \<Rightarrow> 'a core_sup_scheme \<Rightarrow> 'a core_sup_scheme" where
  "record_log line s =
     (let s1 = s\<lparr> s_log_tail := push_log line (s_log_tail s) \<rparr>;
          s2 = (case log_parse line of
                  Some structured \<Rightarrow> send_event structured (note_structured structured s1)
                | None \<Rightarrow> s1)
      in send_event (EvLog line) s2)"

subsection \<open>Backoff\<close>

definition circuit_breaker_delay :: "u32 \<Rightarrow> nat" where
  "circuit_breaker_delay failures =
     min (60000 * 2 ^ min (unat failures - MAX_FAST_FAILS) 3) CIRCUIT_BREAKER_MAX"

definition restart_backoff :: "nat \<Rightarrow> node_role \<Rightarrow> nat \<times> nat" where
  "restart_backoff backoff r =
     (let cap = (case r of Client \<Rightarrow> CLIENT_MAX_BACKOFF | Server \<Rightarrow> MAX_BACKOFF);
          delay = min backoff cap
      in (delay, min (delay * 2) cap))"

definition schedule_restart :: "nat \<Rightarrow> 'a core_sup_scheme \<Rightarrow> 'a core_sup_scheme \<times> nat" where
  "schedule_restart now s =
     (let (delay0, nxt) = restart_backoff (s_backoff s) (role (s_config s));
          delay = (if MAX_FAST_FAILS \<le> unat (s_fast_fail_count s)
                   then circuit_breaker_delay (s_fast_fail_count s) else delay0)
      in (s\<lparr> s_backoff := nxt, s_restart_at := Some (now + delay) \<rparr>, delay))"

subsection \<open>Starting\<close>

definition is_running_child :: "daemon_state \<Rightarrow> bool" where
  "is_running_child st \<longleftrightarrow> (case st of Running _ \<Rightarrow> True | _ \<Rightarrow> False)"

definition start_core :: "'a core_sup_scheme \<Rightarrow> 'a core_sup_scheme" where
  "start_core s0 =
     (let s = s0\<lparr> s_restart_at := None \<rparr> in
      if is_running_child (s_state s) \<or> s_child_kill s \<noteq> None then s
      else let s1 = set_state Starting s in
        if s_core_resolving s1 then s1
        else s1\<lparr> s_core_resolving := True, s_tasks := s_tasks s1 @ [s_config s1] \<rparr>)"

definition write_core_artefacts ::
  "dirs \<Rightarrow> faults \<Rightarrow> 'a core_sup_scheme \<Rightarrow> 'a core_sup_scheme \<times> (path \<times> io_kind, unit) result" where
  "write_core_artefacts d fl s =
     (let conf_path = generated_conf d; settings_path = generated_settings d in
      case fs_write fl (s_fs s) conf_path (generate_synergy_conf (s_config s)) of
        (m1, Inl e) \<Rightarrow> (s\<lparr> s_fs := m1 \<rparr>, Err (conf_path, e))
      | (m1, Inr _) \<Rightarrow>
        (case fs_write fl m1 settings_path (generate_deskflow_settings (s_config s) conf_path) of
           (m2, Inl e) \<Rightarrow> (s\<lparr> s_fs := m2 \<rparr>, Err (settings_path, e))
         | (m2, Inr _) \<Rightarrow> (s\<lparr> s_fs := m2 \<rparr>, Ok ())))"

definition start_failed :: "nat \<Rightarrow> string \<Rightarrow> 'a core_sup_scheme \<Rightarrow> 'a core_sup_scheme" where
  "start_failed now what s =
     (let s1 = s\<lparr> s_fast_fail_count := saturating_succ (s_fast_fail_count s) \<rparr>;
          (s2, delay) = schedule_restart now s1;
          msg = ''[synbad] '' @ what @ ''; retrying in '' @ show_millis delay
      in set_state (Crashed None) (record_log msg s2))"

text \<open>
  The answer of the operating system to a spawn: a failure with its text, or a process id together
  with what opening the Core's disk log gives (consulted only while that log is not open).
\<close>

datatype spawn_answer =
    Spawn_Failed string
  | Spawned u32 "string option"

definition spawn_child ::
  "nat \<Rightarrow> spawn_answer \<Rightarrow> string \<Rightarrow> string list \<Rightarrow> 'a core_sup_scheme \<Rightarrow>
   'a core_sup_scheme \<times> (string, unit) result" where
  "spawn_child now ans program args s =
     (case ans of
        Spawn_Failed e \<Rightarrow>
          (s, Err (''failed to spawn '' @ program @ '': '' @ e @ ''. Is the binary on PATH?''))
      | Spawned pid log_err \<Rightarrow>
          (case (if s_core_disk_log s then None else log_err) of
             Some e \<Rightarrow> (s\<lparr> s_spawns := s_spawns s @ [(program, args)], s_killed := s_killed s @ [pid] \<rparr>, Err e)
           | None \<Rightarrow>
               (let s1 = s\<lparr> s_spawns := s_spawns s @ [(program, args)], s_core_disk_log := True,
                            s_child_kill := Some pid, s_child_pid := Some pid \<rparr>;
                    s2 = set_state (Running pid) s1
                in (s2\<lparr> s_core_ready_at := None,
                        s_core_connect_deadline := Some (now + CORE_CONNECT_TIMEOUT) \<rparr>, Ok ()))))"

definition build_command ::
  "core_layout \<Rightarrow> config \<Rightarrow> path \<Rightarrow> path \<Rightarrow> (string, string \<times> string list) result" where
  "build_command layout c conf_path settings_path =
     (case layout of
        Unified p \<Rightarrow>
          Ok (p, [(case role c of Server \<Rightarrow> ''server'' | Client \<Rightarrow> ''client''), ''-s'',
                  to_string_lossy settings_path])
      | SplitLegacy srv cli \<Rightarrow>
          (case role c of
             Server \<Rightarrow>
               Ok (srv, [''-f'', ''-1'', ''-n'', server_name c, ''-a'', CHR '':'' # u16_to_string (port c),
                         ''-c'', to_string_lossy conf_path])
           | Client \<Rightarrow>
               and_then (ok_or (remote_address c) ''client role requires server_address'') (\<lambda>addr.
               Ok (cli, [''-f'', ''-1'', ''-n'', server_name c, addr]))))"

definition resolve_core :: "(string, core_layout) result \<Rightarrow> config \<Rightarrow> (string, core_layout) result" where
  "resolve_core fetched c = (case core_path (binaries c) of
       Some p \<Rightarrow> Ok (Unified p)
     | None \<Rightarrow> fetched)"

text \<open>\<open>show_io\<close> is the text of a failed write, which the platform chooses.\<close>

definition on_core_resolved ::
  "dirs \<Rightarrow> (path \<times> io_kind \<Rightarrow> string) \<Rightarrow> faults \<Rightarrow> nat \<Rightarrow> spawn_answer \<Rightarrow> (string, core_layout) result \<Rightarrow>
   'a core_sup_scheme \<Rightarrow> 'a core_sup_scheme" where
  "on_core_resolved d show_io fl now ans outcome s0 =
     (let s = s0\<lparr> s_core_resolving := False \<rparr> in
      if \<not> s_desired_running s then s
      else if is_running_child (s_state s) \<or> s_child_kill s \<noteq> None then s
      else case outcome of
        Inl reason \<Rightarrow> start_failed now (''could not obtain Deskflow Core: '' @ reason) s
      | Inr resolved \<Rightarrow>
          (case write_core_artefacts d fl s of
             (s1, Inl e) \<Rightarrow> start_failed now (show_io e) s1
           | (s1, Inr _) \<Rightarrow>
               (case build_command resolved (s_config s1) (generated_conf d) (generated_settings d) of
                  Inl e \<Rightarrow>
                    set_state (Crashed None) (record_log (''[synbad] bad Core command line: '' @ e) s1)
                | Inr (program, args) \<Rightarrow>
                    (case spawn_child now ans program args s1 of
                       (s2, Inl e) \<Rightarrow> start_failed now e s2
                     | (s2, Inr _) \<Rightarrow> s2))))"

subsection \<open>Stopping and exits\<close>

text \<open>What is left of the exit channel after waiting for the exit of \<open>pid\<close>: everything up to and
  including it is consumed; if it does not come, all is consumed until the timeout.\<close>

fun await_exit :: "u32 option \<Rightarrow> (u32 \<times> exit_status) list \<Rightarrow> (u32 \<times> exit_status) list" where
  "await_exit pid [] = []"
| "await_exit pid (x # xs) = (if Some (fst x) = pid then xs else await_exit pid xs)"

definition stop_core :: "(u32 \<times> exit_status) list \<Rightarrow> 'a core_sup_scheme \<Rightarrow> 'a core_sup_scheme" where
  "stop_core arrivals s =
     (let s1 = s\<lparr> s_restart_at := None, s_core_connect_deadline := None, s_core_ready_at := None,
                  s_child_pid := None \<rparr>;
          s2 = (case s_child_kill s1 of
                  Some k \<Rightarrow> s1\<lparr> s_child_kill := None, s_killed := s_killed s1 @ [k],
                                s_exits := await_exit (s_child_pid s) (s_exits s1 @ arrivals) \<rparr>
                | None \<Rightarrow> s1)
      in set_state Stopped s2)"

definition restart_core :: "(u32 \<times> exit_status) list \<Rightarrow> 'a core_sup_scheme \<Rightarrow> 'a core_sup_scheme" where
  "restart_core arrivals s =
     start_core (stop_core arrivals (s\<lparr> s_fast_fail_count := 0, s_backoff := MIN_BACKOFF \<rparr>))"

definition was_healthy :: "nat \<Rightarrow> 'a core_sup_scheme \<Rightarrow> bool" where
  "was_healthy now s \<longleftrightarrow>
     (case s_core_ready_at s of None \<Rightarrow> False | Some t \<Rightarrow> CORE_HEALTHY_WINDOW \<le> now - t)"

text \<open>The exit of the current child: the fields are cleared and the retry budget updated.\<close>

definition retire_child :: "nat \<Rightarrow> u32 \<Rightarrow> exit_status \<Rightarrow> 'a core_sup_scheme \<Rightarrow> 'a core_sup_scheme" where
  "retire_child now pid status s =
     (let s1 = record_log (''[synbad] Core '' @ show_u32 pid @ '' exited: '' @ es_text status
                           @ ''; diagnostics in core.log'') s;
          s2 = s1\<lparr> s_child_pid := None, s_child_kill := None, s_core_connect_deadline := None,
                   s_core_ready_at := None \<rparr>
      in if \<not> was_healthy now s1
         then s2\<lparr> s_fast_fail_count := saturating_succ (s_fast_fail_count s2) \<rparr>
         else s2\<lparr> s_fast_fail_count := 0, s_backoff := MIN_BACKOFF \<rparr>)"

definition note_repeated_failure :: "i32 option \<Rightarrow> 'a core_sup_scheme \<Rightarrow> 'a core_sup_scheme" where
  "note_repeated_failure code s =
     (if role (s_config s) \<noteq> Client \<and> unat (s_fast_fail_count s) = MAX_FAST_FAILS
      then record_log (''[synbad] core failed '' @ show_u32 (s_fast_fail_count s)
             @ '' consecutive times (exit '' @ show_code code
             @ ''); check runtime dependencies and whether the server port is in use. Retrying with capped backoff.'') s
      else s)"

definition retry_after_exit :: "nat \<Rightarrow> i32 option \<Rightarrow> 'a core_sup_scheme \<Rightarrow> 'a core_sup_scheme" where
  "retry_after_exit now code s =
     (let (s5, delay) = schedule_restart now (note_repeated_failure code s);
          attempt = saturating_succ (s_fast_fail_count s5)
      in if role (s_config s) = Client
         then record_log (''[synbad] can'' @ [CHR 0x27] @ ''t reach server (exit '' @ show_code code
                @ ''); retrying in '' @ show_millis delay @ '' (attempt '' @ show_u32 attempt @ '')'')
                (set_state (Reconnecting attempt (of_nat (delay div 1000))) s5)
         else set_state (Crashed code) s5)"

definition handle_child_exit ::
  "nat \<Rightarrow> u32 \<Rightarrow> exit_status \<Rightarrow> 'a core_sup_scheme \<Rightarrow> 'a core_sup_scheme" where
  "handle_child_exit now pid status s =
     (if s_child_pid s \<noteq> Some pid then s
      else let s3 = retire_child now pid status s in
        if \<not> s_desired_running s3 then set_state Stopped s3
        else retry_after_exit now (es_code status) s3)"

subsection \<open>The run loop's arms\<close>

definition core_stalled :: "'a core_sup_scheme \<Rightarrow> 'a core_sup_scheme" where
  "core_stalled s =
     (let failure = (case role (s_config s) of
            Client \<Rightarrow> ''no input-sharing connection'' | Server \<Rightarrow> ''no ready input-sharing listener'');
          s1 = record_log (''[synbad] Core made '' @ failure @ '' within ''
                 @ dec_digits (CORE_CONNECT_TIMEOUT div 1000)
                 @ ''s; terminating stalled Core and retrying with backoff'')
                 (s\<lparr> s_core_connect_deadline := None \<rparr>)
      in case s_child_kill s1 of
           Some k \<Rightarrow> s1\<lparr> s_child_kill := None, s_killed := s_killed s1 @ [k] \<rparr>
         | None \<Rightarrow> s1)"

definition restart_due :: "'a core_sup_scheme \<Rightarrow> 'a core_sup_scheme" where
  "restart_due s =
     (let s1 = s\<lparr> s_restart_at := None \<rparr> in if s_desired_running s1 then start_core s1 else s1)"

definition maybe_force_reconnect :: "string \<Rightarrow> 'a core_sup_scheme \<Rightarrow> 'a core_sup_scheme" where
  "maybe_force_reconnect line s =
     (if starts_with line ''[synbad]'' then s
      else if role (s_config s) \<noteq> Client then s
      else if \<not> is_client_server_disconnect line then s
      else case s_child_kill s of
        None \<Rightarrow> s
      | Some k \<Rightarrow> s\<lparr> s_child_kill := None, s_killed := s_killed s @ [k] \<rparr>)"

definition handle_core_log :: "nat \<Rightarrow> u32 \<Rightarrow> string \<Rightarrow> 'a core_sup_scheme \<Rightarrow> 'a core_sup_scheme" where
  "handle_core_log now pid line s =
     (if s_child_pid s = Some pid then
        let s1 = (if is_core_ready line \<and> s_core_ready_at s = None
                  then s\<lparr> s_core_ready_at := Some now \<rparr> else s);
            s2 = (if is_client_connected line \<or> role (s_config s1) = Server \<and> is_core_ready line
                  then s1\<lparr> s_core_connect_deadline := None \<rparr> else s1)
        in record_log line (maybe_force_reconnect line s2)
      else record_log (''[synbad] retired Core '' @ show_u32 pid @ '': '' @ line) s)"

subsection \<open>Requests, launch and edits: their effect on the Core\<close>

text \<open>The marker file records an explicit Stop; failures to write or remove it are only logged.\<close>

definition persist_user_stopped ::
  "dirs \<Rightarrow> faults \<Rightarrow> bool \<Rightarrow> 'a core_sup_scheme \<Rightarrow> 'a core_sup_scheme" where
  "persist_user_stopped d fl stopped s =
     s\<lparr> s_fs := fst (if stopped then fs_write fl (s_fs s) (user_stopped_marker d) []
                    else fs_remove fl (s_fs s) (user_stopped_marker d)) \<rparr>"

definition request_start :: "dirs \<Rightarrow> faults \<Rightarrow> 'a core_sup_scheme \<Rightarrow> 'a core_sup_scheme" where
  "request_start d fl s =
     start_core ((persist_user_stopped d fl False (s\<lparr> s_desired_running := True \<rparr>))
       \<lparr> s_fast_fail_count := 0, s_backoff := MIN_BACKOFF \<rparr>)"

definition request_stop ::
  "dirs \<Rightarrow> faults \<Rightarrow> (u32 \<times> exit_status) list \<Rightarrow> 'a core_sup_scheme \<Rightarrow> 'a core_sup_scheme" where
  "request_stop d fl arrivals s =
     stop_core arrivals ((persist_user_stopped d fl True (s\<lparr> s_desired_running := False \<rparr>))
       \<lparr> s_fast_fail_count := 0 \<rparr>)"

definition request_restart ::
  "dirs \<Rightarrow> faults \<Rightarrow> (u32 \<times> exit_status) list \<Rightarrow> 'a core_sup_scheme \<Rightarrow> 'a core_sup_scheme" where
  "request_restart d fl arrivals s =
     restart_core arrivals (persist_user_stopped d fl False (s\<lparr> s_desired_running := True \<rparr>))"

definition launch :: "dirs \<Rightarrow> faults \<Rightarrow> 'a core_sup_scheme \<Rightarrow> 'a core_sup_scheme" where
  "launch d fl s =
     (if \<not> (fl (Op_Read (user_stopped_marker d)) = None \<and> s_fs s (user_stopped_marker d) \<noteq> None)
      then start_core (s\<lparr> s_desired_running := True \<rparr>) else s)"

text \<open>Swapping in a configuration, with a restart if the Core consumes what changed.\<close>

definition restart_if_needed ::
  "(u32 \<times> exit_status) list \<Rightarrow> bool \<Rightarrow> 'a core_sup_scheme \<Rightarrow> 'a core_sup_scheme" where
  "restart_if_needed arrivals core_inputs_changed s =
     (if s_desired_running s \<and> core_inputs_changed then restart_core arrivals s else s)"

definition core_boot :: "config \<Rightarrow> fs \<Rightarrow> core_sup" where
  "core_boot c m =
     \<lparr> s_config = c, s_state = Stopped, s_connected_peers = {}, s_active_screen = None, s_log_tail = [],
       s_events = [], s_desired_running = False, s_child_kill = None, s_backoff = MIN_BACKOFF,
       s_restart_at = None, s_exits = [], s_child_pid = None, s_core_resolving = False, s_shutdown = False,
       s_core_ready_at = None, s_core_connect_deadline = None, s_core_disk_log = False,
       s_fast_fail_count = 0, s_fs = m, s_tasks = [], s_spawns = [], s_killed = [] \<rparr>"

subsection \<open>The Core as a state machine\<close>

inductive core_step :: "dirs \<Rightarrow> (path \<times> io_kind \<Rightarrow> string) \<Rightarrow> faults \<Rightarrow> core_sup \<Rightarrow> core_sup \<Rightarrow> bool"
  for d :: dirs and show_io :: "path \<times> io_kind \<Rightarrow> string" and fl :: faults where
  stalled: "s_core_connect_deadline s = Some t \<Longrightarrow> t \<le> now \<Longrightarrow> core_step d show_io fl s (core_stalled s)"
| due: "s_restart_at s = Some t \<Longrightarrow> t \<le> now \<Longrightarrow> core_step d show_io fl s (restart_due s)"
| resolved: "s_tasks s = c # ts \<Longrightarrow>
    core_step d show_io fl s
      (on_core_resolved d show_io fl now ans (resolve_core fetched c) (s\<lparr> s_tasks := ts \<rparr>))"
| daemon_log: "core_step d show_io fl s (record_log line s)"
| core_log: "core_step d show_io fl s (handle_core_log now pid line s)"
| exit_arrives: "core_step d show_io fl s (s\<lparr> s_exits := s_exits s @ [x] \<rparr>)"
| exits: "s_exits s = (pid, status) # xs \<Longrightarrow>
    core_step d show_io fl s (handle_child_exit now pid status (s\<lparr> s_exits := xs \<rparr>))"
| req_start: "core_step d show_io fl s (request_start d fl s)"
| req_stop: "core_step d show_io fl s (request_stop d fl arrivals s)"
| req_restart: "core_step d show_io fl s (request_restart d fl arrivals s)"
| edit: "validate c = Ok () \<Longrightarrow>
    core_step d show_io fl s
      (restart_if_needed arrivals (core_inputs_differ (s_config s) c) (s\<lparr> s_config := c \<rparr>))"

text \<open>Faults may differ from step to step.\<close>

inductive core_reachable :: "dirs \<Rightarrow> (path \<times> io_kind \<Rightarrow> string) \<Rightarrow> core_sup \<Rightarrow> bool"
  for d :: dirs and show_io :: "path \<times> io_kind \<Rightarrow> string" where
  boot: "validate c = Ok () \<Longrightarrow> core_reachable d show_io (launch d fl (core_boot c m))"
| step: "core_reachable d show_io s \<Longrightarrow> core_step d show_io fl s t \<Longrightarrow> core_reachable d show_io t"

end
