(* ===== verification/Core_Lifecycle.thy ===== *)
theory Core_Lifecycle
  imports Core_Proc
begin

text \<open>
  What the Core's state machine guarantees in every reachable state: the published state agrees with
  the child, the pending resolution and the armed timer; a wanted Core always has exactly one of
  these; Stop is final; the retry delays; the user's intent across daemon restarts.
\<close>

subsection \<open>What each helper leaves alone\<close>

lemma send_event_simps [simp]:
  "s_config (send_event e s) = s_config s" "s_state (send_event e s) = s_state s"
  "s_log_tail (send_event e s) = s_log_tail s" "s_desired_running (send_event e s) = s_desired_running s"
  "s_child_kill (send_event e s) = s_child_kill s" "s_backoff (send_event e s) = s_backoff s"
  "s_restart_at (send_event e s) = s_restart_at s" "s_exits (send_event e s) = s_exits s"
  "s_child_pid (send_event e s) = s_child_pid s" "s_core_resolving (send_event e s) = s_core_resolving s"
  "s_shutdown (send_event e s) = s_shutdown s" "s_core_ready_at (send_event e s) = s_core_ready_at s"
  "s_core_connect_deadline (send_event e s) = s_core_connect_deadline s"
  "s_core_disk_log (send_event e s) = s_core_disk_log s"
  "s_fast_fail_count (send_event e s) = s_fast_fail_count s" "s_fs (send_event e s) = s_fs s"
  "s_tasks (send_event e s) = s_tasks s" "s_spawns (send_event e s) = s_spawns s"
  "s_killed (send_event e s) = s_killed s"
  by (simp_all add: send_event_def)

lemma set_state_simps [simp]:
  "s_state (set_state st s) = st"
  "s_config (set_state st s) = s_config s"
  "s_log_tail (set_state st s) = s_log_tail s" "s_desired_running (set_state st s) = s_desired_running s"
  "s_child_kill (set_state st s) = s_child_kill s" "s_backoff (set_state st s) = s_backoff s"
  "s_restart_at (set_state st s) = s_restart_at s" "s_exits (set_state st s) = s_exits s"
  "s_child_pid (set_state st s) = s_child_pid s" "s_core_resolving (set_state st s) = s_core_resolving s"
  "s_shutdown (set_state st s) = s_shutdown s" "s_core_ready_at (set_state st s) = s_core_ready_at s"
  "s_core_connect_deadline (set_state st s) = s_core_connect_deadline s"
  "s_core_disk_log (set_state st s) = s_core_disk_log s"
  "s_fast_fail_count (set_state st s) = s_fast_fail_count s" "s_fs (set_state st s) = s_fs s"
  "s_tasks (set_state st s) = s_tasks s" "s_spawns (set_state st s) = s_spawns s"
  "s_killed (set_state st s) = s_killed s"
  by (simp_all add: set_state_def Let_def)

lemma note_structured_simps [simp]:
  "s_config (note_structured e s) = s_config s" "s_state (note_structured e s) = s_state s"
  "s_log_tail (note_structured e s) = s_log_tail s" "s_desired_running (note_structured e s) = s_desired_running s"
  "s_child_kill (note_structured e s) = s_child_kill s" "s_backoff (note_structured e s) = s_backoff s"
  "s_restart_at (note_structured e s) = s_restart_at s" "s_exits (note_structured e s) = s_exits s"
  "s_child_pid (note_structured e s) = s_child_pid s" "s_core_resolving (note_structured e s) = s_core_resolving s"
  "s_shutdown (note_structured e s) = s_shutdown s" "s_core_ready_at (note_structured e s) = s_core_ready_at s"
  "s_core_connect_deadline (note_structured e s) = s_core_connect_deadline s"
  "s_core_disk_log (note_structured e s) = s_core_disk_log s"
  "s_fast_fail_count (note_structured e s) = s_fast_fail_count s" "s_fs (note_structured e s) = s_fs s"
  "s_tasks (note_structured e s) = s_tasks s" "s_spawns (note_structured e s) = s_spawns s"
  "s_killed (note_structured e s) = s_killed s"
  by (simp_all add: note_structured_def split: event.split)

lemma record_log_simps [simp]:
  "s_config (record_log l s) = s_config s" "s_state (record_log l s) = s_state s"
  "s_log_tail (record_log l s) = push_log l (s_log_tail s)"
  "s_desired_running (record_log l s) = s_desired_running s"
  "s_child_kill (record_log l s) = s_child_kill s" "s_backoff (record_log l s) = s_backoff s"
  "s_restart_at (record_log l s) = s_restart_at s" "s_exits (record_log l s) = s_exits s"
  "s_child_pid (record_log l s) = s_child_pid s" "s_core_resolving (record_log l s) = s_core_resolving s"
  "s_shutdown (record_log l s) = s_shutdown s" "s_core_ready_at (record_log l s) = s_core_ready_at s"
  "s_core_connect_deadline (record_log l s) = s_core_connect_deadline s"
  "s_core_disk_log (record_log l s) = s_core_disk_log s"
  "s_fast_fail_count (record_log l s) = s_fast_fail_count s" "s_fs (record_log l s) = s_fs s"
  "s_tasks (record_log l s) = s_tasks s" "s_spawns (record_log l s) = s_spawns s"
  "s_killed (record_log l s) = s_killed s"
  by (simp_all add: record_log_def Let_def split: option.split)

lemma push_log_bound: "length tail \<le> LOG_TAIL \<Longrightarrow> length (push_log line tail) \<le> LOG_TAIL"
  by (auto simp: push_log_def LOG_TAIL_def)

subsection \<open>The invariant\<close>

text \<open>\<open>core_base\<close> holds also between the statements of a method; \<open>core_inv\<close> holds between the
  iterations of the run loop.\<close>

definition core_base :: "'a core_sup_scheme \<Rightarrow> bool" where
  "core_base s \<longleftrightarrow>
     (\<forall>p. s_state s = Running p \<longleftrightarrow> s_child_pid s = Some p)
   \<and> (s_child_kill s \<noteq> None \<longrightarrow> s_child_kill s = s_child_pid s)
   \<and> (s_state s = Starting \<longrightarrow> s_core_resolving s)
   \<and> (if s_core_resolving s then length (s_tasks s) = 1 else s_tasks s = [])
   \<and> (s_child_pid s \<noteq> None \<longrightarrow> \<not> s_core_resolving s \<and> s_restart_at s = None)
   \<and> (s_restart_at s \<noteq> None \<longrightarrow> \<not> s_core_resolving s)
   \<and> MIN_BACKOFF \<le> s_backoff s \<and> s_backoff s \<le> MAX_BACKOFF
   \<and> length (s_log_tail s) \<le> LOG_TAIL
   \<and> validate (s_config s) = Ok ()"

definition backoff_tracks :: "'a core_sup_scheme \<Rightarrow> bool" where
  "backoff_tracks s \<longleftrightarrow> (unat (s_fast_fail_count s) < MAX_FAST_FAILS \<longrightarrow>
     MIN_BACKOFF * 2 ^ unat (s_fast_fail_count s) \<le> s_backoff s \<and>
     s_backoff s \<le> MIN_BACKOFF * 2 ^ Suc (unat (s_fast_fail_count s)))"

text \<open>A Core that is wanted is resolving, running, or waiting for its timer, and says so.\<close>

definition wanted_alive :: "'a core_sup_scheme \<Rightarrow> bool" where
  "wanted_alive s \<longleftrightarrow> (case s_state s of
       Stopped \<Rightarrow> False
     | Starting \<Rightarrow> s_core_resolving s
     | Running p \<Rightarrow> s_child_pid s = Some p
     | Reconnecting _ _ \<Rightarrow> s_restart_at s \<noteq> None
     | Crashed _ \<Rightarrow> s_restart_at s \<noteq> None)"

definition core_inv :: "'a core_sup_scheme \<Rightarrow> bool" where
  "core_inv s \<longleftrightarrow> core_base s
   \<and> (if s_desired_running s then wanted_alive s \<and> backoff_tracks s
      else s_state s = Stopped \<and> s_restart_at s = None)"

lemma core_baseD:
  assumes "core_base s"
  shows "s_state s = Running p \<longleftrightarrow> s_child_pid s = Some p"
    and "s_child_kill s = Some k \<Longrightarrow> s_child_pid s = Some k"
    and "s_state s = Starting \<Longrightarrow> s_core_resolving s"
    and "s_child_pid s = Some p \<Longrightarrow> \<not> s_core_resolving s \<and> s_restart_at s = None"
    and "s_restart_at s = Some t \<Longrightarrow> \<not> s_core_resolving s"
    and "MIN_BACKOFF \<le> s_backoff s" and "s_backoff s \<le> MAX_BACKOFF"
    and "length (s_log_tail s) \<le> LOG_TAIL" and "validate (s_config s) = Ok ()"
  using assms unfolding core_base_def by force+

lemma running_child_iff: "core_base s \<Longrightarrow> is_running_child (s_state s) \<longleftrightarrow> s_child_pid s \<noteq> None"
  by (cases "s_state s") (auto simp: is_running_child_def core_base_def)

lemma unat_saturating_succ:
  "unat (saturating_succ n) = (if n = - 1 then unat n else Suc (unat n))"
proof (cases "n = - 1")
  case False
  then have "1 + n \<noteq> 0" by (metis add.commute add_eq_0_iff)
  then show ?thesis using False unatSuc [of n] by (simp add: saturating_succ_def add.commute)
qed (simp add: saturating_succ_def)

subsection \<open>Every method keeps the invariant\<close>

lemma core_inv_base: "core_inv s \<Longrightarrow> core_base s"
  by (simp add: core_inv_def)

lemma core_base_frame:
  fixes s :: "'a core_sup_scheme" and t :: "'b core_sup_scheme"
  assumes "core_base s" and "s_state t = s_state s" "s_child_pid t = s_child_pid s"
    "s_child_kill t = None \<or> s_child_kill t = s_child_kill s" "s_core_resolving t = s_core_resolving s"
    "s_tasks t = s_tasks s" "s_restart_at t = s_restart_at s" "s_backoff t = s_backoff s"
    "validate (s_config t) = Ok ()" "length (s_log_tail t) \<le> LOG_TAIL"
  shows "core_base t"
  using assms unfolding core_base_def by auto

lemma core_inv_frame:
  fixes s :: "'a core_sup_scheme" and t :: "'b core_sup_scheme"
  assumes "core_inv s" and "s_state t = s_state s" "s_child_pid t = s_child_pid s"
    "s_child_kill t = None \<or> s_child_kill t = s_child_kill s" "s_core_resolving t = s_core_resolving s"
    "s_tasks t = s_tasks s" "s_restart_at t = s_restart_at s" "s_backoff t = s_backoff s"
    "validate (s_config t) = Ok ()" "length (s_log_tail t) \<le> LOG_TAIL"
    "s_desired_running t = s_desired_running s" "s_fast_fail_count t = s_fast_fail_count s"
  shows "core_inv t"
proof -
  have "wanted_alive t = wanted_alive s" "backoff_tracks t = backoff_tracks s"
    unfolding wanted_alive_def backoff_tracks_def assms by (rule refl)+
  then show ?thesis
    using core_base_frame [OF core_inv_base [OF assms(1)] assms(2-10)] assms
    unfolding core_inv_def by simp
qed

lemma core_inv_tail: "core_inv s \<Longrightarrow> length (s_log_tail s) \<le> LOG_TAIL"
  and core_inv_valid: "core_inv s \<Longrightarrow> validate (s_config s) = Ok ()"
  by (auto simp: core_inv_def core_base_def)

lemma record_log_inv: "core_inv s \<Longrightarrow> core_inv (record_log l s)"
  by (rule core_inv_frame [of s]) (simp_all add: push_log_bound core_inv_tail core_inv_valid)

lemma start_core_inv:
  assumes "core_base s" and "s_desired_running s" and "backoff_tracks s"
  shows "core_inv (start_core s)"
proof (cases "is_running_child (s_state s) \<or> s_child_kill s \<noteq> None")
  case True
  then obtain p where "s_child_pid s = Some p"
    using running_child_iff [OF assms(1)] assms(1) by (auto simp: core_base_def)
  then have p: "s_state s = Running p" "s_restart_at s = None"
    using core_baseD(1,4) [OF assms(1)] by auto
  then have "core_inv s"
    using assms core_baseD(1) [OF assms(1), of p] by (simp add: core_inv_def wanted_alive_def)
  moreover have "start_core s = s\<lparr> s_restart_at := None \<rparr>"
    using True by (simp add: start_core_def)
  ultimately show ?thesis
    using p by (auto intro: core_inv_frame [of s] simp: core_inv_tail core_inv_valid)
next
  case False
  then have none: "s_child_pid s = None" "s_child_kill s = None"
    using running_child_iff [OF assms(1)] by auto
  then show ?thesis
    using assms False
    by (auto simp: start_core_def core_inv_def core_base_def wanted_alive_def backoff_tracks_def Let_def)
qed

lemma stop_core_base: "core_base s \<Longrightarrow> core_base (stop_core arr s)"
  by (auto simp: stop_core_def core_base_def Let_def split: option.splits)

lemma stop_core_simps [simp]:
  "s_state (stop_core arr s) = Stopped" "s_restart_at (stop_core arr s) = None"
  "s_child_pid (stop_core arr s) = None" "s_child_kill (stop_core arr s) = None"
  "s_desired_running (stop_core arr s) = s_desired_running s"
  "s_fast_fail_count (stop_core arr s) = s_fast_fail_count s"
  "s_backoff (stop_core arr s) = s_backoff s" "s_config (stop_core arr s) = s_config s"
  "s_fs (stop_core arr s) = s_fs s" "s_tasks (stop_core arr s) = s_tasks s"
  "s_core_resolving (stop_core arr s) = s_core_resolving s" "s_spawns (stop_core arr s) = s_spawns s"
  by (auto simp: stop_core_def Let_def split: option.splits)

lemma backoff_tracks_reset:
  "s_fast_fail_count s = 0 \<Longrightarrow> s_backoff s = MIN_BACKOFF \<Longrightarrow> backoff_tracks s"
  by (simp add: backoff_tracks_def core_consts)

lemma restart_core_inv:
  assumes "core_base s" and "s_desired_running s"
  shows "core_inv (restart_core arr s)"
proof -
  let ?s = "s\<lparr> s_fast_fail_count := 0, s_backoff := MIN_BACKOFF \<rparr>"
  have "core_base ?s" using assms(1) by (simp add: core_base_def core_consts)
  then have "core_base (stop_core arr ?s)" by (rule stop_core_base)
  then show ?thesis
    unfolding restart_core_def using assms(2)
    by (intro start_core_inv) (simp_all add: backoff_tracks_reset)
qed

text \<open>Arming the timer, from a state with no child and no resolution in flight.\<close>

lemma restart_backoff_bounds:
  assumes "restart_backoff b r = (delay, nxt)" and "MIN_BACKOFF \<le> b"
  shows "MIN_BACKOFF \<le> delay" "delay \<le> b" "delay \<le> MAX_BACKOFF" "MIN_BACKOFF \<le> nxt" "nxt \<le> MAX_BACKOFF"
    "b \<le> 8000 \<Longrightarrow> delay = b" "nxt \<le> 2 * b" "b \<le> 4000 \<Longrightarrow> nxt = 2 * b" "4000 \<le> b \<Longrightarrow> 8000 \<le> nxt"
  using assms by (auto simp: restart_backoff_def Let_def core_consts split: node_role.splits)

lemma circuit_breaker_bounds: "60000 \<le> circuit_breaker_delay n" "circuit_breaker_delay n \<le> 300000"
  by (auto simp: circuit_breaker_delay_def core_consts min_def)

text \<open>A state with nothing in progress, from which the timer is armed.\<close>

definition quiet :: "'a core_sup_scheme \<Rightarrow> bool" where
  "quiet s \<longleftrightarrow> s_child_pid s = None \<and> s_child_kill s = None \<and> \<not> s_core_resolving s \<and> s_tasks s = []
   \<and> MIN_BACKOFF \<le> s_backoff s \<and> s_backoff s \<le> MAX_BACKOFF
   \<and> length (s_log_tail s) \<le> LOG_TAIL \<and> validate (s_config s) = Ok ()"

definition backoff_due :: "'a core_sup_scheme \<Rightarrow> bool" where
  "backoff_due s \<longleftrightarrow> (unat (s_fast_fail_count s) < MAX_FAST_FAILS \<longrightarrow>
     MIN_BACKOFF * 2 ^ unat (s_fast_fail_count s) \<le> 2 * s_backoff s \<and>
     s_backoff s \<le> MIN_BACKOFF * 2 ^ unat (s_fast_fail_count s))"

lemma unat_u32_max: "\<not> unat (- 1 :: u32) < MAX_FAST_FAILS"
proof -
  have "(5 :: u32) \<le> - 1" by simp
  then show ?thesis by (simp only: word_le_nat_alt core_consts) simp
qed

lemma backoff_due_failure:
  assumes "backoff_tracks s" and "s_fast_fail_count t = saturating_succ (s_fast_fail_count s)"
    and "s_backoff t = s_backoff s"
  shows "backoff_due t"
proof (cases "s_fast_fail_count s = - 1")
  case True
  then have "saturating_succ (s_fast_fail_count s) = - 1" by (simp add: saturating_succ_def)
  then show ?thesis using assms(2) unat_u32_max by (simp only: backoff_due_def simp_thms)
next
  case False
  then show ?thesis
    using assms by (simp add: backoff_tracks_def backoff_due_def unat_saturating_succ)
qed

lemma backoff_due_reset: "s_fast_fail_count t = 0 \<Longrightarrow> s_backoff t = MIN_BACKOFF \<Longrightarrow> backoff_due t"
  by (simp add: backoff_due_def core_consts)

lemma quiet_record_log: "quiet s \<Longrightarrow> quiet (record_log l s)"
  by (simp add: quiet_def push_log_bound)

lemma pow_le_16: "c < MAX_FAST_FAILS \<Longrightarrow> (2::nat) ^ c \<le> 16"
proof -
  assume "c < MAX_FAST_FAILS"
  then have "c \<le> 4" by (simp add: core_consts)
  then have "(2::nat) ^ c \<le> 2 ^ 4" by (rule power_increasing) simp
  then show ?thesis by simp
qed

definition retry_delay_ok :: "u32 \<Rightarrow> nat \<Rightarrow> bool" where
  "retry_delay_ok failures delay \<longleftrightarrow>
     (if unat failures < MAX_FAST_FAILS
      then MIN_BACKOFF * 2 ^ unat failures \<le> 2 * delay \<and> delay \<le> MIN_BACKOFF * 2 ^ unat failures
      else delay = circuit_breaker_delay failures)"

lemma schedule_restart_arms:
  assumes "schedule_restart now s = (s', delay)" and "quiet s" and "backoff_due s"
  shows "quiet s'" and "backoff_tracks s'" and "s_restart_at s' = Some (now + delay)"
    and "s_desired_running s' = s_desired_running s" and "s_fast_fail_count s' = s_fast_fail_count s"
    and "retry_delay_ok (s_fast_fail_count s) delay" and "s_config s' = s_config s"
    and "s_fs s' = s_fs s" and "s_core_ready_at s' = s_core_ready_at s" and "s_spawns s' = s_spawns s"
proof -
  obtain d0 nxt where rb: "restart_backoff (s_backoff s) (role (s_config s)) = (d0, nxt)"
    by (cases "restart_backoff (s_backoff s) (role (s_config s))")
  note b = restart_backoff_bounds [OF rb]
  have min: "MIN_BACKOFF \<le> s_backoff s" using assms(2) by (simp add: quiet_def)
  show "quiet s'" "s_restart_at s' = Some (now + delay)" "s_desired_running s' = s_desired_running s"
    "s_fast_fail_count s' = s_fast_fail_count s" "s_config s' = s_config s" "s_fs s' = s_fs s"
    "s_core_ready_at s' = s_core_ready_at s" "s_spawns s' = s_spawns s"
    using assms(1,2) b(4,5) [OF min] by (auto simp: schedule_restart_def rb quiet_def Let_def)
  have delay: "delay = (if MAX_FAST_FAILS \<le> unat (s_fast_fail_count s)
       then circuit_breaker_delay (s_fast_fail_count s) else d0)" and nxt: "s_backoff s' = nxt"
    using assms(1) by (auto simp: schedule_restart_def rb Let_def)
  let ?c = "unat (s_fast_fail_count s)"
  have few: "retry_delay_ok (s_fast_fail_count s) delay \<and> backoff_tracks s'" if c: "?c < MAX_FAST_FAILS"
  proof -
    have p: "(2::nat) ^ ?c \<le> 16" using c by (rule pow_le_16)
    have lo: "500 * 2 ^ ?c \<le> 2 * s_backoff s" and hi: "s_backoff s \<le> 500 * 2 ^ ?c"
      using assms(3) c by (simp_all add: backoff_due_def core_consts)
    have "d0 = s_backoff s" using b(6) [OF min] hi p by simp
    moreover have "500 * 2 ^ ?c \<le> nxt" using b(8,9) [OF min] lo p by (cases "s_backoff s \<le> 4000") auto
    moreover have "nxt \<le> 500 * 2 ^ Suc ?c" using b(7) [OF min] hi by simp
    ultimately show ?thesis
      using c lo hi delay nxt assms(1)
      by (auto simp: retry_delay_ok_def backoff_tracks_def core_consts
          \<open>s_fast_fail_count s' = s_fast_fail_count s\<close>)
  qed
  show "retry_delay_ok (s_fast_fail_count s) delay"
    using few delay by (auto simp: retry_delay_ok_def)
  show "backoff_tracks s'"
    using few by (auto simp: backoff_tracks_def \<open>s_fast_fail_count s' = s_fast_fail_count s\<close>)
qed

lemma armed_inv:
  assumes "quiet s" "backoff_tracks s" "s_restart_at s \<noteq> None" "s_desired_running s"
    and "st = Crashed c \<or> st = Reconnecting a n"
  shows "core_inv (set_state st s)"
  using assms by (auto simp: core_inv_def core_base_def wanted_alive_def backoff_tracks_def quiet_def)

lemma retry_delay_bounds:
  assumes "retry_delay_ok n delay"
  shows "250 \<le> delay" and "delay \<le> CIRCUIT_BREAKER_MAX"
proof -
  have "250 \<le> delay \<and> delay \<le> 300000"
  proof (cases "unat n < MAX_FAST_FAILS")
    case True
    then have p: "(2::nat) ^ unat n \<le> 16" by (rule pow_le_16)
    have "500 * 2 ^ unat n \<le> 2 * delay" "delay \<le> 500 * 2 ^ unat n"
      using assms True by (simp_all add: retry_delay_ok_def MIN_BACKOFF_def)
    moreover have "(1::nat) \<le> 2 ^ unat n" by simp
    ultimately show ?thesis using p by linarith
  next
    case False
    then show ?thesis using assms circuit_breaker_bounds [of n] by (simp add: retry_delay_ok_def)
  qed
  then show "250 \<le> delay" "delay \<le> CIRCUIT_BREAKER_MAX" by (simp_all add: core_consts)
qed

lemma start_failed_simps [simp]:
  "s_fs (start_failed now what s) = s_fs s" "s_spawns (start_failed now what s) = s_spawns s"
  "s_config (start_failed now what s) = s_config s"
  "s_desired_running (start_failed now what s) = s_desired_running s"
  "s_state (start_failed now what s) = Crashed None" "s_tasks (start_failed now what s) = s_tasks s"
  by (simp_all add: start_failed_def schedule_restart_def Let_def split: prod.splits)

lemma start_failed_armed:
  assumes "quiet s" "backoff_tracks s" "s_desired_running s"
  obtains delay where "core_inv (start_failed now what s)"
    "s_restart_at (start_failed now what s) = Some (now + delay)"
    "retry_delay_ok (saturating_succ (s_fast_fail_count s)) delay"
    "s_fast_fail_count (start_failed now what s) = saturating_succ (s_fast_fail_count s)"
proof -
  let ?s1 = "s\<lparr> s_fast_fail_count := saturating_succ (s_fast_fail_count s) \<rparr>"
  obtain s2 delay where sr: "schedule_restart now ?s1 = (s2, delay)" by (cases "schedule_restart now ?s1")
  have q: "quiet ?s1" using assms(1) by (simp add: quiet_def)
  have "backoff_due ?s1" using assms(2) by (rule backoff_due_failure) simp_all
  note a = schedule_restart_arms [OF sr q this]
  have "core_inv (start_failed now what s)"
    unfolding start_failed_def Let_def sr prod.case
    by (rule armed_inv [where c = None])
      (use a assms(3) in \<open>simp_all add: quiet_record_log backoff_tracks_def\<close>)
  then show thesis
    using that [of delay] a by (simp add: start_failed_def sr Let_def)
qed

lemma write_core_artefacts_simps:
  assumes "write_core_artefacts d fl s = (s1, r)"
  shows "s1 = s\<lparr> s_fs := s_fs s1 \<rparr>"
    and "q \<noteq> generated_conf d \<Longrightarrow> q \<noteq> generated_settings d \<Longrightarrow> s_fs s1 q = s_fs s q"
  using assms
  by (auto simp: write_core_artefacts_def Let_def fs_write_def split: prod.splits sum.splits option.splits)

lemma build_command_valid:
  assumes "validate c = Ok ()"
  shows "is_ok (build_command layout c conf settings)"
proof -
  have "remote_address c \<noteq> None" if "role c = Client"
    using assms that
    by (auto simp: validate_def remote_address_def and_then_def split: sum.splits if_splits option.splits)
  then show ?thesis
    by (cases layout) (auto simp: build_command_def split: node_role.splits)
qed

lemma spawn_child_inv:
  assumes "spawn_child now ans program args s = (s2, r)" and "quiet s" and "backoff_tracks s"
    and "s_desired_running s" and "s_restart_at s = None"
  shows "is_ok r \<Longrightarrow> core_inv s2"
    and "\<not> is_ok r \<Longrightarrow> quiet s2 \<and> backoff_tracks s2 \<and> s_desired_running s2"
proof -
  show "core_inv s2" if "is_ok r"
    using assms that
    by (auto simp: spawn_child_def Let_def quiet_def core_inv_def core_base_def wanted_alive_def
        backoff_tracks_def split: spawn_answer.splits option.splits if_splits)
  show "quiet s2 \<and> backoff_tracks s2 \<and> s_desired_running s2" if "\<not> is_ok r"
    using assms that
    by (auto simp: spawn_child_def Let_def quiet_def backoff_tracks_def
        split: spawn_answer.splits option.splits if_splits)
qed

text \<open>The state in which a wanted resolution lands.\<close>

lemma resolution_quiet:
  assumes "core_inv s" and "s_tasks s = c # ts" and "s_desired_running s"
  shows "quiet (s\<lparr> s_tasks := ts, s_core_resolving := False \<rparr>)" and "backoff_tracks s"
    and "s_state s = Starting" and "s_restart_at s = None" and "s_child_kill s = None"
    and "s_child_pid s = None" and "ts = []"
proof -
  have base: "core_base s" and alive: "wanted_alive s" and "backoff_tracks s"
    using assms by (auto simp: core_inv_def)
  show "backoff_tracks s" by fact
  have res: "s_core_resolving s" "ts = []"
    using base assms(2) by (auto simp: core_base_def split: if_splits)
  then have none: "s_child_pid s = None" "s_restart_at s = None"
    using core_baseD(4,5) [OF base] by (cases "s_child_pid s"; cases "s_restart_at s"; auto)+
  then have kill: "s_child_kill s = None"
    using core_baseD(2) [OF base] by (cases "s_child_kill s") auto
  show "s_state s = Starting"
    using alive none by (auto simp: wanted_alive_def split: daemon_state.splits)
  show "s_restart_at s = None" "s_child_kill s = None" "s_child_pid s = None" "ts = []"
    using none kill res by auto
  show "quiet (s\<lparr> s_tasks := ts, s_core_resolving := False \<rparr>)"
    using none kill res core_baseD(6-9) [OF base] by (simp add: quiet_def)
qed

text \<open>A wanted resolution either fails to produce a child, from a quiet state, or spawns it.\<close>

lemma on_core_resolved_cases:
  assumes "core_inv s" and "s_tasks s = c # ts" and "s_desired_running s"
  obtains (failed) what s' where
      "on_core_resolved d show_io fl now ans outcome (s\<lparr> s_tasks := ts \<rparr>) = start_failed now what s'"
      "quiet s'" "backoff_tracks s'" "s_desired_running s'" "s_fast_fail_count s' = s_fast_fail_count s"
      "\<And>q. q \<noteq> generated_conf d \<Longrightarrow> q \<noteq> generated_settings d \<Longrightarrow> s_fs s' q = s_fs s q"
  | (spawned) pid layout program args s1 s2 where
      "on_core_resolved d show_io fl now ans outcome (s\<lparr> s_tasks := ts \<rparr>) = s2"
      "core_inv s2" "s_state s2 = Running pid" "outcome = Ok layout"
      "build_command layout (s_config s) (generated_conf d) (generated_settings d) = Ok (program, args)"
      "s_spawns s2 = s_spawns s @ [(program, args)]" "s_config s2 = s_config s" "s_desired_running s2"
      "\<And>q. q \<noteq> generated_conf d \<Longrightarrow> q \<noteq> generated_settings d \<Longrightarrow> s_fs s2 q = s_fs s q"
proof -
  note r = resolution_quiet [OF assms]
  let ?s = "s\<lparr> s_tasks := ts, s_core_resolving := False \<rparr>"
  let ?res = "on_core_resolved d show_io fl now ans outcome (s\<lparr> s_tasks := ts \<rparr>)"
  have tracks: "backoff_tracks ?s" using r(2) by (simp add: backoff_tracks_def)
  show thesis
  proof (cases outcome)
    case (Inl reason)
    then have "?res = start_failed now (''could not obtain Deskflow Core: '' @ reason) ?s"
      using r(3,5) assms(3) by (simp add: on_core_resolved_def is_running_child_def)
    then show thesis by (rule failed) (use r(1) tracks assms(3) in simp_all)
  next
    case (Inr layout)
    obtain s1 w where w: "write_core_artefacts d fl ?s = (s1, w)"
      by (cases "write_core_artefacts d fl ?s")
    have s1: "s1 = ?s\<lparr> s_fs := s_fs s1 \<rparr>" by (rule write_core_artefacts_simps(1) [OF w])
    have q1: "quiet s1" "backoff_tracks s1" "s_desired_running s1" "s_restart_at s1 = None"
      "s_config s1 = s_config s" "s_spawns s1 = s_spawns s" "s_fast_fail_count s1 = s_fast_fail_count s"
      by (subst s1, use r tracks assms(3) in \<open>simp add: quiet_def backoff_tracks_def\<close>)+
    have fs1: "s_fs s1 q = s_fs s q" if "q \<noteq> generated_conf d" "q \<noteq> generated_settings d" for q
      using write_core_artefacts_simps(2) [OF w that] by simp
    have "validate (s_config s1) = Ok ()" using q1(1) by (simp add: quiet_def)
    then obtain program args where
      b: "build_command layout (s_config s1) (generated_conf d) (generated_settings d) = Ok (program, args)"
      using build_command_valid [of "s_config s1" layout] by (force simp: is_ok_iff)
    obtain s2 sp where sp: "spawn_child now ans program args s1 = (s2, sp)"
      by (cases "spawn_child now ans program args s1")
    note sc = spawn_child_inv [OF sp q1(1-4)]
    have res: "?res = (case w of Inl e \<Rightarrow> start_failed now (show_io e) s1
                 | Inr _ \<Rightarrow> (case sp of Inl e \<Rightarrow> start_failed now e s2 | Inr _ \<Rightarrow> s2))"
      using assms(3) r(3,5) b w sp Inr
      by (simp add: on_core_resolved_def Let_def is_running_child_def split: sum.splits)
    have s2: "s_fs s2 = s_fs s1" "s_config s2 = s_config s1" "s_fast_fail_count s2 = s_fast_fail_count s1"
      "s_desired_running s2 = s_desired_running s1"
      "is_ok sp \<Longrightarrow> \<exists>pid. s_state s2 = Running pid \<and> s_spawns s2 = s_spawns s1 @ [(program, args)]"
      using sp by (auto simp: spawn_child_def Let_def split: spawn_answer.splits option.splits if_splits)
    show thesis
    proof (cases w)
      case (Inl e)
      then show thesis using failed [of "show_io e" s1] res q1 fs1 by simp
    next
      case (Inr u)
      show thesis
      proof (cases sp)
        case (Inl e)
        then have "?res = start_failed now e s2" using res \<open>w = Inr u\<close> by simp
        then show thesis by (rule failed) (use sc(2) s2 q1 fs1 Inl in simp_all)
      next
        case (Inr v)
        then obtain pid where "s_state s2 = Running pid" "s_spawns s2 = s_spawns s1 @ [(program, args)]"
          using s2(5) by auto
        then show thesis
          using spawned [of s2 pid layout program args] res \<open>w = Inr u\<close> Inr sc(1) s2 q1 fs1 b \<open>outcome = Inr layout\<close>
          by simp
      qed
    qed
  qed
qed

lemma on_core_resolved_unwanted:
  "\<not> s_desired_running s \<Longrightarrow>
   on_core_resolved d show_io fl now ans outcome s = s\<lparr> s_core_resolving := False \<rparr>"
  by (simp add: on_core_resolved_def)

lemma on_core_resolved_inv:
  assumes "core_inv s" and "s_tasks s = c # ts"
  shows "core_inv (on_core_resolved d show_io fl now ans outcome (s\<lparr> s_tasks := ts \<rparr>))"
proof (cases "s_desired_running s")
  case False
  have "s_core_resolving s" "ts = []"
    using core_inv_base [OF assms(1)] assms(2) by (auto simp: core_base_def split: if_splits)
  then show ?thesis
    using False assms by (auto simp: on_core_resolved_unwanted core_inv_def core_base_def)
next
  case True
  show ?thesis
    by (rule on_core_resolved_cases [OF assms True, of d show_io fl now ans outcome])
      (metis start_failed_armed, simp)
qed

lemma retire_child_simps [simp]:
  "s_child_pid (retire_child now pid st s) = None" "s_child_kill (retire_child now pid st s) = None"
  "s_config (retire_child now pid st s) = s_config s" "s_fs (retire_child now pid st s) = s_fs s"
  "s_desired_running (retire_child now pid st s) = s_desired_running s"
  "s_core_resolving (retire_child now pid st s) = s_core_resolving s"
  "s_tasks (retire_child now pid st s) = s_tasks s" "s_spawns (retire_child now pid st s) = s_spawns s"
  "s_fast_fail_count (retire_child now pid st s) =
     (if was_healthy now s then 0 else saturating_succ (s_fast_fail_count s))"
  "s_backoff (retire_child now pid st s) = (if was_healthy now s then MIN_BACKOFF else s_backoff s)"
  by (simp_all add: retire_child_def Let_def was_healthy_def)

lemma retire_child_quiet:
  assumes "core_inv s" and "s_child_pid s = Some pid" and "s_desired_running s"
  shows "quiet (retire_child now pid st s)" and "backoff_due (retire_child now pid st s)"
proof -
  have base: "core_base s" and tracks: "backoff_tracks s"
    using assms(1,3) by (auto simp: core_inv_def)
  have "\<not> s_core_resolving s" "s_tasks s = []"
    using core_baseD(4) [OF base assms(2)] base by (auto simp: core_base_def)
  moreover have "length (s_log_tail (retire_child now pid st s)) \<le> LOG_TAIL"
    using core_baseD(8) [OF base] by (simp add: retire_child_def Let_def push_log_bound)
  ultimately show "quiet (retire_child now pid st s)"
    using core_baseD(6,7,9) [OF base] by (simp add: quiet_def MIN_BACKOFF_def MAX_BACKOFF_def)
  show "backoff_due (retire_child now pid st s)"
    using tracks by (cases "was_healthy now s") (simp_all add: backoff_due_reset backoff_due_failure [of s])
qed

lemma note_repeated_failure_simps [simp]:
  "s_config (note_repeated_failure c s) = s_config s" "s_fs (note_repeated_failure c s) = s_fs s"
  "s_desired_running (note_repeated_failure c s) = s_desired_running s"
  "s_fast_fail_count (note_repeated_failure c s) = s_fast_fail_count s"
  "s_spawns (note_repeated_failure c s) = s_spawns s"
  "quiet s \<Longrightarrow> quiet (note_repeated_failure c s)" "backoff_due s \<Longrightarrow> backoff_due (note_repeated_failure c s)"
  by (simp_all add: note_repeated_failure_def quiet_record_log backoff_due_def)

lemma retry_after_exit_armed:
  assumes "quiet s" and "backoff_due s" and "s_desired_running s"
  obtains delay where "core_inv (retry_after_exit now code s)"
    "s_restart_at (retry_after_exit now code s) = Some (now + delay)"
    "retry_delay_ok (s_fast_fail_count s) delay"
    "s_fast_fail_count (retry_after_exit now code s) = s_fast_fail_count s"
    "s_child_pid (retry_after_exit now code s) = None"
    "s_state (retry_after_exit now code s) =
       (if role (s_config s) = Client
        then Reconnecting (saturating_succ (s_fast_fail_count s)) (of_nat (delay div 1000))
        else Crashed code)"
    "s_fs (retry_after_exit now code s) = s_fs s" "s_spawns (retry_after_exit now code s) = s_spawns s"
    "s_desired_running (retry_after_exit now code s)"
proof -
  obtain s5 delay where s5: "schedule_restart now (note_repeated_failure code s) = (s5, delay)"
    by (cases "schedule_restart now (note_repeated_failure code s)")
  have a': "quiet s5" "backoff_tracks s5" "s_restart_at s5 = Some (now + delay)"
    "s_desired_running s5" "s_fast_fail_count s5 = s_fast_fail_count s"
    "retry_delay_ok (s_fast_fail_count s) delay" "s_fs s5 = s_fs s" "s_spawns s5 = s_spawns s"
    using schedule_restart_arms [OF s5 note_repeated_failure_simps(6,7)] assms by simp_all
  have inv: "core_inv (set_state (Crashed c) s5)" "core_inv (set_state (Reconnecting n k) s5)" for c n k
    by (rule armed_inv [OF a'(1,2)]; use a'(3,4) in simp)+
  show thesis
    by (rule that [of delay];
        use a' inv in \<open>simp add: retry_after_exit_def s5 Let_def record_log_inv quiet_def del: append.simps\<close>)
qed

lemma handle_child_exit_eq:
  "s_child_pid s = Some pid \<Longrightarrow> s_desired_running s \<Longrightarrow>
   handle_child_exit now pid status s = retry_after_exit now (es_code status) (retire_child now pid status s)"
  by (simp add: handle_child_exit_def Let_def)

lemma handle_child_exit_inv:
  assumes "core_inv s" shows "core_inv (handle_child_exit now pid status s)"
proof (cases "s_child_pid s = Some pid")
  case True
  have "s_desired_running s"
  proof (rule ccontr)
    assume "\<not> s_desired_running s"
    then have "s_state s = Stopped" using assms by (simp add: core_inv_def)
    then show False using True core_baseD(1) [OF core_inv_base [OF assms], of pid] by simp
  qed
  then show ?thesis
    using retry_after_exit_armed [OF retire_child_quiet [OF assms True]] True
    by (simp add: handle_child_exit_eq) blast
next
  case False
  then show ?thesis using assms by (simp add: handle_child_exit_def)
qed

lemma maybe_force_reconnect_simps [simp]:
  "s_config (maybe_force_reconnect l s) = s_config s" "s_state (maybe_force_reconnect l s) = s_state s"
  "s_log_tail (maybe_force_reconnect l s) = s_log_tail s"
  "s_desired_running (maybe_force_reconnect l s) = s_desired_running s"
  "s_backoff (maybe_force_reconnect l s) = s_backoff s" "s_restart_at (maybe_force_reconnect l s) = s_restart_at s"
  "s_child_pid (maybe_force_reconnect l s) = s_child_pid s"
  "s_core_resolving (maybe_force_reconnect l s) = s_core_resolving s"
  "s_fast_fail_count (maybe_force_reconnect l s) = s_fast_fail_count s"
  "s_fs (maybe_force_reconnect l s) = s_fs s" "s_tasks (maybe_force_reconnect l s) = s_tasks s"
  "s_spawns (maybe_force_reconnect l s) = s_spawns s"
  "s_child_kill (maybe_force_reconnect l s) = None \<or> s_child_kill (maybe_force_reconnect l s) = s_child_kill s"
  by (auto simp: maybe_force_reconnect_def split: option.splits)

lemma handle_core_log_simps [simp]:
  "s_config (handle_core_log now pid l s) = s_config s" "s_state (handle_core_log now pid l s) = s_state s"
  "s_desired_running (handle_core_log now pid l s) = s_desired_running s"
  "s_backoff (handle_core_log now pid l s) = s_backoff s"
  "s_restart_at (handle_core_log now pid l s) = s_restart_at s"
  "s_child_pid (handle_core_log now pid l s) = s_child_pid s"
  "s_core_resolving (handle_core_log now pid l s) = s_core_resolving s"
  "s_fast_fail_count (handle_core_log now pid l s) = s_fast_fail_count s"
  "s_fs (handle_core_log now pid l s) = s_fs s" "s_tasks (handle_core_log now pid l s) = s_tasks s"
  "s_spawns (handle_core_log now pid l s) = s_spawns s"
  by (simp_all add: handle_core_log_def Let_def)

lemma handle_core_log_inv:
  assumes "core_inv s" shows "core_inv (handle_core_log now pid l s)"
proof (rule core_inv_frame [OF assms])
  define s1 where "s1 = (if is_core_ready l \<and> s_core_ready_at s = None
                  then s\<lparr> s_core_ready_at := Some now \<rparr> else s)"
  define s2 where "s2 = (if is_client_connected l \<or> role (s_config s1) = Server \<and> is_core_ready l
                  then s1\<lparr> s_core_connect_deadline := None \<rparr> else s1)"
  have "s_child_kill s2 = s_child_kill s" by (simp add: s2_def s1_def)
  then show "s_child_kill (handle_core_log now pid l s) = None \<or> s_child_kill (handle_core_log now pid l s) = s_child_kill s"
    using maybe_force_reconnect_simps(13) [of l s2]
    by (simp add: handle_core_log_def s1_def [symmetric] s2_def [symmetric] Let_def)
  show "length (s_log_tail (handle_core_log now pid l s)) \<le> LOG_TAIL"
    using core_inv_tail [OF assms] by (simp add: handle_core_log_def Let_def push_log_bound)
qed (simp_all add: core_inv_valid [OF assms])

lemma core_stalled_simps [simp]:
  "s_config (core_stalled s) = s_config s" "s_state (core_stalled s) = s_state s"
  "s_desired_running (core_stalled s) = s_desired_running s" "s_backoff (core_stalled s) = s_backoff s"
  "s_restart_at (core_stalled s) = s_restart_at s" "s_child_pid (core_stalled s) = s_child_pid s"
  "s_core_resolving (core_stalled s) = s_core_resolving s"
  "s_fast_fail_count (core_stalled s) = s_fast_fail_count s" "s_fs (core_stalled s) = s_fs s"
  "s_tasks (core_stalled s) = s_tasks s" "s_spawns (core_stalled s) = s_spawns s"
  "s_child_kill (core_stalled s) = None"
  by (auto simp: core_stalled_def Let_def split: option.splits)

lemma core_stalled_inv: "core_inv s \<Longrightarrow> core_inv (core_stalled s)"
  by (rule core_inv_frame [of s])
    (auto simp: core_inv_valid core_inv_tail push_log_bound core_stalled_def Let_def split: option.splits)

lemma restart_due_inv:
  assumes "core_inv s" and "s_restart_at s = Some t"
  shows "core_inv (restart_due s)"
proof -
  have "s_desired_running s" using assms by (auto simp: core_inv_def split: if_splits)
  moreover have "core_base (s\<lparr> s_restart_at := None \<rparr>)"
    using core_inv_base [OF assms(1)] by (simp add: core_base_def)
  moreover have "backoff_tracks (s\<lparr> s_restart_at := None \<rparr>)"
    using assms(1) \<open>s_desired_running s\<close> by (simp add: core_inv_def backoff_tracks_def)
  ultimately show ?thesis by (simp add: restart_due_def start_core_inv)
qed

lemma persist_user_stopped_simps [simp]:
  "s_config (persist_user_stopped d fl b s) = s_config s" "s_state (persist_user_stopped d fl b s) = s_state s"
  "s_log_tail (persist_user_stopped d fl b s) = s_log_tail s"
  "s_desired_running (persist_user_stopped d fl b s) = s_desired_running s"
  "s_child_kill (persist_user_stopped d fl b s) = s_child_kill s"
  "s_backoff (persist_user_stopped d fl b s) = s_backoff s"
  "s_restart_at (persist_user_stopped d fl b s) = s_restart_at s"
  "s_child_pid (persist_user_stopped d fl b s) = s_child_pid s"
  "s_core_resolving (persist_user_stopped d fl b s) = s_core_resolving s"
  "s_fast_fail_count (persist_user_stopped d fl b s) = s_fast_fail_count s"
  "s_tasks (persist_user_stopped d fl b s) = s_tasks s" "s_spawns (persist_user_stopped d fl b s) = s_spawns s"
  by (simp_all add: persist_user_stopped_def)

lemma request_start_inv: "core_inv s \<Longrightarrow> core_inv (request_start d fl s)"
  unfolding request_start_def
  by (rule start_core_inv)
    (auto simp: core_inv_def core_base_def backoff_tracks_reset MIN_BACKOFF_def MAX_BACKOFF_def)

lemma request_restart_inv: "core_inv s \<Longrightarrow> core_inv (request_restart d fl arr s)"
  unfolding request_restart_def
  by (rule restart_core_inv) (auto simp: core_inv_def core_base_def)

lemma request_stop_inv:
  assumes "core_inv s" shows "core_inv (request_stop d fl arr s)"
proof -
  have "core_base ((persist_user_stopped d fl True (s\<lparr> s_desired_running := False \<rparr>))\<lparr> s_fast_fail_count := 0 \<rparr>)"
    using core_inv_base [OF assms] by (simp add: core_base_def)
  then show ?thesis
    unfolding request_stop_def core_inv_def using stop_core_base by (simp add: stop_core_base)
qed

lemma adopt_config_inv:
  assumes "core_inv s" and "validate c = Ok ()"
  shows "core_inv (restart_if_needed arr b (s\<lparr> s_config := c \<rparr>))"
proof -
  have inv: "core_inv (s\<lparr> s_config := c \<rparr>)"
    by (rule core_inv_frame [OF assms(1)]) (simp_all add: assms(2) core_inv_tail [OF assms(1)])
  then show ?thesis
    using restart_core_inv [OF core_inv_base [OF inv]] by (simp add: restart_if_needed_def)
qed

lemma launch_inv:
  assumes "core_inv s" and "s_fast_fail_count s = 0" and "s_backoff s = MIN_BACKOFF"
  shows "core_inv (launch d fl s)"
proof -
  have "core_base (s\<lparr> s_desired_running := True \<rparr>)"
    using core_inv_base [OF assms(1)] by (simp add: core_base_def)
  then have "core_inv (start_core (s\<lparr> s_desired_running := True \<rparr>))"
    by (rule start_core_inv) (simp_all add: assms backoff_tracks_reset)
  then show ?thesis using assms(1) by (simp add: launch_def)
qed

lemma core_boot_inv: "validate c = Ok () \<Longrightarrow> core_inv (core_boot c m)"
  by (simp add: core_boot_def core_inv_def core_base_def core_consts)

subsection \<open>Reachable states\<close>

lemma core_step_inv: "core_step d show_io fl s t \<Longrightarrow> core_inv s \<Longrightarrow> core_inv t"
proof (induction rule: core_step.induct)
  case (exit_arrives s x)
  then show ?case
    by - (rule core_inv_frame [of s], simp_all add: core_inv_valid core_inv_tail)
next
  case (exits s pid status xs now)
  then have "core_inv (s\<lparr> s_exits := xs \<rparr>)"
    by - (rule core_inv_frame [of s], simp_all add: core_inv_valid core_inv_tail)
  then show ?case by (rule handle_child_exit_inv)
qed (simp_all add: core_stalled_inv restart_due_inv on_core_resolved_inv record_log_inv handle_core_log_inv
    request_start_inv request_stop_inv request_restart_inv adopt_config_inv)

lemma core_reachable_inv: "core_reachable d show_io s \<Longrightarrow> core_inv s"
proof (induction rule: core_reachable.induct)
  case (boot c fl m)
  then show ?case by (intro launch_inv core_boot_inv) (simp_all add: core_boot_def)
qed (rule core_step_inv)

subsection \<open>What holds in every reachable state\<close>

text \<open>The state shown to clients is true in every reachable state: \<^verbatim>\<open>Running\<close> carries exactly the
  process id of the owned child, \<^verbatim>\<open>Starting\<close> means that a resolution is in flight, \<^verbatim>\<open>Reconnecting\<close> and
  \<^verbatim>\<open>Crashed\<close> that a restart is armed, and \<^verbatim>\<open>Stopped\<close> that sharing is not wanted.  At most one of child,
  resolution and timer exists at a time, and the log tail stays within its bound.\<close>

theorem published_state_is_true:
  assumes "core_reachable d show_io s"
  shows "(s_state s = Running p \<longleftrightarrow> s_child_pid s = Some p)
     \<and> (s_state s = Stopped \<longleftrightarrow> \<not> s_desired_running s)
     \<and> (s_desired_running s \<longrightarrow> (s_state s = Starting \<longleftrightarrow> s_core_resolving s))
     \<and> ((\<exists>c. s_state s = Crashed c) \<or> (\<exists>a n. s_state s = Reconnecting a n) \<longleftrightarrow> s_restart_at s \<noteq> None)
     \<and> (s_child_pid s \<noteq> None \<longrightarrow> s_tasks s = [] \<and> s_restart_at s = None)
     \<and> (s_restart_at s \<noteq> None \<longrightarrow> s_tasks s = [])
     \<and> length (s_tasks s) \<le> 1 \<and> length (s_log_tail s) \<le> 500"
proof -
  have inv: "core_inv s" using assms by (rule core_reachable_inv)
  then have base: "core_base s" by (rule core_inv_base)
  have st: "s_state s = Stopped \<and> s_restart_at s = None \<and> s_child_pid s = None" if "\<not> s_desired_running s"
    using inv that base core_baseD(1) [OF base] by (cases "s_child_pid s") (auto simp: core_inv_def)
  have alive: "wanted_alive s" if "s_desired_running s" using inv that by (simp add: core_inv_def)
  have tail: "length (s_log_tail s) \<le> 500" using core_baseD(8) [OF base] by (simp add: LOG_TAIL_def)
  have tasks: "length (s_tasks s) \<le> 1" "\<not> s_core_resolving s \<Longrightarrow> s_tasks s = []"
    using base by (auto simp: core_base_def split: if_splits)
  have child: "\<not> s_core_resolving s \<and> s_restart_at s = None" if "s_child_pid s \<noteq> None"
    using that core_baseD(4) [OF base] by auto
  have timer: "\<not> s_core_resolving s" if "s_restart_at s \<noteq> None"
    using that core_baseD(5) [OF base] by auto
  show ?thesis
    using st alive tail tasks child timer core_baseD(1) [OF base]
    by (cases "s_desired_running s"; cases "s_state s"; cases "s_restart_at s") (auto simp: wanted_alive_def)
qed

definition demo_dirs :: dirs where "demo_dirs = \<lparr> config_dir = [''cfg''], state_dir = [''state''] \<rparr>"

definition demo_show :: "path \<times> io_kind \<Rightarrow> string" where "demo_show e = ''write failed''"

definition demo_started :: core_sup where
  "demo_started = launch demo_dirs no_faults (core_boot config_default (\<lambda>_. None))"

definition demo_running :: core_sup where
  "demo_running = on_core_resolved demo_dirs demo_show no_faults 0 (Spawned 7 None)
     (resolve_core (Ok (Unified ''core'')) config_default) (demo_started\<lparr> s_tasks := [] \<rparr>)"

lemma validate_config_default: "validate config_default = Ok ()"
  by (simp add: validate_def config_default_def)

lemma demo_started_facts:
  "core_reachable demo_dirs demo_show demo_started" "s_tasks demo_started = [config_default]"
  "s_desired_running demo_started" "s_state demo_started = Starting" "s_spawns demo_started = []"
  "s_config demo_started = config_default" "s_fast_fail_count demo_started = 0"
proof -
  show "core_reachable demo_dirs demo_show demo_started"
    unfolding demo_started_def using validate_config_default by (rule core_reachable.boot)
qed (simp_all add: demo_started_def launch_def core_boot_def start_core_def is_running_child_def Let_def)

lemma demo_running_facts:
  "core_reachable demo_dirs demo_show demo_running" "s_state demo_running = Running 7"
  "s_child_pid demo_running = Some 7" "s_desired_running demo_running" "s_config demo_running = config_default"
  "s_core_ready_at demo_running = None" "s_fast_fail_count demo_running = 0"
proof -
  show "core_reachable demo_dirs demo_show demo_running"
    unfolding demo_running_def
    using demo_started_facts(1) core_step.resolved [OF demo_started_facts(2)] by (rule core_reachable.step)
qed (simp_all add: demo_running_def demo_started_def launch_def core_boot_def start_core_def is_running_child_def
    on_core_resolved_def write_core_artefacts_def fs_write_def no_faults_def resolve_core_def config_default_def
    build_command_def spawn_child_def Let_def)

theorem published_state_is_true_witness:
  "s_state demo_running = Running 7 \<and> s_child_pid demo_running = Some 7 \<and> s_tasks demo_running = []
   \<and> s_restart_at demo_running = None \<and> length (s_log_tail demo_running) \<le> 500"
  using published_state_is_true [OF demo_running_facts(1), of 7] demo_running_facts by simp



end
