(* ===== verification/Versioned.thy ===== *)
theory Versioned
  imports Config
begin

text \<open>
  \<^verbatim>\<open>synbad-sync/src/versioned.rs\<close>: the configuration with one Lamport stamp per top-level field,
  local edits, and the last-writer-wins merge with a peer's state.  JSON, SHA-256 and hex are
  third-party: they are arguments of the definitions that call them.

  The abstract contract is a join of \<^emph>\<open>shared views\<close> (the five merged fields, each with its
  stamp).  The locale \<open>lww_replica\<close> states what a client of such a join may rely on and proves
  convergence from it; it is interpreted on the shared views below, and \<open>shared_merge\<close> is the
  refinement lemma from the field-by-field code.
\<close>

subsection \<open>Lamport stamps\<close>

datatype ordering = Less | Equal | Greater

datatype lamport_time = LamportTime (counter: u64) (origin: string)

definition ord_cmp :: "'a::linorder \<Rightarrow> 'a \<Rightarrow> ordering" where
  "ord_cmp a b = (if a < b then Less else if a = b then Equal else Greater)"

definition then_with :: "ordering \<Rightarrow> ordering \<Rightarrow> ordering" where
  "then_with o1 o2 = (case o1 of Equal \<Rightarrow> o2 | _ \<Rightarrow> o1)"

definition lamport_cmp :: "lamport_time \<Rightarrow> lamport_time \<Rightarrow> ordering" where
  "lamport_cmp a b = then_with (ord_cmp (counter a) (counter b)) (ord_cmp (origin a) (origin b))"

definition lamport_default :: lamport_time where
  "lamport_default = LamportTime 0 []"

instantiation lamport_time :: linorder
begin

definition less_lamport_time :: "lamport_time \<Rightarrow> lamport_time \<Rightarrow> bool" where
  "a < b \<longleftrightarrow> lamport_cmp a b = Less"

definition less_eq_lamport_time :: "lamport_time \<Rightarrow> lamport_time \<Rightarrow> bool" where
  "a \<le> b \<longleftrightarrow> lamport_cmp a b \<noteq> Greater"

instance
proof
  fix x y z :: lamport_time
  show "(x < y) = (x \<le> y \<and> \<not> y \<le> x)"
    by (cases x; cases y) (auto simp: less_lamport_time_def less_eq_lamport_time_def
        lamport_cmp_def then_with_def ord_cmp_def)
  show "x \<le> x"
    by (simp add: less_eq_lamport_time_def lamport_cmp_def then_with_def ord_cmp_def)
  show "x \<le> y \<Longrightarrow> y \<le> z \<Longrightarrow> x \<le> z"
    by (cases x; cases y; cases z) (auto simp: less_eq_lamport_time_def
        lamport_cmp_def then_with_def ord_cmp_def split: if_splits)
  show "x \<le> y \<Longrightarrow> y \<le> x \<Longrightarrow> x = y"
    by (cases x; cases y) (auto simp: less_eq_lamport_time_def
        lamport_cmp_def then_with_def ord_cmp_def split: if_splits)
  show "x \<le> y \<or> y \<le> x"
    by (cases x; cases y) (auto simp: less_eq_lamport_time_def
        lamport_cmp_def then_with_def ord_cmp_def)
qed

end

lemma lamport_less_iff:
  "a < b \<longleftrightarrow> counter a < counter b \<or> counter a = counter b \<and> origin a < origin b"
  by (auto simp: less_lamport_time_def lamport_cmp_def then_with_def ord_cmp_def)

record field_stamps =
  st_role :: lamport_time
  st_server_name :: lamport_time
  st_server_address :: lamport_time
  st_port :: lamport_time
  st_service_port :: lamport_time
  st_screens :: lamport_time
  st_links :: lamport_time
  st_options :: lamport_time
  st_clipboard_sharing :: lamport_time
  st_binaries :: lamport_time

definition stamps_all :: "lamport_time \<Rightarrow> field_stamps" where
  "stamps_all t = \<lparr> st_role = t, st_server_name = t, st_server_address = t, st_port = t,
     st_service_port = t, st_screens = t, st_links = t, st_options = t,
     st_clipboard_sharing = t, st_binaries = t \<rparr>"

definition stamp_list :: "field_stamps \<Rightarrow> lamport_time list" where
  "stamp_list s = [st_role s, st_server_name s, st_server_address s, st_port s,
     st_service_port s, st_screens s, st_links s, st_options s, st_clipboard_sharing s,
     st_binaries s]"

definition max_counter :: "field_stamps \<Rightarrow> u64" where
  "max_counter s = foldl max 0 (map counter (stamp_list s))"

subsection \<open>Versioned configurations\<close>

datatype merge_outcome = NoChange | Updated

record versioned_config =
  vc_config :: config
  vc_stamps :: field_stamps
  vc_clock :: u64

definition vc_initial :: "config \<Rightarrow> string \<Rightarrow> versioned_config" where
  "vc_initial c org = \<lparr> vc_config = c, vc_stamps = stamps_all (LamportTime 1 org), vc_clock = 1 \<rparr>"

definition vc_from_parts :: "config \<Rightarrow> field_stamps \<Rightarrow> u64 \<Rightarrow> versioned_config" where
  "vc_from_parts c s k = \<lparr> vc_config = c, vc_stamps = s, vc_clock = k \<rparr>"

text \<open>The clock of the next local edit; the addition wraps as the release build's does.\<close>

definition next_clock :: "versioned_config \<Rightarrow> u64" where
  "next_clock v = max (vc_clock v) (max_counter (vc_stamps v)) + 1"

definition restamp :: "config \<Rightarrow> config \<Rightarrow> lamport_time \<Rightarrow> field_stamps \<Rightarrow> field_stamps" where
  "restamp old new t s =
     \<lparr> st_role = (if role old \<noteq> role new then t else st_role s),
       st_server_name = (if server_name old \<noteq> server_name new then t else st_server_name s),
       st_server_address =
         (if server_address old \<noteq> server_address new then t else st_server_address s),
       st_port = (if port old \<noteq> port new then t else st_port s),
       st_service_port = (if service_port old \<noteq> service_port new then t else st_service_port s),
       st_screens = (if screens old \<noteq> screens new then t else st_screens s),
       st_links = (if links old \<noteq> links new then t else st_links s),
       st_options = (if options old \<noteq> options new then t else st_options s),
       st_clipboard_sharing =
         (if clipboard_sharing old \<noteq> clipboard_sharing new then t else st_clipboard_sharing s),
       st_binaries = (if binaries old \<noteq> binaries new then t else st_binaries s) \<rparr>"

definition apply_local :: "versioned_config \<Rightarrow> config \<Rightarrow> string \<Rightarrow> versioned_config \<times> bool" where
  "apply_local v new_config org =
     (if config_eq (vc_config v) new_config then (v, False)
      else let k = next_clock v; stamp = LamportTime k org
           in (\<lparr> vc_config = new_config,
                 vc_stamps = restamp (vc_config v) new_config stamp (vc_stamps v),
                 vc_clock = k \<rparr>, True))"

subsection \<open>Merging a peer's state\<close>

definition merge_port where
  "merge_port other = (\<lambda>(s, changed).
     if st_port (vc_stamps other) > st_port (vc_stamps s)
     then (s\<lparr> vc_config := (vc_config s)\<lparr> port := port (vc_config other) \<rparr>,
              vc_stamps := (vc_stamps s)\<lparr> st_port := st_port (vc_stamps other) \<rparr> \<rparr>, True)
     else (s, changed))"

definition merge_screens where
  "merge_screens other = (\<lambda>(s, changed).
     if st_screens (vc_stamps other) > st_screens (vc_stamps s)
     then (s\<lparr> vc_config := (vc_config s)\<lparr> screens := screens (vc_config other) \<rparr>,
              vc_stamps := (vc_stamps s)\<lparr> st_screens := st_screens (vc_stamps other) \<rparr> \<rparr>, True)
     else (s, changed))"

definition merge_links where
  "merge_links other = (\<lambda>(s, changed).
     if st_links (vc_stamps other) > st_links (vc_stamps s)
     then (s\<lparr> vc_config := (vc_config s)\<lparr> links := links (vc_config other) \<rparr>,
              vc_stamps := (vc_stamps s)\<lparr> st_links := st_links (vc_stamps other) \<rparr> \<rparr>, True)
     else (s, changed))"

definition merge_options where
  "merge_options other = (\<lambda>(s, changed).
     if st_options (vc_stamps other) > st_options (vc_stamps s)
     then (s\<lparr> vc_config := (vc_config s)\<lparr> options := options (vc_config other) \<rparr>,
              vc_stamps := (vc_stamps s)\<lparr> st_options := st_options (vc_stamps other) \<rparr> \<rparr>, True)
     else (s, changed))"

definition merge_clipboard_sharing where
  "merge_clipboard_sharing other = (\<lambda>(s, changed).
     if st_clipboard_sharing (vc_stamps other) > st_clipboard_sharing (vc_stamps s)
     then (s\<lparr> vc_config := (vc_config s)\<lparr> clipboard_sharing := clipboard_sharing (vc_config other) \<rparr>,
              vc_stamps := (vc_stamps s)
                \<lparr> st_clipboard_sharing := st_clipboard_sharing (vc_stamps other) \<rparr> \<rparr>, True)
     else (s, changed))"

definition merge :: "versioned_config \<Rightarrow> versioned_config \<Rightarrow> versioned_config \<times> merge_outcome" where
  "merge v other =
     (let v0 = v\<lparr> vc_clock := max (max (vc_clock v) (vc_clock other)) (max_counter (vc_stamps other)) \<rparr>;
          (v1, changed) =
            merge_clipboard_sharing other (merge_options other (merge_links other
              (merge_screens other (merge_port other (v0, False)))))
      in (v1, if changed then Updated else NoChange))"

subsection \<open>Head hash and sidecar\<close>

record shared_hash_input =
  hi_port :: u16
  hi_screens :: "screen list"
  hi_links :: "link list"
  hi_options :: "(string \<times> string) list"
  hi_clipboard_sharing :: bool
  hi_port_stamp :: lamport_time
  hi_screens_stamp :: lamport_time
  hi_links_stamp :: lamport_time
  hi_options_stamp :: lamport_time
  hi_clipboard_sharing_stamp :: lamport_time

definition hash_input :: "versioned_config \<Rightarrow> shared_hash_input" where
  "hash_input v =
     \<lparr> hi_port = port (vc_config v), hi_screens = screens (vc_config v),
       hi_links = links (vc_config v), hi_options = options (vc_config v),
       hi_clipboard_sharing = clipboard_sharing (vc_config v),
       hi_port_stamp = st_port (vc_stamps v), hi_screens_stamp = st_screens (vc_stamps v),
       hi_links_stamp = st_links (vc_stamps v), hi_options_stamp = st_options (vc_stamps v),
       hi_clipboard_sharing_stamp = st_clipboard_sharing (vc_stamps v) \<rparr>"

definition head_hash ::
  "(shared_hash_input \<Rightarrow> byte list option) \<Rightarrow> (byte list \<Rightarrow> byte list) \<Rightarrow> (byte list \<Rightarrow> string) \<Rightarrow>
   versioned_config \<Rightarrow> string" where
  "head_hash to_json sha256 hex v = (case to_json (hash_input v) of
       None \<Rightarrow> []
     | Some bytes \<Rightarrow> hex (take 8 (sha256 bytes)))"

record sidecar =
  sc_stamps :: field_stamps
  sc_clock :: u64

datatype versioned_error = VcIo path io_kind | VcJson

definition load_sidecar ::
  "(string \<Rightarrow> sidecar option) \<Rightarrow> faults \<Rightarrow> fs \<Rightarrow> path \<Rightarrow> (versioned_error, sidecar option) result" where
  "load_sidecar from_json fl m p = (case fs_read fl m p of
       Inr bytes \<Rightarrow> (case from_json bytes of None \<Rightarrow> Err VcJson | Some sc \<Rightarrow> Ok (Some sc))
     | Inl e \<Rightarrow> if e = NotFound then Ok None else Err (VcIo p e))"

definition save_sidecar ::
  "(sidecar \<Rightarrow> string option) \<Rightarrow> faults \<Rightarrow> fs \<Rightarrow> versioned_config \<Rightarrow> path \<Rightarrow>
   fs \<times> (versioned_error, unit) result" where
  "save_sidecar to_json fl m v p =
     (case to_json \<lparr> sc_stamps = vc_stamps v, sc_clock = vc_clock v \<rparr> of
        None \<Rightarrow> (m, Err VcJson)
      | Some body \<Rightarrow>
          (case write_via_tmp fl m (with_extension p ''json.tmp'') p body of
             (m', Inl (q, e)) \<Rightarrow> (m', Err (VcIo q e))
           | (m', Inr _) \<Rightarrow> (m', Ok ())))"

subsection \<open>The abstract contract: a join of shared views\<close>

record shared_view =
  sv_port :: "lamport_time \<times> u16"
  sv_screens :: "lamport_time \<times> screen list"
  sv_links :: "lamport_time \<times> link list"
  sv_options :: "lamport_time \<times> (string \<times> string) list"
  sv_clipboard :: "lamport_time \<times> bool"

definition shared :: "versioned_config \<Rightarrow> shared_view" where
  "shared v =
     \<lparr> sv_port = (st_port (vc_stamps v), port (vc_config v)),
       sv_screens = (st_screens (vc_stamps v), screens (vc_config v)),
       sv_links = (st_links (vc_stamps v), links (vc_config v)),
       sv_options = (st_options (vc_stamps v), options (vc_config v)),
       sv_clipboard = (st_clipboard_sharing (vc_stamps v), clipboard_sharing (vc_config v)) \<rparr>"

definition lww :: "'t::linorder \<times> 'v \<Rightarrow> 't \<times> 'v \<Rightarrow> 't \<times> 'v" where
  "lww a b = (if fst b > fst a then b else a)"

definition lww_compat :: "'t \<times> 'v \<Rightarrow> 't \<times> 'v \<Rightarrow> bool" where
  "lww_compat a b \<longleftrightarrow> (fst a = fst b \<longrightarrow> snd a = snd b)"

definition shared_join :: "shared_view \<Rightarrow> shared_view \<Rightarrow> shared_view" where
  "shared_join a b =
     \<lparr> sv_port = lww (sv_port a) (sv_port b), sv_screens = lww (sv_screens a) (sv_screens b),
       sv_links = lww (sv_links a) (sv_links b), sv_options = lww (sv_options a) (sv_options b),
       sv_clipboard = lww (sv_clipboard a) (sv_clipboard b) \<rparr>"

definition shared_compat :: "shared_view \<Rightarrow> shared_view \<Rightarrow> bool" where
  "shared_compat a b \<longleftrightarrow>
     lww_compat (sv_port a) (sv_port b) \<and> lww_compat (sv_screens a) (sv_screens b) \<and>
     lww_compat (sv_links a) (sv_links b) \<and> lww_compat (sv_options a) (sv_options b) \<and>
     lww_compat (sv_clipboard a) (sv_clipboard b)"

text \<open>
  What a replica relies on: joins are idempotent and associative, they commute for states
  that never give one stamp two values, and joining keeps that compatibility.
\<close>

locale lww_replica =
  fixes join :: "'s \<Rightarrow> 's \<Rightarrow> 's" and compat :: "'s \<Rightarrow> 's \<Rightarrow> bool"
  assumes join_idem: "join a a = a"
    and join_assoc: "join (join a b) c = join a (join b c)"
    and join_comm: "compat a b \<Longrightarrow> join a b = join b a"
    and compat_refl: "compat a a"
    and compat_sym: "compat a b \<Longrightarrow> compat b a"
    and compat_join: "compat a b \<Longrightarrow> compat a c \<Longrightarrow> compat a (join b c)"
begin

definition le :: "'s \<Rightarrow> 's \<Rightarrow> bool" where
  "le a b \<longleftrightarrow> join a b = b"

lemma le_refl: "le a a"
  by (simp add: le_def join_idem)

lemma le_trans: "le a b \<Longrightarrow> le b c \<Longrightarrow> le a c"
  by (metis le_def join_assoc)

lemma le_antisym: "compat a b \<Longrightarrow> le a b \<Longrightarrow> le b a \<Longrightarrow> a = b"
  by (metis le_def join_comm)

lemma le_join_left: "le a (join a b)"
  by (metis le_def join_assoc join_idem)

lemma le_join_right: "compat a b \<Longrightarrow> le b (join a b)"
  by (metis le_join_left join_comm)

lemma join_least: "le a c \<Longrightarrow> le b c \<Longrightarrow> le (join a b) c"
  by (metis le_def join_assoc)

lemma compat_join_left: "compat a c \<Longrightarrow> compat b c \<Longrightarrow> compat (join a b) c"
  by (metis compat_sym compat_join)

lemma compat_foldl:
  "compat c a \<Longrightarrow> \<forall>x \<in> set xs. compat c x \<Longrightarrow> compat c (foldl join a xs)"
  by (induction xs arbitrary: a) (auto intro: compat_join)

lemma foldl_upper:
  assumes "\<forall>x \<in> set xs. \<forall>y \<in> set xs. compat x y" and "\<forall>x \<in> set xs. compat a x"
  shows "le a (foldl join a xs) \<and> (\<forall>x \<in> set xs. le x (foldl join a xs))"
  using assms
proof (induction xs arbitrary: a)
  case Nil
  then show ?case by (simp add: le_refl)
next
  case (Cons y xs)
  have "\<forall>x \<in> set xs. compat (join a y) x"
    using Cons.prems by (auto intro: compat_join_left)
  then have "le (join a y) (foldl join (join a y) xs)"
    and "\<forall>x \<in> set xs. le x (foldl join (join a y) xs)"
    using Cons.IH Cons.prems by auto
  moreover have "le a (join a y)" "le y (join a y)"
    using Cons.prems by (auto intro: le_join_left le_join_right)
  ultimately show ?case by (auto intro: le_trans)
qed

lemma foldl_least:
  "le a c \<Longrightarrow> \<forall>x \<in> set xs. le x c \<Longrightarrow> le (foldl join a xs) c"
  by (induction xs arbitrary: a) (auto intro: join_least)

text \<open>Two replicas that start from, or have absorbed, the same states hold the same state,
  whatever the order and the repetitions.\<close>

lemma replicas_converge:
  assumes set_eq: "insert a (set xs) = insert b (set ys)"
    and comp: "\<forall>x \<in> insert a (set xs). \<forall>y \<in> insert a (set xs). compat x y"
  shows "foldl join a xs = foldl join b ys"
proof -
  let ?s = "foldl join a xs" and ?t = "foldl join b ys"
  have comp': "\<forall>x \<in> insert b (set ys). \<forall>y \<in> insert b (set ys). compat x y"
    using comp set_eq by simp
  have up: "\<forall>x \<in> insert a (set xs). le x ?s" "\<forall>x \<in> insert b (set ys). le x ?t"
    using foldl_upper [of xs a] foldl_upper [of ys b] comp comp' by auto
  have "le ?s ?t" "le ?t ?s"
    using up set_eq by (auto intro!: foldl_least)
  moreover have "compat ?s ?t"
  proof -
    have s: "compat ?s y" if "y \<in> insert b (set ys)" for y
      using comp that unfolding set_eq [symmetric]
      by (intro compat_sym [OF compat_foldl]) auto
    show ?thesis by (rule compat_foldl) (auto intro: s)
  qed
  ultimately show ?thesis by (blast intro: le_antisym)
qed

end

lemma lww_idem: "lww a a = a"
  by (simp add: lww_def)

lemma lww_assoc: "lww (lww a b) c = lww a (lww b c)"
  by (auto simp: lww_def)

lemma lww_comm: "lww_compat a b \<Longrightarrow> lww a b = lww b a"
  by (cases a; cases b) (auto simp: lww_def lww_compat_def)

lemma lww_compat_lww: "lww_compat a b \<Longrightarrow> lww_compat a c \<Longrightarrow> lww_compat a (lww b c)"
  by (simp add: lww_def)

lemmas lww_laws = lww_idem lww_assoc lww_comm lww_compat_lww

interpretation sv: lww_replica shared_join shared_compat
proof
  show "shared_join a a = a" for a
    by (simp add: shared_join_def lww_idem)
  show "shared_join (shared_join a b) c = shared_join a (shared_join b c)" for a b c
    by (simp add: shared_join_def lww_assoc)
  show "shared_compat a b \<Longrightarrow> shared_join a b = shared_join b a" for a b
    by (auto simp: shared_join_def shared_compat_def intro: lww_comm)
  show "shared_compat a a" for a
    by (simp add: shared_compat_def lww_compat_def)
  show "shared_compat a b \<Longrightarrow> shared_compat b a" for a b
    by (auto simp: shared_compat_def lww_compat_def)
  show "shared_compat a b \<Longrightarrow> shared_compat a c \<Longrightarrow> shared_compat a (shared_join b c)" for a b c
    by (simp add: shared_compat_def shared_join_def lww_compat_lww)
qed

subsection \<open>The merge refines the join\<close>

lemma merge_port_eq:
  "merge_port other (s, ch) =
     (s\<lparr> vc_config := (vc_config s)\<lparr> port := snd (sv_port (shared_join (shared s) (shared other))) \<rparr>,
         vc_stamps := (vc_stamps s)\<lparr> st_port := fst (sv_port (shared_join (shared s) (shared other))) \<rparr> \<rparr>,
      ch \<or> st_port (vc_stamps s) < st_port (vc_stamps other))"
  by (simp add: merge_port_def shared_join_def shared_def lww_def)

lemma merge_screens_eq:
  "merge_screens other (s, ch) =
     (s\<lparr> vc_config := (vc_config s)\<lparr> screens := snd (sv_screens (shared_join (shared s) (shared other))) \<rparr>,
         vc_stamps := (vc_stamps s)\<lparr> st_screens := fst (sv_screens (shared_join (shared s) (shared other))) \<rparr> \<rparr>,
      ch \<or> st_screens (vc_stamps s) < st_screens (vc_stamps other))"
  by (simp add: merge_screens_def shared_join_def shared_def lww_def)

lemma merge_links_eq:
  "merge_links other (s, ch) =
     (s\<lparr> vc_config := (vc_config s)\<lparr> links := snd (sv_links (shared_join (shared s) (shared other))) \<rparr>,
         vc_stamps := (vc_stamps s)\<lparr> st_links := fst (sv_links (shared_join (shared s) (shared other))) \<rparr> \<rparr>,
      ch \<or> st_links (vc_stamps s) < st_links (vc_stamps other))"
  by (simp add: merge_links_def shared_join_def shared_def lww_def)

lemma merge_options_eq:
  "merge_options other (s, ch) =
     (s\<lparr> vc_config := (vc_config s)\<lparr> options := snd (sv_options (shared_join (shared s) (shared other))) \<rparr>,
         vc_stamps := (vc_stamps s)\<lparr> st_options := fst (sv_options (shared_join (shared s) (shared other))) \<rparr> \<rparr>,
      ch \<or> st_options (vc_stamps s) < st_options (vc_stamps other))"
  by (simp add: merge_options_def shared_join_def shared_def lww_def)

lemma merge_clipboard_sharing_eq:
  "merge_clipboard_sharing other (s, ch) =
     (s\<lparr> vc_config := (vc_config s)\<lparr> clipboard_sharing := snd (sv_clipboard (shared_join (shared s) (shared other))) \<rparr>,
         vc_stamps := (vc_stamps s)\<lparr> st_clipboard_sharing := fst (sv_clipboard (shared_join (shared s) (shared other))) \<rparr> \<rparr>,
      ch \<or> st_clipboard_sharing (vc_stamps s) < st_clipboard_sharing (vc_stamps other))"
  by (simp add: merge_clipboard_sharing_def shared_join_def shared_def lww_def)

lemmas merge_steps = merge_port_eq merge_screens_eq merge_links_eq merge_options_eq
  merge_clipboard_sharing_eq

text \<open>The merge in closed form: each shared field and its stamp by last writer wins, nothing
  else but the clock.\<close>

lemma merge_eq:
  "fst (merge v other) = \<lparr>
     vc_config = (vc_config v)\<lparr>
       port := snd (sv_port (shared_join (shared v) (shared other))),
       screens := snd (sv_screens (shared_join (shared v) (shared other))),
       links := snd (sv_links (shared_join (shared v) (shared other))),
       options := snd (sv_options (shared_join (shared v) (shared other))),
       clipboard_sharing := snd (sv_clipboard (shared_join (shared v) (shared other))) \<rparr>,
     vc_stamps = (vc_stamps v)\<lparr>
       st_port := fst (sv_port (shared_join (shared v) (shared other))),
       st_screens := fst (sv_screens (shared_join (shared v) (shared other))),
       st_links := fst (sv_links (shared_join (shared v) (shared other))),
       st_options := fst (sv_options (shared_join (shared v) (shared other))),
       st_clipboard_sharing := fst (sv_clipboard (shared_join (shared v) (shared other))) \<rparr>,
     vc_clock = max (max (vc_clock v) (vc_clock other)) (max_counter (vc_stamps other)) \<rparr>"
  by (simp add: merge_def Let_def merge_steps shared_join_def shared_def)

lemma merge_outcome_iff:
  "snd (merge v other) = NoChange \<longleftrightarrow>
     st_port (vc_stamps other) \<le> st_port (vc_stamps v) \<and>
     st_screens (vc_stamps other) \<le> st_screens (vc_stamps v) \<and>
     st_links (vc_stamps other) \<le> st_links (vc_stamps v) \<and>
     st_options (vc_stamps other) \<le> st_options (vc_stamps v) \<and>
     st_clipboard_sharing (vc_stamps other) \<le> st_clipboard_sharing (vc_stamps v)"
  by (auto simp: merge_def Let_def merge_steps not_less)

lemma shared_merge: "shared (fst (merge v other)) = shared_join (shared v) (shared other)"
  by (simp add: merge_eq shared_def shared_join_def)

text \<open>C5. Refinement: the field-by-field merge computes, on the shared view, the abstract
  last-writer-wins join, and changes nothing of a machine's own fields (role, names, addresses,
  service and sync ports, autostart, Core path, audio) nor of their stamps.\<close>

theorem merge_refines_join:
  "shared (fst (merge v other)) = shared_join (shared v) (shared other) \<and>
   (let c = vc_config v; c' = vc_config (fst (merge v other));
        s = vc_stamps v; s' = vc_stamps (fst (merge v other))
    in role c' = role c \<and> server_name c' = server_name c \<and> server_address c' = server_address c \<and>
       service_port c' = service_port c \<and> sync_port c' = sync_port c \<and>
       autostart c' = autostart c \<and> binaries c' = binaries c \<and> audio c' = audio c \<and>
       st_role s' = st_role s \<and> st_server_name s' = st_server_name s \<and>
       st_server_address s' = st_server_address s \<and> st_service_port s' = st_service_port s \<and>
       st_binaries s' = st_binaries s)"
  unfolding shared_merge by (simp add: merge_eq Let_def)

lemma stamp_le_lww: "fst b \<le> fst a \<Longrightarrow> lww a b = a"
  by (auto simp: lww_def)

lemma le_fst_lww: "t \<le> fst (lww a (t, x))" "t \<le> fst (lww (t, x) b)"
  by (auto simp: lww_def)

text \<open>A merge reports \<open>NoChange\<close> only when it left the configuration and every stamp as they
  were, and receiving the same state again always reports \<open>NoChange\<close>: gossip stops.\<close>

theorem merge_outcome_sound:
  "(snd (merge v other) = NoChange \<longrightarrow>
      vc_config (fst (merge v other)) = vc_config v \<and>
      vc_stamps (fst (merge v other)) = vc_stamps v) \<and>
   snd (merge (fst (merge v other)) other) = NoChange"
proof
  show "snd (merge v other) = NoChange \<longrightarrow>
      vc_config (fst (merge v other)) = vc_config v \<and>
      vc_stamps (fst (merge v other)) = vc_stamps v"
    by (simp add: merge_outcome_iff merge_eq shared_join_def shared_def stamp_le_lww)
  show "snd (merge (fst (merge v other)) other) = NoChange"
    by (simp add: merge_outcome_iff merge_eq shared_join_def shared_def le_fst_lww)
qed

theorem merge_outcome_sound_witness:
  "snd (merge (vc_initial config_default ''b'') (vc_initial config_default ''a'')) = NoChange \<and>
   vc_config (fst (merge (vc_initial config_default ''b'') (vc_initial config_default ''a'')))
     = config_default"
proof -
  have n: "snd (merge (vc_initial config_default ''b'') (vc_initial config_default ''a'')) = NoChange"
    by (simp add: merge_outcome_iff vc_initial_def stamps_all_def not_less [symmetric]
        lamport_less_iff)
  show ?thesis
    using n merge_outcome_sound [of "vc_initial config_default ''b''" "vc_initial config_default ''a''"]
    by (simp add: vc_initial_def)
qed

subsection \<open>Convergence of replicas\<close>

definition merge_all :: "versioned_config \<Rightarrow> versioned_config list \<Rightarrow> versioned_config" where
  "merge_all v xs = foldl (\<lambda>a b. fst (merge a b)) v xs"

lemma shared_merge_all: "shared (merge_all v xs) = foldl shared_join (shared v) (map shared xs)"
  unfolding merge_all_def by (induction xs arbitrary: v) (simp_all add: shared_merge)

lemma hash_input_shared: "shared u = shared v \<Longrightarrow> hash_input u = hash_input v"
  by (simp add: shared_def hash_input_def)

text \<open>C1. Strong convergence: two replicas that hold or have received the same set of states, in
  any order and with any repetition, agree on every shared field and on its stamp, and advertise
  the same head hash, provided no stamp was ever issued for two different values.\<close>

theorem merges_converge:
  assumes same: "insert u (set xs) = insert v (set ys)"
    and unique: "\<forall>a \<in> insert u (set xs). \<forall>b \<in> insert u (set xs). shared_compat (shared a) (shared b)"
  shows "shared (merge_all u xs) = shared (merge_all v ys) \<and>
         head_hash to_json sha256 hex (merge_all u xs) = head_hash to_json sha256 hex (merge_all v ys)"
proof -
  have "insert (shared u) (set (map shared xs)) = insert (shared v) (set (map shared ys))"
    using arg_cong [OF same, of "image shared"] by simp
  then have "shared (merge_all u xs) = shared (merge_all v ys)"
    unfolding shared_merge_all
    by (rule sv.replicas_converge) (use unique in auto)
  with hash_input_shared [OF this] show ?thesis by (simp add: head_hash_def)
qed

text \<open>Two peers that edited different fields, and the state they meet at.\<close>

definition demo_a :: versioned_config where
  "demo_a = fst (apply_local (vc_initial config_default ''a'') (config_default\<lparr>port := 33001\<rparr>) ''a'')"

definition demo_b :: versioned_config where
  "demo_b = fst (apply_local (vc_initial config_default ''b'')
              (config_default\<lparr>clipboard_sharing := False\<rparr>) ''b'')"

lemma max_counter_all [simp]: "max_counter (stamps_all t) = counter t"
  by (simp add: max_counter_def stamp_list_def stamps_all_def)

lemma demo_edits:
  "\<not> config_eq config_default (config_default\<lparr>port := 33001\<rparr>)"
  "\<not> config_eq config_default (config_default\<lparr>clipboard_sharing := False\<rparr>)"
  "restamp config_default (config_default\<lparr>port := 33001\<rparr>) t s = s\<lparr>st_port := t\<rparr>"
  "restamp config_default (config_default\<lparr>clipboard_sharing := False\<rparr>) t s
     = s\<lparr>st_clipboard_sharing := t\<rparr>"
proof -
  have d: "port config_default \<noteq> 33001" "clipboard_sharing config_default"
    by (simp_all add: config_default_def default_port_def)
  then show "\<not> config_eq config_default (config_default\<lparr>port := 33001\<rparr>)"
    "\<not> config_eq config_default (config_default\<lparr>clipboard_sharing := False\<rparr>)"
    by (simp_all add: config_eq_def)
  show "restamp config_default (config_default\<lparr>port := 33001\<rparr>) t s = s\<lparr>st_port := t\<rparr>"
    "restamp config_default (config_default\<lparr>clipboard_sharing := False\<rparr>) t s
     = s\<lparr>st_clipboard_sharing := t\<rparr>"
    using d by (simp_all add: restamp_def)
qed

lemma demo_eqs:
  "demo_a = \<lparr> vc_config = config_default\<lparr>port := 33001\<rparr>,
     vc_stamps = (stamps_all (LamportTime 1 ''a''))\<lparr>st_port := LamportTime 2 ''a''\<rparr>, vc_clock = 2 \<rparr>"
  "demo_b = \<lparr> vc_config = config_default\<lparr>clipboard_sharing := False\<rparr>,
     vc_stamps = (stamps_all (LamportTime 1 ''b''))\<lparr>st_clipboard_sharing := LamportTime 2 ''b''\<rparr>,
     vc_clock = 2 \<rparr>"
  by (simp_all add: demo_a_def demo_b_def apply_local_def vc_initial_def next_clock_def
      demo_edits)

theorem merges_converge_witness:
  "shared (merge_all demo_a [demo_b]) = shared (merge_all demo_b [demo_a, demo_a]) \<and>
   port (vc_config (merge_all demo_b [demo_a])) = 33001 \<and>
   \<not> clipboard_sharing (vc_config (merge_all demo_a [demo_b]))"
proof -
  have s: "insert demo_a (set [demo_b]) = insert demo_b (set [demo_a, demo_a])" by auto
  have c: "\<forall>a \<in> insert demo_a (set [demo_b]). \<forall>b \<in> insert demo_a (set [demo_b]).
      shared_compat (shared a) (shared b)"
    by (simp add: demo_eqs shared_def shared_compat_def lww_compat_def stamps_all_def)
  have p: "port (vc_config (merge_all demo_b [demo_a])) = 33001"
    "\<not> clipboard_sharing (vc_config (merge_all demo_a [demo_b]))"
    by (simp_all add: merge_all_def merge_eq shared_def shared_join_def lww_def demo_eqs
        stamps_all_def lamport_less_iff)
  show ?thesis using merges_converge [OF s c] p by simp
qed

subsection \<open>Local edits\<close>

lemma foldl_max_ge: "a \<le> foldl max a xs \<and> (\<forall>x \<in> set xs. x \<le> foldl max a xs)"
  for a :: "'a::linorder"
proof (induction xs arbitrary: a)
  case Nil
  then show ?case by simp
next
  case (Cons y xs)
  show ?case using Cons [of "max a y"] by auto
qed

lemma counter_le_max: "t \<in> set (stamp_list s) \<Longrightarrow> counter t \<le> max_counter s"
  using foldl_max_ge [of 0 "map counter (stamp_list s)"] by (auto simp: max_counter_def)

definition can_tick :: "versioned_config \<Rightarrow> bool" where
  "can_tick v \<longleftrightarrow> max (vc_clock v) (max_counter (vc_stamps v)) < - 1"

lemma u64_max_top [simp]: "max (- 1) x = (- 1 :: u64)" "max x (- 1) = (- 1 :: u64)"
  by (simp_all add: max_absorb1 max_absorb2)

lemma u64_one_less_top [simp]: "(1 :: u64) < - 1"
  by (simp add: less_le)

lemma u64_less_succ: "x < - 1 \<Longrightarrow> x < x + 1" for x :: u64
  by unat_arith

lemma next_clock_gt: "can_tick v \<Longrightarrow> max (vc_clock v) (max_counter (vc_stamps v)) < next_clock v"
  unfolding can_tick_def next_clock_def
  by (rule u64_less_succ)

lemma fresh_stamp:
  assumes "can_tick v" "t \<in> set (stamp_list (vc_stamps v))"
  shows "t < LamportTime (next_clock v) org"
proof -
  have "counter t < next_clock v"
    using next_clock_gt [OF assms(1)] counter_le_max [OF assms(2)] by (simp add: max_def split: if_splits)
  then show ?thesis by (simp add: lamport_less_iff)
qed

text \<open>The edited replica's stamp of one field beats a peer that has seen nothing newer; an
  unedited field never overwrites a peer's equally new or newer value.\<close>

lemma snd_lww_edit:
  assumes "\<forall>t \<in> set (stamp_list st). counter t < k" and "tp \<in> set (stamp_list st)"
  shows "snd (lww (tp, x) (if chg then LamportTime k org else tv, y)) =
         (if chg then y else if tv \<le> tp then x else y)"
proof -
  have "tp < LamportTime k org" using assms by (simp add: lamport_less_iff)
  then show ?thesis by (auto simp: lww_def)
qed

text \<open>C11. A local edit reaches every peer that has seen no newer clock: merging the edited state
  takes over each shared field the edit changed, and for each field it did not change it keeps
  the peer's own value when that is at least as recent. Concurrent edits of different fields
  both survive.\<close>

theorem local_edit_propagates:
  assumes tick: "can_tick v"
    and edit: "apply_local v c org = (v', True)"
    and seen: "max_counter (vc_stamps p) \<le> max (vc_clock v) (max_counter (vc_stamps v))"
  shows "let old = vc_config v; q = vc_config (fst (merge p v')) in
    port q = (if port old \<noteq> port c then port c
              else if st_port (vc_stamps v) \<le> st_port (vc_stamps p) then port (vc_config p)
              else port c) \<and>
    screens q = (if screens old \<noteq> screens c then screens c
              else if st_screens (vc_stamps v) \<le> st_screens (vc_stamps p) then screens (vc_config p)
              else screens c) \<and>
    links q = (if links old \<noteq> links c then links c
              else if st_links (vc_stamps v) \<le> st_links (vc_stamps p) then links (vc_config p)
              else links c) \<and>
    options q = (if options old \<noteq> options c then options c
              else if st_options (vc_stamps v) \<le> st_options (vc_stamps p) then options (vc_config p)
              else options c) \<and>
    clipboard_sharing q = (if clipboard_sharing old \<noteq> clipboard_sharing c then clipboard_sharing c
              else if st_clipboard_sharing (vc_stamps v) \<le> st_clipboard_sharing (vc_stamps p)
                   then clipboard_sharing (vc_config p)
              else clipboard_sharing c)"
proof -
  have v': "v' = \<lparr> vc_config = c, vc_stamps = restamp (vc_config v) c
              (LamportTime (next_clock v) org) (vc_stamps v), vc_clock = next_clock v \<rparr>"
    using edit by (simp add: apply_local_def Let_def split: if_splits)
  have old: "\<forall>t \<in> set (stamp_list (vc_stamps p)). counter t < next_clock v"
    using counter_le_max [of _ "vc_stamps p"] seen next_clock_gt [OF tick]
    by (meson le_less_trans)
  have mem: "st_port s \<in> set (stamp_list s)" "st_screens s \<in> set (stamp_list s)"
    "st_links s \<in> set (stamp_list s)" "st_options s \<in> set (stamp_list s)"
    "st_clipboard_sharing s \<in> set (stamp_list s)" for s
    by (simp_all add: stamp_list_def)
  show ?thesis
    unfolding Let_def merge_eq v' shared_def shared_join_def restamp_def
    by (simp only: versioned_config.simps config.simps shared_view.simps field_stamps.simps
        snd_lww_edit [OF old mem(1)] snd_lww_edit [OF old mem(2)] snd_lww_edit [OF old mem(3)]
        snd_lww_edit [OF old mem(4)] snd_lww_edit [OF old mem(5)]) (intro conjI; simp)
qed

theorem local_edit_propagates_witness:
  "port (vc_config (fst (merge demo_b demo_a))) = 33001 \<and>
   \<not> clipboard_sharing (vc_config (fst (merge demo_b demo_a)))"
proof -
  let ?v = "vc_initial config_default ''a''"
  have t: "can_tick ?v" by (simp add: can_tick_def vc_initial_def)
  have e: "apply_local ?v (config_default\<lparr>port := 33001\<rparr>) ''a'' = (demo_a, True)"
    by (simp add: demo_a_def apply_local_def Let_def vc_initial_def demo_edits)
  have s: "max_counter (vc_stamps (vc_initial config_default ''b''))
           \<le> max (vc_clock ?v) (max_counter (vc_stamps ?v))"
    by (simp add: vc_initial_def)
  have d: "port config_default \<noteq> 33001" by (simp add: config_default_def default_port_def)
  have "port (vc_config (fst (merge (vc_initial config_default ''b'') demo_a))) = 33001"
    using local_edit_propagates [OF t e s] d by (simp add: Let_def vc_initial_def)
  moreover have "port (vc_config (fst (merge demo_b demo_a))) = 33001"
    "\<not> clipboard_sharing (vc_config (fst (merge demo_b demo_a)))"
    by (simp_all add: merge_eq shared_def shared_join_def lww_def demo_eqs stamps_all_def
        lamport_less_iff)
  ultimately show ?thesis by simp
qed

subsection \<open>Two limits of the code\<close>

text \<open>A configuration whose audio gain is NaN never equals itself, so every reload of an
  unchanged file counts as an edit: it reports a change and advances the clock although no stamp
  moves and no Core input changed.\<close>

theorem nan_gain_never_settles:
  assumes "\<not> gains_are_numbers c" and "vc_config v = c"
  shows "apply_local v c org = (v\<lparr>vc_clock := next_clock v\<rparr>, True) \<and>
         \<not> core_inputs_differ (vc_config v) c"
proof -
  have "\<not> config_eq c c" using assms(1) by (simp add: config_eq_refl_iff)
  moreover have "restamp c c t s = s" for t s by (simp add: restamp_def)
  moreover have "config_eq (core_view c) (core_view c)"
    by (simp add: config_eq_refl_iff gains_are_numbers_def core_view_def audio_config_default_def)
  ultimately show ?thesis
    using assms(2) by (simp add: apply_local_def Let_def core_inputs_differ_def)
qed

theorem nan_gain_never_settles_witness:
  "(let c = config_default\<lparr>audio := audio_config_default\<lparr>input_gain := 0x7FC00000\<rparr>\<rparr>;
        v = vc_initial c ''a''
    in snd (apply_local v c ''a'') \<and> vc_clock (fst (apply_local v c ''a'')) = 2)"
proof -
  define c where "c = config_default\<lparr>audio := audio_config_default\<lparr>input_gain := 0x7FC00000\<rparr>\<rparr>"
  have n: "\<not> gains_are_numbers c"
    by (simp add: c_def gains_are_numbers_def f32_is_nan_def)
  have v: "vc_config (vc_initial c ''a'') = c" by (simp add: vc_initial_def)
  have k: "next_clock (vc_initial c ''a'') = 2" by (simp add: next_clock_def vc_initial_def)
  show ?thesis
    unfolding Let_def c_def [symmetric] using nan_gain_never_settles [OF n v] k by simp
qed



end
