(* ===== verification/Trust_Store.thy ===== *)
theory Trust_Store
  imports Ipc_Types
begin

text \<open>
  The store of paired peers (\<^verbatim>\<open>crates/synbad-discovery/src/trust.rs\<close>): a list of peers in
  memory, mirrored in a JSON file that every change rewrites through a fresh temporary file.
  JSON is a parameter.  Contract: the store is a map from machine ids to peers; an
  operation that fails leaves memory as it was, and the file holds the complete old or the
  complete new list, never a part of one.
\<close>

subsection \<open>The store\<close>

datatype trust_error = TrustIo path io_kind | TrustJson

record trust_file =
  tf_peers :: "trusted_peer list"

record trusted_peer_store =
  ts_path :: path
  ts_peers :: "trusted_peer list"

definition trust_load ::
  "(string \<Rightarrow> trust_file option) \<Rightarrow> faults \<Rightarrow> fs \<Rightarrow> path \<Rightarrow>
   (trust_error, trusted_peer_store) result" where
  "trust_load from_json fl m p =
     and_then
       (case fs_read fl m p of
          Inr bytes \<Rightarrow> (case from_json bytes of
              None \<Rightarrow> Err TrustJson
            | Some f \<Rightarrow> Ok (tf_peers f))
        | Inl e \<Rightarrow> if e = NotFound then Ok [] else Err (TrustIo p e))
       (\<lambda>peers. Ok \<lparr> ts_path = p, ts_peers = peers \<rparr>)"

definition trust_list :: "trusted_peer_store \<Rightarrow> trusted_peer list" where
  "trust_list st = ts_peers st"

definition contains :: "trusted_peer_store \<Rightarrow> string \<Rightarrow> bool" where
  "contains st machine_id \<longleftrightarrow> (\<exists>p \<in> set (ts_peers st). tp_machine_id p = machine_id)"

definition trust_get :: "trusted_peer_store \<Rightarrow> string \<Rightarrow> trusted_peer option" where
  "trust_get st machine_id = find (\<lambda>p. tp_machine_id p = machine_id) (ts_peers st)"

text \<open>The closure of \<open>save\<close>: create the temporary file, write, sync, rename, sync the directory.\<close>

definition trust_save_io ::
  "faults \<Rightarrow> fs \<Rightarrow> path \<Rightarrow> path \<Rightarrow> string \<Rightarrow> fs \<times> (io_kind, unit) result" where
  "trust_save_io fl m tmp p body =
     (case fs_create_new fl m tmp of
        (m1, Inl e) \<Rightarrow> (m1, Err e)
      | (m1, Inr _) \<Rightarrow>
     (case fs_write fl m1 tmp body of
        (m2, Inl e) \<Rightarrow> (m2, Err e)
      | (m2, Inr _) \<Rightarrow>
     (case fs_sync fl tmp of
        Inl e \<Rightarrow> (m2, Err e)
      | Inr _ \<Rightarrow>
     (case fs_rename fl m2 tmp p of
        (m3, Inl e) \<Rightarrow> (m3, Err e)
      | (m3, Inr _) \<Rightarrow>
     (case parent p of
        None \<Rightarrow> (m3, Ok ())
      | Some d \<Rightarrow> (m3, fs_sync fl d))))))"

definition trust_save ::
  "(trust_file \<Rightarrow> string option) \<Rightarrow> string \<Rightarrow> faults \<Rightarrow> fs \<Rightarrow> trusted_peer_store \<Rightarrow>
   trusted_peer list \<Rightarrow> fs \<times> (trust_error, unit) result" where
  "trust_save to_json uuid fl m st peers =
     (case (case parent (ts_path st) of
              None \<Rightarrow> Ok ()
            | Some d \<Rightarrow> (case fs_mkdir fl d of Inl e \<Rightarrow> Err (TrustIo d e) | Inr _ \<Rightarrow> Ok ())) of
        Inl e \<Rightarrow> (m, Err e)
      | Inr _ \<Rightarrow>
        (case to_json \<lparr> tf_peers = peers \<rparr> of
           None \<Rightarrow> (m, Err TrustJson)
         | Some body \<Rightarrow>
             (let tmp = with_extension (ts_path st) (uuid @ ''.tmp'');
                  (m1, res) = trust_save_io fl m tmp (ts_path st) body;
                  (m2, _) = fs_remove fl m1 tmp
              in (m2, case res of Inl e \<Rightarrow> Err (TrustIo (ts_path st) e) | Inr _ \<Rightarrow> Ok ()))))"

text \<open>Replace the first peer with the same machine id, or append.\<close>

fun upsert_list :: "trusted_peer \<Rightarrow> trusted_peer list \<Rightarrow> trusted_peer list" where
  "upsert_list peer [] = [peer]"
| "upsert_list peer (p # ps) =
     (if tp_machine_id p = tp_machine_id peer then peer # ps else p # upsert_list peer ps)"

definition trust_upsert ::
  "(trust_file \<Rightarrow> string option) \<Rightarrow> string \<Rightarrow> faults \<Rightarrow> fs \<Rightarrow> trusted_peer_store \<Rightarrow>
   trusted_peer \<Rightarrow> fs \<times> trusted_peer_store \<times> (trust_error, unit) result" where
  "trust_upsert to_json uuid fl m st peer =
     (let peers = upsert_list peer (ts_peers st) in
      case trust_save to_json uuid fl m st peers of
        (m', Inl e) \<Rightarrow> (m', st, Err e)
      | (m', Inr _) \<Rightarrow> (m', st\<lparr> ts_peers := peers \<rparr>, Ok ()))"

definition trust_remove ::
  "(trust_file \<Rightarrow> string option) \<Rightarrow> string \<Rightarrow> faults \<Rightarrow> fs \<Rightarrow> trusted_peer_store \<Rightarrow>
   string \<Rightarrow> fs \<times> trusted_peer_store \<times> (trust_error, bool) result" where
  "trust_remove to_json uuid fl m st machine_id =
     (let before = length (ts_peers st);
          peers = filter (\<lambda>p. tp_machine_id p \<noteq> machine_id) (ts_peers st) in
      if length peers \<noteq> before then
        (case trust_save to_json uuid fl m st peers of
           (m', Inl e) \<Rightarrow> (m', st, Err e)
         | (m', Inr _) \<Rightarrow> (m', st\<lparr> ts_peers := peers \<rparr>, Ok True))
      else (m, st, Ok False))"

subsection \<open>Interface: a keyed store\<close>

text \<open>
  What the pairing, sync and audio code relies on: a lookup by key and two updates.  The
  facts about histories of updates are proved once from these laws.
\<close>

locale keyed_store =
  fixes lookup :: "'s \<Rightarrow> 'k \<Rightarrow> 'v option"
    and put :: "'v \<Rightarrow> 's \<Rightarrow> 's"
    and drop_key :: "'k \<Rightarrow> 's \<Rightarrow> 's"
    and key :: "'v \<Rightarrow> 'k"
  assumes lookup_put: "lookup (put v s) k = (if k = key v then Some v else lookup s k)"
    and lookup_drop: "lookup (drop_key d s) k = (if k = d then None else lookup s k)"
begin

definition step :: "('v + 'k) \<Rightarrow> 's \<Rightarrow> 's" where
  "step op s = (case op of Inl v \<Rightarrow> put v s | Inr d \<Rightarrow> drop_key d s)"

definition touches :: "'k \<Rightarrow> ('v + 'k) \<Rightarrow> bool" where
  "touches k op \<longleftrightarrow> (case op of Inl v \<Rightarrow> key v = k | Inr d \<Rightarrow> d = k)"

definition outcome :: "('v + 'k) \<Rightarrow> 'v option" where
  "outcome op = (case op of Inl v \<Rightarrow> Some v | Inr _ \<Rightarrow> None)"

lemma lookup_step:
  "lookup (step op s) k = (if touches k op then outcome op else lookup s k)"
  by (auto simp: step_def touches_def outcome_def lookup_put lookup_drop split: sum.split)

lemma lookup_history_untouched:
  "\<forall>op \<in> set ops. \<not> touches k op \<Longrightarrow> lookup (fold step ops s) k = lookup s k"
  by (induction ops arbitrary: s) (auto simp: lookup_step)

lemma lookup_history_last:
  "touches k op \<Longrightarrow> \<forall>later \<in> set ops. \<not> touches k later \<Longrightarrow>
   lookup (fold step (earlier @ op # ops) s) k = outcome op"
  by (simp add: lookup_history_untouched lookup_step)

end

subsection \<open>The lists implement a keyed store\<close>

definition peer_lookup :: "trusted_peer list \<Rightarrow> string \<Rightarrow> trusted_peer option" where
  "peer_lookup ps k = find (\<lambda>p. tp_machine_id p = k) ps"

definition remove_list :: "string \<Rightarrow> trusted_peer list \<Rightarrow> trusted_peer list" where
  "remove_list k ps = filter (\<lambda>p. tp_machine_id p \<noteq> k) ps"

lemma find_filter_neq:
  "find (\<lambda>p. f p = k) (filter (\<lambda>p. f p \<noteq> d) ps) =
   (if k = d then None else find (\<lambda>p. f p = k) ps)"
  by (induction ps) auto

lemma peer_lookup_upsert:
  "peer_lookup (upsert_list v s) k = (if k = tp_machine_id v then Some v else peer_lookup s k)"
  by (induction v s rule: upsert_list.induct) (auto simp: peer_lookup_def)

lemma peer_lookup_remove:
  "peer_lookup (remove_list d s) k = (if k = d then None else peer_lookup s k)"
  by (simp add: remove_list_def find_filter_neq peer_lookup_def)

interpretation trusted: keyed_store peer_lookup upsert_list remove_list tp_machine_id
  by unfold_locales (simp_all add: peer_lookup_upsert peer_lookup_remove)

lemma contains_iff_get: "contains st k \<longleftrightarrow> trust_get st k \<noteq> None"
  by (auto simp: contains_def trust_get_def find_None_iff)

lemma trust_get_peer_lookup: "trust_get st = peer_lookup (ts_peers st)"
  by (simp add: trust_get_def peer_lookup_def fun_eq_iff)

lemma remove_list_id: "length (remove_list k ps) = length ps \<longleftrightarrow> remove_list k ps = ps"
  unfolding remove_list_def by (metis filter_id_conv length_filter_less less_irrefl)

subsection \<open>What a save leaves on disk\<close>

definition trust_tmp :: "trusted_peer_store \<Rightarrow> string \<Rightarrow> path" where
  "trust_tmp st uuid = with_extension (ts_path st) (uuid @ ''.tmp'')"

lemma trust_save_io_disk:
  assumes "trust_save_io fl m tmp p body = (m', r)" and "tmp \<noteq> p"
  shows "m' p = m p \<and> \<not> is_ok r \<or> m' p = Some body"
  using assms
  by (auto simp: trust_save_io_def fs_create_new_def fs_write_def fs_rename_def fs_sync_def
      split: option.splits sum.splits prod.splits if_splits)

lemma trust_save_disk:
  assumes "trust_save to_json uuid fl m st peers = (m', r)" and "trust_tmp st uuid \<noteq> ts_path st"
  shows "m' (ts_path st) = m (ts_path st) \<and> \<not> is_ok r
       \<or> (\<exists>body. to_json \<lparr> tf_peers = peers \<rparr> = Some body \<and> m' (ts_path st) = Some body)"
proof (cases "m' = m \<and> \<not> is_ok r")
  case False
  obtain body where body: "to_json \<lparr> tf_peers = peers \<rparr> = Some body"
    using assms(1) False by (auto simp: trust_save_def split: option.splits sum.splits)
  let ?tmp = "trust_tmp st uuid"
  obtain m1 res where io: "trust_save_io fl m ?tmp (ts_path st) body = (m1, res)"
    by fastforce
  have m': "m' = fst (fs_remove fl m1 ?tmp)" and r: "is_ok r \<longleftrightarrow> is_ok res"
    using assms(1) False body io
    by (auto simp: trust_save_def trust_tmp_def Let_def split: option.splits sum.splits prod.splits)
  have "fst (fs_remove fl m1 ?tmp) (ts_path st) = m1 (ts_path st)"
    using assms(2) by (auto simp: fs_remove_def split: option.splits)
  then show ?thesis
    using trust_save_io_disk [OF io assms(2)] m' r body by auto
qed simp

lemma trust_load_saved:
  assumes "m p = Some body" and "from_json body = Some \<lparr> tf_peers = ps \<rparr>"
  shows "trust_load from_json no_faults m p = Ok \<lparr> ts_path = p, ts_peers = ps \<rparr>"
  using assms by (simp add: trust_load_def)

lemma trust_upsert_cases:
  assumes "trust_upsert to_json uuid fl m st peer = (m', st', r)"
  obtains (ok) "r = Ok ()" "st' = st\<lparr> ts_peers := upsert_list peer (ts_peers st) \<rparr>"
      "trust_save to_json uuid fl m st (upsert_list peer (ts_peers st)) = (m', Ok ())"
  | (err) e where "r = Err e" "st' = st"
      "trust_save to_json uuid fl m st (upsert_list peer (ts_peers st)) = (m', Err e)"
  using assms by (auto simp: trust_upsert_def Let_def split: prod.splits sum.splits)

lemma trust_remove_cases:
  assumes "trust_remove to_json uuid fl m st k = (m', st', r)"
  obtains (ok) "r = Ok True" "st' = st\<lparr> ts_peers := remove_list k (ts_peers st) \<rparr>"
      "trust_save to_json uuid fl m st (remove_list k (ts_peers st)) = (m', Ok ())"
  | (absent) "r = Ok False" "st' = st" "m' = m" "remove_list k (ts_peers st) = ts_peers st"
  | (err) e where "r = Err e" "st' = st"
      "trust_save to_json uuid fl m st (remove_list k (ts_peers st)) = (m', Err e)"
  using assms remove_list_id [of k "ts_peers st"]
  by (auto simp: trust_remove_def Let_def remove_list_def split: prod.splits sum.splits if_splits)

lemma trust_saved_reload:
  assumes "trust_save to_json uuid fl m st ps = (m', Ok ())" and "trust_tmp st uuid \<noteq> ts_path st"
    and "\<And>b. to_json \<lparr> tf_peers = ps \<rparr> = Some b \<Longrightarrow> from_json b = Some \<lparr> tf_peers = ps \<rparr>"
  shows "trust_load from_json no_faults m' (ts_path st) = Ok (st\<lparr> ts_peers := ps \<rparr>)"
proof -
  obtain body where "to_json \<lparr> tf_peers = ps \<rparr> = Some body" "m' (ts_path st) = Some body"
    using trust_save_disk [OF assms(1,2)] by auto
  then show ?thesis using assms(3) trust_load_saved by simp
qed

text \<open>Insert-or-update refines the map update on machine ids: success adds exactly the
  peer, in memory and in what a restart loads from disk; failure leaves memory unchanged, and
  under any pattern of I/O errors the file holds the complete old or the complete new list.\<close>

theorem trust_upsert_refines:
  assumes json: "\<And>b. to_json \<lparr> tf_peers = upsert_list peer (ts_peers st) \<rparr> = Some b \<Longrightarrow>
                 from_json b = Some \<lparr> tf_peers = upsert_list peer (ts_peers st) \<rparr>"
    and tmp: "trust_tmp st uuid \<noteq> ts_path st"
    and run: "trust_upsert to_json uuid fl m st peer = (m', st', r)"
  shows "(is_ok r \<longrightarrow> trust_get st' = (trust_get st)(tp_machine_id peer \<mapsto> peer)
           \<and> trust_load from_json no_faults m' (ts_path st) = Ok st')
       \<and> (\<not> is_ok r \<longrightarrow> st' = st)
       \<and> (m' (ts_path st) = m (ts_path st)
         \<or> m' (ts_path st) = to_json \<lparr> tf_peers = upsert_list peer (ts_peers st) \<rparr>)"
  using run
proof (cases rule: trust_upsert_cases)
  case ok
  have "trust_load from_json no_faults m' (ts_path st) = Ok st'"
    using trust_saved_reload [OF ok(3) tmp json] ok(2) by simp
  moreover have "trust_get st' = (trust_get st)(tp_machine_id peer \<mapsto> peer)"
    by (auto simp: ok(2) trust_get_peer_lookup trusted.lookup_put)
  ultimately show ?thesis
    using trust_save_disk [OF ok(3) tmp] ok(1) by auto
next
  case (err e)
  then show ?thesis
    using trust_save_disk [OF err(3) tmp] by auto
qed

definition demo_store :: trusted_peer_store where
  "demo_store = \<lparr> ts_path = [''cfg'', ''trusted-peers.json''], ts_peers = [] \<rparr>"

definition demo_peer :: trusted_peer where
  "demo_peer = \<lparr> tp_machine_id = ''b'', tp_display_name = ''bob'', tp_public_key_hex = ''00'',
     tp_fingerprint = ''f'', tp_paired_at_unix = 7 \<rparr>"

definition demo_to_json :: "trust_file \<Rightarrow> string option" where
  "demo_to_json f = (if tf_peers f = [] then Some ''none'' else Some ''bob'')"

definition demo_from_json :: "string \<Rightarrow> trust_file option" where
  "demo_from_json b = Some (if b = ''bob'' then \<lparr> tf_peers = [demo_peer] \<rparr> else \<lparr> tf_peers = [] \<rparr>)"

lemma demo_tmp: "trust_tmp demo_store ''u'' = [''cfg'', ''trusted-peers.u.tmp'']"
  by (simp add: trust_tmp_def demo_store_def with_extension_def file_stem_def)

lemma demo_tmp_neq: "trust_tmp demo_store ''u'' \<noteq> ts_path demo_store"
  by (simp add: demo_tmp) (simp add: demo_store_def)

theorem trust_upsert_refines_witness:
  "(case trust_upsert demo_to_json ''u'' no_faults Map.empty demo_store demo_peer of
      (m', st', r) \<Rightarrow> is_ok r \<and> trust_get st' ''b'' = Some demo_peer
        \<and> trust_load demo_from_json no_faults m' (ts_path demo_store) = Ok st')"
proof -
  obtain m' st' r where run:
    "trust_upsert demo_to_json ''u'' no_faults Map.empty demo_store demo_peer = (m', st', r)"
    by (metis prod_cases3)
  have ps: "upsert_list demo_peer (ts_peers demo_store) = [demo_peer]"
    by (simp add: demo_store_def)
  have ok: "is_ok r"
    using run ps demo_tmp_neq
    by (auto simp: trust_upsert_def trust_save_def trust_save_io_def fs_create_new_def fs_write_def
        fs_rename_def fs_sync_def fs_mkdir_def no_faults_def demo_to_json_def trust_tmp_def Let_def
        split: option.splits sum.splits prod.splits)
  have json: "demo_to_json \<lparr> tf_peers = upsert_list demo_peer (ts_peers demo_store) \<rparr> = Some b \<Longrightarrow>
      demo_from_json b = Some \<lparr> tf_peers = upsert_list demo_peer (ts_peers demo_store) \<rparr>" for b
    by (auto simp: ps demo_to_json_def demo_from_json_def)
  show ?thesis
    using trust_upsert_refines [of demo_to_json demo_peer demo_store demo_from_json, OF json demo_tmp_neq run]
      ok run by (simp add: demo_peer_def)
qed

text \<open>Revocation: under the same conditions a successful removal deletes exactly that
  machine from the map, in memory and on disk; it reports whether the machine was trusted; a
  failed removal keeps it.\<close>

lemma trust_remove_refines:
  assumes json: "\<And>b. to_json \<lparr> tf_peers = remove_list k (ts_peers st) \<rparr> = Some b \<Longrightarrow>
                 from_json b = Some \<lparr> tf_peers = remove_list k (ts_peers st) \<rparr>"
    and tmp: "trust_tmp st uuid \<noteq> ts_path st"
    and run: "trust_remove to_json uuid fl m st k = (m', st', r)"
  shows "(is_ok r \<longrightarrow> trust_get st' = (trust_get st)(k := None) \<and> r = Ok (contains st k))
       \<and> (r = Ok True \<longrightarrow> trust_load from_json no_faults m' (ts_path st) = Ok st')
       \<and> (\<not> is_ok r \<longrightarrow> st' = st)
       \<and> (m' (ts_path st) = m (ts_path st)
         \<or> m' (ts_path st) = to_json \<lparr> tf_peers = remove_list k (ts_peers st) \<rparr>)"
  using run
proof (cases rule: trust_remove_cases)
  case ok
  have "contains st k"
  proof (rule ccontr)
    assume "\<not> contains st k"
    then have "remove_list k (ts_peers st) = ts_peers st"
      by (auto simp: contains_def remove_list_def intro!: filter_True)
    then have "trust_remove to_json uuid fl m st k = (m, st, Ok False)"
      by (simp add: trust_remove_def remove_list_def)
    with run ok(1) show False by simp
  qed
  moreover have "trust_get st' = (trust_get st)(k := None)"
    by (auto simp: ok(2) trust_get_peer_lookup trusted.lookup_drop)
  moreover have "trust_load from_json no_faults m' (ts_path st) = Ok st'"
    using trust_saved_reload [OF ok(3) tmp json] ok(2) by simp
  ultimately show ?thesis
    using trust_save_disk [OF ok(3) tmp] ok(1) by auto
next
  case absent
  then have "peer_lookup (ts_peers st) k = None"
    using trusted.lookup_drop [of k "ts_peers st" k] by simp
  then show ?thesis
    using absent by (auto simp: trust_get_peer_lookup contains_iff_get)
next
  case (err e)
  then show ?thesis
    using trust_save_disk [OF err(3) tmp] by auto
qed

subsection \<open>Histories of pairings and revocations\<close>

datatype trust_op = Upsert trusted_peer | Remove string

text \<open>Every operation of a history meets its own I/O errors and draws its own uuid.\<close>

fun trust_exec ::
  "(trust_file \<Rightarrow> string option) \<Rightarrow> fs \<Rightarrow> trusted_peer_store \<Rightarrow> (string \<times> faults \<times> trust_op) list \<Rightarrow>
   fs \<times> trusted_peer_store" where
  "trust_exec to_json m st [] = (m, st)"
| "trust_exec to_json m st ((uuid, fl, Upsert peer) # ops) =
     (case trust_upsert to_json uuid fl m st peer of (m', st', _) \<Rightarrow> trust_exec to_json m' st' ops)"
| "trust_exec to_json m st ((uuid, fl, Remove k) # ops) =
     (case trust_remove to_json uuid fl m st k of (m', st', _) \<Rightarrow> trust_exec to_json m' st' ops)"

definition pairs :: "string \<Rightarrow> trust_op \<Rightarrow> bool" where
  "pairs k op \<longleftrightarrow> (\<exists>peer. op = Upsert peer \<and> tp_machine_id peer = k)"

lemma trust_upsert_memory:
  "trust_upsert to_json uuid fl m st peer = (m', st', r) \<Longrightarrow>
   trust_get st' k = trust_get st k \<or> k = tp_machine_id peer \<and> trust_get st' k = Some peer"
  by (erule trust_upsert_cases) (auto simp: trust_get_peer_lookup trusted.lookup_put)

lemma trust_remove_memory:
  "trust_remove to_json uuid fl m st d = (m', st', r) \<Longrightarrow>
   trust_get st' k = trust_get st k \<or> k = d \<and> trust_get st' k = None"
  by (erule trust_remove_cases) (auto simp: trust_get_peer_lookup trusted.lookup_drop)

lemma trust_exec_never_adds:
  "trust_exec to_json m st ops = (m', st') \<Longrightarrow> \<forall>(u, fl, op) \<in> set ops. \<not> pairs k op \<Longrightarrow>
   trust_get st' k \<noteq> None \<Longrightarrow> trust_get st' k = trust_get st k"
proof (induction to_json m st ops rule: trust_exec.induct)
  case (2 to_json m st uuid fl peer ops)
  obtain m1 st1 r where up: "trust_upsert to_json uuid fl m st peer = (m1, st1, r)"
    by (metis prod_cases3)
  have "trust_get st1 k = trust_get st k"
    using trust_upsert_memory [OF up, of k] 2(3) by (auto simp: pairs_def)
  with 2 up show ?case by auto
next
  case (3 to_json m st uuid fl d ops)
  obtain m1 st1 r where rm: "trust_remove to_json uuid fl m st d = (m1, st1, r)"
    by (metis prod_cases3)
  have "trust_get st1 k \<noteq> None \<Longrightarrow> trust_get st1 k = trust_get st k"
    using trust_remove_memory [OF rm, of k] by auto
  moreover have "trust_get st' k = trust_get st1 k"
    using 3 rm by auto
  ultimately show ?case using 3(4) by simp
qed simp

lemma trust_remove_ok_gone:
  assumes "trust_remove to_json uuid fl m st k = (m', st', Ok b)"
  shows "trust_get st' k = None"
  using assms
proof (cases rule: trust_remove_cases)
  case absent
  then show ?thesis
    using trusted.lookup_drop [of k "ts_peers st" k] by (simp add: trust_get_peer_lookup)
qed (auto simp: trust_get_peer_lookup trusted.lookup_drop)


lemma no_faults_upsert:
  assumes "m (trust_tmp st uuid) = None" and "trust_tmp st uuid \<noteq> ts_path st"
    and "to_json \<lparr> tf_peers = upsert_list peer (ts_peers st) \<rparr> = Some b"
  shows "trust_upsert to_json uuid no_faults m st peer =
    ((m(trust_tmp st uuid := None))(ts_path st \<mapsto> b),
     st\<lparr> ts_peers := upsert_list peer (ts_peers st) \<rparr>, Ok ())"
  using assms
  by (auto simp: trust_upsert_def trust_save_def trust_save_io_def fs_create_new_def fs_write_def
        fs_rename_def fs_sync_def fs_mkdir_def fs_remove_def no_faults_def trust_tmp_def Let_def
        split: option.splits)


subsection \<open>A failing directory sync\<close>

text \<open>If only the sync of the parent directory fails, after the rename has already
  replaced the file, the pairing is reported as failed and memory does not trust the peer, but
  the next start loads it as trusted.\<close>

theorem dir_sync_failure_still_trusts:
  assumes json: "to_json \<lparr> tf_peers = upsert_list peer (ts_peers st) \<rparr> = Some b"
      "from_json b = Some \<lparr> tf_peers = upsert_list peer (ts_peers st) \<rparr>"
    and tmp: "trust_tmp st uuid \<noteq> ts_path st" "m (trust_tmp st uuid) = None"
    and dir: "parent (ts_path st) = Some d" "d \<noteq> trust_tmp st uuid"
    and fl: "fl = no_faults(Op_Sync d \<mapsto> (e, None))"
  shows "\<exists>m'. trust_upsert to_json uuid fl m st peer = (m', st, Err (TrustIo (ts_path st) e))
       \<and> trust_load from_json no_faults m' (ts_path st) =
           Ok (st\<lparr> ts_peers := upsert_list peer (ts_peers st) \<rparr>)"
proof -
  let ?m = "(m(trust_tmp st uuid := None))(ts_path st \<mapsto> b)"
  have "trust_upsert to_json uuid fl m st peer = (?m, st, Err (TrustIo (ts_path st) e))"
    using json(1) tmp dir
    by (auto simp: fl trust_upsert_def trust_save_def trust_save_io_def fs_create_new_def
        fs_write_def fs_rename_def fs_sync_def fs_mkdir_def fs_remove_def no_faults_def
        trust_tmp_def Let_def)
  moreover have "trust_load from_json no_faults ?m (ts_path st) =
      Ok (st\<lparr> ts_peers := upsert_list peer (ts_peers st) \<rparr>)"
    using trust_load_saved json(2) by simp
  ultimately show ?thesis by blast
qed

theorem dir_sync_failure_still_trusts_witness:
  "\<exists>m'. trust_upsert demo_to_json ''u'' (no_faults(Op_Sync [''cfg''] \<mapsto> (OtherIo, None))) Map.empty
        demo_store demo_peer = (m', demo_store, Err (TrustIo (ts_path demo_store) OtherIo))
      \<and> trust_load demo_from_json no_faults m' (ts_path demo_store) =
          Ok (demo_store\<lparr> ts_peers := [demo_peer] \<rparr>)"
proof -
  have ps: "upsert_list demo_peer (ts_peers demo_store) = [demo_peer]"
    by (simp add: demo_store_def)
  have d: "parent (ts_path demo_store) = Some [''cfg'']"
    by (simp add: demo_store_def parent_def)
  show ?thesis
    using dir_sync_failure_still_trusts [of demo_to_json demo_peer demo_store "''bob''" demo_from_json
        "''u''" Map.empty "[''cfg'']" "no_faults(Op_Sync [''cfg''] \<mapsto> (OtherIo, None))" OtherIo]
      demo_tmp_neq d
    by (simp add: ps demo_to_json_def demo_from_json_def demo_tmp)
qed

end
