(* ===== verification/Sessions.thy ===== *)
theory Sessions
  imports Core_Lifecycle Versioned Trust_Store "HOL-Library.AList"
begin

text \<open>
  The rest of the supervisor's state and the reconciliation of peer sessions
  (\<^verbatim>\<open>crates/synbadd/src/supervisor/mod.rs\<close>): discovery, outbound audio dials, outbound syncs, their backoff, and
  the audio subsystem.  The record extends the Core's, so that every method is a function on one state.

  A hash map whose values are iterated is an association list (the iteration order is the list's, and no
  theorem depends on it), any other a map.  The JSON encoder and SHA-256 of the head hash are in the
  argument \<open>head\<close>, the configuration's head; whether the trust mutex is free when tried is the argument \<open>busy\<close>.
  Spawned dials and the commands offered to the audio bridge are recorded in fields.
\<close>

subsection \<open>State\<close>

definition AUDIO_BACKOFF_MIN :: nat where "AUDIO_BACKOFF_MIN = 1"
definition AUDIO_BACKOFF_MAX :: nat where "AUDIO_BACKOFF_MAX = 60"

record audio_backoff =
  next_attempt :: nat
  attempts :: u32

text \<open>\<open>IncomingSignal\<close> also carries the authenticated stream, whose bytes the supervisor never sees.\<close>

datatype session_role = Offerer | Answerer

datatype audio_command =
    IncomingSignal string session_role
  | Reconfigure audio_config
  | ListDevices
  | QueryStatus
  | ClosePeer string
  | BridgeShutdown

datatype audio_event =
    PeerStatus peer_audio_status
  | AudioFailed "string option" string
  | DevicesChanged
  | SessionClosed string

datatype discovery_event =
    Found discovered_peer
  | Lost string

datatype audio_dial_outcome =
    DialOk string
  | DialErr string string

text \<open>What the mDNS advertiser announces.\<close>

record advert =
  adv_service_port :: u16
  adv_sync_port :: u16
  adv_core_port :: u16
  adv_audio_port :: u16
  adv_config_head :: string

text \<open>
  What the world answers while a step runs: the clock, file-system faults, whether the trust mutex is taken,
  exits that arrive, which listeners and tasks have ended and which sockets can be bound, whether an
  advertisement can be registered, what the audio bridge and the device probe reply, and identifiers drawn.
\<close>

record world =
  w_now :: nat
  w_faults :: faults
  w_busy :: "string \<Rightarrow> bool"
  w_exits :: "(u32 \<times> exit_status) list"
  w_adv_ok :: bool
  w_discovery_closed :: bool
  w_discovery_starts :: bool
  w_pairing_ended :: bool
  w_pairing_binds :: bool
  w_sync_ended :: bool
  w_sync_binds :: bool
  w_audio_ended :: bool
  w_audio_listener_ended :: bool
  w_bound :: bool
  w_queue_full :: bool
  w_devices :: "(string, audio_device_info list \<times> audio_device_info list) result"
  w_statuses :: "peer_audio_status list option"
  w_finished :: "string \<Rightarrow> bool"
  w_closed :: "string \<Rightarrow> bool"
  w_sync_result :: "string \<Rightarrow> bool option"
  w_uuid :: string

record supervisor = core_sup +
  v_versioned :: versioned_config
  v_machine_id :: string
  v_fingerprint :: string
  v_peers :: "(string \<times> discovered_peer) list"
  v_trust :: trusted_peer_store
  v_pairing_confirm :: "string list"
  v_pairing_tasks :: "string list"
  v_decisions :: "(string \<times> bool) list"
  v_sync_tasks :: "(string \<times> string) list"
  v_sync_confirmed :: "string \<Rightarrow> string option"
  v_sync_backoff :: "string \<Rightarrow> audio_backoff option"
  v_audio :: bool
  v_audio_listener :: bool
  v_audio_dial_deps :: bool
  v_audio_inflight :: "string set"
  v_audio_live :: "string set"
  v_audio_backoff :: "string \<Rightarrow> audio_backoff option"
  v_advert :: "advert option"
  v_browser :: bool
  v_pairing_name :: string
  v_pairing_listener :: bool
  v_incoming_pairings :: bool
  v_sync_listener :: bool
  v_listener_ports :: "u16 \<times> u16 \<times> u16"
  v_audio_dials :: "discovered_peer list"
  v_audio_cmds :: "audio_command list"

subsection \<open>Backoff of dials\<close>

text \<open>\<^verbatim>\<open>1u64.checked_shl(attempts - 1)\<close> is \<open>None\<close> from a shift of 64 on.\<close>

definition backoff_delay :: "u32 \<Rightarrow> nat" where
  "backoff_delay n =
     (let k = unat n - 1;
          secs = min (if k < 64 then AUDIO_BACKOFF_MIN * 2 ^ k else AUDIO_BACKOFF_MAX) AUDIO_BACKOFF_MAX
      in 1000 * secs)"

definition after_failure :: "nat \<Rightarrow> audio_backoff option \<Rightarrow> audio_backoff" where
  "after_failure now prev =
     (let n = (case prev of None \<Rightarrow> 1 | Some p \<Rightarrow> saturating_succ (attempts p))
      in \<lparr> next_attempt = now + backoff_delay n, attempts = n \<rparr>)"

subsection \<open>Audio sessions\<close>

definition peer_audio_active :: "audio_config \<Rightarrow> string \<Rightarrow> bool" where
  "peer_audio_active cfg peer \<longleftrightarrow>
     (if \<not> audio_enabled cfg then False
      else case map_of (per_peer cfg) peer of
        Some routing \<Rightarrow> routing_enabled routing \<and> (send_to_peer routing \<or> receive_from_peer routing)
      | None \<Rightarrow> True)"

definition offer_command :: "audio_command \<Rightarrow> supervisor \<Rightarrow> supervisor" where
  "offer_command c s = (if v_audio s then s\<lparr> v_audio_cmds := v_audio_cmds s @ [c] \<rparr> else s)"

definition dial_audio_one :: "(string \<Rightarrow> bool) \<Rightarrow> nat \<Rightarrow> discovered_peer \<Rightarrow> supervisor \<Rightarrow> supervisor" where
  "dial_audio_one busy now peer s =
     (let pid = dp_machine_id peer in
      if \<not> v_audio_dial_deps s then s
      else if dp_audio_port peer = 0 then s
      else if \<not> peer_audio_active (audio (s_config s)) pid then s
      else if pid \<le> v_machine_id s then s
      else if pid \<in> v_audio_live s then s
      else if pid \<in> v_audio_inflight s then s
      else if (case v_audio_backoff s pid of Some b \<Rightarrow> now < next_attempt b | None \<Rightarrow> False) then s
      else if busy pid then s
      else if \<not> contains (v_trust s) pid then s
      else s\<lparr> v_audio_inflight := insert pid (v_audio_inflight s), v_audio_dials := v_audio_dials s @ [peer] \<rparr>)"

definition reconcile_audio_sessions :: "(string \<Rightarrow> bool) \<Rightarrow> nat \<Rightarrow> supervisor \<Rightarrow> supervisor" where
  "reconcile_audio_sessions busy now s =
     (if \<not> v_audio_dial_deps s then s else fold (dial_audio_one busy now) (map snd (v_peers s)) s)"

definition handle_audio_dial_outcome :: "nat \<Rightarrow> audio_dial_outcome \<Rightarrow> supervisor \<Rightarrow> supervisor" where
  "handle_audio_dial_outcome now outcome s = (case outcome of
       DialOk pid \<Rightarrow> s\<lparr> v_audio_inflight := v_audio_inflight s - {pid},
                        v_audio_backoff := (v_audio_backoff s)(pid := None) \<rparr>
     | DialErr pid error \<Rightarrow> s\<lparr> v_audio_inflight := v_audio_inflight s - {pid},
           v_audio_backoff := (v_audio_backoff s)(pid \<mapsto> after_failure now (v_audio_backoff s pid)) \<rparr>)"

definition handle_audio_event :: "nat \<Rightarrow> audio_event \<Rightarrow> supervisor \<Rightarrow> supervisor" where
  "handle_audio_event now ev s = (case ev of
       PeerStatus status \<Rightarrow>
         send_event (EvAudioPeerStatus status)
           (if as_last_error status \<noteq> None
            then s\<lparr> v_audio_live := v_audio_live s - {as_machine_id status} \<rparr>
            else s\<lparr> v_audio_live := insert (as_machine_id status) (v_audio_live s),
                    v_audio_backoff := (v_audio_backoff s)(as_machine_id status := None) \<rparr>)
     | AudioFailed peer message \<Rightarrow>
         send_event (EvAudioError peer message)
           (case peer of
              Some pid \<Rightarrow> s\<lparr> v_audio_live := v_audio_live s - {pid}, v_audio_inflight := v_audio_inflight s - {pid},
                v_audio_backoff := (v_audio_backoff s)(pid \<mapsto> after_failure now (v_audio_backoff s pid)) \<rparr>
            | None \<Rightarrow> s)
     | DevicesChanged \<Rightarrow> send_event EvAudioDevicesChanged s
     | SessionClosed pid \<Rightarrow>
         send_event (EvAudioPeerRemoved pid) (s\<lparr> v_audio_live := v_audio_live s - {pid} \<rparr>))"

subsection \<open>The audio subsystem\<close>

text \<open>A refresh is committed only when the registration succeeds.\<close>

definition refresh_advert :: "bool \<Rightarrow> u16 \<Rightarrow> u16 \<Rightarrow> u16 \<Rightarrow> u16 \<Rightarrow> string \<Rightarrow> advert \<Rightarrow> advert" where
  "refresh_advert ok service_p sync_p core_p audio_p head a =
     (if ok then \<lparr> adv_service_port = service_p, adv_sync_port = sync_p, adv_core_port = core_p,
                   adv_audio_port = audio_p, adv_config_head = head \<rparr> else a)"

definition set_audio_port :: "bool \<Rightarrow> u16 \<Rightarrow> advert \<Rightarrow> advert" where
  "set_audio_port ok p a =
     refresh_advert ok (adv_service_port a) (adv_sync_port a) (adv_core_port a) p (adv_config_head a) a"

text \<open>The bridge always starts; its signalling listener may fail to bind.\<close>

definition ensure_audio_subsystem :: "world \<Rightarrow> supervisor \<Rightarrow> supervisor" where
  "ensure_audio_subsystem w s =
     (if v_audio s then s
      else if \<not> audio_enabled (audio (s_config s)) then s
      else
        let s1 = s\<lparr> v_audio := True, v_audio_listener := w_bound w, v_audio_dial_deps := True \<rparr>;
            s2 = (if w_bound w
                  then s1\<lparr> v_advert := map_option (set_audio_port (w_adv_ok w) (signal_port (audio (s_config s1)))) (v_advert s1) \<rparr>
                  else s1)
        in reconcile_audio_sessions (w_busy w) (w_now w) s2)"

definition teardown_audio_subsystem :: "world \<Rightarrow> supervisor \<Rightarrow> supervisor" where
  "teardown_audio_subsystem w s =
     (offer_command BridgeShutdown s)
       \<lparr> v_audio_listener := False, v_audio := False, v_audio_dial_deps := False, v_audio_live := {},
         v_audio_inflight := {}, v_audio_backoff := (\<lambda>_. None),
         v_advert := map_option (set_audio_port (w_adv_ok w) 0) (v_advert s) \<rparr>"

definition reconcile_audio_subsystem :: "world \<Rightarrow> supervisor \<Rightarrow> supervisor" where
  "reconcile_audio_subsystem w s =
     (let want = s_desired_running s \<and> audio_enabled (audio (s_config s)) in
      if \<not> want then (if v_audio s then teardown_audio_subsystem w s else s)
      else ensure_audio_subsystem w s)"

subsection \<open>Config-sync sessions\<close>

definition maybe_pull_from ::
  "(versioned_config \<Rightarrow> string) \<Rightarrow> (string \<Rightarrow> bool) \<Rightarrow> nat \<Rightarrow> discovered_peer \<Rightarrow> supervisor \<Rightarrow> supervisor" where
  "maybe_pull_from head busy now peer s =
     (let pid = dp_machine_id peer; h = head (v_versioned s) in
      if dp_sync_port peer = 0 then s
      else if map_of (v_sync_tasks s) pid \<noteq> None \<or> v_sync_confirmed s pid = Some h
              \<or> (case v_sync_backoff s pid of Some b \<Rightarrow> now < next_attempt b | None \<Rightarrow> False) then s
      else if busy pid then s
      else if \<not> contains (v_trust s) pid then s
      else s\<lparr> v_sync_tasks := AList.update pid h (v_sync_tasks s) \<rparr>)"

definition push_to_trusted_peers ::
  "(versioned_config \<Rightarrow> string) \<Rightarrow> (string \<Rightarrow> bool) \<Rightarrow> nat \<Rightarrow> supervisor \<Rightarrow> supervisor" where
  "push_to_trusted_peers head busy now s =
     fold (maybe_pull_from head busy now) (map snd (v_peers s))
       (s\<lparr> v_sync_confirmed := (\<lambda>_. None), v_sync_backoff := (\<lambda>_. None) \<rparr>)"

text \<open>\<open>result\<close>: for each finished task, whether its session succeeded; \<open>None\<close> while it runs.\<close>

definition settle_sync :: "nat \<Rightarrow> string \<times> string \<times> bool \<Rightarrow> supervisor \<Rightarrow> supervisor" where
  "settle_sync now t s = (case t of (pid, h, ok) \<Rightarrow>
     (let s1 = s\<lparr> v_sync_tasks := AList.delete pid (v_sync_tasks s) \<rparr> in
      if ok then s1\<lparr> v_sync_confirmed := (v_sync_confirmed s1)(pid \<mapsto> h),
                     v_sync_backoff := (v_sync_backoff s1)(pid := None) \<rparr>
      else s1\<lparr> v_sync_backoff := (v_sync_backoff s1)(pid \<mapsto> after_failure now (v_sync_backoff s1 pid)) \<rparr>))"

definition finished_syncs :: "(string \<Rightarrow> bool option) \<Rightarrow> supervisor \<Rightarrow> (string \<times> string \<times> bool) list" where
  "finished_syncs result s =
     concat (map (\<lambda>(pid, h). case result pid of None \<Rightarrow> [] | Some ok \<Rightarrow> [(pid, h, ok)]) (v_sync_tasks s))"

definition reconcile_sync_sessions ::
  "(versioned_config \<Rightarrow> string) \<Rightarrow> (string \<Rightarrow> bool) \<Rightarrow> (string \<Rightarrow> bool option) \<Rightarrow> nat \<Rightarrow> supervisor \<Rightarrow> supervisor" where
  "reconcile_sync_sessions head busy result now s =
     (let s1 = fold (settle_sync now) (finished_syncs result s) s
      in fold (maybe_pull_from head busy now) (map snd (v_peers s1)) s1)"

subsection \<open>Discovery\<close>

definition same_peer :: "discovered_peer \<Rightarrow> discovered_peer \<Rightarrow> bool" where
  "same_peer p q \<longleftrightarrow> dp_machine_id p = dp_machine_id q \<and> dp_fingerprint p = dp_fingerprint q
     \<and> dp_config_head p = dp_config_head q \<and> dp_audio_port p = dp_audio_port q \<and> dp_host p = dp_host q
     \<and> dp_addresses p = dp_addresses q \<and> dp_service_port p = dp_service_port q \<and> dp_sync_port p = dp_sync_port q
     \<and> dp_core_port p = dp_core_port q \<and> dp_display_name p = dp_display_name q"

definition handle_discovery ::
  "(versioned_config \<Rightarrow> string) \<Rightarrow> (string \<Rightarrow> bool) \<Rightarrow> nat \<Rightarrow> discovery_event \<Rightarrow> supervisor \<Rightarrow> supervisor" where
  "handle_discovery head busy now ev s = (case ev of
       Found peer \<Rightarrow>
         (let pid = dp_machine_id peer;
              known = map_of (v_peers s) pid;
              unchanged = (case known of None \<Rightarrow> False | Some p \<Rightarrow> same_peer p peer);
              s1 = s\<lparr> v_peers := AList.update pid peer (v_peers s) \<rparr>
          in if \<not> unchanged \<or> known = None then
               let s2 = send_event (EvPeerDiscovered peer) s1;
                   s3 = s2\<lparr> v_sync_confirmed := (v_sync_confirmed s2)(pid := None),
                            v_sync_backoff := (v_sync_backoff s2)(pid := None) \<rparr>
               in reconcile_audio_sessions busy now (maybe_pull_from head busy now peer s3)
             else s1)
     | Lost pid \<Rightarrow>
         if map_of (v_peers s) pid = None then s
         else offer_command (ClosePeer pid)
           ((send_event (EvPeerLost pid) (s\<lparr> v_peers := AList.delete pid (v_peers s) \<rparr>))
             \<lparr> v_audio_live := v_audio_live s - {pid}, v_audio_backoff := (v_audio_backoff s)(pid := None),
               v_sync_confirmed := (v_sync_confirmed s)(pid := None), v_sync_backoff := (v_sync_backoff s)(pid := None),
               v_sync_tasks := AList.delete pid (v_sync_tasks s) \<rparr>))"

subsection \<open>Network services\<close>

definition repair_discovery :: "(versioned_config \<Rightarrow> string) \<Rightarrow> world \<Rightarrow> supervisor \<Rightarrow> supervisor" where
  "repair_discovery head w s =
     (let s1 = (if v_browser s \<and> w_discovery_closed w then s\<lparr> v_browser := False, v_advert := None \<rparr> else s) in
      if \<not> v_browser s1 \<and> w_discovery_starts w then
        s1\<lparr> v_browser := True,
            v_advert := Some \<lparr> adv_service_port = service_port (s_config s1), adv_sync_port = sync_port (s_config s1),
              adv_core_port = port (s_config s1), adv_audio_port = 0, adv_config_head = head (v_versioned s1) \<rparr> \<rparr>
      else s1)"

definition repair_pairing :: "world \<Rightarrow> supervisor \<Rightarrow> supervisor" where
  "repair_pairing w s =
     (let s1 = (if fst (v_listener_ports s) \<noteq> service_port (s_config s) \<or> (v_pairing_listener s \<and> w_pairing_ended w)
                then s\<lparr> v_pairing_listener := False, v_incoming_pairings := False \<rparr> else s) in
      if \<not> v_pairing_listener s1 \<and> w_pairing_binds w then
        s1\<lparr> v_pairing_listener := True, v_incoming_pairings := True,
            v_listener_ports := (service_port (s_config s1), snd (v_listener_ports s1)) \<rparr>
      else s1)"

definition repair_sync :: "world \<Rightarrow> supervisor \<Rightarrow> supervisor" where
  "repair_sync w s =
     (let s1 = (if fst (snd (v_listener_ports s)) \<noteq> sync_port (s_config s) \<or> (v_sync_listener s \<and> w_sync_ended w)
                then s\<lparr> v_sync_listener := False \<rparr> else s) in
      if \<not> v_sync_listener s1 \<and> w_sync_binds w then
        s1\<lparr> v_sync_listener := True,
            v_listener_ports := (fst (v_listener_ports s1), sync_port (s_config s1), snd (snd (v_listener_ports s1))) \<rparr>
      else s1)"

definition repair_audio :: "world \<Rightarrow> supervisor \<Rightarrow> supervisor" where
  "repair_audio w s =
     (let p = signal_port (audio (s_config s));
          s1 = (if snd (snd (v_listener_ports s)) \<noteq> p \<or> (v_audio s \<and> w_audio_ended w)
                then teardown_audio_subsystem w s else s);
          s2 = offer_command (Reconfigure (audio (s_config s))) (reconcile_audio_subsystem w s1);
          s3 = s2\<lparr> v_listener_ports := (fst (v_listener_ports s2), fst (snd (v_listener_ports s2)), p) \<rparr>;
          s4 = (if v_audio_listener s3 \<and> w_audio_listener_ended w then s3\<lparr> v_audio_listener := False \<rparr> else s3)
      in if \<not> v_audio_listener s4 \<and> v_audio_dial_deps s4 \<and> w_bound w then s4\<lparr> v_audio_listener := True \<rparr> else s4)"

definition reconcile_network_services ::
  "(versioned_config \<Rightarrow> string) \<Rightarrow> world \<Rightarrow> supervisor \<Rightarrow> supervisor" where
  "reconcile_network_services head w s =
     (let s1 = (if v_pairing_name s \<noteq> server_name (s_config s)
                then s\<lparr> v_pairing_name := server_name (s_config s), v_pairing_listener := False \<rparr> else s);
          s2 = repair_audio w (repair_sync w (repair_pairing w (repair_discovery head w s1)));
          c = s_config s2
      in s2\<lparr> v_advert := map_option (refresh_advert (w_adv_ok w) (service_port c) (sync_port c) (port c)
               (if v_audio_listener s2 then signal_port (audio c) else 0) (head (v_versioned s2))) (v_advert s2) \<rparr>)"

end
