(* ===== verification/Reconcile.thy ===== *)
theory Reconcile
  imports Sessions
begin

text \<open>
  What reconciliation achieves: audio dials go out to exactly the peers that should have a session and have
  none, one per peer; no trusted, visible peer is left behind by config sync; backoff is capped.
\<close>

subsection \<open>Peers by machine id\<close>

definition peers_ok :: "supervisor \<Rightarrow> bool" where
  "peers_ok s \<longleftrightarrow> distinct (map fst (v_peers s)) \<and> (\<forall>(k, p) \<in> set (v_peers s). dp_machine_id p = k)"

definition visible :: "supervisor \<Rightarrow> discovered_peer list" where
  "visible s = map snd (v_peers s)"

lemma peers_ok_distinct:
  assumes "peers_ok s" shows "distinct (map dp_machine_id (visible s))"
proof -
  have "map dp_machine_id (visible s) = map fst (v_peers s)"
    using assms by (auto simp: peers_ok_def visible_def)
  then show ?thesis using assms by (simp add: peers_ok_def)
qed

lemma peers_ok_cong: "v_peers t = v_peers s \<Longrightarrow> peers_ok t = peers_ok s"
  by (simp add: peers_ok_def)

lemma peers_ok_update:
  assumes "peers_ok s" and "v_peers t = AList.update (dp_machine_id p) p (v_peers s)"
  shows "peers_ok t"
proof -
  have "set (AList.update (dp_machine_id p) p xs) \<subseteq> insert (dp_machine_id p, p) (set xs)" for xs :: "(string \<times> discovered_peer) list"
    by (induction xs) auto
  then have sub: "set (v_peers t) \<subseteq> insert (dp_machine_id p, p) (set (v_peers s))" unfolding assms(2) by blast
  have "distinct (map fst (v_peers t))"
    using assms(1) unfolding assms(2) peers_ok_def by (intro distinct_update) simp
  moreover have "\<forall>(k, q) \<in> set (v_peers t). dp_machine_id q = k"
    using sub assms(1) unfolding peers_ok_def by blast
  ultimately show ?thesis unfolding peers_ok_def by blast
qed

lemma peers_ok_delete:
  "peers_ok s \<Longrightarrow> v_peers t = AList.delete k (v_peers s) \<Longrightarrow> peers_ok t"
  by (auto simp: peers_ok_def AList.delete_eq distinct_map_filter)

subsection \<open>Audio dials\<close>

text \<open>The specification: which peers should be dialled now.\<close>

definition should_dial :: "(string \<Rightarrow> bool) \<Rightarrow> nat \<Rightarrow> supervisor \<Rightarrow> discovered_peer \<Rightarrow> bool" where
  "should_dial busy now s peer \<longleftrightarrow>
     v_audio_dial_deps s \<and> dp_audio_port peer \<noteq> 0 \<and> peer_audio_active (audio (s_config s)) (dp_machine_id peer)
     \<and> v_machine_id s < dp_machine_id peer
     \<and> dp_machine_id peer \<notin> v_audio_live s \<and> dp_machine_id peer \<notin> v_audio_inflight s
     \<and> (\<forall>b. v_audio_backoff s (dp_machine_id peer) = Some b \<longrightarrow> next_attempt b \<le> now)
     \<and> \<not> busy (dp_machine_id peer) \<and> contains (v_trust s) (dp_machine_id peer)"

definition dialled :: "discovered_peer \<Rightarrow> supervisor \<Rightarrow> supervisor" where
  "dialled peer s = s\<lparr> v_audio_inflight := insert (dp_machine_id peer) (v_audio_inflight s),
                       v_audio_dials := v_audio_dials s @ [peer] \<rparr>"

lemma dial_audio_one_eq:
  "dial_audio_one busy now peer s = (if should_dial busy now s peer then dialled peer s else s)"
proof -
  have nest: "(if a then x else (if b then y else x)) = (if \<not> a \<and> b then y else x)" for a b and x y :: supervisor
    by simp
  have inner: "(if \<not> a then x else y) = (if a then y else x)" for a and x y :: supervisor
    by simp
  show ?thesis
    unfolding dial_audio_one_def Let_def dialled_def
    by (simp only: nest inner, rule if_cong)
      (auto simp: should_dial_def not_le not_less split: option.splits)
qed

lemma should_dial_dialledD: "should_dial busy now (dialled p s) x \<Longrightarrow> should_dial busy now s x"
  by (simp add: should_dial_def dialled_def)

lemma should_dial_dialled:
  "dp_machine_id q \<noteq> dp_machine_id p \<Longrightarrow> should_dial busy now (dialled p s) q = should_dial busy now s q"
  by (simp add: should_dial_def dialled_def)

lemma dialled_simps [simp]:
  "v_peers (dialled p s) = v_peers s" "v_audio_dials (dialled p s) = v_audio_dials s @ [p]"
  "v_audio_inflight (dialled p s) = insert (dp_machine_id p) (v_audio_inflight s)"
  "v_sync_tasks (dialled p s) = v_sync_tasks s" "v_sync_confirmed (dialled p s) = v_sync_confirmed s"
  by (simp_all add: dialled_def)

lemma fold_dial:
  assumes "distinct (map dp_machine_id ps)"
  shows "v_audio_dials (fold (dial_audio_one busy now) ps s) = v_audio_dials s @ filter (should_dial busy now s) ps
    \<and> v_audio_inflight (fold (dial_audio_one busy now) ps s)
        = v_audio_inflight s \<union> dp_machine_id ` {p \<in> set ps. should_dial busy now s p}"
  using assms
proof (induction ps arbitrary: s)
  case (Cons p ps)
  show ?case
  proof (cases "should_dial busy now s p")
    case True
    have eq: "should_dial busy now (dialled p s) q = should_dial busy now s q" if "q \<in> set ps" for q
      using Cons.prems that by (intro should_dial_dialled) (auto simp: image_iff)
    then have "filter (should_dial busy now (dialled p s)) ps = filter (should_dial busy now s) ps"
      by (intro filter_cong) simp_all
    moreover have "{q \<in> set ps. should_dial busy now (dialled p s) q} = {q \<in> set ps. should_dial busy now s q}"
      using eq by blast
    ultimately show ?thesis
      using Cons.IH [of "dialled p s"] Cons.prems True by (auto simp: dial_audio_one_eq)
  next
    case False
    then have "{q \<in> set (p # ps). should_dial busy now s q} = {q \<in> set ps. should_dial busy now s q}" by auto
    then show ?thesis using Cons False by (simp add: dial_audio_one_eq)
  qed
qed simp

text \<open>One pass of the audio reconciliation dials exactly the visible peers that should have a session and
  have none: trusted, enabled, advertising a port, not live, not being dialled, not backing off, and with a
  larger machine id.  It dials each at most once and marks it in flight, so a second pass dials nobody.  Of two
  machines, never both should dial the other.\<close>

theorem audio_dials_exactly_missing_sessions:
  assumes "peers_ok s"
  shows "v_audio_dials (reconcile_audio_sessions busy now s)
           = v_audio_dials s @ filter (should_dial busy now s) (visible s)
     \<and> distinct (map dp_machine_id (filter (should_dial busy now s) (visible s)))
     \<and> (\<forall>p \<in> set (visible s). \<not> should_dial busy now (reconcile_audio_sessions busy now s) p)
     \<and> \<not> (should_dial busy now s p \<and> dp_machine_id p = v_machine_id t
           \<and> should_dial busy' now' t q \<and> dp_machine_id q = v_machine_id s)"
proof -
  note d = peers_ok_distinct [OF assms]
  have dist: "distinct (map dp_machine_id (filter (should_dial busy now s) (visible s)))"
    using d by (rule distinct_map_filter)
  have glare: "\<not> (should_dial busy now s p \<and> dp_machine_id p = v_machine_id t
           \<and> should_dial busy' now' t q \<and> dp_machine_id q = v_machine_id s)"
    by (auto simp: should_dial_def)
  show ?thesis
  proof (cases "v_audio_dial_deps s")
    case False
    then have "\<not> should_dial busy now s p" for p by (simp add: should_dial_def)
    then show ?thesis using False glare by (simp add: reconcile_audio_sessions_def)
  next
    case True
    have r: "reconcile_audio_sessions busy now s = fold (dial_audio_one busy now) (visible s) s"
      using True by (simp add: reconcile_audio_sessions_def visible_def)
    have same: "should_dial busy now (fold (dial_audio_one busy now) ps u) x \<Longrightarrow> should_dial busy now u x" for ps x u
    proof (induction ps arbitrary: u)
      case (Cons p ps)
      have "should_dial busy now (dial_audio_one busy now p u) x" by (rule Cons.IH) (use Cons.prems in simp)
      then show ?case using should_dial_dialledD by (simp add: dial_audio_one_eq split: if_splits)
    qed simp
    have "\<not> should_dial busy now (reconcile_audio_sessions busy now s) p" if "p \<in> set (visible s)" for p
    proof
      assume a: "should_dial busy now (reconcile_audio_sessions busy now s) p"
      then have "should_dial busy now s p" unfolding r by (rule same)
      then have "dp_machine_id p \<in> v_audio_inflight (reconcile_audio_sessions busy now s)"
        using fold_dial [OF d, of busy now s] that unfolding r by blast
      then show False using a by (simp add: should_dial_def)
    qed
    then show ?thesis using fold_dial [OF d, of busy now s] dist glare unfolding r by blast
  qed
qed

definition reachable_peer :: "(string \<Rightarrow> bool) \<Rightarrow> supervisor \<Rightarrow> discovered_peer \<Rightarrow> bool" where
  "reachable_peer busy s p \<longleftrightarrow> dp_sync_port p \<noteq> 0 \<and> \<not> busy (dp_machine_id p) \<and> contains (v_trust s) (dp_machine_id p)"

definition demo_discovered :: discovered_peer where
  "demo_discovered = \<lparr> dp_machine_id = ''b'', dp_display_name = ''B'', dp_host = ''10.0.0.2'', dp_addresses = [],
     dp_service_port = 1, dp_core_port = 2, dp_sync_port = 3, dp_audio_port = 4, dp_fingerprint = ''f'',
     dp_protocol_version = 1, dp_config_head = ''h'' \<rparr>"

definition demo_supervisor :: supervisor where
  "demo_supervisor = core_sup.extend (core_boot (config_default\<lparr> audio := audio_config_default\<lparr> audio_enabled := True \<rparr> \<rparr>) (\<lambda>_. None))
     \<lparr> v_versioned = vc_initial config_default ''a'', v_machine_id = ''a'', v_fingerprint = ''fa'',
       v_peers = [(''b'', demo_discovered)],
       v_trust = \<lparr> ts_path = [''trust''], ts_peers = [demo_peer\<lparr> tp_machine_id := ''b'' \<rparr>] \<rparr>,
       v_pairing_confirm = [], v_pairing_tasks = [], v_decisions = [],
       v_sync_tasks = [], v_sync_confirmed = (\<lambda>_. None), v_sync_backoff = (\<lambda>_. None),
       v_audio = True, v_audio_listener = True, v_audio_dial_deps = True, v_audio_inflight = {}, v_audio_live = {},
       v_audio_backoff = (\<lambda>_. None), v_advert = None, v_browser = False, v_pairing_name = ''a'',
       v_pairing_listener = False, v_incoming_pairings = False, v_sync_listener = False,
       v_listener_ports = (0, 0, 0), v_audio_dials = [], v_audio_cmds = [] \<rparr>"

lemma demo_supervisor_facts:
  "peers_ok demo_supervisor" "visible demo_supervisor = [demo_discovered]"
  "should_dial (\<lambda>_. False) 0 demo_supervisor demo_discovered" "v_audio_dials demo_supervisor = []"
  "reachable_peer (\<lambda>_. False) demo_supervisor demo_discovered"
  by (simp_all add: peers_ok_def visible_def should_dial_def reachable_peer_def demo_supervisor_def demo_discovered_def
      contains_def peer_audio_active_def core_sup.extend_def core_boot_def audio_config_default_def)

theorem audio_dials_exactly_missing_sessions_witness:
  "v_audio_dials (reconcile_audio_sessions (\<lambda>_. False) 0 demo_supervisor) = [demo_discovered]"
  using audio_dials_exactly_missing_sessions [OF demo_supervisor_facts(1)] demo_supervisor_facts by simp

subsection \<open>Config sync\<close>

definition backing_off :: "nat \<Rightarrow> audio_backoff option \<Rightarrow> bool" where
  "backing_off now b \<longleftrightarrow> (case b of Some x \<Rightarrow> now < next_attempt x | None \<Rightarrow> False)"

text \<open>A peer is taken care of if a session is in flight, the current head is confirmed, or a retry is due.\<close>

definition taken_care :: "(versioned_config \<Rightarrow> string) \<Rightarrow> nat \<Rightarrow> supervisor \<Rightarrow> string \<Rightarrow> bool" where
  "taken_care head now s pid \<longleftrightarrow> map_of (v_sync_tasks s) pid \<noteq> None
     \<or> v_sync_confirmed s pid = Some (head (v_versioned s)) \<or> backing_off now (v_sync_backoff s pid)"

lemma maybe_pull_from_eq:
  "maybe_pull_from head busy now p s =
     (if reachable_peer busy s p \<and> \<not> taken_care head now s (dp_machine_id p)
      then s\<lparr> v_sync_tasks := AList.update (dp_machine_id p) (head (v_versioned s)) (v_sync_tasks s) \<rparr> else s)"
  by (auto simp: maybe_pull_from_def reachable_peer_def taken_care_def backing_off_def Let_def)

lemma pull_frame:
  assumes "t = fold (maybe_pull_from head busy now) ps s"
  shows "v_versioned t = v_versioned s" "v_trust t = v_trust s" "v_peers t = v_peers s"
    "v_sync_confirmed t = v_sync_confirmed s" "v_sync_backoff t = v_sync_backoff s"
    "map_of (v_sync_tasks s) k \<noteq> None \<Longrightarrow> map_of (v_sync_tasks t) k \<noteq> None"
  unfolding assms
  by (induction ps arbitrary: s) (auto simp: maybe_pull_from_eq update_conv' split: if_splits)

lemma fold_pull_care:
  assumes "p \<in> set ps" and "reachable_peer busy s p"
  shows "taken_care head now (fold (maybe_pull_from head busy now) ps s) (dp_machine_id p)"
  using assms
proof (induction ps arbitrary: s)
  case (Cons q ps)
  let ?s = "maybe_pull_from head busy now q s"
  have frame: "taken_care head now s k \<Longrightarrow> taken_care head now (fold (maybe_pull_from head busy now) xs s) k" for s k xs
    using pull_frame(6) [OF refl, of s k head busy now xs] pull_frame(1,4,5) [OF refl, of head busy now xs s]
    by (auto simp: taken_care_def)
  show ?case
  proof (cases "p = q")
    case True
    then have "taken_care head now ?s (dp_machine_id p)"
      using Cons.prems(2) by (auto simp: maybe_pull_from_eq taken_care_def update_conv')
    then show ?thesis using frame by simp
  next
    case False
    have "v_trust ?s = v_trust s" by (simp add: maybe_pull_from_eq)
    then have "reachable_peer busy ?s p" using Cons.prems(2) by (simp add: reachable_peer_def)
    then show ?thesis using Cons.IH Cons.prems(1) False by simp
  qed
qed simp

lemma settle_frame:
  assumes "t = fold (settle_sync now) ts s"
  shows "v_versioned t = v_versioned s" "v_trust t = v_trust s" "v_peers t = v_peers s"
  unfolding assms by (induction ts arbitrary: s) (auto simp: settle_sync_def Let_def split: prod.splits)

lemma settle_confirmed:
  "v_sync_confirmed (fold (settle_sync now) ts s) k = Some h \<Longrightarrow>
   v_sync_confirmed s k = Some h \<or> (k, h, True) \<in> set ts"
proof (induction ts arbitrary: s)
  case (Cons t ts)
  obtain pid h' ok where t: "t = (pid, h', ok)" by (cases t)
  show ?case
    using Cons.IH [of "settle_sync now t s"] Cons.prems by (auto simp: t settle_sync_def Let_def split: if_splits)
qed simp

text \<open>After one pass of the sync reconciliation every visible, trusted peer that offers sync is taken care
  of: a session is in flight, our current head is confirmed with it, or a retry is scheduled.  A head counts as
  confirmed with a peer only if a session started at that head succeeded.  After a local edit every such
  peer has a session in flight, whatever was confirmed or backing off before.\<close>

theorem no_trusted_peer_left_behind:
  assumes "p \<in> set (visible s)" and "reachable_peer busy s p"
  shows "taken_care head now (reconcile_sync_sessions head busy result now s) (dp_machine_id p)
     \<and> (v_sync_confirmed (reconcile_sync_sessions head busy result now s) k = Some h \<longrightarrow>
          v_sync_confirmed s k = Some h \<or> ((k, h) \<in> set (v_sync_tasks s) \<and> result k = Some True))
     \<and> map_of (v_sync_tasks (push_to_trusted_peers head busy now s)) (dp_machine_id p) \<noteq> None"
proof -
  define s1 where "s1 = fold (settle_sync now) (finished_syncs result s) s"
  note f = settle_frame [OF s1_def]
  have r: "reconcile_sync_sessions head busy result now s = fold (maybe_pull_from head busy now) (visible s) s1"
    by (simp add: reconcile_sync_sessions_def s1_def [symmetric] f visible_def)
  have "reachable_peer busy s1 p" using assms(2) f by (simp add: reachable_peer_def)
  then have care: "taken_care head now (reconcile_sync_sessions head busy result now s) (dp_machine_id p)"
    unfolding r using assms(1) by (intro fold_pull_care)
  have conf: "v_sync_confirmed s k = Some h \<or> ((k, h) \<in> set (v_sync_tasks s) \<and> result k = Some True)"
    if "v_sync_confirmed (reconcile_sync_sessions head busy result now s) k = Some h"
  proof -
    have "v_sync_confirmed s1 k = Some h"
      using that pull_frame(4) [OF refl, of head busy now "visible s" s1] unfolding r by simp
    then have "v_sync_confirmed s k = Some h \<or> (k, h, True) \<in> set (finished_syncs result s)"
      unfolding s1_def by (rule settle_confirmed)
    then show ?thesis by (auto simp: finished_syncs_def split: option.splits)
  qed
  let ?s0 = "s\<lparr> v_sync_confirmed := (\<lambda>_. None), v_sync_backoff := (\<lambda>_. None) \<rparr>"
  have "reachable_peer busy ?s0 p" using assms(2) by (simp add: reachable_peer_def)
  then have "taken_care head now (push_to_trusted_peers head busy now s) (dp_machine_id p)"
    unfolding push_to_trusted_peers_def using assms(1) by (intro fold_pull_care) (simp_all add: visible_def)
  moreover have "v_sync_confirmed (push_to_trusted_peers head busy now s) = (\<lambda>_. None)"
    "v_sync_backoff (push_to_trusted_peers head busy now s) = (\<lambda>_. None)"
    using pull_frame(4,5) [OF refl, of head busy now "map snd (v_peers s)" ?s0]
    by (simp_all add: push_to_trusted_peers_def)
  ultimately have "map_of (v_sync_tasks (push_to_trusted_peers head busy now s)) (dp_machine_id p) \<noteq> None"
    by (simp add: taken_care_def backing_off_def)
  then show ?thesis using care conf by blast
qed

theorem no_trusted_peer_left_behind_witness:
  "taken_care (\<lambda>_. ''head'') 0 (reconcile_sync_sessions (\<lambda>_. ''head'') (\<lambda>_. False) (\<lambda>_. None) 0 demo_supervisor) ''b''
   \<and> map_of (v_sync_tasks (push_to_trusted_peers (\<lambda>_. ''head'') (\<lambda>_. False) 0 demo_supervisor)) ''b'' \<noteq> None"
proof -
  have "demo_discovered \<in> set (visible demo_supervisor)" by (simp add: demo_supervisor_facts)
  from no_trusted_peer_left_behind [OF this demo_supervisor_facts(5), of "\<lambda>_. ''head''" 0 "\<lambda>_. None"]
  show ?thesis by (simp add: demo_discovered_def)
qed

subsection \<open>Backoff\<close>

lemma backoff_delay_bounds: "1000 \<le> backoff_delay n" "backoff_delay n \<le> 60000"
  by (auto simp: backoff_delay_def AUDIO_BACKOFF_MIN_def AUDIO_BACKOFF_MAX_def Let_def min_def)

text \<open>Discovery events replace and delete entries of the peer table; what they trigger leaves it alone.\<close>

lemma handle_discovery_peers:
  "v_peers (handle_discovery head busy now ev s) =
     (case ev of Found p \<Rightarrow> AList.update (dp_machine_id p) p (v_peers s) | Lost m \<Rightarrow> AList.delete m (v_peers s))"
proof -
  have rec: "v_peers (reconcile_audio_sessions busy now t) = v_peers t" for t
  proof -
    have "v_peers (fold (dial_audio_one busy now) ps t) = v_peers t" for ps
      by (induction ps arbitrary: t) (auto simp: dial_audio_one_eq)
    then show ?thesis by (simp add: reconcile_audio_sessions_def)
  qed
  have pull: "v_peers (maybe_pull_from head busy now p t) = v_peers t" for p t
    by (simp add: maybe_pull_from_eq)
  have gone: "AList.delete m (v_peers s) = v_peers s" if "map_of (v_peers s) m = None" for m
    using that by (simp add: map_of_eq_None_iff delete_idem)
  show ?thesis
    by (cases ev; cases "map_of (v_peers s) (case ev of Lost m \<Rightarrow> m | _ \<Rightarrow> [])")
      (simp_all add: handle_discovery_def Let_def rec pull gone send_event_def offer_command_def)
qed

lemma handle_discovery_peers_ok:
  assumes "peers_ok s" shows "peers_ok (handle_discovery head busy now ev s)"
  by (cases ev)
    (use assms handle_discovery_peers in \<open>auto intro: peers_ok_update [OF assms] peers_ok_delete [OF assms]\<close>)

end
