(* ===== verification/Audio_Bridge.thy ===== *)
theory Audio_Bridge
  imports Reconcile
begin

text \<open>
  The audio bridge (\<^verbatim>\<open>crates/synbad-audio/src/bridge.rs\<close>) and the parts of a session the bridge sees
  (\<^verbatim>\<open>session.rs\<close>: routing, start, status, the end of its driver).  Sound devices, sockets and WebRTC are answers
  of the environment.  A session reports its status over the channel the bridge reports its own events on, so what
  the supervisor believes to be live is a function of the events so far.
\<close>

subsection \<open>Model\<close>

text \<open>\<open>sn_opened\<close> is the configuration the session was started under.\<close>

record session =
  sn_role :: session_role
  sn_capture :: bool
  sn_playback :: bool
  sn_status :: peer_audio_status
  sn_finished :: bool
  sn_opened :: audio_config

record bridge =
  br_config :: audio_config
  br_sessions :: "(string \<times> session) list"
  br_input_gain :: f32
  br_output_gain :: f32

definition bridge_new :: "audio_config \<Rightarrow> bridge" where
  "bridge_new cfg = \<lparr> br_config = cfg, br_sessions = [], br_input_gain = input_gain cfg, br_output_gain = output_gain cfg \<rparr>"

definition peer_wants_send :: "audio_config \<Rightarrow> string \<Rightarrow> bool" where
  "peer_wants_send cfg peer =
     (case map_of (per_peer cfg) peer of Some p \<Rightarrow> routing_enabled p \<and> send_to_peer p | None \<Rightarrow> True)"

definition peer_wants_recv :: "audio_config \<Rightarrow> string \<Rightarrow> bool" where
  "peer_wants_recv cfg peer =
     (case map_of (per_peer cfg) peer of Some p \<Rightarrow> routing_enabled p \<and> receive_from_peer p | None \<Rightarrow> True)"

text \<open>Errors of the devices and of the media socket when a session starts.\<close>

record start_env =
  an_capture :: "string option"
  an_playback :: "string option"
  an_media :: "string option"

definition initial_status :: "string \<Rightarrow> peer_audio_status" where
  "initial_status peer = \<lparr> as_machine_id = peer, as_display_name = peer, as_sending_to_peer = False,
     as_receiving_from_peer = False, as_rtt_ms = None, as_last_error = None \<rparr>"

definition device_error :: "string \<Rightarrow> string \<Rightarrow> bool \<Rightarrow> string option \<Rightarrow> audio_event list" where
  "device_error peer what wanted err =
     (case err of Some e \<Rightarrow> if wanted then [AudioFailed (Some peer) (what @ '': '' @ e)] else [] | None \<Rightarrow> [])"

definition session_start ::
  "start_env \<Rightarrow> audio_config \<Rightarrow> string \<Rightarrow> session_role \<Rightarrow> audio_event list \<times> (string, session) result" where
  "session_start env cfg peer r =
     (let want_send = peer_wants_send cfg peer; want_recv = peer_wants_recv cfg peer in
      (device_error peer ''capture'' want_send (an_capture env)
         @ device_error peer ''playback'' want_recv (an_playback env),
       case an_media env of
         Some e \<Rightarrow> Err e
       | None \<Rightarrow> Ok \<lparr> sn_role = r, sn_capture = (want_send \<and> an_capture env = None),
           sn_playback = (want_recv \<and> an_playback env = None), sn_status = initial_status peer,
           sn_finished = False, sn_opened = cfg \<rparr>))"

definition close_session :: "string \<Rightarrow> bridge \<Rightarrow> bridge \<times> audio_event list" where
  "close_session peer b =
     (if map_of (br_sessions b) peer = None then (b, [])
      else (b\<lparr> br_sessions := AList.delete peer (br_sessions b) \<rparr>, [SessionClosed peer]))"

fun close_all :: "string list \<Rightarrow> bridge \<Rightarrow> bridge \<times> audio_event list" where
  "close_all [] b = (b, [])"
| "close_all (peer # ps) b =
     (let (b1, e1) = close_session peer b; (b2, e2) = close_all ps b1 in (b2, e1 @ e2))"

definition reap :: "trusted_peer_store \<Rightarrow> bridge \<Rightarrow> bridge \<times> audio_event list" where
  "reap trust b =
     close_all (map fst (filter (\<lambda>(peer, s). sn_finished s \<or> \<not> contains trust peer) (br_sessions b))) b"

definition incoming_signal ::
  "trusted_peer_store \<Rightarrow> start_env \<Rightarrow> string \<Rightarrow> session_role \<Rightarrow> bridge \<Rightarrow> bridge \<times> audio_event list" where
  "incoming_signal trust env peer r b =
     (if \<not> contains trust peer then (b, [])
      else if \<not> peer_audio_active (br_config b) peer then (b, [])
      else
        let (b1, e1) = close_session peer b;
            (e2, res) = session_start env (br_config b) peer r
        in case res of
             Inr s \<Rightarrow> (b1\<lparr> br_sessions := AList.update peer s (br_sessions b1) \<rparr>, e1 @ e2 @ [PeerStatus (sn_status s)])
           | Inl e \<Rightarrow> (b1, e1 @ e2 @ [AudioFailed (Some peer) e]))"

definition must_close :: "audio_config \<Rightarrow> audio_config \<Rightarrow> string \<Rightarrow> bool" where
  "must_close old new peer \<longleftrightarrow>
     (input_device old \<noteq> input_device new \<or> output_device old \<noteq> output_device new)
     \<or> audio_enabled old \<noteq> audio_enabled new
     \<or> peer_wants_send old peer \<noteq> peer_wants_send new peer
     \<or> peer_wants_recv old peer \<noteq> peer_wants_recv new peer"

definition reconfigure :: "audio_config \<Rightarrow> bridge \<Rightarrow> bridge \<times> audio_event list" where
  "reconfigure new b =
     (let old = br_config b;
          b1 = b\<lparr> br_config := new,
                  br_input_gain := (if \<not> f32_eq (input_gain old) (input_gain new) then input_gain new else br_input_gain b),
                  br_output_gain := (if \<not> f32_eq (output_gain old) (output_gain new) then output_gain new
                                     else br_output_gain b) \<rparr>
      in close_all (filter (must_close old new) (map fst (br_sessions b1))) b1)"

text \<open>The answer to a status query, and the whole command loop: the last component is whether the loop goes on.\<close>

definition bridge_statuses :: "bridge \<Rightarrow> peer_audio_status list" where
  "bridge_statuses b = map (sn_status \<circ> snd) (br_sessions b)"

definition drain :: "bridge \<Rightarrow> bridge \<times> audio_event list" where
  "drain b = close_all (map fst (br_sessions b)) b"

definition bridge_command ::
  "trusted_peer_store \<Rightarrow> start_env \<Rightarrow> audio_command \<Rightarrow> bridge \<Rightarrow> (bridge \<times> audio_event list) \<times> bool" where
  "bridge_command trust env cmd b = (case cmd of
       IncomingSignal peer r \<Rightarrow> (incoming_signal trust env peer r b, True)
     | Reconfigure new \<Rightarrow> (reconfigure new b, True)
     | ListDevices \<Rightarrow> ((b, []), True)
     | QueryStatus \<Rightarrow> ((b, []), True)
     | ClosePeer peer \<Rightarrow> (close_session peer b, True)
     | BridgeShutdown \<Rightarrow> (drain b, False))"

text \<open>What a running driver reports, and how it ends.\<close>

datatype driver_change = RtcConnected | FirstReceived | IceDisconnected | IceConnected | FirstSent

fun apply_change :: "driver_change \<Rightarrow> peer_audio_status \<Rightarrow> peer_audio_status" where
  "apply_change RtcConnected st = st\<lparr> as_last_error := None \<rparr>"
| "apply_change FirstReceived st = st\<lparr> as_receiving_from_peer := True \<rparr>"
| "apply_change IceDisconnected st = st\<lparr> as_last_error := Some ''ice disconnected'' \<rparr>"
| "apply_change IceConnected st = st\<lparr> as_last_error := None \<rparr>"
| "apply_change FirstSent st = st\<lparr> as_sending_to_peer := True \<rparr>"

definition update_status :: "driver_change \<Rightarrow> session \<Rightarrow> session \<times> audio_event list" where
  "update_status ch s =
     (let st = apply_change ch (sn_status s)
      in (s\<lparr> sn_status := st \<rparr>, if st \<noteq> sn_status s then [PeerStatus st] else []))"

definition driver_end :: "string \<Rightarrow> (string, unit) result \<Rightarrow> session \<Rightarrow> session \<times> audio_event list" where
  "driver_end peer res s =
     (s\<lparr> sn_status := (sn_status s)
          \<lparr> as_sending_to_peer := False, as_receiving_from_peer := False,
            as_last_error := Some (case res of Inl e \<Rightarrow> e | Inr _ \<Rightarrow> ''session closed'') \<rparr>,
        sn_finished := True \<rparr>,
      case res of Inl e \<Rightarrow> [AudioFailed (Some peer) e] | Inr _ \<Rightarrow> [])"

text \<open>
  The bridge and the drivers of its sessions as one step relation, with the events of the step.  The trust store is
  shared and may be different at each step; a driver's events are not lost (its queue of 256 is not full), and
  a driver that was told to close reports nothing after its \<open>SessionClosed\<close>.
\<close>

inductive bridge_step :: "bridge \<Rightarrow> audio_event list \<Rightarrow> bridge \<Rightarrow> bool" where
  command: "bridge_command trust env cmd b = ((b', evs), True) \<Longrightarrow> bridge_step b evs b'"
| reaped: "reap trust b = (b', evs) \<Longrightarrow> bridge_step b evs b'"
| status: "map_of (br_sessions b) peer = Some s \<Longrightarrow> \<not> sn_finished s \<Longrightarrow> update_status ch s = (s', evs) \<Longrightarrow>
    bridge_step b evs (b\<lparr> br_sessions := AList.update peer s' (br_sessions b) \<rparr>)"
| ends: "map_of (br_sessions b) peer = Some s \<Longrightarrow> \<not> sn_finished s \<Longrightarrow> driver_end peer res s = (s', evs) \<Longrightarrow>
    bridge_step b evs (b\<lparr> br_sessions := AList.update peer s' (br_sessions b) \<rparr>)"

inductive bridge_run :: "bridge \<Rightarrow> audio_event list \<Rightarrow> bridge \<Rightarrow> bool" where
  nil: "bridge_run b [] b"
| snoc: "bridge_run b evs b1 \<Longrightarrow> bridge_step b1 es b2 \<Longrightarrow> bridge_run b (evs @ es) b2"

inductive_cases bridge_stepE: "bridge_step b evs b'"

subsection \<open>Closing sessions\<close>

lemma f32_eq_trans: "f32_eq a b \<Longrightarrow> f32_eq b c \<Longrightarrow> f32_eq a c"
  by (auto simp: f32_eq_def)

lemma close_session_sessions:
  "map_of (br_sessions (fst (close_session p b))) q = (if q = p then None else map_of (br_sessions b) q)"
  by (auto simp: close_session_def delete_conv')

lemma close_session_frame [simp]:
  "br_config (fst (close_session p b)) = br_config b" "br_input_gain (fst (close_session p b)) = br_input_gain b"
  "br_output_gain (fst (close_session p b)) = br_output_gain b"
  by (simp_all add: close_session_def)

lemma close_all_Cons:
  "fst (close_all (p # ps) b) = fst (close_all ps (fst (close_session p b)))"
  "snd (close_all (p # ps) b) = snd (close_session p b) @ snd (close_all ps (fst (close_session p b)))"
  by (simp_all add: Let_def split_beta)

declare close_all.simps(2) [simp del]

lemma close_all_sessions:
  "map_of (br_sessions (fst (close_all ps b))) q = (if q \<in> set ps then None else map_of (br_sessions b) q)"
  by (induction ps arbitrary: b) (auto simp: close_session_sessions close_all_Cons)

lemma close_all_frame [simp]:
  "br_config (fst (close_all ps b)) = br_config b" "br_input_gain (fst (close_all ps b)) = br_input_gain b"
  "br_output_gain (fst (close_all ps b)) = br_output_gain b"
  by (induction ps arbitrary: b) (auto simp: close_all_Cons)

subsection \<open>What the supervisor learns\<close>

fun live_after :: "audio_event \<Rightarrow> string set \<Rightarrow> string set" where
  "live_after (PeerStatus st) L =
     (if as_last_error st = None then insert (as_machine_id st) L else L - {as_machine_id st})"
| "live_after (AudioFailed (Some p) m) L = L - {p}"
| "live_after (AudioFailed None m) L = L"
| "live_after DevicesChanged L = L"
| "live_after (SessionClosed p) L = L - {p}"

lemma handle_audio_event_live:
  "v_audio_live (handle_audio_event now ev s) = live_after ev (v_audio_live s)"
  by (cases "(ev, v_audio_live s)" rule: live_after.cases) (simp_all add: handle_audio_event_def send_event_def)

lemma fold_audio_events_live:
  "v_audio_live (fold (\<lambda>(now, ev). handle_audio_event now ev) tevs s) = fold live_after (map snd tevs) (v_audio_live s)"
  by (induction tevs arbitrary: s) (auto simp: handle_audio_event_live)

lemma close_session_live: "fold live_after (snd (close_session p b)) L \<subseteq> L"
  "L - {p} \<subseteq> fold live_after (snd (close_session p b)) L"
  "map_of (br_sessions b) p \<noteq> None \<Longrightarrow> fold live_after (snd (close_session p b)) L = L - {p}"
  by (auto simp: close_session_def)

text \<open>\<open>mirrors L b\<close>: the peers believed live are the bridge's sessions without an error; one whose driver has just
  ended cleanly may still be believed live, until it is reaped.\<close>

definition mirrors :: "string set \<Rightarrow> bridge \<Rightarrow> bool" where
  "mirrors L b \<longleftrightarrow> (\<forall>p \<in> L. map_of (br_sessions b) p \<noteq> None)
     \<and> (\<forall>p s. map_of (br_sessions b) p = Some s \<longrightarrow>
          (as_last_error (sn_status s) = None \<longrightarrow> p \<in> L)
          \<and> (as_last_error (sn_status s) \<noteq> None \<and> \<not> sn_finished s \<longrightarrow> p \<notin> L))"

text \<open>The bridge's own invariant: every session belongs to a peer the configuration wants, was opened with its
  current directions and devices, and knows whose it is.\<close>

definition session_ok :: "audio_config \<Rightarrow> string \<Rightarrow> session \<Rightarrow> bool" where
  "session_ok cfg p s \<longleftrightarrow> as_machine_id (sn_status s) = p \<and> peer_audio_active cfg p \<and> \<not> must_close (sn_opened s) cfg p
     \<and> (sn_capture s \<longrightarrow> peer_wants_send cfg p) \<and> (sn_playback s \<longrightarrow> peer_wants_recv cfg p)
     \<and> (sn_finished s \<longrightarrow> as_last_error (sn_status s) \<noteq> None)"

definition gains_follow :: "bridge \<Rightarrow> bool" where
  "gains_follow b \<longleftrightarrow> (br_input_gain b = input_gain (br_config b) \<or> f32_eq (br_input_gain b) (input_gain (br_config b)))
     \<and> (br_output_gain b = output_gain (br_config b) \<or> f32_eq (br_output_gain b) (output_gain (br_config b)))"

definition bridge_ok :: "bridge \<Rightarrow> bool" where
  "bridge_ok b \<longleftrightarrow> gains_follow b
     \<and> (\<forall>p s. map_of (br_sessions b) p = Some s \<longrightarrow> session_ok (br_config b) p s)"

lemma mirrors_close_session:
  assumes "mirrors L b" shows "mirrors (fold live_after (snd (close_session p b)) L) (fst (close_session p b))"
  using assms by (auto simp: mirrors_def close_session_def delete_conv')

lemma mirrors_close_all:
  "mirrors L b \<Longrightarrow> mirrors (fold live_after (snd (close_all ps b)) L) (fst (close_all ps b))"
  by (induction ps arbitrary: b L) (simp_all add: close_all_Cons mirrors_close_session)

lemma bridge_ok_close_all: "bridge_ok b \<Longrightarrow> bridge_ok (fst (close_all ps b))"
  by (auto simp: bridge_ok_def gains_follow_def close_all_sessions split: if_splits)

lemma bridge_ok_close_session: "bridge_ok b \<Longrightarrow> bridge_ok (fst (close_session p b))"
  by (auto simp: bridge_ok_def gains_follow_def close_session_sessions split: if_splits)

subsection \<open>Every step keeps the bridge and its mirror\<close>

lemma active_iff: "peer_audio_active cfg p \<longleftrightarrow> audio_enabled cfg \<and> (peer_wants_send cfg p \<or> peer_wants_recv cfg p)"
  by (auto simp: peer_audio_active_def peer_wants_send_def peer_wants_recv_def split: option.splits)

lemma device_error_live: "fold live_after (device_error p what wanted err) L - {p} = L - {p}"
  "fold live_after (device_error p what wanted err) L \<subseteq> L"
  by (auto simp: device_error_def split: option.splits)

lemma put_session_ok:
  assumes "bridge_ok b" and "session_ok (br_config b) p s"
  shows "bridge_ok (b\<lparr> br_sessions := AList.update p s (br_sessions b) \<rparr>)"
  using assms by (auto simp: bridge_ok_def gains_follow_def update_conv')

lemma put_session_mirrors:
  assumes "mirrors L b" and "L' - {p} = L - {p}"
    and "as_last_error (sn_status s) = None \<longrightarrow> p \<in> L'"
    and "as_last_error (sn_status s) \<noteq> None \<and> \<not> sn_finished s \<longrightarrow> p \<notin> L'"
  shows "mirrors L' (b\<lparr> br_sessions := AList.update p s (br_sessions b) \<rparr>)"
proof -
  have "q \<in> L' \<longleftrightarrow> q \<in> L" if "q \<noteq> p" for q using assms(2) that by blast
  then show ?thesis using assms by (auto simp: mirrors_def update_conv')
qed

lemma drop_live_mirrors:
  assumes "mirrors L b" and "map_of (br_sessions b) p = None" and "L' - {p} = L - {p}" and "p \<notin> L'"
  shows "mirrors L' b"
proof -
  have "L' = L - {p}" using assms(3,4) by blast
  then show ?thesis using assms(1,2) by (auto simp: mirrors_def)
qed

lemma incoming_signal_keeps:
  assumes "bridge_ok b" and "mirrors L b" and "incoming_signal trust env p r b = (b', evs)"
  shows "bridge_ok b' \<and> mirrors (fold live_after evs L) b'"
proof (cases "contains trust p \<and> peer_audio_active (br_config b) p")
  case False
  then have "incoming_signal trust env p r b = (b, [])" by (auto simp: incoming_signal_def)
  then show ?thesis using assms by simp
next
  case True
  define b1 where "b1 = fst (close_session p b)"
  define e1 where "e1 = snd (close_session p b)"
  define e2 where "e2 = device_error p ''capture'' (peer_wants_send (br_config b) p) (an_capture env)
         @ device_error p ''playback'' (peer_wants_recv (br_config b) p) (an_playback env)"
  have cs: "close_session p b = (b1, e1)" by (simp add: b1_def e1_def)
  have ok1: "bridge_ok b1" and m1: "mirrors (fold live_after e1 L) b1" and cfg: "br_config b1 = br_config b"
    and gone: "map_of (br_sessions b1) p = None"
    using bridge_ok_close_session [OF assms(1), of p] mirrors_close_session [OF assms(2), of p]
    by (simp_all add: b1_def e1_def close_session_sessions)
  have live: "fold live_after e2 K - {p} = K - {p}" for K
    by (simp add: e2_def device_error_live(1))
  show ?thesis
  proof (cases "an_media env")
    case (Some e)
    then have "b' = b1" "evs = e1 @ e2 @ [AudioFailed (Some p) e]"
      using assms(3) True cs by (simp_all add: incoming_signal_def session_start_def e2_def Let_def)
    then show ?thesis using ok1 drop_live_mirrors [OF m1 gone, of "fold live_after evs L"] live by auto
  next
    case None
    obtain s where s: "session_start env (br_config b) p r = (e2, Ok s)" "sn_status s = initial_status p" "\<not> sn_finished s"
      "sn_opened s = br_config b" "sn_capture s \<longrightarrow> peer_wants_send (br_config b) p"
      "sn_playback s \<longrightarrow> peer_wants_recv (br_config b) p"
      using None by (simp add: session_start_def e2_def Let_def)
    have "session_ok (br_config b1) p s"
      using True s by (simp add: session_ok_def cfg must_close_def initial_status_def)
    moreover have "b' = b1\<lparr> br_sessions := AList.update p s (br_sessions b1) \<rparr>"
      "evs = e1 @ e2 @ [PeerStatus (initial_status p)]"
      using assms(3) True cs s by (simp_all add: incoming_signal_def Let_def)
    moreover have "mirrors (fold live_after evs L) (b1\<lparr> br_sessions := AList.update p s (br_sessions b1) \<rparr>)"
      by (rule put_session_mirrors [OF m1]) (use live in \<open>auto simp: calculation s initial_status_def\<close>)
    ultimately show ?thesis using put_session_ok [OF ok1] by simp
  qed
qed

lemma reconfigure_keeps:
  assumes "bridge_ok b" and "mirrors L b" and "reconfigure new b = (b', evs)"
  shows "bridge_ok b' \<and> mirrors (fold live_after evs L) b'"
proof -
  define b1 where "b1 = b\<lparr> br_config := new,
      br_input_gain := (if \<not> f32_eq (input_gain (br_config b)) (input_gain new) then input_gain new else br_input_gain b),
      br_output_gain := (if \<not> f32_eq (output_gain (br_config b)) (output_gain new) then output_gain new
                         else br_output_gain b) \<rparr>"
  define ps where "ps = filter (must_close (br_config b) new) (map fst (br_sessions b))"
  have eq: "b' = fst (close_all ps b1)" "evs = snd (close_all ps b1)"
    using assms(3) by (simp_all add: reconfigure_def Let_def b1_def ps_def)
  have m: "mirrors L b1" using assms(2) by (simp add: mirrors_def b1_def)
  have gains: "gains_follow b1"
    using assms(1) f32_eq_trans by (auto simp: bridge_ok_def gains_follow_def b1_def)
  have "session_ok new p s" if "map_of (br_sessions b) p = Some s" "p \<notin> set ps" for p s
  proof -
    have "\<not> must_close (br_config b) new p"
      using that map_of_SomeD [OF that(1)] by (force simp: ps_def)
    moreover have "session_ok (br_config b) p s" using assms(1) that(1) by (simp add: bridge_ok_def)
    ultimately show ?thesis by (auto simp: session_ok_def must_close_def active_iff)
  qed
  then have "bridge_ok b'"
    using gains by (auto simp: eq bridge_ok_def gains_follow_def close_all_sessions b1_def split: if_splits)
  then show ?thesis using mirrors_close_all [OF m] by (simp add: eq)
qed

lemma update_status_keeps:
  assumes "bridge_ok b" and "mirrors L b" and s: "map_of (br_sessions b) p = Some s" and "\<not> sn_finished s"
    and "update_status ch s = (s', evs)"
  shows "bridge_ok (b\<lparr> br_sessions := AList.update p s' (br_sessions b) \<rparr>)
    \<and> mirrors (fold live_after evs L) (b\<lparr> br_sessions := AList.update p s' (br_sessions b) \<rparr>)"
proof -
  have ok: "session_ok (br_config b) p s" using assms(1) s by (simp add: bridge_ok_def)
  define st where "st = apply_change ch (sn_status s)"
  have eq: "s' = s\<lparr> sn_status := st \<rparr>" "evs = (if st \<noteq> sn_status s then [PeerStatus st] else [])"
    using assms(5) by (auto simp: update_status_def Let_def st_def)
  have id: "as_machine_id st = p" using ok by (cases ch) (simp_all add: st_def session_ok_def)
  have "session_ok (br_config b) p s'" using ok assms(4) by (simp add: eq session_ok_def id)
  moreover have "as_last_error (sn_status s) = None \<longleftrightarrow> p \<in> L"
    using assms(2,4) s by (auto simp: mirrors_def)
  ultimately show ?thesis
    using put_session_ok [OF assms(1)] put_session_mirrors [OF assms(2), of "fold live_after evs L" p s'] assms(4)
    by (auto simp: eq id)
qed

lemma driver_end_keeps:
  assumes "bridge_ok b" and "mirrors L b" and s: "map_of (br_sessions b) p = Some s" and "driver_end p res s = (s', evs)"
  shows "bridge_ok (b\<lparr> br_sessions := AList.update p s' (br_sessions b) \<rparr>)
    \<and> mirrors (fold live_after evs L) (b\<lparr> br_sessions := AList.update p s' (br_sessions b) \<rparr>)"
proof -
  have ok: "session_ok (br_config b) p s" using assms(1) s by (simp add: bridge_ok_def)
  have s': "sn_finished s'" "as_last_error (sn_status s') \<noteq> None" "session_ok (br_config b) p s'"
    using assms(4) ok by (auto simp: driver_end_def session_ok_def)
  have "fold live_after evs L - {p} = L - {p}" using assms(4) by (auto simp: driver_end_def split: sum.splits)
  from put_session_mirrors [OF assms(2) this, of s'] show ?thesis
    using put_session_ok [OF assms(1) s'(3)] s'(1,2) by simp
qed

lemma bridge_step_keeps:
  assumes "bridge_step b evs b'" and "bridge_ok b" and "mirrors L b"
  shows "bridge_ok b' \<and> mirrors (fold live_after evs L) b'"
  using assms(1)
proof (cases rule: bridge_step.cases)
  case (command trust env cmd)
  then show ?thesis
  proof (cases cmd)
    case (IncomingSignal p r)
    then show ?thesis using command incoming_signal_keeps [OF assms(2,3)] by (simp add: bridge_command_def)
  next
    case (Reconfigure new)
    then show ?thesis using command reconfigure_keeps [OF assms(2,3)] by (simp add: bridge_command_def)
  next
    case (ClosePeer p)
    then have "close_session p b = (b', evs)" using command by (simp add: bridge_command_def)
    then show ?thesis
      using mirrors_close_session [OF assms(3), of p] bridge_ok_close_session [OF assms(2), of p] by simp
  qed (use assms in \<open>simp_all add: bridge_command_def\<close>)
next
  case (reaped trust)
  then show ?thesis
    using mirrors_close_all [OF assms(3)] bridge_ok_close_all [OF assms(2)] unfolding reap_def by (metis fst_conv snd_conv)
next
  case (status p s ch s')
  then show ?thesis using update_status_keeps [OF assms(2,3)] by simp
next
  case (ends p s res s')
  then show ?thesis using driver_end_keeps [OF assms(2,3)] by simp
qed

lemma bridge_run_keeps:
  assumes "bridge_run b0 evs b" and "b0 = bridge_new cfg"
  shows "bridge_ok b \<and> mirrors (fold live_after evs {}) b"
  using assms
proof (induction rule: bridge_run.induct)
  case (nil b)
  then show ?case by (simp add: bridge_ok_def gains_follow_def mirrors_def bridge_new_def)
next
  case (snoc b evs b1 es b2)
  then show ?case using bridge_step_keeps [of b1 es b2 "fold live_after evs {}"] by simp
qed

subsection \<open>Properties\<close>

text \<open>Whatever commands, device errors, status reports, driver failures and revocations the bridge sees, in any
  order: every open session belongs to a peer that the current configuration wants audio with, was opened with the
  devices and directions of the current configuration, and captures or plays only in a wanted direction; both gain
  handles follow the configuration.  A supervisor that handles the events in order believes a peer live only if the
  bridge has a session for it, believes every session without an error to be live and no running one with an error.
  A reap leaves only running sessions of trusted peers, and then the belief is exact; a shutdown leaves none and the
  supervisor learns it.\<close>

theorem bridge_sessions_mirrored:
  assumes "bridge_run (bridge_new cfg) (map snd tevs) b" and "v_audio_live s = {}"
    and L: "L = v_audio_live (fold (\<lambda>(now, ev). handle_audio_event now ev) tevs s)"
  shows "(\<forall>p sn. map_of (br_sessions b) p = Some sn \<longrightarrow>
        peer_audio_active (br_config b) p \<and> \<not> must_close (sn_opened sn) (br_config b) p
        \<and> (sn_capture sn \<longrightarrow> peer_wants_send (br_config b) p) \<and> (sn_playback sn \<longrightarrow> peer_wants_recv (br_config b) p)
        \<and> (as_last_error (sn_status sn) = None \<longrightarrow> p \<in> L)
        \<and> (as_last_error (sn_status sn) \<noteq> None \<and> \<not> sn_finished sn \<longrightarrow> p \<notin> L))
     \<and> (\<forall>p \<in> L. map_of (br_sessions b) p \<noteq> None)
     \<and> gains_follow b
     \<and> (\<forall>p sn. map_of (br_sessions (fst (reap trust b))) p = Some sn \<longrightarrow> contains trust p \<and> \<not> sn_finished sn)
     \<and> fold live_after (snd (reap trust b)) L
         = {p. \<exists>sn. map_of (br_sessions (fst (reap trust b))) p = Some sn \<and> as_last_error (sn_status sn) = None}
     \<and> map_of (br_sessions (fst (drain b))) p' = None \<and> fold live_after (snd (drain b)) L = {}"
proof -
  have L': "L = fold live_after (map snd tevs) {}" using assms(2) by (simp add: L fold_audio_events_live)
  have keep: "bridge_ok b" "mirrors L b" using bridge_run_keeps [OF assms(1) refl] by (simp_all add: L')
  have some: "p \<in> fst ` set (br_sessions b)" if "map_of (br_sessions b) p \<noteq> None" for p
    using that by (simp add: map_of_eq_None_iff)
  have reap: "contains trust p \<and> \<not> sn_finished sn"
    if "map_of (br_sessions (fst (reap trust b))) p = Some sn" for p sn
  proof -
    have "map_of (br_sessions b) p = Some sn"
      "p \<notin> fst ` set (filter (\<lambda>(peer, s). sn_finished s \<or> \<not> contains trust peer) (br_sessions b))"
      using that by (simp_all add: reap_def close_all_sessions split: if_splits)
    then show ?thesis using map_of_SomeD [of "br_sessions b" p sn] by force
  qed
  have mr: "mirrors (fold live_after (snd (reap trust b)) L) (fst (reap trust b))"
    unfolding reap_def by (rule mirrors_close_all [OF keep(2)])
  have exact: "fold live_after (snd (reap trust b)) L
      = {p. \<exists>sn. map_of (br_sessions (fst (reap trust b))) p = Some sn \<and> as_last_error (sn_status sn) = None}"
    using mr reap by (fastforce simp: mirrors_def)
  have gone: "map_of (br_sessions (fst (drain b))) p = None" for p
    using some by (auto simp: drain_def close_all_sessions map_of_eq_None_iff)
  have "mirrors (fold live_after (snd (drain b)) L) (fst (drain b))"
    unfolding drain_def by (rule mirrors_close_all [OF keep(2)])
  then have "fold live_after (snd (drain b)) L = {}" using gone by (auto simp: mirrors_def)
  then show ?thesis
    using keep reap exact gone unfolding bridge_ok_def session_ok_def mirrors_def by blast
qed

text \<open>A trusted peer connects, and its session comes up without devices failing.\<close>

definition demo_trust :: trusted_peer_store where
  "demo_trust = \<lparr> ts_path = [''trust''], ts_peers = [demo_peer\<lparr> tp_machine_id := ''b'' \<rparr>] \<rparr>"

theorem bridge_sessions_mirrored_witness:
  "fold live_after (snd (reap demo_trust (fst (incoming_signal demo_trust
       \<lparr> an_capture = None, an_playback = None, an_media = None \<rparr> ''b'' Answerer
       (bridge_new (audio_config_default\<lparr> audio_enabled := True \<rparr>))))))
     {''b''} = {''b''}"
proof -
  let ?env = "\<lparr> an_capture = None, an_playback = None, an_media = None \<rparr> :: start_env"
  let ?b0 = "bridge_new (audio_config_default\<lparr> audio_enabled := True \<rparr>)"
  obtain b evs where step: "incoming_signal demo_trust ?env ''b'' Answerer ?b0 = (b, evs)" by fastforce
  have act: "contains demo_trust ''b''" "peer_audio_active (br_config ?b0) ''b''"
    by (simp_all add: contains_def demo_trust_def peer_audio_active_def bridge_new_def audio_config_default_def)
  have b: "map_of (br_sessions b) = [''b'' \<mapsto> \<lparr> sn_role = Answerer, sn_capture = True, sn_playback = True,
      sn_status = initial_status ''b'', sn_finished = False, sn_opened = br_config ?b0 \<rparr>]"
    "evs = [PeerStatus (initial_status ''b'')]"
    using step act
    by (auto simp: incoming_signal_def session_start_def close_session_def device_error_def bridge_new_def Let_def
        peer_wants_send_def peer_wants_recv_def audio_config_default_def)
  have "bridge_command demo_trust ?env (IncomingSignal ''b'' Answerer) ?b0 = ((b, evs), True)"
    using step by (simp add: bridge_command_def)
  from bridge_run.snoc [OF bridge_run.nil bridge_step.command [OF this]]
  have run: "bridge_run ?b0 (map snd [(0, PeerStatus (initial_status ''b''))]) b" by (simp add: b)
  have empty: "v_audio_live (demo_supervisor\<lparr> v_audio_live := {} \<rparr>) = {}" by simp
  have L: "{''b''} = v_audio_live (fold (\<lambda>(now, ev). handle_audio_event now ev) [(0, PeerStatus (initial_status ''b''))]
      (demo_supervisor\<lparr> v_audio_live := {} \<rparr>))"
    by (simp add: handle_audio_event_live initial_status_def)
  have same: "br_sessions (fst (reap demo_trust b)) = br_sessions b"
  proof -
    have "filter (\<lambda>(peer, s). sn_finished s \<or> \<not> contains demo_trust peer) (br_sessions b) = []"
      using step act by (auto simp: incoming_signal_def session_start_def close_session_def device_error_def bridge_new_def Let_def)
    then show ?thesis by (simp add: reap_def)
  qed
  have "fold live_after (snd (reap demo_trust b)) {''b''}
      = {p. \<exists>sn. map_of (br_sessions (fst (reap demo_trust b))) p = Some sn \<and> as_last_error (sn_status sn) = None}"
    using bridge_sessions_mirrored [OF run empty L, of demo_trust] by blast
  also have "\<dots> = {''b''}" unfolding same b(1) by (auto simp: initial_status_def)
  finally show ?thesis using step by simp
qed

end
