(* ===== verification/Transport.thy ===== *)
theory Transport
  imports Ipc_Types
begin

text \<open>
  How machines reach each other: binding a port and the race of connection attempts
  (\<^verbatim>\<open>crates/synbadd/src/transport.rs\<close>), and the accept loops of the daemon, for config sync
  (\<^verbatim>\<open>crates/synbadd/src/sync.rs\<close>), audio signalling (\<^verbatim>\<open>crates/synbadd/src/audio.rs\<close>), pairing
  (\<^verbatim>\<open>crates/synbadd/src/pairing.rs\<close>) and IPC (\<^verbatim>\<open>crates/synbad-ipc/src/server.rs\<close>).  Sockets are answers of the
  environment; a connection is a number, and what its session does is modelled with the component it belongs to.
\<close>

text \<open>One socket for both address families, or one for IPv4: \<open>dual\<close> and \<open>v4\<close> are what the system answers.\<close>

definition bind_listener :: "(io_kind, 'l) result \<Rightarrow> (io_kind, 'l) result \<Rightarrow> (io_kind, 'l) result" where
  "bind_listener dual v4 = (case dual of Inr l \<Rightarrow> Ok l | Inl _ \<Rightarrow> v4)"

subsection \<open>Connecting\<close>

definition add_host :: "string list \<Rightarrow> string \<Rightarrow> string list" where
  "add_host hosts host = (if host \<notin> set hosts \<and> length hosts < 16 then hosts @ [host] else hosts)"

definition candidate_hosts :: "discovered_peer \<Rightarrow> string list" where
  "candidate_hosts peer = foldl add_host [dp_host peer] (dp_addresses peer)"

text \<open>How one attempt ends: connected, with the error of \<^verbatim>\<open>set_nodelay\<close> if any; refused; or its task failed.\<close>

datatype attempt = Att_Connected "io_kind option" | Att_Refused io_kind | Att_Panicked

text \<open>\<open>done\<close> are the attempts that end within the budget, in this order; \<open>left\<close> counts those not yet seen to end.\<close>

fun connect_race :: "io_kind \<Rightarrow> nat \<Rightarrow> (string \<times> attempt) list \<Rightarrow> (io_kind, string) result" where
  "connect_race e0 left [] = Err (if left = 0 then e0 else TimedOut)"
| "connect_race e0 left ((host, a) # ended) = (case a of
       Att_Connected None \<Rightarrow> Ok host
     | Att_Connected (Some e) \<Rightarrow> Err e
     | Att_Refused e \<Rightarrow> connect_race e (left - 1) ended
     | Att_Panicked \<Rightarrow> connect_race OtherIo (left - 1) ended)"

definition connect_hosts :: "string list \<Rightarrow> (string \<times> attempt) list \<Rightarrow> (io_kind, string) result" where
  "connect_hosts hosts ended = connect_race OtherIo (length hosts) ended"

definition connect_peer :: "discovered_peer \<Rightarrow> (string \<times> attempt) list \<Rightarrow> (io_kind, string) result" where
  "connect_peer peer ended = connect_hosts (candidate_hosts peer) ended"

subsection \<open>Candidates\<close>

lemma add_host_facts:
  assumes "distinct hosts" and "length hosts \<le> 16"
  shows "distinct (add_host hosts h)" "length (add_host hosts h) \<le> 16" "set (add_host hosts h) \<subseteq> insert h (set hosts)"
    "set hosts \<subseteq> set (add_host hosts h)" "hosts \<noteq> [] \<Longrightarrow> hd (add_host hosts h) = hd hosts" "hosts \<noteq> [] \<Longrightarrow> add_host hosts h \<noteq> []"
    "length (add_host hosts h) < 16 \<Longrightarrow> h \<in> set (add_host hosts h)" "length hosts \<le> length (add_host hosts h)"
  using assms by (auto simp: add_host_def)

lemma add_hosts_facts:
  assumes "distinct hosts" and "length hosts \<le> 16" and "hosts \<noteq> []"
  shows "distinct (foldl add_host hosts as) \<and> length (foldl add_host hosts as) \<le> 16
    \<and> set (foldl add_host hosts as) \<subseteq> set hosts \<union> set as \<and> set hosts \<subseteq> set (foldl add_host hosts as)
    \<and> hd (foldl add_host hosts as) = hd hosts \<and> foldl add_host hosts as \<noteq> []
    \<and> (length (foldl add_host hosts as) < 16 \<longrightarrow> set as \<subseteq> set (foldl add_host hosts as))
    \<and> length hosts \<le> length (foldl add_host hosts as)"
  using assms
proof (induction as arbitrary: hosts)
  case (Cons a as)
  note f = add_host_facts [OF Cons.prems(1,2), of a]
  note ih = Cons.IH [OF f(1,2) f(6) [OF Cons.prems(3)]]
  have "a \<in> set (foldl add_host (add_host hosts a) as)" if "length (foldl add_host (add_host hosts a) as) < 16"
    using that f(7) ih by auto
  then show ?case using ih f(3,4,8) f(5) [OF Cons.prems(3)] by auto
qed simp

definition first_connected :: "string \<Rightarrow> (string \<times> attempt) list \<Rightarrow> bool" where
  "first_connected host ended \<longleftrightarrow>
     (\<exists>pre post. ended = pre @ (host, Att_Connected None) # post \<and> (\<forall>(h, a) \<in> set pre. \<forall>x. a \<noteq> Att_Connected x))"

lemma first_connected_hit: "first_connected host ((h, Att_Connected x) # ended) \<longleftrightarrow> h = host \<and> x = None"
  by (auto simp: first_connected_def Cons_eq_append_conv)

lemma first_connected_miss:
  assumes "\<And>x. a \<noteq> Att_Connected x"
  shows "first_connected host ((h, a) # ended) \<longleftrightarrow> first_connected host ended"
proof
  assume "first_connected host ((h, a) # ended)"
  then obtain pre post where e: "(h, a) # ended = pre @ (host, Att_Connected None) # post"
      "\<forall>(h, a) \<in> set pre. \<forall>x. a \<noteq> Att_Connected x"
    by (auto simp: first_connected_def)
  with assms obtain pre' where "pre = (h, a) # pre'" by (cases pre) auto
  then show "first_connected host ended" using e by (auto simp: first_connected_def)
next
  assume "first_connected host ended"
  then obtain pre post where "ended = pre @ (host, Att_Connected None) # post"
      "\<forall>(h, a) \<in> set pre. \<forall>x. a \<noteq> Att_Connected x"
    by (auto simp: first_connected_def)
  then show "first_connected host ((h, a) # ended)"
    unfolding first_connected_def using assms by (intro exI [of _ "(h, a) # pre"] exI [of _ post]) simp
qed

lemma connect_race_Ok: "connect_race e0 left ended = Ok host \<longleftrightarrow> first_connected host ended"
proof (induction e0 left ended rule: connect_race.induct)
  case (1 e0 left)
  then show ?case by (simp add: first_connected_def)
next
  case (2 e0 left h a ended)
  then show ?case
    by (cases a) (auto simp: first_connected_hit first_connected_miss split: option.splits)
qed

text \<open>A connection is attempted to the peer's preferred host first and to at most fifteen further addresses,
  each once, and to all of them if there are no more.  Whichever attempt connects first within the budget wins,
  however many others fail before or never answer; and only such an attempt wins.\<close>

theorem connect_races_all_addresses:
  "distinct (candidate_hosts p) \<and> length (candidate_hosts p) \<le> 16 \<and> hd (candidate_hosts p) = dp_host p
   \<and> set (candidate_hosts p) \<subseteq> insert (dp_host p) (set (dp_addresses p))
   \<and> (length (candidate_hosts p) < 16 \<longrightarrow> set (candidate_hosts p) = insert (dp_host p) (set (dp_addresses p)))
   \<and> (connect_peer p ended = Ok host \<longleftrightarrow> first_connected host ended)"
  using add_hosts_facts [of "[dp_host p]" "dp_addresses p"]
  by (auto simp: candidate_hosts_def connect_peer_def connect_hosts_def connect_race_Ok first_connected_def [symmetric])

subsection \<open>Accept loops\<close>

text \<open>\<open>ac_waiting\<close> is the operating system's queue; \<open>ac_served\<close> records the connections a session was started for.\<close>

record acceptor =
  ac_waiting :: "nat list"
  ac_running :: "nat list"
  ac_served :: "nat list"
  ac_open :: bool

definition acceptor_new :: acceptor where
  "acceptor_new = \<lparr> ac_waiting = [], ac_running = [], ac_served = [], ac_open = True \<rparr>"

text \<open>What the loop reacts to; \<open>Accepts ok\<close> says whether the owner of the listener takes the session.\<close>

datatype accept_input =
    Arrives nat
  | Accepts bool
  | Accept_Fails
  | Session_Ends nat
  | Owner_Gone

text \<open>The connection at the head of the queue gets a session.\<close>

definition start_session :: "acceptor \<Rightarrow> acceptor" where
  "start_session s = (case ac_waiting s of
       [] \<Rightarrow> s
     | c # cs \<Rightarrow> s\<lparr> ac_waiting := cs, ac_running := ac_running s @ [c], ac_served := ac_served s @ [c] \<rparr>)"

definition end_session :: "nat \<Rightarrow> acceptor \<Rightarrow> acceptor" where
  "end_session c s = s\<lparr> ac_running := filter (\<lambda>x. x \<noteq> c) (ac_running s) \<rparr>"

definition arrive :: "nat \<Rightarrow> acceptor \<Rightarrow> acceptor" where
  "arrive c s = s\<lparr> ac_waiting := ac_waiting s @ [c] \<rparr>"

text \<open>A \<^verbatim>\<open>select!\<close> over finished sessions and, while fewer than 64 run, the socket.\<close>

definition sync_listener_step :: "accept_input \<Rightarrow> acceptor \<Rightarrow> acceptor" where
  "sync_listener_step i s = (case i of
       Arrives c \<Rightarrow> arrive c s
     | Session_Ends c \<Rightarrow> end_session c s
     | Accepts _ \<Rightarrow> if length (ac_running s) < 64 then start_session s else s
     | _ \<Rightarrow> s)"

definition audio_listener_step :: "accept_input \<Rightarrow> acceptor \<Rightarrow> acceptor" where
  "audio_listener_step i s = (case i of
       Arrives c \<Rightarrow> arrive c s
     | Session_Ends c \<Rightarrow> end_session c s
     | Accepts _ \<Rightarrow> if length (ac_running s) < 64 then start_session s else s
     | _ \<Rightarrow> s)"

text \<open>The IPC loop ends, and its sessions with it, when the daemon drops its end of the request channel.\<close>

definition ipc_listener_step :: "accept_input \<Rightarrow> acceptor \<Rightarrow> acceptor" where
  "ipc_listener_step i s =
     (if \<not> ac_open s then (case i of Arrives c \<Rightarrow> arrive c s | _ \<Rightarrow> s)
      else case i of
        Owner_Gone \<Rightarrow> s\<lparr> ac_open := False, ac_running := [] \<rparr>
      | Session_Ends c \<Rightarrow> end_session c s
      | Accepts _ \<Rightarrow> if length (ac_running s) < 64 then start_session s else s
      | Arrives c \<Rightarrow> arrive c s
      | Accept_Fails \<Rightarrow> s)"

text \<open>
  The pairing loop takes one of 64 slots before it accepts, and ends when the supervisor does not take the session,
  whose task it then aborts.  Sessions that already run go on.
\<close>

definition pairing_listener_step :: "accept_input \<Rightarrow> acceptor \<Rightarrow> acceptor" where
  "pairing_listener_step i s = (case i of
       Arrives c \<Rightarrow> arrive c s
     | Session_Ends c \<Rightarrow> end_session c s
     | Accepts ok \<Rightarrow>
         if ac_open s \<and> length (ac_running s) < 64 then
           (case ac_waiting s of
              [] \<Rightarrow> s
            | c # cs \<Rightarrow> if ok then start_session s else s\<lparr> ac_waiting := cs, ac_open := False \<rparr>)
         else s
     | _ \<Rightarrow> s)"

subsection \<open>The contract of an accept loop\<close>

text \<open>
  A loop never runs more sessions than its limit, serves connections from the head of the queue only, runs only what it
  serves, and, as long as it is open, keeps every connection that it does not serve yet.
\<close>

fun arrivals :: "accept_input list \<Rightarrow> nat list" where
  "arrivals [] = []"
| "arrivals (Arrives c # is) = c # arrivals is"
| "arrivals (_ # is) = arrivals is"

locale accept_loop =
  fixes step :: "accept_input \<Rightarrow> acceptor \<Rightarrow> acceptor" and limit :: nat
  assumes bounded: "length (ac_running s) \<le> limit \<Longrightarrow> length (ac_running (step i s)) \<le> limit"
    and runs_served: "set (ac_running s) \<subseteq> set (ac_served s) \<Longrightarrow> set (ac_running (step i s)) \<subseteq> set (ac_served (step i s))"
    and keeps_open: "ac_open (step i s) \<Longrightarrow> ac_open s"
    and in_order: "ac_open (step i s) \<Longrightarrow>
      ac_served (step i s) @ ac_waiting (step i s) = ac_served s @ ac_waiting s @ arrivals [i]"
    and serves_closed: "\<exists>cs. ac_served (step i s) = ac_served s @ cs \<and> (\<exists>r. ac_waiting s = cs @ r)"
    and accepts: "ac_open s \<Longrightarrow> length (ac_running s) < limit \<Longrightarrow> ac_waiting s = c # cs \<Longrightarrow>
      ac_served (step (Accepts True) s) = ac_served s @ [c] \<and> c \<in> set (ac_running (step (Accepts True) s))"
begin

definition run :: "accept_input list \<Rightarrow> acceptor \<Rightarrow> acceptor" where
  "run is s = fold step is s"

lemma run_simps [simp]: "run [] s = s" "run (i # is) s = run is (step i s)"
  by (simp_all add: run_def)

lemma arrivals_Cons: "arrivals (i # is) = arrivals [i] @ arrivals is"
  by (cases i) auto

lemma run_bounded:
  "length (ac_running s) \<le> limit \<Longrightarrow> length (ac_running (run is s)) \<le> limit"
  by (induction "is" arbitrary: s) (auto intro: bounded)

lemma run_runs_served:
  "set (ac_running s) \<subseteq> set (ac_served s) \<Longrightarrow> set (ac_running (run is s)) \<subseteq> set (ac_served (run is s))"
proof (induction "is" arbitrary: s)
  case (Cons i "is")
  show ?case using Cons.IH [OF runs_served [OF Cons.prems]] by simp
qed simp

lemma run_open: "ac_open (run is s) \<Longrightarrow> ac_open s"
  by (induction "is" arbitrary: s) (auto dest: keeps_open)

lemma run_in_order:
  "ac_open (run is s) \<Longrightarrow> ac_served (run is s) @ ac_waiting (run is s) = ac_served s @ ac_waiting s @ arrivals is"
proof (induction "is" arbitrary: s)
  case (Cons i "is")
  have "ac_open (step i s)" using Cons.prems run_open by simp
  then show ?case using Cons.IH [of "step i s"] Cons.prems in_order [of i s] arrivals_Cons [of i "is"] by simp
qed simp

text \<open>An open loop has served a prefix of the connections, in order, and takes the next one as soon as there is room.\<close>

lemma serves_in_order:
  assumes "ac_open (run is acceptor_new)"
  shows "\<exists>waiting. arrivals is = ac_served (run is acceptor_new) @ waiting \<and> ac_waiting (run is acceptor_new) = waiting"
    and "length (ac_running (run is acceptor_new)) \<le> limit"
    and "set (ac_running (run is acceptor_new)) \<subseteq> set (ac_served (run is acceptor_new))"
    and "arrivals is = ac_served (run is acceptor_new) @ c # cs \<Longrightarrow> length (ac_running (run is acceptor_new)) < limit \<Longrightarrow>
      ac_served (run (is @ [Accepts True]) acceptor_new) = ac_served (run is acceptor_new) @ [c]"
proof -
  show "\<exists>waiting. arrivals is = ac_served (run is acceptor_new) @ waiting \<and> ac_waiting (run is acceptor_new) = waiting"
    using run_in_order [OF assms] by (simp add: acceptor_new_def)
  show "length (ac_running (run is acceptor_new)) \<le> limit" "set (ac_running (run is acceptor_new)) \<subseteq> set (ac_served (run is acceptor_new))"
    by (rule run_bounded run_runs_served, simp add: acceptor_new_def)+
  show "ac_served (run (is @ [Accepts True]) acceptor_new) = ac_served (run is acceptor_new) @ [c]"
    if "arrivals is = ac_served (run is acceptor_new) @ c # cs" "length (ac_running (run is acceptor_new)) < limit"
  proof -
    have "ac_waiting (run is acceptor_new) = c # cs" using run_in_order [OF assms] that(1) by (simp add: acceptor_new_def)
    then show ?thesis using accepts [OF assms that(2)] by (simp add: run_def)
  qed
qed

end

lemmas accept_defs = start_session_def end_session_def arrive_def

lemma filter_bounded: "length xs \<le> k \<Longrightarrow> length (filter P xs) \<le> k"
  using length_filter_le [of P xs] by linarith

interpretation sync_listener: accept_loop sync_listener_step 64
  by unfold_locales
    (auto simp: sync_listener_step_def accept_defs filter_bounded split: accept_input.splits list.splits if_splits)

interpretation audio_listener: accept_loop audio_listener_step 64
  by unfold_locales
    (auto simp: audio_listener_step_def accept_defs filter_bounded split: accept_input.splits list.splits if_splits)

interpretation ipc_listener: accept_loop ipc_listener_step 64
  by unfold_locales
    (auto simp: ipc_listener_step_def accept_defs filter_bounded split: accept_input.splits list.splits if_splits)

interpretation pairing_listener: accept_loop pairing_listener_step 64
  by unfold_locales
    (auto simp: pairing_listener_step_def accept_defs filter_bounded split: accept_input.splits list.splits if_splits)

end
