(* ===== verification/Links.thy ===== *)
theory Links
  imports Handshake Audio_Bridge Transport
begin

text \<open>
  The keys taken from the trust store, and the audio signalling tasks that authenticate a stream and hand it to the
  bridge (\<^verbatim>\<open>crates/synbadd/src/audio.rs\<close>).  Sockets are answers of the environment; the handshake is the one of
  \<^verbatim>\<open>synbad-crypto\<close>.
\<close>

subsection \<open>Keys from the trust store\<close>

definition key_of_hex :: "'sk crypto \<Rightarrow> string \<Rightarrow> byte list option" where
  "key_of_hex c h = (case hex_decode c h of None \<Rightarrow> None | Some b \<Rightarrow> if length b = 32 then Some b else None)"

text \<open>Collecting into a hash map: a later entry for the same machine replaces an earlier one.\<close>

definition trust_snapshot :: "'sk crypto \<Rightarrow> trusted_peer_store \<Rightarrow> string \<Rightarrow> byte list option" where
  "trust_snapshot c trust =
     map_of (rev (concat (map (\<lambda>p. case key_of_hex c (tp_public_key_hex p) of
       None \<Rightarrow> [] | Some k \<Rightarrow> [(tp_machine_id p, k)]) (trust_list trust))))"

subsection \<open>Audio signalling\<close>

datatype link_error =
    LkNoPort string
  | LkNotTrusted string
  | LkKeyNotHex
  | LkKeyLength
  | LkConnect io_kind
  | LkHandshakeTimeout
  | LkHandshake handshake_error
  | LkAnonymous
  | LkRevoked
  | LkHandoffTimeout
  | LkBridgeGone

datatype handoff = Handed | Handoff_Timeout | Bridge_Gone

definition stored_key :: "'sk crypto \<Rightarrow> trusted_peer \<Rightarrow> (link_error, byte list) result" where
  "stored_key c t = (case hex_decode c (tp_public_key_hex t) of
       None \<Rightarrow> Err LkKeyNotHex
     | Some b \<Rightarrow> if length b = 32 then Ok b else Err LkKeyLength)"

definition hand_to_bridge :: "handoff \<Rightarrow> string \<Rightarrow> session_role \<Rightarrow> audio_command list \<times> (link_error, unit) result" where
  "hand_to_bridge h peer r = (case h of
       Handed \<Rightarrow> ([IncomingSignal peer r], Ok ())
     | Handoff_Timeout \<Rightarrow> ([], Err LkHandoffTimeout)
     | Bridge_Gone \<Rightarrow> ([], Err LkBridgeGone))"

text \<open>A handshake that is still blocked when its budget is over has timed out.\<close>

definition within_budget ::
  "(handshake_error, cipher_stream \<times> peer_auth) result poll \<Rightarrow> (link_error, cipher_stream \<times> peer_auth) result" where
  "within_budget res = (case res of
       Blocked \<Rightarrow> Err LkHandshakeTimeout
     | Ready (Inl e) \<Rightarrow> Err (LkHandshake e)
     | Ready (Inr x) \<Rightarrow> Ok x)"

text \<open>What the network and the random source do during one dial or accept.\<close>

record 'xk link_env =
  ln_ended :: "(string \<times> attempt) list"
  ln_eph :: 'xk
  ln_nonce :: "byte list"
  ln_inb :: "rx list"
  ln_w1 :: write_result
  ln_w2 :: write_result
  ln_handoff :: handoff

definition audio_run_outbound ::
  "('sk, 'xk) handshake_api \<Rightarrow> 'sk \<Rightarrow> string \<Rightarrow> trusted_peer_store \<Rightarrow> 'xk link_env \<Rightarrow> discovered_peer \<Rightarrow>
   audio_command list \<times> (link_error, unit) result" where
  "audio_run_outbound api sk our_id trust env peer =
     (if dp_audio_port peer = 0 then ([], Err (LkNoPort (dp_machine_id peer)))
      else case trust_get trust (dp_machine_id peer) of
        None \<Rightarrow> ([], Err (LkNotTrusted (dp_machine_id peer)))
      | Some trusted \<Rightarrow>
          (case stored_key (hs_crypto api) trusted of
             Inl e \<Rightarrow> ([], Err e)
           | Inr peer_pk \<Rightarrow>
               (case connect_peer peer (ln_ended env) of
                  Inl e \<Rightarrow> ([], Err (LkConnect e))
                | Inr _ \<Rightarrow>
                    (case within_budget (snd (snd (initiate api (Authenticated sk our_id)
                            (Some (tp_machine_id trusted, peer_pk)) (ln_eph env) (ln_nonce env) (ln_inb env)
                            (ln_w1 env) (ln_w2 env)))) of
                       Inl e \<Rightarrow> ([], Err e)
                     | Inr _ \<Rightarrow> hand_to_bridge (ln_handoff env) (tp_machine_id trusted) Offerer))))"

definition audio_dial_outcome_of ::
  "(link_error \<Rightarrow> string) \<Rightarrow> string \<Rightarrow> (link_error, unit) result \<Rightarrow> audio_dial_outcome" where
  "audio_dial_outcome_of show_err peer res = (case res of Inr _ \<Rightarrow> DialOk peer | Inl e \<Rightarrow> DialErr peer (show_err e))"

text \<open>\<open>trust\<close> when the connection arrives, \<open>trust'\<close> when the handshake is over.\<close>

definition handshake_and_handoff ::
  "('sk, 'xk) handshake_api \<Rightarrow> 'sk \<Rightarrow> string \<Rightarrow> trusted_peer_store \<Rightarrow> trusted_peer_store \<Rightarrow> 'xk link_env \<Rightarrow>
   audio_command list \<times> (link_error, unit) result" where
  "handshake_and_handoff api sk our_id trust trust' env =
     (case within_budget (snd (snd (accept api (Authenticated sk our_id) (trust_snapshot (hs_crypto api) trust)
             (ln_eph env) (ln_nonce env) (ln_inb env) (ln_w1 env) (ln_w2 env)))) of
        Inl e \<Rightarrow> ([], Err e)
      | Inr (_, PeerAnonymous) \<Rightarrow> ([], Err LkAnonymous)
      | Inr (_, PeerAuthenticated peer _) \<Rightarrow>
          if \<not> contains trust' peer then ([], Err LkRevoked)
          else hand_to_bridge (ln_handoff env) peer Answerer)"

subsection \<open>Only trusted peers reach the bridge\<close>

lemma trust_snapshot_Some:
  assumes "trust_snapshot c trust m = Some k"
  obtains p where "p \<in> set (trust_list trust)" "tp_machine_id p = m" "hex_decode c (tp_public_key_hex p) = Some k" "length k = 32"
proof -
  have "(m, k) \<in> set (concat (map (\<lambda>p. case key_of_hex c (tp_public_key_hex p) of
       None \<Rightarrow> [] | Some k \<Rightarrow> [(tp_machine_id p, k)]) (trust_list trust)))"
    using map_of_SomeD [OF assms [unfolded trust_snapshot_def]] by simp
  then show ?thesis
    using that by (auto simp: key_of_hex_def split: option.splits if_splits)
qed

lemma trust_get_Some: "trust_get st m = Some p \<Longrightarrow> p \<in> set (ts_peers st) \<and> tp_machine_id p = m"
  by (auto simp: trust_get_def find_Some_iff)

lemma hand_to_bridge_cmd: "fst (hand_to_bridge h p r) \<noteq> [] \<Longrightarrow> hand_to_bridge h p r = ([IncomingSignal p r], Ok ())"
  by (cases h) (simp_all add: hand_to_bridge_def)

lemma within_budget_Ok: "within_budget r = Ok x \<longleftrightarrow> r = Ready (Ok x)"
  by (auto simp: within_budget_def split: poll.splits sum.splits)

lemma within_budget_Ready [simp]: "within_budget (Ready (Ok x)) = Ok x"
  by (simp add: within_budget_def)

lemma audio_run_outbound_handed:
  assumes "fst (audio_run_outbound api sk our_id trust env peer) \<noteq> []"
  obtains tr pk o1 o2 c auth where "trust_get trust (dp_machine_id peer) = Some tr" "stored_key (hs_crypto api) tr = Ok pk"
    "initiate api (Authenticated sk our_id) (Some (tp_machine_id tr, pk)) (ln_eph env) (ln_nonce env)
        (ln_inb env) (ln_w1 env) (ln_w2 env) = (o1, o2, Ready (Ok (c, auth)))"
    "audio_run_outbound api sk our_id trust env peer = hand_to_bridge (ln_handoff env) (tp_machine_id tr) Offerer"
proof -
  obtain tr pk h where step: "dp_audio_port peer \<noteq> 0" "trust_get trust (dp_machine_id peer) = Some tr"
      "stored_key (hs_crypto api) tr = Ok pk" "connect_peer peer (ln_ended env) = Ok h"
    using assms by (auto simp: audio_run_outbound_def split: if_splits option.splits sum.splits)
  let ?r = "initiate api (Authenticated sk our_id) (Some (tp_machine_id tr, pk)) (ln_eph env) (ln_nonce env)
        (ln_inb env) (ln_w1 env) (ln_w2 env)"
  obtain x where x: "within_budget (snd (snd ?r)) = Ok x"
    using assms step by (cases "within_budget (snd (snd ?r))") (simp_all add: audio_run_outbound_def)
  obtain o1 o2 r where r: "?r = (o1, o2, r)" by (metis prod_cases3)
  show ?thesis
    by (rule that [of tr pk o1 o2 "fst x" "snd x"]) (use step x r in \<open>simp_all add: audio_run_outbound_def within_budget_Ok\<close>)
qed

lemma handshake_and_handoff_handed:
  assumes "fst (handshake_and_handoff api sk our_id trust trust' env) \<noteq> []"
  obtains o1 o2 c pid ppk where "accept api (Authenticated sk our_id) (trust_snapshot (hs_crypto api) trust)
             (ln_eph env) (ln_nonce env) (ln_inb env) (ln_w1 env) (ln_w2 env) = (o1, o2, Ready (Ok (c, PeerAuthenticated pid ppk)))"
    "contains trust' pid"
    "handshake_and_handoff api sk our_id trust trust' env = hand_to_bridge (ln_handoff env) pid Answerer"
proof -
  let ?r = "accept api (Authenticated sk our_id) (trust_snapshot (hs_crypto api) trust)
             (ln_eph env) (ln_nonce env) (ln_inb env) (ln_w1 env) (ln_w2 env)"
  obtain c pid ppk where x: "within_budget (snd (snd ?r)) = Ok (c, PeerAuthenticated pid ppk)" "contains trust' pid"
    using assms by (auto simp: handshake_and_handoff_def split: if_splits sum.splits peer_auth.splits prod.splits)
  obtain o1 o2 r where r: "?r = (o1, o2, r)" by (metis prod_cases3)
  show ?thesis
    by (rule that [of o1 o2 c pid ppk]) (use x r in \<open>simp_all add: handshake_and_handoff_def within_budget_Ok\<close>)
qed

text \<open>C8. The audio tasks hand a stream to the bridge only for a machine of the trust store, and only after the
  holder of the key stored for it has signed the transcript of this very connection; the accepting side hands it
  over only if the machine is still trusted when the handshake is over.  A dial that reports success has handed
  over exactly one stream, any other outcome none.\<close>

theorem bridge_gets_only_trusted_streams:
  "(fst (audio_run_outbound api sk our_id trust env peer) \<noteq> [] \<longrightarrow>
      fst (audio_run_outbound api sk our_id trust env peer) = [IncomingSignal (dp_machine_id peer) Offerer]
      \<and> (\<exists>p k out rest c sg. p \<in> set (trust_list trust) \<and> tp_machine_id p = dp_machine_id peer
           \<and> hex_decode (hs_crypto api) (tp_public_key_hex p) = Some k
           \<and> initiate api (Authenticated sk our_id) (Some (tp_machine_id p, k)) (ln_eph env) (ln_nonce env) (ln_inb env)
               (ln_w1 env) (ln_w2 env) = (out, rest, Ready (Ok (c, PeerAuthenticated (tp_machine_id p) k)))
           \<and> ed_verify (hs_crypto api) k (cs_transcript c) sg))
   \<and> (snd (audio_run_outbound api sk our_id trust env peer) = Ok () \<longleftrightarrow> fst (audio_run_outbound api sk our_id trust env peer) \<noteq> [])
   \<and> (fst (handshake_and_handoff api sk our_id trust trust' env) \<noteq> [] \<longrightarrow>
      (\<exists>p k out rest c sg. fst (handshake_and_handoff api sk our_id trust trust' env) = [IncomingSignal (tp_machine_id p) Answerer]
           \<and> p \<in> set (trust_list trust) \<and> contains trust' (tp_machine_id p)
           \<and> hex_decode (hs_crypto api) (tp_public_key_hex p) = Some k
           \<and> accept api (Authenticated sk our_id) (trust_snapshot (hs_crypto api) trust) (ln_eph env) (ln_nonce env)
               (ln_inb env) (ln_w1 env) (ln_w2 env) = (out, rest, Ready (Ok (c, PeerAuthenticated (tp_machine_id p) k)))
           \<and> ed_verify (hs_crypto api) k (cs_transcript c) sg))"
proof (intro conjI impI)
  assume out: "fst (audio_run_outbound api sk our_id trust env peer) \<noteq> []"
  then obtain tr pk o1 o2 c auth where tr: "trust_get trust (dp_machine_id peer) = Some tr" "stored_key (hs_crypto api) tr = Ok pk"
    and run: "initiate api (Authenticated sk our_id) (Some (tp_machine_id tr, pk)) (ln_eph env) (ln_nonce env)
        (ln_inb env) (ln_w1 env) (ln_w2 env) = (o1, o2, Ready (Ok (c, auth)))"
    and res: "audio_run_outbound api sk our_id trust env peer = hand_to_bridge (ln_handoff env) (tp_machine_id tr) Offerer"
    by (rule audio_run_outbound_handed)
  have id: "tr \<in> set (trust_list trust)" "tp_machine_id tr = dp_machine_id peer"
    using trust_get_Some [OF tr(1)] by (simp_all add: trust_list_def)
  show "fst (audio_run_outbound api sk our_id trust env peer) = [IncomingSignal (dp_machine_id peer) Offerer]"
    using out hand_to_bridge_cmd unfolding res id(2) [symmetric] by (metis fst_conv)
  have "auth = PeerAuthenticated (tp_machine_id tr) pk" "\<exists>sg. ed_verify (hs_crypto api) pk (cs_transcript c) sg"
    using initiate_Ok [OF run] by metis+
  moreover have "hex_decode (hs_crypto api) (tp_public_key_hex tr) = Some pk"
    using tr(2) by (auto simp: stored_key_def split: option.splits if_splits)
  ultimately show "\<exists>p k out rest c sg. p \<in> set (trust_list trust) \<and> tp_machine_id p = dp_machine_id peer
           \<and> hex_decode (hs_crypto api) (tp_public_key_hex p) = Some k
           \<and> initiate api (Authenticated sk our_id) (Some (tp_machine_id p, k)) (ln_eph env) (ln_nonce env) (ln_inb env)
               (ln_w1 env) (ln_w2 env) = (out, rest, Ready (Ok (c, PeerAuthenticated (tp_machine_id p) k)))
           \<and> ed_verify (hs_crypto api) k (cs_transcript c) sg"
    using id run by blast
next
  show "snd (audio_run_outbound api sk our_id trust env peer) = Ok () \<longleftrightarrow> fst (audio_run_outbound api sk our_id trust env peer) \<noteq> []"
    by (auto simp: audio_run_outbound_def hand_to_bridge_def split: option.splits sum.splits handoff.splits)
next
  assume out: "fst (handshake_and_handoff api sk our_id trust trust' env) \<noteq> []"
  then obtain o1 o2 c pid ppk where run: "accept api (Authenticated sk our_id) (trust_snapshot (hs_crypto api) trust)
             (ln_eph env) (ln_nonce env) (ln_inb env) (ln_w1 env) (ln_w2 env) = (o1, o2, Ready (Ok (c, PeerAuthenticated pid ppk)))"
    and still: "contains trust' pid"
    and res: "handshake_and_handoff api sk our_id trust trust' env = hand_to_bridge (ln_handoff env) pid Answerer"
    by (rule handshake_and_handoff_handed)
  obtain sg where key: "trust_snapshot (hs_crypto api) trust pid = Some ppk" "ed_verify (hs_crypto api) ppk (cs_transcript c) sg"
    using accept_Ok [OF run] by (metis peer_auth.inject)
  obtain p where p: "p \<in> set (trust_list trust)" "tp_machine_id p = pid" "hex_decode (hs_crypto api) (tp_public_key_hex p) = Some ppk"
    using trust_snapshot_Some [OF key(1)] by metis
  have "fst (handshake_and_handoff api sk our_id trust trust' env) = [IncomingSignal pid Answerer]"
    using out hand_to_bridge_cmd unfolding res by (metis fst_conv)
  then show "\<exists>p k out rest c sg. fst (handshake_and_handoff api sk our_id trust trust' env) = [IncomingSignal (tp_machine_id p) Answerer]
           \<and> p \<in> set (trust_list trust) \<and> contains trust' (tp_machine_id p)
           \<and> hex_decode (hs_crypto api) (tp_public_key_hex p) = Some k
           \<and> accept api (Authenticated sk our_id) (trust_snapshot (hs_crypto api) trust) (ln_eph env) (ln_nonce env)
               (ln_inb env) (ln_w1 env) (ln_w2 env) = (out, rest, Ready (Ok (c, PeerAuthenticated (tp_machine_id p) k)))
           \<and> ed_verify (hs_crypto api) k (cs_transcript c) sg"
    using p key(2) still run by blast
qed

text \<open>A dial to a paired peer that answers.\<close>

definition demo_link_trust :: trusted_peer_store where
  "demo_link_trust = \<lparr> ts_path = [''trust''],
     ts_peers = [demo_peer\<lparr> tp_machine_id := ''b'', tp_public_key_hex := hex_of (replicate 32 7) \<rparr>] \<rparr>"

theorem bridge_gets_only_trusted_streams_witness:
  "\<exists>env. fst (audio_run_outbound strict_api 5 ''a'' demo_link_trust env demo_discovered) = [IncomingSignal ''b'' Offerer]
     \<and> (\<exists>p \<in> set (trust_list demo_link_trust). tp_machine_id p = ''b'')"
proof -
  obtain inb out rest c where run: "initiate strict_api (Authenticated 5 ''a'') (Some (''b'', replicate 32 7)) 2
      (replicate 16 1) inb WroteAll WroteAll = (out, rest, Ready (Ok (c, PeerAuthenticated ''b'' (replicate 32 7))))"
    using strict_runs by blast
  let ?env = "\<lparr> ln_ended = [(''10.0.0.2'', Att_Connected None)], ln_eph = 2, ln_nonce = replicate 16 1, ln_inb = inb,
    ln_w1 = WroteAll, ln_w2 = WroteAll, ln_handoff = Handed \<rparr> :: byte link_env"
  have id: "dp_machine_id demo_discovered = ''b''" "dp_audio_port demo_discovered \<noteq> 0"
    by (simp_all add: demo_discovered_def)
  have key: "stored_key (hs_crypto strict_api) (demo_peer\<lparr> tp_machine_id := ''b'', tp_public_key_hex := hex_of (replicate 32 7) \<rparr>)
      = Ok (replicate 32 7)"
    by (simp add: stored_key_def strict_api_def demo_crypto_def del: hex_of.simps replicate.simps)
  have "fst (audio_run_outbound strict_api 5 ''a'' demo_link_trust ?env demo_discovered) \<noteq> []"
    using run key by (simp add: audio_run_outbound_def id demo_link_trust_def trust_get_def connect_peer_def connect_hosts_def
        within_budget_def hand_to_bridge_def)
  with bridge_gets_only_trusted_streams [of strict_api 5 "''a''" demo_link_trust ?env demo_discovered]
  show ?thesis unfolding id(1) by blast
qed

end
