(* ===== verification/Config_Edit.thy ===== *)
theory Config_Edit
  imports Reconcile
begin

text \<open>
  The funnel for configuration edits (\<^verbatim>\<open>crates/synbadd/src/supervisor/config_edit.rs\<close>): edits from the GUI, edits
  of the file on disk, and merges of a peer's state.  The TOML and JSON codecs, and the configuration's head, are
  in the argument \<open>api\<close>; \<open>fl\<close> are the file-system faults of the step.
\<close>

subsection \<open>Model\<close>

record daemon_api =
  toml_ser :: "config \<Rightarrow> string option"
  toml_de :: "string \<Rightarrow> config option"
  sidecar_ser :: "sidecar \<Rightarrow> string option"
  sidecar_de :: "string \<Rightarrow> sidecar option"
  trust_ser :: "trust_file \<Rightarrow> string option"
  trust_de :: "string \<Rightarrow> trust_file option"
  state_head :: "versioned_config \<Rightarrow> string"

definition persist_sidecar :: "daemon_api \<Rightarrow> dirs \<Rightarrow> world \<Rightarrow> supervisor \<Rightarrow> supervisor" where
  "persist_sidecar api d w s =
     s\<lparr> s_fs := fst (save_sidecar (sidecar_ser api) (w_faults w) (s_fs s) (v_versioned s) (config_versions_file d)) \<rparr>"

definition apply_local_edit :: "daemon_api \<Rightarrow> dirs \<Rightarrow> world \<Rightarrow> config \<Rightarrow> bool \<Rightarrow> supervisor \<Rightarrow> supervisor" where
  "apply_local_edit api d w new_config restart_if_running s =
     (let inputs_differ = core_inputs_differ (s_config s) new_config;
          (v', changed) = apply_local (v_versioned s) new_config (v_machine_id s);
          s1 = s\<lparr> v_versioned := v', s_config := new_config \<rparr>;
          s2 = (if changed then persist_sidecar api d w s1 else s1);
          s3 = send_event EvConfigChanged s2;
          s4 = restart_if_needed (w_exits w) (restart_if_running \<and> inputs_differ) s3
      in if changed then push_to_trusted_peers (state_head api) (w_busy w) (w_now w) s4 else s4)"

definition set_config ::
  "daemon_api \<Rightarrow> dirs \<Rightarrow> world \<Rightarrow> config \<Rightarrow> supervisor \<Rightarrow> supervisor \<times> (config_error, unit) result" where
  "set_config api d w new_config s =
     (case validate new_config of
        Inl e \<Rightarrow> (s, Err e)
      | Inr _ \<Rightarrow>
        (case config_save (toml_ser api) (w_faults w) (s_fs s) new_config (config_file d) of
           (m, Inl e) \<Rightarrow> (s\<lparr> s_fs := m \<rparr>, Err e)
         | (m, Inr _) \<Rightarrow> (apply_local_edit api d w new_config True (s\<lparr> s_fs := m \<rparr>), Ok ())))"

definition handle_config_changed :: "daemon_api \<Rightarrow> dirs \<Rightarrow> world \<Rightarrow> supervisor \<Rightarrow> supervisor" where
  "handle_config_changed api d w s =
     (case config_load (toml_de api) (w_faults w) (s_fs s) (config_file d) of
        Inr (Some cfg) \<Rightarrow> if \<not> config_eq cfg (s_config s) then apply_local_edit api d w cfg True s else s
      | Inr None \<Rightarrow> s
      | Inl _ \<Rightarrow> s)"

datatype sync_op =
    Snapshot
  | MergeOp (op_peer: string) (op_incoming: versioned_config)

text \<open>An invalid merge is rolled back to the configuration on disk; the reply is the state afterwards.\<close>

definition roll_back_merge :: "daemon_api \<Rightarrow> dirs \<Rightarrow> world \<Rightarrow> supervisor \<Rightarrow> supervisor" where
  "roll_back_merge api d w s =
     (case config_load (toml_de api) (w_faults w) (s_fs s) (config_file d) of
        Inr (Some c) \<Rightarrow> s\<lparr> v_versioned := (v_versioned s)\<lparr> vc_config := c \<rparr>, s_config := c \<rparr>
      | _ \<Rightarrow> s)"

definition adopt_merge :: "daemon_api \<Rightarrow> dirs \<Rightarrow> world \<Rightarrow> supervisor \<Rightarrow> supervisor" where
  "adopt_merge api d w s =
     (let inputs_differ = core_inputs_differ (s_config s) (vc_config (v_versioned s));
          s1 = s\<lparr> s_config := vc_config (v_versioned s) \<rparr>;
          s2 = s1\<lparr> s_fs := fst (config_save (toml_ser api) (w_faults w) (s_fs s1) (s_config s1) (config_file d)) \<rparr>;
          s3 = persist_sidecar api d w s2;
          s4 = send_event EvConfigChanged s3
      in restart_if_needed (w_exits w) inputs_differ s4)"

definition handle_sync_op ::
  "daemon_api \<Rightarrow> dirs \<Rightarrow> world \<Rightarrow> sync_op \<Rightarrow> supervisor \<Rightarrow> supervisor \<times> versioned_config" where
  "handle_sync_op api d w op s = (case op of
       Snapshot \<Rightarrow> (s, v_versioned s)
     | MergeOp peer incoming \<Rightarrow>
         (let (v', outcome) = merge (v_versioned s) incoming;
              s1 = s\<lparr> v_versioned := v' \<rparr>;
              s2 = (if outcome = Updated
                    then (if validate (vc_config v') \<noteq> Ok () then roll_back_merge api d w s1 else adopt_merge api d w s1)
                    else s1)
          in (s2, v_versioned s2)))"

text \<open>Bootstrap of the versioned configuration when the daemon starts.\<close>

definition bootstrap_versioned ::
  "daemon_api \<Rightarrow> faults \<Rightarrow> fs \<Rightarrow> dirs \<Rightarrow> config \<Rightarrow> string \<Rightarrow> fs \<times> versioned_config" where
  "bootstrap_versioned api fl m d c machine_id =
     (case load_sidecar (sidecar_de api) fl m (config_versions_file d) of
        Inr (Some sc) \<Rightarrow> (m, vc_from_parts c (sc_stamps sc) (sc_clock sc))
      | Inr None \<Rightarrow> (let v = vc_initial c machine_id in
          (fst (save_sidecar (sidecar_ser api) fl m v (config_versions_file d)), v))
      | Inl _ \<Rightarrow> (m, vc_initial c machine_id))"

subsection \<open>The Core's invariant through edits\<close>

lemma core_inv_update:
  assumes "core_inv s"
  shows "core_inv (s\<lparr> v_versioned := x1 \<rparr>)" and "core_inv (s\<lparr> s_fs := x2 \<rparr>)" and "core_inv (send_event e s)"
    and "core_inv (s\<lparr> v_sync_tasks := x3 \<rparr>)"
    and "core_inv (s\<lparr> v_sync_confirmed := x4, v_sync_backoff := x5 \<rparr>)"
  by (rule core_inv_frame [OF assms]; simp add: core_inv_valid [OF assms] core_inv_tail [OF assms])+

lemma push_inv: "core_inv s \<Longrightarrow> core_inv (push_to_trusted_peers head busy now s)"
proof -
  have fold: "core_inv t \<Longrightarrow> core_inv (fold (maybe_pull_from head busy now) ps t)" for ps t
    by (induction ps arbitrary: t) (simp_all add: maybe_pull_from_eq core_inv_update)
  show "core_inv s \<Longrightarrow> core_inv (push_to_trusted_peers head busy now s)"
    unfolding push_to_trusted_peers_def by (intro fold core_inv_update)
qed

lemma restart_if_needed_inv: "core_inv s \<Longrightarrow> core_inv (restart_if_needed arr b s)"
  using restart_core_inv core_inv_base by (auto simp: restart_if_needed_def)

lemma set_config_field_inv:
  "core_inv s \<Longrightarrow> validate c = Ok () \<Longrightarrow> core_inv (s\<lparr> s_config := c \<rparr>)"
  by (rule core_inv_frame [of s]) (simp_all add: core_inv_tail)

lemma apply_local_edit_inv:
  assumes "core_inv s" and "validate c = Ok ()"
  shows "core_inv (apply_local_edit api d w c b s)"
proof -
  obtain v' changed where v: "apply_local (v_versioned s) c (v_machine_id s) = (v', changed)" by fastforce
  have 1: "core_inv (s\<lparr> v_versioned := v', s_config := c \<rparr>)"
    by (rule core_inv_frame [OF assms(1)]) (simp_all add: assms(2) core_inv_tail [OF assms(1)])
  show ?thesis
    unfolding apply_local_edit_def v Let_def prod.case persist_sidecar_def
    by (simp add: push_inv restart_if_needed_inv core_inv_update 1)
qed

lemma config_load_valid: "config_load de fl m p = Ok (Some c) \<Longrightarrow> validate c = Ok ()"
  by (auto simp: config_load_def result_iffs split: sum.splits option.splits if_splits)

lemma roll_back_merge_inv:
  assumes "core_inv s" shows "core_inv (roll_back_merge api d w s)"
proof (cases "config_load (toml_de api) (w_faults w) (s_fs s) (config_file d)")
  case (Inr r)
  show ?thesis
  proof (cases r)
    case (Some c)
    then have "validate c = Ok ()" using config_load_valid Inr by blast
    then have "core_inv (s\<lparr> v_versioned := (v_versioned s)\<lparr> vc_config := c \<rparr>, s_config := c \<rparr>)"
      by - (rule core_inv_frame [OF assms], simp_all add: core_inv_tail [OF assms])
    then show ?thesis using Inr Some by (simp add: roll_back_merge_def)
  qed (use assms Inr in \<open>simp add: roll_back_merge_def\<close>)
qed (use assms in \<open>simp add: roll_back_merge_def\<close>)

lemma adopt_merge_inv:
  assumes "core_inv s" and "validate (vc_config (v_versioned s)) = Ok ()"
  shows "core_inv (adopt_merge api d w s)"
proof -
  have "core_inv (s\<lparr> s_config := vc_config (v_versioned s) \<rparr>)" by (rule set_config_field_inv [OF assms])
  then show ?thesis
    unfolding adopt_merge_def Let_def persist_sidecar_def by (simp add: restart_if_needed_inv core_inv_update)
qed

lemma handle_sync_op_inv: "core_inv s \<Longrightarrow> core_inv (fst (handle_sync_op api d w op s))"
  by (cases op)
    (auto simp: handle_sync_op_def Let_def core_inv_update intro!: adopt_merge_inv roll_back_merge_inv split: prod.splits)

subsection \<open>Merging a peer's state\<close>

lemma restart_if_needed_simps [simp]:
  "s_config (restart_if_needed arr b s) = s_config s" "s_fs (restart_if_needed arr b s) = s_fs s"
  "s_desired_running (restart_if_needed arr b s) = s_desired_running s"
  by (simp_all add: restart_if_needed_def restart_core_def start_core_def Let_def)

lemma send_event_more [simp]:
  "v_versioned (send_event e s) = v_versioned s" "v_peers (send_event e s) = v_peers s"
  "v_audio (send_event e s) = v_audio s" "v_audio_dial_deps (send_event e s) = v_audio_dial_deps s"
  "v_audio_live (send_event e s) = v_audio_live s" "v_audio_inflight (send_event e s) = v_audio_inflight s"
  "v_trust (send_event e s) = v_trust s"
  by (simp_all add: send_event_def)

lemma set_state_more [simp]:
  "v_versioned (set_state st s) = v_versioned s" "v_peers (set_state st s) = v_peers s"
  "v_audio (set_state st s) = v_audio s" "v_audio_dial_deps (set_state st s) = v_audio_dial_deps s"
  "v_audio_live (set_state st s) = v_audio_live s" "v_audio_inflight (set_state st s) = v_audio_inflight s"
  "v_trust (set_state st s) = v_trust s"
  by (simp_all add: set_state_def Let_def)

lemma restart_if_needed_more [simp]:
  "v_versioned (restart_if_needed arr b s) = v_versioned s" "v_peers (restart_if_needed arr b s) = v_peers s"
  "v_audio (restart_if_needed arr b s) = v_audio s"
  "v_audio_dial_deps (restart_if_needed arr b s) = v_audio_dial_deps s"
  "v_audio_live (restart_if_needed arr b s) = v_audio_live s"
  "v_audio_inflight (restart_if_needed arr b s) = v_audio_inflight s"
  "v_trust (restart_if_needed arr b s) = v_trust s"
  by (simp_all add: restart_if_needed_def restart_core_def start_core_def stop_core_def Let_def split: option.splits)

text \<open>A merge that was rolled back keeps the peer's stamps next to our values.\<close>

definition with_stamps_of :: "versioned_config \<Rightarrow> versioned_config \<Rightarrow> versioned_config" where
  "with_stamps_of v' v = v'\<lparr> vc_config := vc_config v \<rparr>"

lemma with_stamps_of_compat:
  assumes "shared_compat (shared (with_stamps_of (fst (merge v incoming)) v)) (shared incoming)"
  shows "vc_config (fst (merge v incoming)) = vc_config v"
proof -
  have pick: "(fst (lww (a, x) (b, y)) = b \<longrightarrow> x = y) \<Longrightarrow> snd (lww (a, x) (b, y)) = x"
    for a b :: lamport_time and x y :: 'z
    by (auto simp: lww_def split: if_splits)
  have "snd (sv_port (shared_join (shared v) (shared incoming))) = port (vc_config v)"
    "snd (sv_screens (shared_join (shared v) (shared incoming))) = screens (vc_config v)"
    "snd (sv_links (shared_join (shared v) (shared incoming))) = links (vc_config v)"
    "snd (sv_options (shared_join (shared v) (shared incoming))) = options (vc_config v)"
    "snd (sv_clipboard (shared_join (shared v) (shared incoming))) = clipboard_sharing (vc_config v)"
    using assms
    by (auto simp: with_stamps_of_def shared_compat_def lww_compat_def shared_def merge_eq shared_join_def
        intro!: pick)
  then show ?thesis by (simp add: merge_eq)
qed

lemma merge_stamps_settled:
  "snd (merge ((fst (merge v incoming))\<lparr> vc_config := c \<rparr>) incoming) = NoChange"
  by (simp add: merge_outcome_iff merge_eq shared_join_def shared_def le_fst_lww)

text \<open>C36. When a peer's state merges into an invalid configuration, the configuration on disk is restored
  but the peer's stamps are kept.  Our replica then holds, for some shared field, the peer's stamp with a
  different value, and receiving the peer's state again changes nothing: the two machines stay apart while each
  considers itself up to date.\<close>

theorem rollback_leaves_replicas_apart:
  assumes "merge (v_versioned s) incoming = (v', Updated)" and "validate (vc_config v') \<noteq> Ok ()"
    and "config_load (toml_de api) (w_faults w) (s_fs s) (config_file d) = Ok (Some (vc_config (v_versioned s)))"
  shows "let t = fst (handle_sync_op api d w (MergeOp peer incoming) s) in
     s_config t = vc_config (v_versioned s) \<and> vc_config (v_versioned t) = vc_config (v_versioned s)
     \<and> vc_stamps (v_versioned t) = vc_stamps v'
     \<and> \<not> shared_compat (shared (v_versioned t)) (shared incoming)
     \<and> snd (merge (v_versioned t) incoming) = NoChange"
proof -
  let ?t = "fst (handle_sync_op api d w (MergeOp peer incoming) s)"
  have v': "v' = fst (merge (v_versioned s) incoming)" using assms(1) by simp
  have t: "v_versioned ?t = with_stamps_of v' (v_versioned s)" "s_config ?t = vc_config (v_versioned s)"
    using assms by (simp_all add: handle_sync_op_def roll_back_merge_def with_stamps_of_def)
  have "validate (vc_config (v_versioned s)) = Ok ()" using config_load_valid [OF assms(3)] .
  then have "vc_config v' \<noteq> vc_config (v_versioned s)" using assms(2) by metis
  then have "\<not> shared_compat (shared (v_versioned ?t)) (shared incoming)"
    using with_stamps_of_compat unfolding t v' by blast
  moreover have "snd (merge (v_versioned ?t) incoming) = NoChange"
    unfolding t v' with_stamps_of_def by (rule merge_stamps_settled)
  ultimately show ?thesis using t by (simp add: Let_def with_stamps_of_def)
qed

text \<open>The peer drops our screen from the shared layout.\<close>

definition demo_incoming :: versioned_config where
  "demo_incoming = vc_from_parts (config_default\<lparr> screens := [] \<rparr>) (stamps_all (LamportTime 2 ''b'')) 2"

definition demo_daemon_api :: daemon_api where
  "demo_daemon_api = \<lparr> toml_ser = (\<lambda>_. Some ''toml''), toml_de = (\<lambda>_. Some config_default), sidecar_ser = (\<lambda>_. Some ''json''),
     sidecar_de = (\<lambda>_. None), trust_ser = (\<lambda>_. Some ''trust''),
     trust_de = (\<lambda>_. Some \<lparr> tf_peers = [] \<rparr>), state_head = (\<lambda>_. ''head'') \<rparr>"

definition demo_world :: world where
  "demo_world = \<lparr> w_now = 0, w_faults = no_faults, w_busy = (\<lambda>_. False), w_exits = [], w_adv_ok = True,
     w_discovery_closed = False, w_discovery_starts = True, w_pairing_ended = False, w_pairing_binds = True,
     w_sync_ended = False, w_sync_binds = True, w_audio_ended = False, w_audio_listener_ended = False, w_bound = True,
     w_queue_full = False, w_devices = Ok ([], []), w_statuses = Some [], w_finished = (\<lambda>_. False),
     w_closed = (\<lambda>_. False), w_sync_result = (\<lambda>_. None), w_uuid = ''u'' \<rparr>"

definition demo_on_disk :: supervisor where
  "demo_on_disk = demo_supervisor\<lparr> s_fs := (\<lambda>_. Some ''toml'') \<rparr>"

theorem rollback_leaves_replicas_apart_witness:
  "let t = fst (handle_sync_op demo_daemon_api demo_dirs demo_world (MergeOp ''b'' demo_incoming) demo_on_disk) in
     screens (vc_config (v_versioned t)) \<noteq> screens (vc_config demo_incoming)
     \<and> st_screens (vc_stamps (v_versioned t)) = st_screens (vc_stamps demo_incoming)
     \<and> snd (merge (v_versioned t) demo_incoming) = NoChange"
proof -
  have v: "v_versioned demo_on_disk = vc_initial config_default ''a''"
    by (simp add: demo_on_disk_def demo_supervisor_def core_sup.extend_def core_boot_def)
  let ?v' = "fst (merge (v_versioned demo_on_disk) demo_incoming)"
  have newer: "LamportTime 1 ''a'' < LamportTime 2 ''b''" by (simp add: lamport_less_iff)
  have cfg: "screens (vc_config ?v') = []" "st_screens (vc_stamps ?v') = LamportTime 2 ''b''"
    "server_name (vc_config ?v') = server_name config_default"
    using newer by (simp_all add: v merge_eq shared_join_def shared_def lww_def demo_incoming_def vc_from_parts_def
        vc_initial_def stamps_all_def)
  have "snd (merge (v_versioned demo_on_disk) demo_incoming) \<noteq> NoChange"
    using newer by (simp add: v merge_outcome_iff demo_incoming_def vc_from_parts_def vc_initial_def stamps_all_def not_le)
  then have m: "merge (v_versioned demo_on_disk) demo_incoming = (?v', Updated)"
    by (metis merge_outcome.exhaust prod.collapse)
  have inv: "validate (vc_config ?v') \<noteq> Ok ()" using cfg by (simp add: validate_def)
  have fs: "s_fs demo_on_disk = (\<lambda>_. Some ''toml'')" by (simp add: demo_on_disk_def)
  have load: "config_load (toml_de demo_daemon_api) (w_faults demo_world) (s_fs demo_on_disk) (config_file demo_dirs)
      = Ok (Some (vc_config (v_versioned demo_on_disk)))"
    by (simp add: v fs config_load_def demo_daemon_api_def demo_world_def vc_initial_def validate_config_default)
  from rollback_leaves_replicas_apart [OF m inv load] show ?thesis
    using cfg(2) by (simp add: Let_def v vc_initial_def demo_incoming_def vc_from_parts_def stamps_all_def config_default_def)
qed

end
