(* ===== verification/Gossip.thy ===== *)
theory Gossip
  imports Versioned
begin

text \<open>
  The peers of a LAN as a transition system over the operations of \<^verbatim>\<open>versioned.rs\<close>: any machine
  may edit its configuration, put a snapshot of its state on the network, or merge a snapshot
  that is on the network.  Snapshots stay on the network, so they may be lost, reordered or
  delivered any number of times.  The invariant is the one the source's comments rely on: a
  stamp is never issued for two values.
\<close>

record gossip =
  nodes :: "string \<Rightarrow> versioned_config"
  net :: "versioned_config list"

definition gossip_init :: "(string \<Rightarrow> config) \<Rightarrow> gossip" where
  "gossip_init cfgs = \<lparr> nodes = (\<lambda>i. vc_initial (cfgs i) i), net = [] \<rparr>"

inductive gossip_step :: "gossip \<Rightarrow> gossip \<Rightarrow> bool" where
  edit: "can_tick (nodes g i) \<Longrightarrow>
     gossip_step g (g\<lparr>nodes := (nodes g)(i := fst (apply_local (nodes g i) c i))\<rparr>)"
| send: "gossip_step g (g\<lparr>net := nodes g i # net g\<rparr>)"
| receive: "v \<in> set (net g) \<Longrightarrow>
     gossip_step g (g\<lparr>nodes := (nodes g)(i := fst (merge (nodes g i) v))\<rparr>)"

inductive gossip_reachable :: "gossip \<Rightarrow> bool" where
  start: "gossip_reachable (gossip_init cfgs)"
| step: "gossip_reachable g \<Longrightarrow> gossip_step g h \<Longrightarrow> gossip_reachable h"

definition known :: "gossip \<Rightarrow> versioned_config \<Rightarrow> bool" where
  "known g a \<longleftrightarrow> (\<exists>i. a = nodes g i) \<or> a \<in> set (net g)"

definition shared_stamps :: "shared_view \<Rightarrow> lamport_time set" where
  "shared_stamps s = {fst (sv_port s), fst (sv_screens s), fst (sv_links s), fst (sv_options s),
     fst (sv_clipboard s)}"

text \<open>Every stamp anywhere is covered by the clock of the machine that issued it, and states
  agree on the value of every stamp they share.\<close>

definition stamps_covered :: "gossip \<Rightarrow> shared_view \<Rightarrow> bool" where
  "stamps_covered g s \<longleftrightarrow> (\<forall>t \<in> shared_stamps s. counter t \<le> vc_clock (nodes g (origin t)))"

definition gossip_inv :: "gossip \<Rightarrow> bool" where
  "gossip_inv g \<longleftrightarrow>
     (\<forall>a b. known g a \<longrightarrow> known g b \<longrightarrow> shared_compat (shared a) (shared b)) \<and>
     (\<forall>a. known g a \<longrightarrow> stamps_covered g (shared a))"

inductive_cases gossip_stepE: "gossip_step g h"

lemma gossip_inv_init: "gossip_inv (gossip_init cfgs)"
proof -
  have "shared_compat (shared (vc_initial (cfgs i) i)) (shared (vc_initial (cfgs j) j))" for i j
    by (auto simp: shared_compat_def lww_compat_def shared_def vc_initial_def stamps_all_def)
  moreover have "stamps_covered (gossip_init cfgs) (shared (vc_initial (cfgs i) i))" for i
    by (simp add: stamps_covered_def shared_stamps_def gossip_init_def shared_def vc_initial_def
        stamps_all_def)
  ultimately show ?thesis
    by (auto simp: gossip_inv_def known_def gossip_init_def)
qed

subsection \<open>One machine changes its state\<close>

text \<open>Replacing machine \<open>i\<close>'s state by one that is compatible with everything known, keeps its
  clock from going back and is itself covered, keeps the invariant.\<close>

lemma gossip_inv_update:
  assumes inv: "gossip_inv g"
    and clock: "vc_clock (nodes g i) \<le> vc_clock v"
    and compat: "\<And>b. known g b \<Longrightarrow> shared_compat (shared v) (shared b)"
    and cov: "stamps_covered (g\<lparr>nodes := (nodes g)(i := v)\<rparr>) (shared v)"
  shows "gossip_inv (g\<lparr>nodes := (nodes g)(i := v)\<rparr>)"
proof -
  let ?h = "g\<lparr>nodes := (nodes g)(i := v)\<rparr>"
  have known: "a = v \<or> known g a" if "known ?h a" for a
    using that by (auto simp: known_def split: if_splits)
  have "stamps_covered ?h s" if "stamps_covered g s" for s
    using that clock by (auto simp: stamps_covered_def intro: order_trans)
  then have "stamps_covered ?h (shared a)" if "known ?h a" for a
    using known [OF that] inv cov by (auto simp: gossip_inv_def)
  moreover have "shared_compat (shared a) (shared b)" if "known ?h a" "known ?h b" for a b
    using known [OF that(1)] known [OF that(2)] compat inv
    by (auto simp: gossip_inv_def intro: sv.compat_refl sv.compat_sym)
  ultimately show ?thesis by (simp add: gossip_inv_def)
qed

lemma lww_compat_edit:
  "lww_compat p b \<Longrightarrow> fst b \<noteq> t \<Longrightarrow> lww_compat (if chg then (t, y) else p) b"
  by (auto simp: lww_compat_def)

lemma shared_restamp:
  fixes t :: lamport_time
  shows "shared \<lparr> vc_config = c, vc_stamps = restamp (vc_config v) c t (vc_stamps v), vc_clock = k \<rparr> =
   \<lparr> sv_port = (if port (vc_config v) \<noteq> port c then (t, port c) else sv_port (shared v)),
     sv_screens = (if screens (vc_config v) \<noteq> screens c then (t, screens c)
                   else sv_screens (shared v)),
     sv_links = (if links (vc_config v) \<noteq> links c then (t, links c) else sv_links (shared v)),
     sv_options = (if options (vc_config v) \<noteq> options c then (t, options c)
                   else sv_options (shared v)),
     sv_clipboard = (if clipboard_sharing (vc_config v) \<noteq> clipboard_sharing c
                     then (t, clipboard_sharing c) else sv_clipboard (shared v)) \<rparr>"
  by (simp add: shared_def restamp_def)

lemma shared_stamps_restamp:
  "shared_stamps (shared \<lparr> vc_config = c, vc_stamps = restamp (vc_config v) c t (vc_stamps v),
      vc_clock = k \<rparr>) \<subseteq> insert t (shared_stamps (shared v))"
  unfolding shared_restamp shared_stamps_def by auto

lemma apply_local_cases:
  obtains "fst (apply_local v c org) = v"
  | "fst (apply_local v c org) = \<lparr> vc_config = c, vc_stamps = restamp (vc_config v) c
       (LamportTime (next_clock v) org) (vc_stamps v), vc_clock = next_clock v \<rparr>"
  by (cases "config_eq (vc_config v) c") (auto simp: apply_local_def Let_def)

lemma edit_keeps_inv:
  assumes inv: "gossip_inv g" and tick: "can_tick (nodes g i)"
  shows "gossip_inv (g\<lparr>nodes := (nodes g)(i := fst (apply_local (nodes g i) c i))\<rparr>)"
proof (cases rule: apply_local_cases [of "nodes g i" c i])
  case 1
  then show ?thesis using inv by simp
next
  case 2
  let ?t = "LamportTime (next_clock (nodes g i)) i"
  let ?v = "\<lparr> vc_config = c, vc_stamps = restamp (vc_config (nodes g i)) c ?t (vc_stamps (nodes g i)),
              vc_clock = next_clock (nodes g i) \<rparr>"
  have gt: "vc_clock (nodes g i) < next_clock (nodes g i)"
    using next_clock_gt [OF tick] by simp
  have fresh: "?t \<notin> shared_stamps (shared b)" if "known g b" for b
    using inv that gt by (fastforce simp: gossip_inv_def stamps_covered_def)
  have own: "stamps_covered g (shared (nodes g i))"
    using inv by (auto simp: gossip_inv_def known_def)
  show ?thesis
    unfolding 2
  proof (rule gossip_inv_update [OF inv])
    show "vc_clock (nodes g i) \<le> vc_clock ?v" using gt by simp
  next
    fix b assume "known g b"
    then have "shared_compat (shared (nodes g i)) (shared b)" "?t \<notin> shared_stamps (shared b)"
      using inv fresh by (auto simp: gossip_inv_def known_def)
    then show "shared_compat (shared ?v) (shared b)"
      unfolding shared_restamp shared_compat_def shared_view.simps
      by (intro conjI lww_compat_edit) (auto simp: shared_stamps_def)
  next
    show "stamps_covered (g\<lparr>nodes := (nodes g)(i := ?v)\<rparr>) (shared ?v)"
      unfolding stamps_covered_def
    proof
      fix u assume "u \<in> shared_stamps (shared ?v)"
      then have "u \<in> insert ?t (shared_stamps (shared (nodes g i)))"
        using shared_stamps_restamp by blast
      then have "counter u \<le> (if origin u = i then next_clock (nodes g i)
                              else vc_clock (nodes g (origin u)))"
        using own gt by (auto simp: stamps_covered_def)
      then show "counter u \<le> vc_clock (nodes (g\<lparr>nodes := (nodes g)(i := ?v)\<rparr>) (origin u))"
        by (simp split: if_splits)
    qed
  qed
qed

lemma shared_stamps_join: "shared_stamps (shared_join a b) \<subseteq> shared_stamps a \<union> shared_stamps b"
  by (auto simp: shared_stamps_def shared_join_def lww_def)

lemma receive_keeps_inv:
  assumes inv: "gossip_inv g" and v: "v \<in> set (net g)"
  shows "gossip_inv (g\<lparr>nodes := (nodes g)(i := fst (merge (nodes g i) v))\<rparr>)"
proof (rule gossip_inv_update [OF inv])
  have k: "known g v" "known g (nodes g i)" using v by (auto simp: known_def)
  show clock: "vc_clock (nodes g i) \<le> vc_clock (fst (merge (nodes g i) v))"
    by (simp add: merge_eq max.coboundedI1)
  show "shared_compat (shared (fst (merge (nodes g i) v))) (shared b)" if "known g b" for b
    unfolding shared_merge using inv k that
    by (intro sv.compat_join_left) (auto simp: gossip_inv_def)
  have "\<forall>t \<in> shared_stamps (shared (fst (merge (nodes g i) v))).
      counter t \<le> vc_clock (nodes g (origin t))"
    using shared_stamps_join [of "shared (nodes g i)" "shared v"] inv k
    unfolding shared_merge by (auto simp: gossip_inv_def stamps_covered_def)
  then show "stamps_covered (g\<lparr>nodes := (nodes g)(i := fst (merge (nodes g i) v))\<rparr>)
       (shared (fst (merge (nodes g i) v)))"
    using clock by (auto simp: stamps_covered_def intro: order_trans)
qed

lemma send_keeps_inv: "gossip_inv g \<Longrightarrow> gossip_inv (g\<lparr>net := nodes g i # net g\<rparr>)"
  by (auto simp: gossip_inv_def known_def stamps_covered_def)

lemma gossip_step_inv: "gossip_step g h \<Longrightarrow> gossip_inv g \<Longrightarrow> gossip_inv h"
  by (erule gossip_stepE) (simp_all add: edit_keeps_inv receive_keeps_inv send_keeps_inv)

lemma gossip_reachable_inv: "gossip_reachable g \<Longrightarrow> gossip_inv g"
  by (induction rule: gossip_reachable.induct) (auto intro: gossip_inv_init gossip_step_inv)

subsection \<open>What the peers can rely on\<close>


definition demo_gossip :: gossip where
  "demo_gossip = (let g = gossip_init (\<lambda>_. config_default)
     in g\<lparr>nodes := (nodes g)(''a'' := fst (apply_local (nodes g ''a'') (config_default\<lparr>port := 33001\<rparr>) ''a''))\<rparr>)"

lemma demo_gossip_reachable: "gossip_reachable demo_gossip"
proof -
  have "can_tick (nodes (gossip_init (\<lambda>_. config_default)) ''a'')"
    by (simp add: gossip_init_def can_tick_def vc_initial_def)
  then show ?thesis
    unfolding demo_gossip_def Let_def
    by (rule gossip_reachable.step [OF gossip_reachable.start gossip_step.edit])
qed


text \<open>The data flow of one sync session: the listener merges the initiator's state and replies
  with the result, which the initiator merges.\<close>

definition sync_exchange :: "versioned_config \<Rightarrow> versioned_config \<Rightarrow>
    versioned_config \<times> versioned_config" where
  "sync_exchange initiator listener =
     (let l = fst (merge listener initiator) in (fst (merge initiator l), l))"

lemma sync_exchange_shared:
  assumes "shared_compat (shared a) (shared b)" and "sync_exchange a b = (a', b')"
  shows "shared a' = shared b' \<and> shared b' = shared_join (shared a) (shared b)"
proof -
  have b': "shared b' = shared_join (shared b) (shared a)"
    and a': "shared a' = shared_join (shared a) (shared b')"
    using assms(2) by (auto simp: sync_exchange_def Let_def shared_merge)
  have "shared_join (shared b) (shared a) = shared_join (shared a) (shared b)"
    using sv.join_comm [OF assms(1)] by simp
  with a' b' show ?thesis
    by (metis sv.join_assoc sv.join_idem)
qed

text \<open>One sync session between any two machines of a reachable state leaves both with the same
  shared fields, stamps and head hash, and that view is the join of what they had: no field is
  rolled back to an older stamp.\<close>

theorem sync_session_converges:
  assumes "gossip_reachable g" and "sync_exchange (nodes g i) (nodes g j) = (a', b')"
  shows "shared a' = shared b' \<and>
         head_hash to_json sha256 hex a' = head_hash to_json sha256 hex b' \<and>
         shared b' = shared_join (shared (nodes g i)) (shared (nodes g j))"
proof -
  have "shared_compat (shared (nodes g i)) (shared (nodes g j))"
    using gossip_reachable_inv [OF assms(1)] by (auto simp: gossip_inv_def known_def)
  from sync_exchange_shared [OF this assms(2)] show ?thesis
    using hash_input_shared [of a' b'] by (simp add: head_hash_def)
qed

theorem sync_session_converges_witness:
  "(let (a', b') = sync_exchange (nodes demo_gossip ''a'') (nodes demo_gossip ''b'')
    in shared a' = shared b' \<and> port (vc_config b') = 33001)"
proof -
  obtain a' b' where e: "sync_exchange (nodes demo_gossip ''a'') (nodes demo_gossip ''b'') = (a', b')"
    by fastforce
  have "nodes demo_gossip ''a'' = demo_a" "nodes demo_gossip ''b'' = vc_initial config_default ''b''"
    by (simp_all add: demo_gossip_def gossip_init_def demo_a_def)
  then have "b' = fst (merge (vc_initial config_default ''b'') demo_a)"
    using e by (simp add: sync_exchange_def Let_def)
  then have "port (vc_config b') = 33001"
    by (simp add: merge_eq shared_def shared_join_def lww_def demo_eqs vc_initial_def stamps_all_def
        lamport_less_iff)
  then show ?thesis
    using sync_session_converges [OF demo_gossip_reachable e] e by simp
qed

end
