(* ===== verification/Sync_Protocol.thy ===== *)
theory Sync_Protocol
  imports Crypto_Api Gossip
begin

text \<open>
  The signed frame of a config-sync session (\<^verbatim>\<open>crates/synbad-sync/src/protocol.rs\<close>).  JSON
  and the crypto primitives are parameters; the transcript is modelled byte for byte.
\<close>

subsection \<open>Frames\<close>

definition SIGN_DOMAIN :: "byte list" where
  "SIGN_DOMAIN = as_bytes ''synbad-sync-v1''"

datatype protocol_error = PeMalformed string | PeBadSignature | PeBadPublicKey | PeHex | PeJson

record sync_frame =
  sf_from_machine_id :: string
  sf_nonce_hex :: string
  sf_state :: versioned_config
  sf_sig_hex :: string

definition push_field :: "byte list \<Rightarrow> byte list \<Rightarrow> byte list" where
  "push_field out field = (out @ u32_to_be_bytes (of_nat (length field))) @ field"

definition canonical_state_bytes ::
  "(versioned_config \<Rightarrow> byte list option) \<Rightarrow> string \<Rightarrow> byte list \<Rightarrow> versioned_config \<Rightarrow>
   (protocol_error, byte list) result" where
  "canonical_state_bytes to_vec from_machine_id nonce state =
     and_then (ok_or (to_vec state) PeJson) (\<lambda>state_bytes.
       let out = push_field [] SIGN_DOMAIN;
           out = push_field out (as_bytes from_machine_id);
           out = push_field out nonce;
           out = push_field out state_bytes
       in Ok out)"

definition sign_frame ::
  "'sk crypto \<Rightarrow> (versioned_config \<Rightarrow> byte list option) \<Rightarrow> 'sk \<Rightarrow> string \<Rightarrow> byte list \<Rightarrow>
   versioned_config \<Rightarrow> (protocol_error, sync_frame) result" where
  "sign_frame c to_vec signing_key from_machine_id nonce state =
     and_then (canonical_state_bytes to_vec from_machine_id nonce state) (\<lambda>signed_bytes.
       Ok \<lparr> sf_from_machine_id = from_machine_id, sf_nonce_hex = hex_encode c nonce,
            sf_state = state, sf_sig_hex = hex_encode c (ed_sign c signing_key signed_bytes) \<rparr>)"

fun sig_to_protocol_error :: "sig_error \<Rightarrow> protocol_error" where
  "sig_to_protocol_error SigBadKey = PeBadPublicKey"
| "sig_to_protocol_error SigBadSignature = PeBadSignature"

definition verify_frame ::
  "'sk crypto \<Rightarrow> (versioned_config \<Rightarrow> byte list option) \<Rightarrow> string \<Rightarrow> string option \<Rightarrow> sync_frame \<Rightarrow>
   (protocol_error, unit) result" where
  "verify_frame c to_vec peer_pubkey_hex expected_nonce_hex frame =
     (if (case expected_nonce_hex of Some expected \<Rightarrow> expected \<noteq> sf_nonce_hex frame | None \<Rightarrow> False)
      then Err (PeMalformed ''nonce echo mismatch'')
      else and_then (ok_or (hex_decode c (sf_nonce_hex frame)) PeHex) (\<lambda>nonce.
           and_then (canonical_state_bytes to_vec (sf_from_machine_id frame) nonce (sf_state frame))
             (\<lambda>signed_bytes.
               map_err sig_to_protocol_error
                 (verify_hex c peer_pubkey_hex signed_bytes (sf_sig_hex frame)))))"

subsection \<open>The transcript determines its fields\<close>

lemma push_field_prefixed: "push_field out field = out @ prefixed field"
  by (simp add: push_field_def prefixed_def)

lemma canonical_state_bytes_Ok:
  "canonical_state_bytes to_vec i n st = Ok bs \<longleftrightarrow>
   (\<exists>sb. to_vec st = Some sb \<and> bs = concat (map prefixed [SIGN_DOMAIN, as_bytes i, n, sb]))"
  by (auto simp: canonical_state_bytes_def push_field_prefixed result_iffs Let_def)

lemma canonical_state_bytes_inject:
  assumes "canonical_state_bytes to_vec i n st = Ok bs"
    and "canonical_state_bytes to_vec i' n' st' = Ok bs"
    and "length bs < 2 ^ 32"
  shows "i = i' \<and> n = n' \<and> to_vec st = to_vec st'"
proof -
  obtain sb sb' where sb: "to_vec st = Some sb" "to_vec st' = Some sb'"
    and eq: "bs = concat (map prefixed [SIGN_DOMAIN, as_bytes i, n, sb])"
            "bs = concat (map prefixed [SIGN_DOMAIN, as_bytes i', n', sb'])"
    using assms(1,2) by (auto simp: canonical_state_bytes_Ok)
  have "[SIGN_DOMAIN, as_bytes i, n, sb] = [SIGN_DOMAIN, as_bytes i', n', sb']"
  proof (rule concat_prefixed_inject)
    show "\<forall>f \<in> set [SIGN_DOMAIN, as_bytes i, n, sb]. length f < 2 ^ 32"
      using assms(3) unfolding eq(1) by simp
    show "\<forall>f \<in> set [SIGN_DOMAIN, as_bytes i', n', sb']. length f < 2 ^ 32"
      using assms(3) unfolding eq(2) by simp
  qed (simp_all only: eq [symmetric] length_Cons list.size)
  with sb show ?thesis by simp
qed

subsection \<open>Signing and verifying\<close>

lemma verify_frame_Ok:
  "verify_frame c to_vec pk expected f = Ok () \<longleftrightarrow>
   (\<forall>e. expected = Some e \<longrightarrow> e = sf_nonce_hex f) \<and>
   (\<exists>nonce bs. hex_decode c (sf_nonce_hex f) = Some nonce \<and>
      canonical_state_bytes to_vec (sf_from_machine_id f) nonce (sf_state f) = Ok bs \<and>
      verify_hex c pk bs (sf_sig_hex f) = Ok ())"
  by (auto simp: verify_frame_def result_iffs split: option.splits sum.splits)

text \<open>A frame a machine signs verifies under its public key, both when no nonce is
  expected and when the echoed nonce is the one sent; with any other expected nonce it is
  rejected before the signature is looked at.\<close>

theorem sign_verify_roundtrip:
  assumes "hex_law c" and "sign_law c"
    and "sign_frame c to_vec k machine_id nonce state = Ok f"
  shows "sf_from_machine_id f = machine_id \<and> sf_state f = state
       \<and> verify_frame c to_vec (hex_encode c (ed_public c k)) None f = Ok ()
       \<and> verify_frame c to_vec (hex_encode c (ed_public c k)) (Some (hex_encode c nonce)) f = Ok ()
       \<and> (\<forall>other. other \<noteq> hex_encode c nonce \<longrightarrow>
            verify_frame c to_vec (hex_encode c (ed_public c k)) (Some other) f
              = Err (PeMalformed ''nonce echo mismatch''))"
proof -
  obtain bs where bs: "canonical_state_bytes to_vec machine_id nonce state = Ok bs"
    and f: "f = \<lparr> sf_from_machine_id = machine_id, sf_nonce_hex = hex_encode c nonce,
                 sf_state = state, sf_sig_hex = hex_encode c (ed_sign c k bs) \<rparr>"
    using assms(3) by (auto simp: sign_frame_def result_iffs)
  have "hex_decode c (hex_encode c nonce) = Some nonce"
    using assms(1) by (simp add: hex_law_def)
  then have "verify_frame c to_vec (hex_encode c (ed_public c k)) e f = Ok ()"
    if "e = None \<or> e = Some (hex_encode c nonce)" for e
    using that bs verify_hex_signed [OF assms(1,2)] by (auto simp: verify_frame_Ok f)
  moreover have "verify_frame c to_vec (hex_encode c (ed_public c k)) (Some other) f
      = Err (PeMalformed ''nonce echo mismatch'')" if "other \<noteq> hex_encode c nonce" for other
    using that by (simp add: verify_frame_def f)
  moreover have "sf_from_machine_id f = machine_id \<and> sf_state f = state"
    by (simp add: f)
  ultimately show ?thesis by blast
qed

definition demo_to_vec :: "versioned_config \<Rightarrow> byte list option" where
  "demo_to_vec st = (if st = demo_a then Some [1, 2] else None)"

theorem sign_verify_roundtrip_witness:
  "\<exists>f. sign_frame demo_crypto demo_to_vec 5 ''a'' [1, 2] demo_a = Ok f
     \<and> verify_frame demo_crypto demo_to_vec (hex_of (replicate 32 5)) (Some (hex_of [1, 2])) f = Ok ()"
proof -
  obtain f where f: "sign_frame demo_crypto demo_to_vec 5 ''a'' [1, 2] demo_a = Ok f"
    by (simp add: sign_frame_def canonical_state_bytes_def demo_to_vec_def Let_def)
  show ?thesis
    using sign_verify_roundtrip [OF demo_hex_law demo_sign_law f] f
    by (auto simp: demo_crypto_def)
qed

text \<open>A frame that verifies under a trusted peer's key carries exactly a machine id, nonce
  and configuration that the holder of the key signed together, and the expected nonce when
  one was expected: no field can be exchanged, moved or resized under the signature.\<close>

theorem frame_authentic:
  assumes ok: "verify_frame c to_vec pk_hex expected f = Ok ()"
    and pk: "hex_decode c pk_hex = Some pk"
    and unf: "unforgeable c pk {bs. \<exists>(i, n, st) \<in> issued. canonical_state_bytes to_vec i n st = Ok bs}"
    and json: "\<And>st. to_vec st = to_vec (sf_state f) \<Longrightarrow> st = sf_state f"
    and size: "\<And>n bs. canonical_state_bytes to_vec (sf_from_machine_id f) n (sf_state f) = Ok bs \<Longrightarrow>
                 hex_decode c (sf_nonce_hex f) = Some n \<Longrightarrow> length bs < 2 ^ 32"
  shows "\<exists>nonce. hex_decode c (sf_nonce_hex f) = Some nonce
       \<and> (sf_from_machine_id f, nonce, sf_state f) \<in> issued
       \<and> (\<forall>e. expected = Some e \<longrightarrow> sf_nonce_hex f = e)"
proof -
  obtain nonce bs where n: "hex_decode c (sf_nonce_hex f) = Some nonce"
    and bs: "canonical_state_bytes to_vec (sf_from_machine_id f) nonce (sf_state f) = Ok bs"
    and v: "verify_hex c pk_hex bs (sf_sig_hex f) = Ok ()"
    and e: "\<forall>e. expected = Some e \<longrightarrow> e = sf_nonce_hex f"
    using ok by (auto simp: verify_frame_Ok)
  obtain i n' st where iss: "(i, n', st) \<in> issued" "canonical_state_bytes to_vec i n' st = Ok bs"
    using verify_hex_unforgeable [OF v pk unf] by auto
  have "i = sf_from_machine_id f \<and> n' = nonce \<and> to_vec st = to_vec (sf_state f)"
    using canonical_state_bytes_inject [OF iss(2) bs] size [OF bs n] by blast
  then have "(sf_from_machine_id f, nonce, sf_state f) \<in> issued"
    using iss(1) json by blast
  with n e show ?thesis by auto
qed

theorem frame_authentic_witness:
  "\<exists>c :: byte crypto. \<exists>f. verify_frame c demo_to_vec (hex_of (replicate 32 5)) None f = Ok ()
     \<and> (sf_from_machine_id f, [1, 2], sf_state f) \<in> {(''a'', [1, 2], demo_a)}"
proof -
  obtain bs0 where bs0: "canonical_state_bytes demo_to_vec ''a'' [1, 2] demo_a = Ok bs0"
    and len: "length bs0 < 2 ^ 32"
    by (simp add: canonical_state_bytes_Ok demo_to_vec_def SIGN_DOMAIN_def)
  define c where "c = demo_crypto\<lparr> ed_verify := (\<lambda>pk m s. m = bs0) \<rparr>"
  define f where "f = \<lparr> sf_from_machine_id = ''a'', sf_nonce_hex = hex_of [1, 2],
      sf_state = demo_a, sf_sig_hex = hex_of (replicate 64 5) \<rparr>"
  let ?issued = "{(''a'', [1, 2], demo_a)} :: (string \<times> byte list \<times> versioned_config) set"
  have hex: "hex_decode c = of_hex" by (simp add: c_def demo_crypto_def)
  have pk: "hex_decode c (hex_of (replicate 32 5)) = Some (replicate 32 5)"
    unfolding hex by (rule of_hex_hex_of)
  have nonce: "hex_decode c (sf_nonce_hex f) = Some [1, 2]"
    unfolding hex f_def sync_frame.simps by (rule of_hex_hex_of)
  have sig: "hex_decode c (sf_sig_hex f) = Some (replicate 64 5)"
    unfolding hex f_def sync_frame.simps by (rule of_hex_hex_of)
  have "parse_public_key c (hex_of (replicate 32 5)) = Some (replicate 32 5)"
    using pk by (simp add: parse_public_key_Some c_def demo_crypto_def)
  then have "verify_hex c (hex_of (replicate 32 5)) bs0 (sf_sig_hex f) = Ok ()"
    using sig by (auto simp: verify_hex_Ok c_def)
  then have ok: "verify_frame c demo_to_vec (hex_of (replicate 32 5)) None f = Ok ()"
    using nonce bs0 by (auto simp: verify_frame_Ok f_def)
  have "unforgeable c (replicate 32 5)
      {bs. \<exists>(i, n, st) \<in> ?issued. canonical_state_bytes demo_to_vec i n st = Ok bs}"
    using bs0 by (simp add: unforgeable_def c_def)
  note authentic = frame_authentic [OF ok pk this]
  have "\<exists>nonce. hex_decode c (sf_nonce_hex f) = Some nonce
      \<and> (sf_from_machine_id f, nonce, sf_state f) \<in> ?issued \<and> (\<forall>e. None = Some e \<longrightarrow> sf_nonce_hex f = e)"
  proof (rule authentic)
    show "demo_to_vec st = demo_to_vec (sf_state f) \<Longrightarrow> st = sf_state f" for st
      by (auto simp: demo_to_vec_def f_def split: if_splits)
    show "length bs < 2 ^ 32"
      if "canonical_state_bytes demo_to_vec (sf_from_machine_id f) n (sf_state f) = Ok bs"
        "hex_decode c (sf_nonce_hex f) = Some n" for n bs
      using that nonce bs0 len by (simp add: f_def)
  qed
  then show ?thesis
    using nonce ok by (intro exI [of _ c] exI [of _ f]) auto
qed

end
