(* ===== verification/Sync_Session.thy ===== *)
theory Sync_Session
  imports Links Config_Edit Sync_Protocol Gossip
begin

text \<open>
  The config-sync sessions of the daemon (\<^verbatim>\<open>crates/synbadd/src/sync.rs\<close>): both ends over the encrypted channel, and
  the requests they make of the supervisor.  The JSON codec of frames and of states is in the argument \<open>codec\<close>.  What
  has not arrived when the session's budget is over never arrives: a session that is still blocked has timed out.
\<close>

subsection \<open>Model\<close>

definition SYNC_MAX_FRAME_BYTES :: nat where "SYNC_MAX_FRAME_BYTES = 256 * 1024"

record sync_codec =
  state_vec :: "versioned_config \<Rightarrow> byte list option"
  frame_ser :: "sync_frame \<Rightarrow> byte list option"
  frame_de :: "byte list \<Rightarrow> sync_frame option"
  hash_json :: "shared_hash_input \<Rightarrow> byte list option"

definition head_of :: "'sk crypto \<Rightarrow> sync_codec \<Rightarrow> versioned_config \<Rightarrow> string" where
  "head_of c codec v = head_hash (hash_json codec) (sha256 c) (hex_encode c) v"

datatype sync_error =
    SyNoPort string
  | SyNotTrusted string
  | SyConnect io_kind
  | SyTimedOut
  | SyBadKey link_error
  | SyHandshake handshake_error
  | SySupervisorGone
  | SySign protocol_error
  | SySerialize
  | SyTooBig nat
  | SyChannel frame_error
  | SyParse
  | SyWrongPeer string string
  | SyVerify protocol_error
  | SyAnonymous
  | SyTrustGone string
  | SyNonceHex
  | SyNonceLength

record session_result =
  sr_updated :: bool
  sr_new_head :: string

definition send_sync_frame ::
  "aead \<Rightarrow> sync_codec \<Rightarrow> cipher_stream \<Rightarrow> sync_frame \<Rightarrow> write_result \<Rightarrow> byte list \<times> cipher_stream \<times> (sync_error, unit) result" where
  "send_sync_frame a codec chan frame w =
     (case frame_ser codec frame of
        None \<Rightarrow> ([], chan, Err SySerialize)
      | Some body \<Rightarrow>
          if SYNC_MAX_FRAME_BYTES \<le> length body then ([], chan, Err (SyTooBig (length body)))
          else case stream_send a chan body w of
            (out, chan', r) \<Rightarrow> (out, chan', map_err SyChannel r))"

definition recv_sync_frame ::
  "aead \<Rightarrow> sync_codec \<Rightarrow> cipher_stream \<Rightarrow> rx list \<Rightarrow> cipher_stream \<times> rx list \<times> (sync_error, sync_frame) result" where
  "recv_sync_frame a codec chan inb =
     (case stream_recv a chan inb of
        (chan', inb', Blocked) \<Rightarrow> (chan', inb', Err SyTimedOut)
      | (chan', inb', Ready r) \<Rightarrow>
          (chan', inb', and_then (map_err SyChannel r) (\<lambda>body.
             if SYNC_MAX_FRAME_BYTES \<le> length body then Err (SyTooBig (length body))
             else ok_or (frame_de codec body) SyParse)))"

text \<open>The outcome of the handshake as the session sees it.\<close>

definition sync_handshake ::
  "(handshake_error, cipher_stream \<times> peer_auth) result poll \<Rightarrow> (sync_error, cipher_stream \<times> peer_auth) result" where
  "sync_handshake res = (case res of Blocked \<Rightarrow> Err SyTimedOut | Ready r \<Rightarrow> map_err SyHandshake r)"

text \<open>
  What the rest of the world does during a session: the network, the nonce drawn, and the supervisor's replies
  (\<open>None\<close> if it is gone).
\<close>

record 'xk sync_env =
  sy_ended :: "(string \<times> attempt) list"
  sy_eph :: 'xk
  sy_hs_nonce :: "byte list"
  sy_inb :: "rx list"
  sy_w1 :: write_result
  sy_w2 :: write_result
  sy_w3 :: write_result
  sy_nonce :: "byte list"
  sy_snapshot :: "versioned_config option"
  sy_merge :: "string \<Rightarrow> versioned_config \<Rightarrow> versioned_config option"

text \<open>A session yields the bytes it wrote, the merges it asked for, and its result.\<close>

type_synonym 'r sync_out = "byte list \<times> (string \<times> versioned_config) list \<times> (sync_error, 'r) result"

definition outbound_tail ::
  "'sk crypto \<Rightarrow> aead \<Rightarrow> sync_codec \<Rightarrow> 'sk \<Rightarrow> string \<Rightarrow> 'xk sync_env \<Rightarrow> trusted_peer \<Rightarrow> cipher_stream \<Rightarrow> rx list \<Rightarrow>
   session_result sync_out" where
  "outbound_tail c a codec sk our_id env trusted chan inb =
     (case sy_snapshot env of
        None \<Rightarrow> ([], [], Err SySupervisorGone)
      | Some our_state \<Rightarrow>
          (case sign_frame c (state_vec codec) sk our_id (sy_nonce env) our_state of
             Inl e \<Rightarrow> ([], [], Err (SySign e))
           | Inr our_frame \<Rightarrow>
               (case send_sync_frame a codec chan our_frame (sy_w3 env) of
                  (out, _, Inl e) \<Rightarrow> (out, [], Err e)
                | (out, chan1, Inr _) \<Rightarrow>
                    (case recv_sync_frame a codec chan1 inb of
                       (_, _, Inl e) \<Rightarrow> (out, [], Err e)
                     | (_, _, Inr f) \<Rightarrow>
                         if sf_from_machine_id f \<noteq> tp_machine_id trusted
                         then (out, [], Err (SyWrongPeer (sf_from_machine_id f) (tp_machine_id trusted)))
                         else case verify_frame c (state_vec codec) (tp_public_key_hex trusted)
                                     (Some (hex_encode c (sy_nonce env))) f of
                           Inl e \<Rightarrow> (out, [], Err (SyVerify e))
                         | Inr _ \<Rightarrow>
                             (case sy_merge env (sf_from_machine_id f) (sf_state f) of
                                None \<Rightarrow> (out, [(sf_from_machine_id f, sf_state f)], Err SySupervisorGone)
                              | Some merged \<Rightarrow>
                                  (out, [(sf_from_machine_id f, sf_state f)],
                                   Ok \<lparr> sr_updated = (head_of c codec (sf_state our_frame) \<noteq> head_of c codec merged),
                                        sr_new_head = head_of c codec merged \<rparr>))))))"

definition outbound_inner ::
  "('sk, 'xk) handshake_api \<Rightarrow> sync_codec \<Rightarrow> 'sk \<Rightarrow> string \<Rightarrow> 'xk sync_env \<Rightarrow> trusted_peer \<Rightarrow> session_result sync_out" where
  "outbound_inner api codec sk our_id env trusted =
     (case stored_key (hs_crypto api) trusted of
        Inl e \<Rightarrow> ([], [], Err (SyBadKey e))
      | Inr peer_pk \<Rightarrow>
          (case initiate api (Authenticated sk our_id) (Some (tp_machine_id trusted, peer_pk)) (sy_eph env)
                  (sy_hs_nonce env) (sy_inb env) (sy_w1 env) (sy_w2 env) of
             (out1, inb, r) \<Rightarrow>
               (case sync_handshake r of
                  Inl e \<Rightarrow> (out1, [], Err e)
                | Inr (chan, _) \<Rightarrow>
                    (case outbound_tail (hs_crypto api) (hs_aead api) codec sk our_id env trusted chan inb of
                       (out2, merges, res) \<Rightarrow> (out1 @ out2, merges, res)))))"

text \<open>\<open>show_err\<close> is the wording of an error.  The result: the events sent, the merges asked for, and whether it succeeded.\<close>

definition run_outbound ::
  "('sk, 'xk) handshake_api \<Rightarrow> sync_codec \<Rightarrow> 'sk \<Rightarrow> string \<Rightarrow> trusted_peer_store \<Rightarrow> 'xk sync_env \<Rightarrow> discovered_peer \<Rightarrow>
   event list \<times> (string \<times> versioned_config) list \<times> (sync_error, unit) result" where
  "run_outbound api codec sk our_id trust env peer =
     (if dp_sync_port peer = 0 then ([], [], Err (SyNoPort (dp_machine_id peer)))
      else case trust_get trust (dp_machine_id peer) of
        None \<Rightarrow> ([], [], Err (SyNotTrusted (dp_machine_id peer)))
      | Some trusted \<Rightarrow>
          (case connect_peer peer (sy_ended env) of
             Inl e \<Rightarrow> ([], [], Err (SyConnect e))
           | Inr _ \<Rightarrow>
               (case outbound_inner api codec sk our_id env trusted of
                  (_, merges, Inl e) \<Rightarrow> ([EvSyncStarted (dp_machine_id peer) Outbound], merges, Err e)
                | (_, merges, Inr res) \<Rightarrow>
                    ([EvSyncStarted (dp_machine_id peer) Outbound,
                      EvSyncCompleted (dp_machine_id peer) Outbound (sr_updated res) (sr_new_head res)], merges, Ok ()))))"

definition spawn_outbound ::
  "(sync_error \<Rightarrow> string) \<Rightarrow> ('sk, 'xk) handshake_api \<Rightarrow> sync_codec \<Rightarrow> 'sk \<Rightarrow> string \<Rightarrow> trusted_peer_store \<Rightarrow> 'xk sync_env \<Rightarrow>
   discovered_peer \<Rightarrow> event list \<times> (string \<times> versioned_config) list \<times> bool" where
  "spawn_outbound show_err api codec sk our_id trust env peer =
     (case run_outbound api codec sk our_id trust env peer of
        (evs, merges, Inl e) \<Rightarrow> (evs @ [EvSyncFailed (dp_machine_id peer) Outbound (show_err e)], merges, False)
      | (evs, merges, Inr _) \<Rightarrow> (evs, merges, True))"

text \<open>The accepting side after the handshake, with the trust store it rereads.\<close>

definition inbound_tail ::
  "'sk crypto \<Rightarrow> aead \<Rightarrow> sync_codec \<Rightarrow> 'sk \<Rightarrow> string \<Rightarrow> 'xk sync_env \<Rightarrow> trusted_peer \<Rightarrow> cipher_stream \<Rightarrow> rx list \<Rightarrow>
   event list \<times> session_result sync_out" where
  "inbound_tail c a codec sk our_id env trusted chan inb =
     (case recv_sync_frame a codec chan inb of
        (_, _, Inl e) \<Rightarrow> ([], [], [], Err e)
      | (chan1, _, Inr f) \<Rightarrow>
          if sf_from_machine_id f \<noteq> tp_machine_id trusted
          then ([], [], [], Err (SyWrongPeer (tp_machine_id trusted) (sf_from_machine_id f)))
          else case verify_frame c (state_vec codec) (tp_public_key_hex trusted) None f of
            Inl e \<Rightarrow> ([], [], [], Err (SyVerify e))
          | Inr _ \<Rightarrow>
              (let started = [EvSyncStarted (tp_machine_id trusted) Inbound];
                   asked = [(tp_machine_id trusted, sf_state f)]
               in case sy_snapshot env of
                 None \<Rightarrow> (started, [], [], Err SySupervisorGone)
               | Some before \<Rightarrow>
                   (case sy_merge env (tp_machine_id trusted) (sf_state f) of
                      None \<Rightarrow> (started, [], asked, Err SySupervisorGone)
                    | Some merged \<Rightarrow>
                        (case hex_decode c (sf_nonce_hex f) of
                           None \<Rightarrow> (started, [], asked, Err SyNonceHex)
                         | Some nonce \<Rightarrow>
                             if length nonce \<noteq> 16 then (started, [], asked, Err SyNonceLength)
                             else case sign_frame c (state_vec codec) sk our_id nonce merged of
                               Inl e \<Rightarrow> (started, [], asked, Err (SySign e))
                             | Inr reply \<Rightarrow>
                                 (case send_sync_frame a codec chan1 reply (sy_w3 env) of
                                    (out, _, Inl e) \<Rightarrow> (started, out, asked, Err e)
                                  | (out, _, Inr _) \<Rightarrow>
                                      (started, out, asked,
                                       Ok \<lparr> sr_updated = (head_of c codec before \<noteq> head_of c codec merged),
                                            sr_new_head = head_of c codec merged \<rparr>))))))"

text \<open>The session; with the peer as known so far, for the failure event.\<close>

definition run_inbound_inner ::
  "('sk, 'xk) handshake_api \<Rightarrow> sync_codec \<Rightarrow> 'sk \<Rightarrow> string \<Rightarrow> trusted_peer_store \<Rightarrow> trusted_peer_store \<Rightarrow> 'xk sync_env \<Rightarrow>
   string \<times> event list \<times> session_result sync_out" where
  "run_inbound_inner api codec sk our_id trust trust' env =
     (case accept api (Authenticated sk our_id) (trust_snapshot (hs_crypto api) trust) (sy_eph env) (sy_hs_nonce env)
             (sy_inb env) (sy_w1 env) (sy_w2 env) of
        (out1, inb, r) \<Rightarrow>
          (case sync_handshake r of
             Inl e \<Rightarrow> ([], [], out1, [], Err e)
           | Inr (chan, PeerAnonymous) \<Rightarrow> ([], [], out1, [], Err SyAnonymous)
           | Inr (chan, PeerAuthenticated peer _) \<Rightarrow>
               (case trust_get trust' peer of
                  None \<Rightarrow> (peer, [], out1, [], Err (SyTrustGone peer))
                | Some trusted \<Rightarrow>
                    (case inbound_tail (hs_crypto api) (hs_aead api) codec sk our_id env trusted chan inb of
                       (evs, out2, merges, res) \<Rightarrow> (peer, evs, out1 @ out2, merges, res)))))"

definition run_session_with_timeout ::
  "(sync_error \<Rightarrow> string) \<Rightarrow> ('sk, 'xk) handshake_api \<Rightarrow> sync_codec \<Rightarrow> 'sk \<Rightarrow> string \<Rightarrow> trusted_peer_store \<Rightarrow>
   trusted_peer_store \<Rightarrow> 'xk sync_env \<Rightarrow> event list \<times> (string \<times> versioned_config) list \<times> bool" where
  "run_session_with_timeout show_err api codec sk our_id trust trust' env =
     (case run_inbound_inner api codec sk our_id trust trust' env of
        (peer, evs, _, merges, Inr res) \<Rightarrow>
          (evs @ [EvSyncCompleted peer Inbound (sr_updated res) (sr_new_head res)], merges, True)
      | (peer, evs, _, merges, Inl e) \<Rightarrow>
          (evs @ [EvSyncFailed peer Inbound (if e = SyTimedOut then ''session timed out'' else show_err e)], merges, False))"

subsection \<open>What is merged\<close>

lemma outbound_tail_merges:
  assumes "outbound_tail c a codec sk our_id env trusted chan inb = (out, merges, r)" and "(pid, st) \<in> set merges"
  obtains f where "pid = tp_machine_id trusted" "sf_from_machine_id f = pid" "sf_state f = st"
    "verify_frame c (state_vec codec) (tp_public_key_hex trusted) (Some (hex_encode c (sy_nonce env))) f = Ok ()"
  using assms
  by (auto simp: outbound_tail_def split: option.splits sum.splits prod.splits if_splits)

lemma outbound_inner_merges:
  assumes "(pid, st) \<in> set (fst (snd (outbound_inner api codec sk our_id env trusted)))"
  obtains f where "pid = tp_machine_id trusted" "sf_from_machine_id f = pid" "sf_state f = st"
    "verify_frame (hs_crypto api) (state_vec codec) (tp_public_key_hex trusted)
       (Some (hex_encode (hs_crypto api) (sy_nonce env))) f = Ok ()"
proof -
  obtain chan inb out merges r where "outbound_tail (hs_crypto api) (hs_aead api) codec sk our_id env trusted chan inb
      = (out, merges, r)" "(pid, st) \<in> set merges"
    using assms by (auto simp: outbound_inner_def split: sum.splits prod.splits)
  then show ?thesis using outbound_tail_merges that by metis
qed

lemma inbound_tail_merges:
  assumes "inbound_tail c a codec sk our_id env trusted chan inb = (evs, out, merges, r)" and "(pid, st) \<in> set merges"
  obtains f where "pid = tp_machine_id trusted" "sf_from_machine_id f = pid" "sf_state f = st"
    "verify_frame c (state_vec codec) (tp_public_key_hex trusted) None f = Ok ()"
  using assms
  by (auto simp: inbound_tail_def Let_def split: option.splits sum.splits prod.splits if_splits)

lemma inbound_merges:
  assumes "run_inbound_inner api codec sk our_id trust trust' env = (peer, evs, out, merges, r)" and "(pid, st) \<in> set merges"
  obtains p f where "trust_get trust' pid = Some p" "tp_machine_id p = pid" "sf_from_machine_id f = pid" "sf_state f = st"
    "verify_frame (hs_crypto api) (state_vec codec) (tp_public_key_hex p) None f = Ok ()"
    "trust_snapshot (hs_crypto api) trust pid \<noteq> None"
proof -
  obtain o1 inb r1 where acc: "accept api (Authenticated sk our_id) (trust_snapshot (hs_crypto api) trust) (sy_eph env)
      (sy_hs_nonce env) (sy_inb env) (sy_w1 env) (sy_w2 env) = (o1, inb, r1)" by (metis prod_cases3)
  obtain chan k p out2 where hs: "sync_handshake r1 = Ok (chan, PeerAuthenticated peer k)" "trust_get trust' peer = Some p"
      "inbound_tail (hs_crypto api) (hs_aead api) codec sk our_id env p chan inb = (evs, out2, merges, r)"
    using assms acc by (auto simp: run_inbound_inner_def split: sum.splits prod.splits peer_auth.splits option.splits)
  have p: "tp_machine_id p = peer" using trust_get_Some [OF hs(2)] by simp
  have "r1 = Ready (Ok (chan, PeerAuthenticated peer k))"
    using hs(1) by (cases r1) (auto simp: sync_handshake_def map_err_def split: sum.splits)
  with acc have "trust_snapshot (hs_crypto api) trust peer = Some k" using accept_Ok by (metis peer_auth.inject)
  moreover obtain f where "pid = tp_machine_id p" "sf_from_machine_id f = pid" "sf_state f = st"
      "verify_frame (hs_crypto api) (state_vec codec) (tp_public_key_hex p) None f = Ok ()"
    by (rule inbound_tail_merges [OF hs(3) assms(2)])
  ultimately show ?thesis by (intro that [of p f]) (use hs(2) p in simp_all)
qed

lemma verified_frame_signed:
  assumes "verify_frame c to_vec h expected f = Ok ()" and "\<And>k. hex_decode c h = Some k \<Longrightarrow> unforgeable c k msgs"
  obtains n bs where "canonical_state_bytes to_vec (sf_from_machine_id f) n (sf_state f) = Ok bs" "bs \<in> msgs"
    "hex_decode c (sf_nonce_hex f) = Some n" "\<forall>e. expected = Some e \<longrightarrow> e = sf_nonce_hex f"
proof -
  obtain n bs where v: "hex_decode c (sf_nonce_hex f) = Some n" "\<forall>e. expected = Some e \<longrightarrow> e = sf_nonce_hex f"
      "canonical_state_bytes to_vec (sf_from_machine_id f) n (sf_state f) = Ok bs" "verify_hex c h bs (sf_sig_hex f) = Ok ()"
    using assms(1) by (auto simp: verify_frame_Ok)
  obtain k where "hex_decode c h = Some k" using v(4) by (auto simp: verify_hex_Ok parse_public_key_Some)
  then have "bs \<in> msgs" using verify_hex_unforgeable [OF v(4) _ assms(2)] by blast
  then show ?thesis using that v by blast
qed

text \<open>C4. A sync session, from either end and whatever the network and the peer send, asks the supervisor to merge a
  state only as the state of a machine in the trust store, and only if the holder of the key stored for that machine
  signed exactly this state for it: on the dialling side together with the nonce drawn for this session, so that an
  old answer cannot be replayed.\<close>

theorem sync_merges_only_signed_states:
  assumes hex: "hex_law (hs_crypto api)"
    and unf: "\<And>p k. p \<in> set (trust_list trust') \<Longrightarrow> hex_decode (hs_crypto api) (tp_public_key_hex p) = Some k \<Longrightarrow>
      unforgeable (hs_crypto api) k (issued p)"
  shows "((pid, st) \<in> set (fst (snd (run_outbound api codec sk our_id trust' env peer))) \<longrightarrow>
      (\<exists>p bs. p \<in> set (trust_list trust') \<and> tp_machine_id p = pid \<and> pid = dp_machine_id peer
         \<and> canonical_state_bytes (state_vec codec) pid (sy_nonce env) st = Ok bs \<and> bs \<in> issued p))
   \<and> ((pid, st) \<in> set (fst (snd (run_session_with_timeout show_err api codec sk our_id trust trust' env'))) \<longrightarrow>
      (\<exists>p n bs. p \<in> set (trust_list trust') \<and> tp_machine_id p = pid
         \<and> canonical_state_bytes (state_vec codec) pid n st = Ok bs \<and> bs \<in> issued p))"
proof (intro conjI impI)
  assume "(pid, st) \<in> set (fst (snd (run_outbound api codec sk our_id trust' env peer)))"
  then obtain p where p: "trust_get trust' (dp_machine_id peer) = Some p"
      "(pid, st) \<in> set (fst (snd (outbound_inner api codec sk our_id env p)))"
    by (fastforce simp: run_outbound_def split: if_splits option.splits sum.splits prod.splits)
  have id: "p \<in> set (trust_list trust')" "tp_machine_id p = dp_machine_id peer"
    using trust_get_Some [OF p(1)] by (simp_all add: trust_list_def)
  obtain f where f: "pid = tp_machine_id p" "sf_from_machine_id f = pid" "sf_state f = st"
      "verify_frame (hs_crypto api) (state_vec codec) (tp_public_key_hex p)
         (Some (hex_encode (hs_crypto api) (sy_nonce env))) f = Ok ()"
    using outbound_inner_merges [OF p(2)] .
  obtain n bs where n: "canonical_state_bytes (state_vec codec) pid n st = Ok bs" "bs \<in> issued p"
      "hex_decode (hs_crypto api) (sf_nonce_hex f) = Some n" "hex_encode (hs_crypto api) (sy_nonce env) = sf_nonce_hex f"
    using verified_frame_signed [OF f(4) unf [OF id(1)]] f(2,3) by metis
  have "n = sy_nonce env" using n(3,4) hex by (metis hex_law_def option.inject)
  then show "\<exists>p bs. p \<in> set (trust_list trust') \<and> tp_machine_id p = pid \<and> pid = dp_machine_id peer
         \<and> canonical_state_bytes (state_vec codec) pid (sy_nonce env) st = Ok bs \<and> bs \<in> issued p"
    using n id f(1) by blast
next
  assume m: "(pid, st) \<in> set (fst (snd (run_session_with_timeout show_err api codec sk our_id trust trust' env')))"
  obtain pe evs out merges r where run: "run_inbound_inner api codec sk our_id trust trust' env' = (pe, evs, out, merges, r)"
    by (metis prod_cases5)
  have "(pid, st) \<in> set merges"
    using m by (cases r) (simp_all add: run_session_with_timeout_def run)
  then obtain p f where p: "trust_get trust' pid = Some p" "tp_machine_id p = pid" "sf_from_machine_id f = pid" "sf_state f = st"
      "verify_frame (hs_crypto api) (state_vec codec) (tp_public_key_hex p) None f = Ok ()"
    using inbound_merges [OF run] by metis
  have mem: "p \<in> set (trust_list trust')" using trust_get_Some [OF p(1)] by (simp add: trust_list_def)
  obtain n bs where "canonical_state_bytes (state_vec codec) pid n st = Ok bs" "bs \<in> issued p"
    using verified_frame_signed [OF p(5) unf [OF mem]] p(3,4) by metis
  then show "\<exists>p n bs. p \<in> set (trust_list trust') \<and> tp_machine_id p = pid
         \<and> canonical_state_bytes (state_vec codec) pid n st = Ok bs \<and> bs \<in> issued p"
    using mem p(2) by blast
qed

subsection \<open>Two honest machines\<close>

lemma send_sync_ok:
  assumes "frame_ser codec f = Some b" and "length b < SYNC_MAX_FRAME_BYTES"
    and "\<And>k n m. aead_encrypt a k n m \<noteq> None" and "cs_send_counter chan \<noteq> - 1"
  obtains out chan' where "send_sync_frame a codec chan f WroteAll = (out, chan', Ok ())"
    "stream_send a chan b WroteAll = (out, chan', Ok ())"
proof -
  have "\<exists>out chan'. stream_send a chan b WroteAll = (out, chan', Ok ())"
    using assms
    by (auto simp: stream_send_def write_frame_def checked_add1_def Let_def SYNC_MAX_FRAME_BYTES_def MAX_FRAME_BYTES_def
        split: option.splits)
  then show ?thesis using assms(1,2) that by (auto simp: send_sync_frame_def)
qed

lemma recv_sync_ok:
  assumes "aead_law a" and "mirrored s r" and "stream_send a s b WroteAll = (out, s', Ok ())"
    and "frame_de codec b = Some f" and "length b < SYNC_MAX_FRAME_BYTES"
    and "list_all is_data inb" and "data_bytes inb = out"
  obtains r' inb' where "recv_sync_frame a codec r inb = (r', inb', Ok f)" "mirrored s' r'"
    "snd (split_stream r') = snd (split_stream r)"
proof -
  obtain r' inb' where "stream_recv a r inb = (r', inb', Ready (Ok b))" "mirrored s' r'"
      "snd (split_stream r') = snd (split_stream r)"
    using stream_exchange [OF assms(1-3,6), of "[]"] assms(7) by auto
  then show ?thesis using that assms(4,5) by (simp add: recv_sync_frame_def)
qed

lemma sign_frame_fields:
  assumes "sign_frame c to_vec k i n v = Ok f"
  shows "sf_from_machine_id f = i" "sf_state f = v" "sf_nonce_hex f = hex_encode c n"
  using assms by (auto simp: sign_frame_def result_iffs)

lemma sign_frame_verifies:
  assumes "hex_law c" and "sign_law c" and "sign_frame c to_vec k i n v = Ok f"
    and "e = None \<or> e = Some (hex_encode c n)"
  shows "verify_frame c to_vec (hex_encode c (ed_public c k)) e f = Ok ()"
proof -
  obtain bs where bs: "canonical_state_bytes to_vec i n v = Ok bs"
    and f: "f = \<lparr> sf_from_machine_id = i, sf_nonce_hex = hex_encode c n, sf_state = v, sf_sig_hex = hex_encode c (ed_sign c k bs) \<rparr>"
    using assms(3) by (auto simp: sign_frame_def result_iffs)
  then show ?thesis
    using assms(1,4) verify_hex_signed [OF assms(1,2)] by (auto simp: verify_frame_Ok hex_law_def)
qed

lemma handle_sync_op_merges:
  assumes "validate (vc_config (fst (merge (v_versioned s) v))) = Ok ()"
  shows "v_versioned (fst (handle_sync_op dapi d w (MergeOp p v) s)) = fst (merge (v_versioned s) v)"
    and "snd (handle_sync_op dapi d w (MergeOp p v) s) = fst (merge (v_versioned s) v)"
proof -
  have "v_versioned (restart_if_needed arr b t) = v_versioned t" for arr b and t :: supervisor
  proof -
    have "core_sup.more (restart_if_needed arr b t) = core_sup.more t"
      by (simp add: restart_if_needed_def restart_core_def start_core_def stop_core_def set_state_def send_event_def Let_def
          split: option.splits)
    then show ?thesis by (cases t; cases "restart_if_needed arr b t") simp
  qed
  then have "v_versioned (adopt_merge dapi d w t) = v_versioned t" for t
    by (simp add: adopt_merge_def persist_sidecar_def send_event_def Let_def)
  then show "v_versioned (fst (handle_sync_op dapi d w (MergeOp p v) s)) = fst (merge (v_versioned s) v)"
    "snd (handle_sync_op dapi d w (MergeOp p v) s) = fst (merge (v_versioned s) v)"
    using assms by (cases "merge (v_versioned s) v"; simp add: handle_sync_op_def Let_def)+
qed

definition frame_fits :: "sync_codec \<Rightarrow> sync_frame \<Rightarrow> bool" where
  "frame_fits codec f \<longleftrightarrow>
     (\<exists>b. frame_ser codec f = Some b \<and> length b < SYNC_MAX_FRAME_BYTES \<and> frame_de codec b = Some f)"

text \<open>The two frames of a session over mirrored channels.\<close>

lemma tails_meet:
  assumes laws: "aead_law a" "\<And>k n m. aead_encrypt a k n m \<noteq> None"
    and fits: "frame_fits codec fA" "frame_fits codec fB"
    and cnt: "cs_send_counter sA = 1" "cs_send_counter sB = 1"
  obtains oA oB where
    "\<And>cA cB inbA inbB. mirrored cA cB \<Longrightarrow> snd (split_stream cA) = snd (split_stream sA) \<Longrightarrow>
       snd (split_stream cB) = snd (split_stream sB) \<Longrightarrow> list_all is_data inbA \<Longrightarrow> data_bytes inbA = oB \<Longrightarrow>
       list_all is_data inbB \<Longrightarrow> data_bytes inbB = oA \<Longrightarrow>
       \<exists>cA1 cA2 cB1 cB2 rA rB. send_sync_frame a codec cA fA WroteAll = (oA, cA1, Ok ())
         \<and> recv_sync_frame a codec cB inbB = (cB1, rB, Ok fA)
         \<and> send_sync_frame a codec cB1 fB WroteAll = (oB, cB2, Ok ())
         \<and> recv_sync_frame a codec cA1 inbA = (cA2, rA, Ok fB)"
proof -
  obtain bA bB where b: "frame_ser codec fA = Some bA" "length bA < SYNC_MAX_FRAME_BYTES" "frame_de codec bA = Some fA"
      "frame_ser codec fB = Some bB" "length bB < SYNC_MAX_FRAME_BYTES" "frame_de codec bB = Some fB"
    using fits by (auto simp: frame_fits_def)
  have c: "cs_send_counter sA \<noteq> - 1" "cs_send_counter sB \<noteq> - 1" using cnt by simp_all
  obtain oA sA' where A: "stream_send a sA bA WroteAll = (oA, sA', Ok ())"
    by (rule send_sync_ok [OF b(1,2) laws(2) c(1)]) blast
  obtain oB sB' where B: "stream_send a sB bB WroteAll = (oB, sB', Ok ())"
    by (rule send_sync_ok [OF b(4,5) laws(2) c(2)]) blast
  show ?thesis
  proof (rule that [of oB oA], goal_cases)
    case m: (1 cA cB inbA inbB)
    obtain cA1 where a1: "stream_send a cA bA WroteAll = (oA, cA1, Ok ())"
      using stream_send_same_half [OF m(2) A] by blast
    obtain cB1 rB where b1: "recv_sync_frame a codec cB inbB = (cB1, rB, Ok fA)" "mirrored cA1 cB1"
        "snd (split_stream cB1) = snd (split_stream cB)"
      by (rule recv_sync_ok [OF laws(1) m(1) a1 b(3,2) m(6,7)])
    obtain cB2 where b2: "stream_send a cB1 bB WroteAll = (oB, cB2, Ok ())"
      using stream_send_same_half [OF _ B] b1(3) m(3) by metis
    obtain cA2 rA where a2: "recv_sync_frame a codec cA1 inbA = (cA2, rA, Ok fB)"
      by (rule recv_sync_ok [OF laws(1) mirrored_sym [OF b1(2)] b2 b(6,5) m(4,5)])
    show ?case using a1 b1(1) b2 a2 b by (auto simp: send_sync_frame_def)
  qed
qed

lemma key_of_hex_public:
  "hex_law c \<Longrightarrow> sign_law c \<Longrightarrow> key_of_hex c (hex_encode c (ed_public c sk)) = Some (ed_public c sk)"
  by (simp add: key_of_hex_def hex_law_def sign_law_def)

lemma stored_key_public:
  "hex_law c \<Longrightarrow> sign_law c \<Longrightarrow> tp_public_key_hex p = hex_encode c (ed_public c sk) \<Longrightarrow> stored_key c p = Ok (ed_public c sk)"
  by (simp add: stored_key_def hex_law_def sign_law_def)

text \<open>Where every machine has one entry, the handshake sees the key of that entry.\<close>

lemma trust_snapshot_get:
  assumes "distinct (map tp_machine_id (trust_list trust))" and "trust_get trust m = Some p"
    and "key_of_hex c (tp_public_key_hex p) = Some k"
  shows "trust_snapshot c trust m = Some k"
proof -
  let ?f = "\<lambda>p. case key_of_hex c (tp_public_key_hex p) of None \<Rightarrow> [] | Some k \<Rightarrow> [(tp_machine_id p, k)]"
  have sub: "set (map fst (concat (map ?f ps))) \<subseteq> tp_machine_id ` set ps" for ps
    by (auto split: option.splits if_splits)
  have "distinct (map fst (concat (map ?f ps)))" if "distinct (map tp_machine_id ps)" for ps
    using that
  proof (induction ps)
    case (Cons x ps)
    then show ?case using sub [of ps] by (auto split: option.splits)
  qed simp
  then have d: "distinct (map fst (rev (concat (map ?f (trust_list trust)))))"
    using assms(1) by (simp only: rev_map [symmetric] distinct_rev)
  have "p \<in> set (trust_list trust)" "tp_machine_id p = m"
    using trust_get_Some [OF assms(2)] by (simp_all add: trust_list_def)
  then have "(m, k) \<in> set (rev (concat (map ?f (trust_list trust))))"
    using assms(3) by (auto intro!: bexI [of _ p] split: option.splits)
  then show ?thesis
    unfolding trust_snapshot_def using map_of_is_SomeI [OF d] by blast
qed

text \<open>The network delivers, and the supervisor \<open>s\<close> answers the session.\<close>

definition honest_env :: "daemon_api \<Rightarrow> dirs \<Rightarrow> world \<Rightarrow> supervisor \<Rightarrow> 'xk sync_env \<Rightarrow> bool" where
  "honest_env dapi d w s env \<longleftrightarrow>
     sy_w1 env = WroteAll \<and> sy_w2 env = WroteAll \<and> sy_w3 env = WroteAll \<and> length (sy_hs_nonce env) = 16
     \<and> sy_snapshot env = Some (v_versioned s)
     \<and> sy_merge env = (\<lambda>p v. Some (snd (handle_sync_op dapi d w (MergeOp p v) s)))"

lemma outbound_inner_run:
  assumes "stored_key (hs_crypto api) p = Ok pk"
    and "initiate api (Authenticated sk i) (Some (tp_machine_id p, pk)) (sy_eph env) (sy_hs_nonce env) (sy_inb env)
           (sy_w1 env) (sy_w2 env) = (out1, inb, Ready (Ok (chan, auth)))"
    and "sy_snapshot env = Some v" and "sign_frame (hs_crypto api) (state_vec codec) sk i (sy_nonce env) v = Ok fA"
    and "send_sync_frame (hs_aead api) codec chan fA (sy_w3 env) = (out2, chan1, Ok ())"
    and "recv_sync_frame (hs_aead api) codec chan1 inb = (chan2, inb2, Ok fB)"
    and "sf_from_machine_id fB = tp_machine_id p"
    and "verify_frame (hs_crypto api) (state_vec codec) (tp_public_key_hex p)
           (Some (hex_encode (hs_crypto api) (sy_nonce env))) fB = Ok ()"
    and "sy_merge env (tp_machine_id p) (sf_state fB) = Some m"
  shows "outbound_inner api codec sk i env p = (out1 @ out2, [(tp_machine_id p, sf_state fB)],
     Ok \<lparr> sr_updated = (head_of (hs_crypto api) codec v \<noteq> head_of (hs_crypto api) codec m),
          sr_new_head = head_of (hs_crypto api) codec m \<rparr>)"
  using assms sign_frame_fields(2) [OF assms(4)]
  by (simp add: outbound_inner_def outbound_tail_def sync_handshake_def map_err_def)

lemma run_inbound_run:
  assumes "accept api (Authenticated sk i) (trust_snapshot (hs_crypto api) trust) (sy_eph env) (sy_hs_nonce env) (sy_inb env)
           (sy_w1 env) (sy_w2 env) = (out1, inb, Ready (Ok (chan, PeerAuthenticated j k)))"
    and "trust_get trust' j = Some p"
    and "recv_sync_frame (hs_aead api) codec chan inb = (chan1, inb2, Ok fA)"
    and "sf_from_machine_id fA = j" and "verify_frame (hs_crypto api) (state_vec codec) (tp_public_key_hex p) None fA = Ok ()"
    and "sy_snapshot env = Some v" and "sy_merge env j (sf_state fA) = Some m"
    and "hex_decode (hs_crypto api) (sf_nonce_hex fA) = Some n" and "length n = 16"
    and "sign_frame (hs_crypto api) (state_vec codec) sk i n m = Ok fB"
    and "send_sync_frame (hs_aead api) codec chan1 fB (sy_w3 env) = (out2, chan2, Ok ())"
  shows "run_inbound_inner api codec sk i trust trust' env = (j, [EvSyncStarted j Inbound], out1 @ out2, [(j, sf_state fA)],
     Ok \<lparr> sr_updated = (head_of (hs_crypto api) codec v \<noteq> head_of (hs_crypto api) codec m),
          sr_new_head = head_of (hs_crypto api) codec m \<rparr>)"
  using assms trust_get_Some [OF assms(2)]
  by (simp add: run_inbound_inner_def inbound_tail_def sync_handshake_def map_err_def)

text \<open>Both ends of a session that meet, when the two frames verify.\<close>

lemma sessions_run:
  fixes api :: "('sk, 'xk) handshake_api" and envA envB :: "'xk sync_env"
  defines "c \<equiv> hs_crypto api"
  defines "t \<equiv> session_transcript api (sy_eph envA) (sy_hs_nonce envA) (sy_eph envB) (sy_hs_nonce envB)"
  assumes laws: "channel_laws api" "dh_laws api" "proves c skA idA t" "proves c skB idB t"
    and fits: "auth_fits api skA idA" "auth_fits api skB idB"
    and keyB: "tp_machine_id pB = idB" "stored_key c pB = Ok (ed_public c skB)"
    and keyA: "trust_snapshot c trustB idA = Some (ed_public c skA)" "trust_get trustB' idA = Some pA"
    and env: "honest_env apiA dA wA sA envA" "honest_env apiB dB wB sB envB"
    and fA: "sign_frame c (state_vec codec) skA idA (sy_nonce envA) (v_versioned sA) = Ok fA" "frame_fits codec fA"
      "verify_frame c (state_vec codec) (tp_public_key_hex pA) None fA = Ok ()"
      "hex_decode c (sf_nonce_hex fA) = Some n" "length n = 16"
    and l: "snd (handle_sync_op apiB dB wB (MergeOp idA (v_versioned sA)) sB) = l"
    and fB: "sign_frame c (state_vec codec) skB idB n l = Ok fB" "frame_fits codec fB"
      "verify_frame c (state_vec codec) (tp_public_key_hex pB) (Some (hex_encode c (sy_nonce envA))) fB = Ok ()"
    and m: "snd (handle_sync_op apiA dA wA (MergeOp idB l) sA) = m"
  obtains oA oB where "\<And>inbA inbB. list_all is_data inbA \<Longrightarrow> data_bytes inbA = oB \<Longrightarrow>
      list_all is_data inbB \<Longrightarrow> data_bytes inbB = oA \<Longrightarrow>
      outbound_inner api codec skA idA (envA\<lparr> sy_inb := inbA \<rparr>) pB = (oA, [(idB, l)],
        Ok \<lparr> sr_updated = (head_of c codec (v_versioned sA) \<noteq> head_of c codec m), sr_new_head = head_of c codec m \<rparr>)
    \<and> run_inbound_inner api codec skB idB trustB trustB' (envB\<lparr> sy_inb := inbB \<rparr>)
      = (idA, [EvSyncStarted idA Inbound], oB, [(idA, v_versioned sA)],
        Ok \<lparr> sr_updated = (head_of c codec (v_versioned sB) \<noteq> head_of c codec l), sr_new_head = head_of c codec l \<rparr>)"
proof -
  have n: "length (sy_hs_nonce envA) = 16" "length (sy_hs_nonce envB) = 16" using env by (simp_all add: honest_env_def)
  have law: "aead_law (hs_aead api)" "aead_encrypt (hs_aead api) k n m \<noteq> None" for k n m
    using laws(1) by (simp_all add: channel_laws_def)
  note sf = sign_frame_fields [OF fA(1)] sign_frame_fields [OF fB(1)]
  show ?thesis
  proof (rule handshake_streams [where resolve = "trust_snapshot (hs_crypto api) trustB" and id_i = idA,
        OF laws(1,2) laws(3,4) [unfolded c_def t_def] fits n keyA(1) [unfolded c_def]], goal_cases)
    case hs: (1 hA hB s_i s_r)
    show ?thesis
    proof (rule tails_meet [OF law fA(2) fB(2) hs(1,2)], goal_cases)
      case tails: (1 oA oB)
      show ?thesis
      proof (rule that [of "hB @ oB" "hA @ oA"], goal_cases)
        case d: (1 inbA inbB)
        obtain cA cB rA rB where h:
            "initiate api (Authenticated skA idA) (Some (idB, ed_public c skB)) (sy_eph envA) (sy_hs_nonce envA) inbA WroteAll WroteAll
              = (hA, rA, Ready (Ok (cA, PeerAuthenticated idB (ed_public c skB))))"
            "accept api (Authenticated skB idB) (trust_snapshot c trustB) (sy_eph envB) (sy_hs_nonce envB) inbB WroteAll WroteAll
              = (hB, rB, Ready (Ok (cB, PeerAuthenticated idA (ed_public c skA))))"
          and m': "mirrored cA cB" "snd (split_stream cA) = snd (split_stream s_i)" "snd (split_stream cB) = snd (split_stream s_r)"
            "list_all is_data rA" "data_bytes rA = oB" "list_all is_data rB" "data_bytes rB = oA"
          using hs(3) [OF d] unfolding c_def by blast
        obtain cA1 cA2 cB1 cB2 rA' rB' where x: "send_sync_frame (hs_aead api) codec cA fA WroteAll = (oA, cA1, Ok ())"
            "recv_sync_frame (hs_aead api) codec cB rB = (cB1, rB', Ok fA)"
            "send_sync_frame (hs_aead api) codec cB1 fB WroteAll = (oB, cB2, Ok ())"
            "recv_sync_frame (hs_aead api) codec cA1 rA = (cA2, rA', Ok fB)"
          using tails [OF m'] by blast
        have "outbound_inner api codec skA idA (envA\<lparr> sy_inb := inbA \<rparr>) pB = (hA @ oA, [(tp_machine_id pB, sf_state fB)],
            Ok \<lparr> sr_updated = (head_of c codec (v_versioned sA) \<noteq> head_of c codec m), sr_new_head = head_of c codec m \<rparr>)"
          unfolding c_def
          by (rule outbound_inner_run [where pk = "ed_public c skB" and fA = fA])
            (use h(1) x(1,4) keyB sf fB(3) fA(1) env(1) m in \<open>simp_all add: honest_env_def c_def\<close>)
        moreover have "run_inbound_inner api codec skB idB trustB trustB' (envB\<lparr> sy_inb := inbB \<rparr>)
          = (idA, [EvSyncStarted idA Inbound], hB @ oB, [(idA, sf_state fA)],
            Ok \<lparr> sr_updated = (head_of c codec (v_versioned sB) \<noteq> head_of c codec l), sr_new_head = head_of c codec l \<rparr>)"
          unfolding c_def
          by (rule run_inbound_run [where p = pA and n = n and fB = fB])
            (use h(2) x(2,3) keyA(2) sf fA(3-5) fB(1) env(2) l in \<open>simp_all add: honest_env_def c_def\<close>)
        ultimately show ?case using keyB(1) sf by simp
      qed
    qed
  qed
qed

text \<open>C3. One whole sync session between two paired daemons whose network delivers, cut into any chunks: dialling,
  handshake, both signed frames and both merges.  Both ends complete and report the same new head; each supervisor
  was asked for exactly one merge, of the other's state; and after these merges both supervisors hold the same
  shared fields and stamps, the join of what they had.\<close>

theorem sync_session_end_to_end:
  fixes api :: "('sk, 'xk) handshake_api"
  assumes laws: "channel_laws api" "dh_laws api" "hex_law (hs_crypto api)" "sign_law (hs_crypto api)"
    and fits: "auth_fits api skA idA" "auth_fits api skB idB"
    and peer: "dp_sync_port peer \<noteq> 0" "dp_machine_id peer = idB" "connect_peer peer (sy_ended envA) = Ok host"
    and trustA: "trust_get trustA idB = Some pB" "tp_public_key_hex pB = hex_encode (hs_crypto api) (ed_public (hs_crypto api) skB)"
    and trustB: "trust_get trustB idA = Some pA" "tp_public_key_hex pA = hex_encode (hs_crypto api) (ed_public (hs_crypto api) skA)"
      "distinct (map tp_machine_id (trust_list trustB))"
    and env: "honest_env apiA dA wA sA envA" "honest_env apiB dB wB sB envB" "length (sy_nonce envA) = 16"
    and frames: "sign_frame (hs_crypto api) (state_vec codec) skA idA (sy_nonce envA) (v_versioned sA) = Ok fA" "frame_fits codec fA"
      "sign_frame (hs_crypto api) (state_vec codec) skB idB (sy_nonce envA) (fst (merge (v_versioned sB) (v_versioned sA))) = Ok fB"
      "frame_fits codec fB"
    and valid: "validate (vc_config (fst (merge (v_versioned sB) (v_versioned sA)))) = Ok ()"
      "validate (vc_config (fst (merge (v_versioned sA) (fst (merge (v_versioned sB) (v_versioned sA)))))) = Ok ()"
    and compat: "shared_compat (shared (v_versioned sA)) (shared (v_versioned sB))"
  shows "\<exists>oA oB head updA updB vB vA. (\<forall>inbA inbB.
      list_all is_data inbA \<and> data_bytes inbA = oB \<and> list_all is_data inbB \<and> data_bytes inbB = oA \<longrightarrow>
      fst (outbound_inner api codec skA idA (envA\<lparr> sy_inb := inbA \<rparr>) pB) = oA
    \<and> spawn_outbound show_err api codec skA idA trustA (envA\<lparr> sy_inb := inbA \<rparr>) peer
        = ([EvSyncStarted idB Outbound, EvSyncCompleted idB Outbound updA head], [(idB, vB)], True)
    \<and> fst (snd (snd (run_inbound_inner api codec skB idB trustB trustB (envB\<lparr> sy_inb := inbB \<rparr>)))) = oB
    \<and> run_session_with_timeout show_err api codec skB idB trustB trustB (envB\<lparr> sy_inb := inbB \<rparr>)
        = ([EvSyncStarted idA Inbound, EvSyncCompleted idA Inbound updB head], [(idA, vA)], True))
    \<and> shared (v_versioned (fst (handle_sync_op apiA dA wA (MergeOp idB vB) sA))) = shared_join (shared (v_versioned sA)) (shared (v_versioned sB))
    \<and> shared (v_versioned (fst (handle_sync_op apiB dB wB (MergeOp idA vA) sB))) = shared_join (shared (v_versioned sA)) (shared (v_versioned sB))"
proof -
  let ?c = "hs_crypto api" and ?vA = "v_versioned sA" and ?vB = "v_versioned sB"
  let ?l = "fst (merge ?vB ?vA)"
  let ?m = "fst (merge ?vA ?l)"
  let ?h = "head_of ?c codec ?l"
  note opB = handle_sync_op_merges [OF valid(1), of apiB dB wB idA] and opA = handle_sync_op_merges [OF valid(2), of apiA dA wA idB]
  have "sync_exchange ?vA ?vB = (?m, ?l)" by (simp add: sync_exchange_def Let_def)
  from sync_exchange_shared [OF compat this]
  have sh: "shared ?m = shared_join (shared ?vA) (shared ?vB)" "shared ?l = shared_join (shared ?vA) (shared ?vB)" by simp_all
  then have head: "head_of ?c codec ?m = ?h"
    using hash_input_shared [of ?m ?l] by (simp add: head_of_def head_hash_def)
  have ver: "proves ?c sk i t" for sk i t using laws(3,4) by (simp add: proves_def verify_our_auth_frame)
  have key: "trust_snapshot ?c trustB idA = Some (ed_public ?c skA)"
    by (rule trust_snapshot_get [OF trustB(3,1)]) (simp add: trustB(2) key_of_hex_public [OF laws(3,4)])
  have idB: "tp_machine_id pB = idB" using trust_get_Some [OF trustA(1)] by simp
  have vf: "verify_frame ?c (state_vec codec) (tp_public_key_hex pA) None fA = Ok ()"
      "verify_frame ?c (state_vec codec) (tp_public_key_hex pB) (Some (hex_encode ?c (sy_nonce envA))) fB = Ok ()"
      "hex_decode ?c (sf_nonce_hex fA) = Some (sy_nonce envA)"
    using sign_frame_verifies [OF laws(3,4) frames(1)] sign_frame_verifies [OF laws(3,4) frames(3)]
      sign_frame_fields(3) [OF frames(1)] laws(3) by (simp_all add: trustA(2) trustB(2) hex_law_def)
  show ?thesis
  proof (rule sessions_run [OF laws(1,2) ver ver fits idB stored_key_public [OF laws(3,4) trustA(2)] key trustB(1) env(1,2)
        frames(1,2) vf(1,3) env(3) opB(2) frames(3,4) vf(2) opA(2)], goal_cases)
    case run: (1 oA oB)
    have sessions: "fst (outbound_inner api codec skA idA (envA\<lparr> sy_inb := inbA \<rparr>) pB) = oA
      \<and> spawn_outbound show_err api codec skA idA trustA (envA\<lparr> sy_inb := inbA \<rparr>) peer
        = ([EvSyncStarted idB Outbound, EvSyncCompleted idB Outbound (head_of ?c codec ?vA \<noteq> ?h) ?h], [(idB, ?l)], True)
      \<and> fst (snd (snd (run_inbound_inner api codec skB idB trustB trustB (envB\<lparr> sy_inb := inbB \<rparr>)))) = oB
      \<and> run_session_with_timeout show_err api codec skB idB trustB trustB (envB\<lparr> sy_inb := inbB \<rparr>)
        = ([EvSyncStarted idA Inbound, EvSyncCompleted idA Inbound (head_of ?c codec ?vB \<noteq> ?h) ?h], [(idA, ?vA)], True)"
      if "list_all is_data inbA \<and> data_bytes inbA = oB \<and> list_all is_data inbB \<and> data_bytes inbB = oA" for inbA inbB
      using run [of inbA inbB] that peer trustA(1) head
      by (simp add: spawn_outbound_def run_outbound_def run_session_with_timeout_def)
    show ?thesis
      by (rule exI [of _ oA], rule exI [of _ oB], rule exI [of _ ?h], rule exI [of _ "head_of ?c codec ?vA \<noteq> ?h"],
          rule exI [of _ "head_of ?c codec ?vB \<noteq> ?h"], rule exI [of _ ?l], rule exI [of _ ?vA],
          intro conjI allI impI sessions)
        (simp_all add: opA(1) opB(1) sh)
  qed
qed

subsection \<open>A concrete session\<close>

definition demo_state_vec :: "versioned_config \<Rightarrow> byte list option" where "demo_state_vec v = Some [9]"

definition demo_codec :: "sync_frame \<Rightarrow> sync_frame \<Rightarrow> sync_codec" where
  "demo_codec fA fB = \<lparr> state_vec = demo_state_vec, frame_ser = (\<lambda>f. if f = fA then Some [1] else Some [2]),
     frame_de = (\<lambda>b. if b = [1] then Some fA else Some fB), hash_json = (\<lambda>_. None) \<rparr>"

definition demo_sync_env :: "supervisor \<Rightarrow> byte \<Rightarrow> byte sync_env" where
  "demo_sync_env s k = \<lparr> sy_ended = [(''10.0.0.2'', Att_Connected None)], sy_eph = k, sy_hs_nonce = replicate 16 k, sy_inb = [],
     sy_w1 = WroteAll, sy_w2 = WroteAll, sy_w3 = WroteAll, sy_nonce = replicate 16 4, sy_snapshot = Some (v_versioned s),
     sy_merge = (\<lambda>p v. Some (snd (handle_sync_op demo_daemon_api demo_dirs demo_world (MergeOp p v) s))) \<rparr>"

definition demo_sA :: supervisor where "demo_sA = demo_supervisor\<lparr> v_versioned := demo_a \<rparr>"
definition demo_sB :: supervisor where "demo_sB = demo_supervisor\<lparr> v_versioned := vc_initial config_default ''b'' \<rparr>"

definition demo_trusted :: "string \<Rightarrow> byte \<Rightarrow> trusted_peer" where
  "demo_trusted i k = demo_peer\<lparr> tp_machine_id := i, tp_public_key_hex := hex_of (replicate 32 k) \<rparr>"

definition demo_trusts :: "string \<Rightarrow> byte \<Rightarrow> trusted_peer_store" where
  "demo_trusts i k = \<lparr> ts_path = [''trust''], ts_peers = [demo_trusted i k] \<rparr>"

lemma demo_trust_get: "trust_get (demo_trusts i k) i = Some (demo_trusted i k)"
  "distinct (map tp_machine_id (trust_list (demo_trusts i k)))"
  by (simp_all add: trust_get_def demo_trusts_def demo_trusted_def trust_list_def)

lemma demo_honest: "honest_env demo_daemon_api demo_dirs demo_world s (demo_sync_env s k)"
  by (simp add: honest_env_def demo_sync_env_def)

lemma demo_states:
  "v_versioned demo_sA = demo_a" "v_versioned demo_sB = vc_initial config_default ''b''"
  by (simp_all add: demo_sA_def demo_sB_def)

lemma demo_merged:
  "vc_config (fst (merge (vc_initial config_default ''b'') demo_a)) = config_default\<lparr> port := 33001 \<rparr>"
  "vc_config (fst (merge demo_a (fst (merge (vc_initial config_default ''b'') demo_a)))) = config_default\<lparr> port := 33001 \<rparr>"
  by (simp_all add: merge_eq shared_def shared_join_def lww_def demo_eqs vc_initial_def stamps_all_def lamport_less_iff)

lemma validate_port: "validate (c\<lparr> port := p \<rparr>) = validate c"
  by (simp add: validate_def)

lemma demo_compat: "shared_compat (shared demo_a) (shared (vc_initial config_default ''b''))"
  by (simp add: demo_eqs shared_def shared_compat_def lww_compat_def stamps_all_def vc_initial_def)

lemma demo_signed:
  obtains f where "sign_frame c demo_state_vec k i n v = Ok f"
  by (simp add: sign_frame_def canonical_state_bytes_def demo_state_vec_def Let_def)

lemma demo_frames_fit:
  assumes "fA \<noteq> fB"
  shows "frame_fits (demo_codec fA fB) fA" "frame_fits (demo_codec fA fB) fB"
  using assms by (auto simp: frame_fits_def demo_codec_def SYNC_MAX_FRAME_BYTES_def)

lemma demo_connects: "connect_peer demo_discovered (sy_ended (demo_sync_env s k)) = Ok ''10.0.0.2''"
  by (simp add: connect_peer_def connect_hosts_def demo_sync_env_def)

theorem sync_session_end_to_end_witness:
  "\<exists>fA fB oB updA head vB. spawn_outbound (\<lambda>_. ''failed'') demo_api (demo_codec fA fB) 5 ''a'' (demo_trusts ''b'' 7)
       (demo_sync_env demo_sA 2\<lparr> sy_inb := [Data oB] \<rparr>) demo_discovered
     = ([EvSyncStarted ''b'' Outbound, EvSyncCompleted ''b'' Outbound updA head], [(''b'', vB)], True)
   \<and> shared (v_versioned (fst (handle_sync_op demo_daemon_api demo_dirs demo_world (MergeOp ''b'' vB) demo_sA)))
     = shared_join (shared (v_versioned demo_sA)) (shared (v_versioned demo_sB))"
proof -
  let ?n = "replicate 16 4 :: byte list" and ?l = "fst (merge (v_versioned demo_sB) (v_versioned demo_sA))"
  obtain fA where fA: "sign_frame demo_crypto demo_state_vec 5 ''a'' ?n (v_versioned demo_sA) = Ok fA" by (rule demo_signed)
  obtain fB where fB: "sign_frame demo_crypto demo_state_vec 7 ''b'' ?n ?l = Ok fB" by (rule demo_signed)
  have "fA \<noteq> fB" using sign_frame_fields(1) [OF fA] sign_frame_fields(1) [OF fB] by auto
  note fit = demo_frames_fit [OF this]
  have sv: "state_vec (demo_codec fA fB) = demo_state_vec" "sy_nonce (demo_sync_env demo_sA 2) = ?n"
    by (simp_all add: demo_codec_def demo_sync_env_def)
  have pk: "tp_public_key_hex (demo_trusted i k) = hex_encode demo_crypto (ed_public demo_crypto k)" for i k
    by (simp add: demo_trusted_def demo_crypto_def)
  have id: "dp_machine_id demo_discovered = ''b''" "dp_sync_port demo_discovered \<noteq> 0" by (simp_all add: demo_discovered_def)
  have val: "validate (vc_config ?l) = Ok ()" "validate (vc_config (fst (merge (v_versioned demo_sA) ?l))) = Ok ()"
    by (simp_all add: demo_states demo_merged validate_port validate_config_default)
  have len: "length (sy_nonce (demo_sync_env demo_sA 2)) = 16" by (simp add: sv)
  from sync_session_end_to_end [where api = demo_api and codec = "demo_codec fA fB" and show_err = "\<lambda>_. ''failed''"
        and envA = "demo_sync_env demo_sA 2" and envB = "demo_sync_env demo_sB 3", unfolded demo_api_simps sv,
      OF demo_channel_laws demo_dh_laws demo_hex_law demo_sign_law demo_auth_fits id(2,1) demo_connects
        demo_trust_get(1) pk demo_trust_get(1) pk demo_trust_get(2) demo_honest demo_honest len [unfolded sv] fA fit(1) fB fit(2) val
        demo_compat [folded demo_states]]
  obtain oA oB head updA vB where r: "\<forall>inbA inbB. list_all is_data inbA \<and> data_bytes inbA = oB \<and> list_all is_data inbB \<and> data_bytes inbB = oA \<longrightarrow>
      spawn_outbound (\<lambda>_. ''failed'') demo_api (demo_codec fA fB) 5 ''a'' (demo_trusts ''b'' 7) (demo_sync_env demo_sA 2\<lparr> sy_inb := inbA \<rparr>) demo_discovered
        = ([EvSyncStarted ''b'' Outbound, EvSyncCompleted ''b'' Outbound updA head], [(''b'', vB)], True)"
      "shared (v_versioned (fst (handle_sync_op demo_daemon_api demo_dirs demo_world (MergeOp ''b'' vB) demo_sA)))
        = shared_join (shared (v_versioned demo_sA)) (shared (v_versioned demo_sB))"
    by blast
  have "list_all is_data [Data bs]" "data_bytes [Data bs] = bs" for bs by simp_all
  then show ?thesis using r by blast
qed

text \<open>A signature scheme under which only short messages were ever signed.\<close>

definition guarded_api :: "(byte, byte) handshake_api" where
  "guarded_api = demo_api\<lparr> hs_crypto := demo_crypto\<lparr> ed_verify :=
     (\<lambda>pk m s. pk \<noteq> [] \<and> s = replicate 64 (hd pk) \<and> length m < 100) \<rparr> \<rparr>"

lemma guarded_simps:
  "hs_aead guarded_api = demo_aead" "hex_encode (hs_crypto guarded_api) = hex_of" "hex_decode (hs_crypto guarded_api) = of_hex"
  "ed_public (hs_crypto guarded_api) k = replicate 32 k" "ed_sign (hs_crypto guarded_api) k m = replicate 64 k"
  "ed_key_ok (hs_crypto guarded_api) pk" "length (sha256 (hs_crypto guarded_api) bs) = 32"
  "ed_verify (hs_crypto guarded_api) pk m s \<longleftrightarrow> pk \<noteq> [] \<and> s = replicate 64 (hd pk) \<and> length m < 100"
  by (simp_all add: guarded_api_def demo_crypto_def)

lemma guarded_laws: "channel_laws guarded_api" "dh_laws guarded_api" "hex_law (hs_crypto guarded_api)"
  using demo_channel_laws demo_dh_laws by (simp_all add: channel_laws_def dh_laws_def hex_law_def guarded_simps) (simp_all add: guarded_api_def)

lemma guarded_fits: "auth_fits guarded_api 5 ''a''" "auth_fits guarded_api 7 ''b''"
proof -
  have "our_auth_frame (hs_crypto guarded_api) k i t = demo_frame k i" for k i t
    by (simp add: our_auth_frame_def guarded_simps demo_frame_def demo_crypto_def)
  then show "auth_fits guarded_api 5 ''a''" "auth_fits guarded_api 7 ''b''"
    unfolding auth_fits_def by (simp_all add: guarded_api_def demo_api_def MAX_AUTH_FRAME_BYTES_def)
qed

lemma guarded_proves: "length t < 100 \<Longrightarrow> proves (hs_crypto guarded_api) k i t"
  unfolding proves_def verify_auth_frame_def our_auth_frame_def
  by (simp add: guarded_simps del: replicate.simps hex_of.simps)

lemma guarded_verifies:
  assumes "sign_frame (hs_crypto guarded_api) demo_state_vec k i n v = Ok f" and "length i + length n < 40"
    and "e = None \<or> e = Some (hex_of n)"
  shows "verify_frame (hs_crypto guarded_api) demo_state_vec (hex_of (replicate 32 k)) e f = Ok ()"
proof -
  obtain bs where bs: "canonical_state_bytes demo_state_vec i n v = Ok bs"
    and f: "f = \<lparr> sf_from_machine_id = i, sf_nonce_hex = hex_of n, sf_state = v, sf_sig_hex = hex_of (replicate 64 k) \<rparr>"
    using assms(1) by (auto simp: sign_frame_def result_iffs guarded_simps)
  have "length bs < 100"
    using bs assms(2) by (auto simp: canonical_state_bytes_Ok demo_state_vec_def SIGN_DOMAIN_def)
  then have "verify_hex (hs_crypto guarded_api) (hex_of (replicate 32 k)) bs (hex_of (replicate 64 k)) = Ok ()"
    by (simp add: verify_hex_Ok parse_public_key_Some guarded_simps del: replicate.simps hex_of.simps)
  then show ?thesis
    using bs assms(3) by (auto simp: verify_frame_Ok f guarded_simps)
qed

theorem sync_merges_only_signed_states_witness:
  "\<exists>fA fB oB st bs. (''b'', st) \<in> set (fst (snd (run_outbound guarded_api (demo_codec fA fB) 5 ''a'' (demo_trusts ''b'' 7)
       (demo_sync_env demo_sA 2\<lparr> sy_inb := [Data oB] \<rparr>) demo_discovered)))
     \<and> canonical_state_bytes demo_state_vec ''b'' (replicate 16 4) st = Ok bs \<and> length bs < 100"
proof -
  let ?c = "hs_crypto guarded_api" and ?n = "replicate 16 4 :: byte list" and ?l = "snd (handle_sync_op demo_daemon_api demo_dirs
    demo_world (MergeOp ''a'' (v_versioned demo_sA)) demo_sB)"
  let ?A = "demo_sync_env demo_sA 2" and ?B = "demo_sync_env demo_sB 3"
  obtain fA where fA: "sign_frame ?c demo_state_vec 5 ''a'' ?n (v_versioned demo_sA) = Ok fA" by (rule demo_signed)
  obtain fB where fB: "sign_frame ?c demo_state_vec 7 ''b'' ?n ?l = Ok fB" by (rule demo_signed)
  have "fA \<noteq> fB" using sign_frame_fields(1) [OF fA] sign_frame_fields(1) [OF fB] by auto
  note fit = demo_frames_fit [OF this]
  have sv: "state_vec (demo_codec fA fB) = demo_state_vec" "sy_nonce ?A = ?n"
    by (simp_all add: demo_codec_def demo_sync_env_def)
  have pk: "tp_public_key_hex (demo_trusted i k) = hex_of (replicate 32 k)" "tp_machine_id (demo_trusted i k) = i" for i k
    by (simp_all add: demo_trusted_def)
  have tr: "length (session_transcript guarded_api a b c d) < 100" for a b c d
    by (simp add: session_transcript_def guarded_simps)
  have key: "key_of_hex ?c (tp_public_key_hex (demo_trusted i k)) = Some (ed_public ?c k)"
      "stored_key ?c (demo_trusted i k) = Ok (ed_public ?c k)" for i k
    by (simp_all add: key_of_hex_def stored_key_def pk guarded_simps del: replicate.simps hex_of.simps)
  have snap: "trust_snapshot ?c (demo_trusts ''a'' 5) ''a'' = Some (ed_public ?c 5)"
    by (rule trust_snapshot_get [OF demo_trust_get(2,1) key(1)])
  have ver: "verify_frame ?c demo_state_vec (tp_public_key_hex (demo_trusted ''a'' 5)) None fA = Ok ()"
      "verify_frame ?c demo_state_vec (tp_public_key_hex (demo_trusted ''b'' 7)) (Some (hex_encode ?c ?n)) fB = Ok ()"
    unfolding pk guarded_simps(2) by (rule guarded_verifies [OF fA] guarded_verifies [OF fB]; simp)+
  have n: "hex_decode ?c (sf_nonce_hex fA) = Some ?n" "length ?n = 16"
    unfolding sign_frame_fields(3) [OF fA] guarded_simps(2,3) by (rule of_hex_hex_of) simp
  have id: "dp_machine_id demo_discovered = ''b''" "dp_sync_port demo_discovered \<noteq> 0" by (simp_all add: demo_discovered_def)
  obtain oB where run: "(''b'', ?l) \<in> set (fst (snd (outbound_inner guarded_api (demo_codec fA fB) 5 ''a''
      (?A\<lparr> sy_inb := [Data oB] \<rparr>) (demo_trusted ''b'' 7))))"
  proof (rule sessions_run [where api = guarded_api and codec = "demo_codec fA fB" and envA = ?A and envB = ?B, unfolded sv,
      OF guarded_laws(1,2) guarded_proves [OF tr] guarded_proves [OF tr] guarded_fits pk(2) key(2) snap demo_trust_get(1)
        demo_honest demo_honest fA fit(1) ver(1) n refl fB fit(2) ver(2) refl], goal_cases)
    case (1 oA oB)
    show ?case by (rule 1(1) [of oB]) (use 1(2) [of "[Data oB]" "[Data oA]"] in simp)
  qed
  then have mem: "(''b'', ?l) \<in> set (fst (snd (run_outbound guarded_api (demo_codec fA fB) 5 ''a'' (demo_trusts ''b'' 7)
       (?A\<lparr> sy_inb := [Data oB] \<rparr>) demo_discovered)))"
    using demo_connects [of demo_sA 2]
    by (auto simp: run_outbound_def id demo_trust_get split: sum.splits prod.splits)
  have unf: "unforgeable ?c k {m. length m < 100}" for k by (simp add: unforgeable_def guarded_simps)
  from conjunct1 [OF sync_merges_only_signed_states [where api = guarded_api and issued = "\<lambda>_. {m. length m < 100}" and trust' = "demo_trusts ''b'' 7"
      and codec = "demo_codec fA fB" and env = "?A\<lparr> sy_inb := [Data oB] \<rparr>",
      OF guarded_laws(3) unf], rule_format, OF mem]
  obtain bs where "canonical_state_bytes demo_state_vec ''b'' (replicate 16 4) ?l = Ok bs" "length bs < 100"
    unfolding sv by (auto simp: demo_sync_env_def)
  then show ?thesis using mem by blast
qed

end
