(* ===== verification/Pairing.thy ===== *)
theory Pairing
  imports Crypto_Api Trust_Store Transport
begin

text \<open>
  Pairing: the transport-agnostic transcript and short authentication string
  (\<^verbatim>\<open>crates/synbad-discovery/src/pairing.rs\<close>) and the session that the daemon runs on top of an
  encrypted channel (\<^verbatim>\<open>crates/synbadd/src/pairing.rs\<close>).  What the channel, the clock and the user
  do at each await of a session is an argument, so the theorems cover every outcome, timeouts
  included.
\<close>

subsection \<open>Transcript, code and signatures\<close>

definition SAS_DOMAIN :: "byte list" where
  "SAS_DOMAIN = as_bytes ''synbad-pair-sas-v1''"

datatype pairing_error = PrMalformed string | PrBadSignature | PrPeerDeclined | PrBadPublicKey

record pair_hello =
  ph_pubkey_hex :: string
  ph_nonce_hex :: string
  ph_machine_id :: string
  ph_display_name :: string

record pair_confirm =
  pc_accepted :: bool
  pc_sig_hex :: string

definition pair_push_field :: "byte list \<Rightarrow> byte list \<Rightarrow> byte list" where
  "pair_push_field out field = (out @ u32_to_be_bytes (of_nat (length field))) @ field"

definition push_side :: "byte list \<Rightarrow> pair_hello \<Rightarrow> byte list" where
  "push_side out side =
     (let out = pair_push_field out (as_bytes (ph_pubkey_hex side));
          out = pair_push_field out (as_bytes (ph_nonce_hex side));
          out = pair_push_field out (as_bytes (ph_machine_id side))
      in pair_push_field out (as_bytes (ph_display_name side)))"

text \<open>Rust compares the key strings bytewise; so does the order on \<^typ>\<open>string\<close> here.\<close>

definition canonical_transcript :: "pair_hello \<Rightarrow> pair_hello \<Rightarrow> byte list" where
  "canonical_transcript a b =
     (let (lo, hi) = if ph_pubkey_hex a \<le> ph_pubkey_hex b then (a, b) else (b, a)
      in foldl push_side [] [lo, hi])"

text \<open>Insert a hyphen before every \<open>n\<close>-th character but the first.\<close>

fun hyphenate :: "nat \<Rightarrow> nat \<Rightarrow> string \<Rightarrow> string" where
  "hyphenate n i [] = []"
| "hyphenate n i (c # cs) =
     (if 0 < i \<and> i mod n = 0 then [CHR ''-'', c] else [c]) @ hyphenate n (Suc i) cs"

definition sas_code :: "'sk crypto \<Rightarrow> byte list \<Rightarrow> string" where
  "sas_code c transcript =
     (let digest = sha256 c (transcript @ SAS_DOMAIN);
          hex_chars = hex_encode c (take 6 digest)
      in hyphenate 2 0 hex_chars)"

definition sign_transcript :: "'sk crypto \<Rightarrow> 'sk \<Rightarrow> byte list \<Rightarrow> string" where
  "sign_transcript c signing_key transcript = hex_encode c (ed_sign c signing_key transcript)"

fun sig_to_pairing_error :: "sig_error \<Rightarrow> pairing_error" where
  "sig_to_pairing_error SigBadKey = PrBadPublicKey"
| "sig_to_pairing_error SigBadSignature = PrBadSignature"

definition verify_signature ::
  "'sk crypto \<Rightarrow> string \<Rightarrow> byte list \<Rightarrow> string \<Rightarrow> (pairing_error, unit) result" where
  "verify_signature c peer_pubkey_hex transcript sig_hex =
     map_err sig_to_pairing_error (verify_hex c peer_pubkey_hex transcript sig_hex)"

text \<open>The fingerprint shown to the user (\<^verbatim>\<open>identity.rs\<close>).\<close>

definition fingerprint_for :: "'sk crypto \<Rightarrow> byte list \<Rightarrow> string" where
  "fingerprint_for c public_key = hyphenate 4 0 (hex_encode c (take 8 (sha256 c public_key)))"

subsection \<open>The session\<close>

datatype pair_message = PmHello pair_hello | PmConfirm pair_confirm

datatype session_error =
    SeTransport string
  | SeExpectedHello
  | SeUnexpectedPeer string string
  | SeSelfPairing
  | SeBadPubkey
  | SeConfirmChannelDropped
  | SeExpectedConfirm
  | SePeerDeclined
  | SeUserDeclined
  | SeSignature pairing_error
  | SePersist trust_error
  | SeTimedOut

record 'sk session_deps =
  sd_signing_key :: 'sk
  sd_machine_id :: string
  sd_display_name :: string

text \<open>
  One outcome per await.  The user's verdict races the peer's confirmation: either the verdict is
  there first, or the peer's message is, and the verdict follows.
\<close>

datatype race =
    UserFirst "(session_error, bool) result"
  | PeerFirst "(session_error, pair_message) result" "(session_error, bool) result"

record session_env =
  se_handshake :: "(session_error, unit) result"
  se_nonce :: "byte list"
  se_send_hello :: "(session_error, unit) result"
  se_recv_hello :: "(session_error, pair_message) result"
  se_race :: race
  se_send_confirm :: "(session_error, unit) result"
  se_recv_confirm :: "(session_error, pair_message) result"
  se_now :: u64
  se_uuid :: string
  se_faults :: faults

definition pubkey_from_hex :: "'sk crypto \<Rightarrow> string \<Rightarrow> (session_error, byte list) result" where
  "pubkey_from_hex c s = and_then (ok_or (hex_decode c s) SeBadPubkey) (\<lambda>bytes.
     if length bytes = 32 then Ok bytes else Err SeBadPubkey)"

definition our_hello :: "'sk crypto \<Rightarrow> 'sk session_deps \<Rightarrow> byte list \<Rightarrow> pair_hello" where
  "our_hello c deps nonce =
     \<lparr> ph_pubkey_hex = hex_encode c (ed_public c (sd_signing_key deps)),
       ph_nonce_hex = hex_encode c nonce,
       ph_machine_id = sd_machine_id deps,
       ph_display_name = sd_display_name deps \<rparr>"

text \<open>Steps 0 and 1: transport, hello exchange, and the checks on the peer's hello.\<close>

definition exchange_hello ::
  "'sk session_deps \<Rightarrow> string option \<Rightarrow> session_env \<Rightarrow> (session_error, pair_hello) result" where
  "exchange_hello deps expected_peer_id env =
     and_then (se_handshake env) (\<lambda>_.
     and_then (se_send_hello env) (\<lambda>_.
     and_then (se_recv_hello env) (\<lambda>msg.
       case msg of
         PmConfirm _ \<Rightarrow> Err SeExpectedHello
       | PmHello h \<Rightarrow>
           if (case expected_peer_id of Some e \<Rightarrow> e \<noteq> ph_machine_id h | None \<Rightarrow> False)
           then Err (SeUnexpectedPeer (ph_machine_id h) (the expected_peer_id))
           else if ph_machine_id h = sd_machine_id deps then Err SeSelfPairing
           else Ok h)))"

text \<open>Step 3: the user's verdict, and the peer's confirmation if it came first.\<close>

definition await_verdict :: "race \<Rightarrow> (session_error, bool \<times> pair_confirm option) result" where
  "await_verdict r =
     (case r of
        UserFirst v \<Rightarrow> and_then v (\<lambda>a. Ok (a, None))
      | PeerFirst m v \<Rightarrow> and_then m (\<lambda>msg.
          case msg of
            PmHello _ \<Rightarrow> Err SeExpectedConfirm
          | PmConfirm confirm \<Rightarrow>
              if \<not> pc_accepted confirm then Err SePeerDeclined
              else and_then v (\<lambda>a. Ok (a, Some confirm))))"

text \<open>Steps 3 and 4 after the verdict: send ours, obtain theirs, verify.\<close>

definition exchange_confirm ::
  "'sk crypto \<Rightarrow> pair_hello \<Rightarrow> byte list \<Rightarrow> session_env \<Rightarrow> bool \<times> pair_confirm option \<Rightarrow>
   (session_error, unit) result" where
  "exchange_confirm c peer_hello transcript env verdict =
     and_then (se_send_confirm env) (\<lambda>_.
       if \<not> fst verdict then Err SeUserDeclined
       else and_then
         (case snd verdict of
            Some confirm \<Rightarrow> Ok confirm
          | None \<Rightarrow> and_then (se_recv_confirm env) (\<lambda>msg.
              case msg of PmConfirm x \<Rightarrow> Ok x | PmHello _ \<Rightarrow> Err SeExpectedConfirm))
         (\<lambda>peer_confirm.
            if \<not> pc_accepted peer_confirm then Err SePeerDeclined
            else map_err SeSignature
              (verify_signature c (ph_pubkey_hex peer_hello) transcript (pc_sig_hex peer_confirm))))"

definition confirm_message :: "'sk crypto \<Rightarrow> 'sk \<Rightarrow> byte list \<Rightarrow> bool \<Rightarrow> pair_confirm" where
  "confirm_message c sk transcript our_accept =
     \<lparr> pc_accepted = our_accept,
       pc_sig_hex = (if our_accept then sign_transcript c sk transcript else []) \<rparr>"

definition trusted_of :: "'sk crypto \<Rightarrow> pair_hello \<Rightarrow> byte list \<Rightarrow> u64 \<Rightarrow> trusted_peer" where
  "trusted_of c h pk now =
     \<lparr> tp_machine_id = ph_machine_id h, tp_display_name = ph_display_name h,
       tp_public_key_hex = ph_pubkey_hex h, tp_fingerprint = fingerprint_for c pk,
       tp_paired_at_unix = now \<rparr>"

text \<open>The session: files and store afterwards, messages sent, events emitted, and the result.\<close>

type_synonym session_out =
  "fs \<times> trusted_peer_store \<times> pair_message list \<times> event list \<times> (session_error, unit) result"

definition run_session_inner ::
  "'sk crypto \<Rightarrow> (trust_file \<Rightarrow> string option) \<Rightarrow> 'sk session_deps \<Rightarrow> string \<Rightarrow> string option \<Rightarrow>
   session_env \<Rightarrow> fs \<Rightarrow> trusted_peer_store \<Rightarrow> session_out" where
  "run_session_inner c to_json deps session_id expected_peer_id env m store =
     (let ours = our_hello c deps (se_nonce env);
          sent1 = (if is_ok (se_handshake env) then [PmHello ours] else []) in
      case exchange_hello deps expected_peer_id env of
        Inl e \<Rightarrow> (m, store, sent1, [], Err e)
      | Inr peer_hello \<Rightarrow>
          let transcript = canonical_transcript ours peer_hello;
              sas = sas_code c transcript in
          (case pubkey_from_hex c (ph_pubkey_hex peer_hello) of
             Inl e \<Rightarrow> (m, store, sent1, [], Err e)
           | Inr pk \<Rightarrow>
               let proposed = EvPairingProposed session_id (ph_machine_id peer_hello)
                     (ph_display_name peer_hello) (fingerprint_for c pk) sas in
               (case await_verdict (se_race env) of
                  Inl e \<Rightarrow> (m, store, sent1, [proposed], Err e)
                | Inr verdict \<Rightarrow>
                    let sent2 = sent1 @ [PmConfirm (confirm_message c (sd_signing_key deps) transcript (fst verdict))] in
                    (case exchange_confirm c peer_hello transcript env verdict of
                       Inl e \<Rightarrow> (m, store, sent2, [proposed], Err e)
                     | Inr _ \<Rightarrow>
                         let trusted = trusted_of c peer_hello pk (se_now env) in
                         (case trust_upsert to_json (se_uuid env) (se_faults env) m store trusted of
                            (m', store', Inl e) \<Rightarrow> (m', store', sent2, [proposed], Err (SePersist e))
                          | (m', store', Inr _) \<Rightarrow>
                              (m', store', sent2, [proposed, EvPairingCompleted trusted], Ok ()))))))"

definition run_session ::
  "'sk crypto \<Rightarrow> (trust_file \<Rightarrow> string option) \<Rightarrow> (session_error \<Rightarrow> string) \<Rightarrow> 'sk session_deps \<Rightarrow>
   string \<Rightarrow> string option \<Rightarrow> session_env \<Rightarrow> fs \<Rightarrow> trusted_peer_store \<Rightarrow> session_out" where
  "run_session c to_json show_err deps session_id expected_peer_id env m store =
     (case run_session_inner c to_json deps session_id expected_peer_id env m store of
        (m', store', sent, events, Inr _) \<Rightarrow> (m', store', sent, events, Ok ())
      | (m', store', sent, events, Inl e) \<Rightarrow>
          (m', store', sent, events @ [EvPairingFailed session_id (show_err e)], Err e))"

text \<open>Dialling a peer: \<open>ended\<close> are the attempts to connect; a failed dial is only reported.\<close>

definition pairing_spawn_outbound ::
  "'sk crypto \<Rightarrow> (trust_file \<Rightarrow> string option) \<Rightarrow> (session_error \<Rightarrow> string) \<Rightarrow> (io_kind \<Rightarrow> string) \<Rightarrow> 'sk session_deps \<Rightarrow>
   string \<Rightarrow> discovered_peer \<Rightarrow> (string \<times> attempt) list \<Rightarrow> session_env \<Rightarrow> fs \<Rightarrow> trusted_peer_store \<Rightarrow>
   fs \<times> trusted_peer_store \<times> pair_message list \<times> event list" where
  "pairing_spawn_outbound c to_json show_err show_io deps session_id peer ended env m store =
     (case connect_peer peer ended of
        Inl e \<Rightarrow> (m, store, [], [EvPairingFailed session_id (show_io e)])
      | Inr _ \<Rightarrow>
          (case run_session c to_json show_err deps session_id (Some (dp_machine_id peer)) env m store of
             (m', store', sent, events, _) \<Rightarrow> (m', store', sent, events)))"

subsection \<open>The transcript binds both hellos\<close>

definition side_fields :: "pair_hello \<Rightarrow> byte list list" where
  "side_fields h = map as_bytes [ph_pubkey_hex h, ph_nonce_hex h, ph_machine_id h, ph_display_name h]"

lemma push_side_fields: "push_side out h = out @ concat (map prefixed (side_fields h))"
  by (simp add: push_side_def pair_push_field_def side_fields_def prefixed_def Let_def)

lemma side_fields_inject: "side_fields a = side_fields b \<longleftrightarrow> a = b"
  by (auto simp: side_fields_def)

lemma canonical_transcript_alt:
  "canonical_transcript a b = concat (map prefixed
     (if ph_pubkey_hex a \<le> ph_pubkey_hex b then side_fields a @ side_fields b
      else side_fields b @ side_fields a))"
  by (simp add: canonical_transcript_def push_side_fields)

lemma canonical_transcript_sym:
  "ph_pubkey_hex a \<noteq> ph_pubkey_hex b \<Longrightarrow> canonical_transcript a b = canonical_transcript b a"
  by (auto simp: canonical_transcript_alt)

lemma concat_prefixed_field_length:
  "f \<in> set fs \<Longrightarrow> length f < length (concat (map prefixed fs))"
  by (induction fs) (auto simp: trans_less_add2)

lemma canonical_transcript_inject:
  assumes eq: "canonical_transcript a b = canonical_transcript a' b'"
    and len: "length (canonical_transcript a b) < 2 ^ 32"
  shows "a = a' \<and> b = b' \<or> a = b' \<and> b = a'"
proof -
  define fs where "fs = (if ph_pubkey_hex a \<le> ph_pubkey_hex b then side_fields a @ side_fields b
      else side_fields b @ side_fields a)"
  define gs where "gs = (if ph_pubkey_hex a' \<le> ph_pubkey_hex b' then side_fields a' @ side_fields b'
      else side_fields b' @ side_fields a')"
  have t: "canonical_transcript a b = concat (map prefixed fs)"
      "canonical_transcript a' b' = concat (map prefixed gs)"
    by (simp_all only: canonical_transcript_alt fs_def gs_def)
  have "fs = gs"
  proof (rule concat_prefixed_inject)
    show "concat (map prefixed fs) = concat (map prefixed gs)" using eq t by simp
    show "length fs = length gs" by (simp add: fs_def gs_def side_fields_def)
    show "\<forall>f \<in> set fs. length f < 2 ^ 32"
      using len concat_prefixed_field_length [of _ fs] unfolding t(1) by fastforce
    show "\<forall>g \<in> set gs. length g < 2 ^ 32"
      using len concat_prefixed_field_length [of _ gs] unfolding eq t(2) by fastforce
  qed
  moreover have "length (side_fields x) = length (side_fields y)" for x y
    by (simp add: side_fields_def)
  ultimately show ?thesis
    by (auto simp: fs_def gs_def side_fields_inject split: if_splits)
qed

lemma hyphenate_inject: "hyphenate n i s = hyphenate n i t \<Longrightarrow> s = t"
proof (induction s arbitrary: i t)
  case Nil
  then show ?case by (cases t) (auto split: if_splits)
next
  case (Cons c s)
  then obtain d t' where t: "t = d # t'" by (cases t) (auto split: if_splits)
  show ?case using Cons by (auto simp: t split: if_splits)
qed

lemma sas_code_inject:
  assumes "hex_law c" and "sas_code c s = sas_code c t"
  shows "take 6 (sha256 c (s @ SAS_DOMAIN)) = take 6 (sha256 c (t @ SAS_DOMAIN))"
proof -
  have "hex_encode c (take 6 (sha256 c (s @ SAS_DOMAIN))) = hex_encode c (take 6 (sha256 c (t @ SAS_DOMAIN)))"
    using assms(2) hyphenate_inject unfolding sas_code_def Let_def by blast
  then show ?thesis
    using assms(1) unfolding hex_law_def by (metis option.inject)
qed

text \<open>C27. If the users of two machines see the same code, each machine saw exactly the hello the
  other one sent: key, nonce, machine id and name.  So an attacker between them who replaced any of
  it is detected, unless the two transcripts collide on the 48 bits that are shown.\<close>

theorem same_code_same_hellos:
  assumes hex: "hex_law c"
    and codes: "sas_code c (canonical_transcript a seen_by_a) = sas_code c (canonical_transcript b seen_by_b)"
    and nocoll: "take 6 (sha256 c (canonical_transcript a seen_by_a @ SAS_DOMAIN))
         = take 6 (sha256 c (canonical_transcript b seen_by_b @ SAS_DOMAIN)) \<Longrightarrow>
       canonical_transcript a seen_by_a = canonical_transcript b seen_by_b"
    and len: "length (canonical_transcript a seen_by_a) < 2 ^ 32"
    and ids: "ph_machine_id a \<noteq> ph_machine_id b"
  shows "seen_by_a = b \<and> seen_by_b = a"
proof -
  have "canonical_transcript a seen_by_a = canonical_transcript b seen_by_b"
    by (rule nocoll [OF sas_code_inject [OF hex codes]])
  from canonical_transcript_inject [OF this len] ids show ?thesis by auto
qed

definition demo_hello :: "string \<Rightarrow> pair_hello" where
  "demo_hello i = \<lparr> ph_pubkey_hex = i, ph_nonce_hex = ''00'', ph_machine_id = i, ph_display_name = i \<rparr>"

theorem same_code_same_hellos_witness:
  "\<exists>x y. sas_code demo_crypto (canonical_transcript (demo_hello ''a'') x)
     = sas_code demo_crypto (canonical_transcript (demo_hello ''b'') y)
   \<and> x = demo_hello ''b'' \<and> y = demo_hello ''a''"
proof -
  have sym: "canonical_transcript (demo_hello ''a'') (demo_hello ''b'')
      = canonical_transcript (demo_hello ''b'') (demo_hello ''a'')"
    by (rule canonical_transcript_sym) (simp add: demo_hello_def)
  have "length (canonical_transcript (demo_hello ''a'') (demo_hello ''b'')) < 2 ^ 32"
    by (simp add: canonical_transcript_alt side_fields_def demo_hello_def)
  with same_code_same_hellos [OF demo_hex_law, of "demo_hello ''a''" "demo_hello ''b''" "demo_hello ''b''" "demo_hello ''a''"] sym
  show ?thesis by (intro exI [of _ "demo_hello ''b''"] exI [of _ "demo_hello ''a''"]) (auto simp: demo_hello_def)
qed

subsection \<open>When a session establishes trust\<close>

text \<open>What the user decided, and what the peer replied, in either order.\<close>

definition user_verdict :: "race \<Rightarrow> (session_error, bool) result" where
  "user_verdict r = (case r of UserFirst v \<Rightarrow> v | PeerFirst _ v \<Rightarrow> v)"

definition peer_reply :: "session_env \<Rightarrow> (session_error, pair_message) result" where
  "peer_reply env = (case se_race env of UserFirst _ \<Rightarrow> se_recv_confirm env | PeerFirst m _ \<Rightarrow> m)"

lemma exchange_hello_Ok:
  "exchange_hello deps expected env = Ok h \<longleftrightarrow>
   se_handshake env = Ok () \<and> se_send_hello env = Ok () \<and> se_recv_hello env = Ok (PmHello h)
   \<and> (\<forall>e. expected = Some e \<longrightarrow> ph_machine_id h = e) \<and> ph_machine_id h \<noteq> sd_machine_id deps"
  by (auto simp: exchange_hello_def and_then_def split: sum.splits pair_message.splits option.splits if_splits)

lemma await_exchange_Ok:
  assumes "await_verdict (se_race env) = Ok verdict" and "exchange_confirm c h t env verdict = Ok u"
  shows "user_verdict (se_race env) = Ok True \<and> (\<exists>conf. peer_reply env = Ok (PmConfirm conf)
       \<and> pc_accepted conf \<and> verify_signature c (ph_pubkey_hex h) t (pc_sig_hex conf) = Ok ())"
  using assms
  by (auto simp: await_verdict_def exchange_confirm_def user_verdict_def peer_reply_def map_err_Ok_iff
      and_then_def split: race.splits sum.splits pair_message.splits if_splits)

lemma run_session_inner_cases:
  assumes "run_session_inner c to_json deps sid expected env m store = (m', store', sent, events, r)"
  obtains (failed) e where "r = Err e" "store' = store" "\<forall>p. EvPairingCompleted p \<notin> set events"
  | (completed) h pk verdict u proposed where "r = Ok ()"
      "exchange_hello deps expected env = Ok h"
      "pubkey_from_hex c (ph_pubkey_hex h) = Ok pk"
      "await_verdict (se_race env) = Ok verdict"
      "exchange_confirm c h (canonical_transcript (our_hello c deps (se_nonce env)) h) env verdict = Ok u"
      "trust_upsert to_json (se_uuid env) (se_faults env) m store (trusted_of c h pk (se_now env))
         = (m', store', Ok ())"
      "events = [proposed, EvPairingCompleted (trusted_of c h pk (se_now env))]"
  using assms unfolding run_session_inner_def Let_def
  by (auto split: sum.splits prod.splits elim: trust_upsert_cases) metis


text \<open>Dialling a peer can only ever change what is stored for that peer.\<close>

lemma dial_trusts_only_dialled:
  assumes "pairing_spawn_outbound c to_json show_err show_io deps sid peer ended env m store = (m', store', sent, events)"
    and "q \<noteq> dp_machine_id peer"
  shows "trust_get store' q = trust_get store q"
proof (cases "connect_peer peer ended")
  case (Inr host)
  obtain m1 st1 sent1 ev1 r1 where run: "run_session_inner c to_json deps sid (Some (dp_machine_id peer)) env m store = (m1, st1, sent1, ev1, r1)"
    by (cases rule: prod_cases5)
  then have "store' = st1" using assms(1) Inr by (auto simp: pairing_spawn_outbound_def run_session_def split: sum.splits)
  moreover from run have "trust_get st1 q = trust_get store q"
  proof (cases rule: run_session_inner_cases)
    case (completed h pk verdict u proposed)
    have "st1 = store\<lparr> ts_peers := upsert_list (trusted_of c h pk (se_now env)) (ts_peers store) \<rparr>"
      using completed(6) by (auto elim: trust_upsert_cases)
    moreover have "tp_machine_id (trusted_of c h pk (se_now env)) = dp_machine_id peer"
      using completed(2) [unfolded exchange_hello_Ok] by (simp add: trusted_of_def)
    ultimately show ?thesis using assms(2) by (auto simp: trust_get_peer_lookup trusted.lookup_put)
  qed simp
  ultimately show ?thesis by simp
qed (use assms in \<open>auto simp: pairing_spawn_outbound_def\<close>)

subsection \<open>Two honest machines\<close>

text \<open>An undisturbed session of \<open>us\<close> with \<open>them\<close>: the messages are the other side's, the user
  accepts, in either order, and the disk works.\<close>

definition honest_env ::
  "'sk crypto \<Rightarrow> 'sk session_deps \<Rightarrow> byte list \<Rightarrow> 'sk session_deps \<Rightarrow> byte list \<Rightarrow> bool \<Rightarrow> u64 \<Rightarrow> string \<Rightarrow> session_env" where
  "honest_env c us our_nonce them their_nonce user_first now uuid =
     (let h = our_hello c them their_nonce;
          t = canonical_transcript h (our_hello c us our_nonce);
          confirm = Ok (PmConfirm (confirm_message c (sd_signing_key them) t True))
      in \<lparr> se_handshake = Ok (), se_nonce = our_nonce, se_send_hello = Ok (), se_recv_hello = Ok (PmHello h),
           se_race = (if user_first then UserFirst (Ok True) else PeerFirst confirm (Ok True)),
           se_send_confirm = Ok (), se_recv_confirm = confirm, se_now = now, se_uuid = uuid,
           se_faults = no_faults \<rparr>)"

lemma honest_confirm_verifies:
  assumes "hex_law c" "sign_law c"
  shows "verify_signature c (ph_pubkey_hex (our_hello c them n)) t
           (pc_sig_hex (confirm_message c (sd_signing_key them) t True)) = Ok ()"
  using verify_hex_signed [OF assms]
  by (simp add: verify_signature_def our_hello_def confirm_message_def sign_transcript_def)

lemma honest_session:
  assumes laws: "hex_law c" "sign_law c"
    and keys: "ed_public c (sd_signing_key us) \<noteq> ed_public c (sd_signing_key them)"
    and ids: "sd_machine_id us \<noteq> sd_machine_id them"
    and expected: "expected = None \<or> expected = Some (sd_machine_id them)"
    and disk: "\<And>p. \<exists>m' st'. trust_upsert to_json uuid no_faults m store p = (m', st', Ok ())"
  shows "\<exists>m' store' sent proposed tp.
     run_session_inner c to_json us sid expected (honest_env c us n them n' uf now uuid) m store
       = (m', store', sent, [proposed, EvPairingCompleted tp], Ok ())
   \<and> trust_get store' (sd_machine_id them) = Some tp
   \<and> tp_public_key_hex tp = hex_encode c (ed_public c (sd_signing_key them))
   \<and> proposed = EvPairingProposed sid (sd_machine_id them) (sd_display_name them) (tp_fingerprint tp)
       (sas_code c (canonical_transcript (our_hello c us n) (our_hello c them n')))"
proof -
  let ?h = "our_hello c them n'" and ?o = "our_hello c us n" and ?env = "honest_env c us n them n' uf now uuid"
  let ?pk = "ed_public c (sd_signing_key them)"
  let ?t = "canonical_transcript ?o ?h" and ?tp = "trusted_of c ?h ?pk now"
  have "hex_encode c (ed_public c (sd_signing_key us)) \<noteq> hex_encode c ?pk"
    using laws(1) keys unfolding hex_law_def by (metis option.inject)
  then have t: "canonical_transcript ?h ?o = ?t"
    by (intro canonical_transcript_sym) (simp add: our_hello_def)
  have hello: "exchange_hello us expected ?env = Ok ?h"
    using ids expected unfolding exchange_hello_Ok by (auto simp: honest_env_def our_hello_def Let_def)
  have pk: "pubkey_from_hex c (ph_pubkey_hex ?h) = Ok ?pk"
    using laws by (simp add: pubkey_from_hex_def our_hello_def hex_law_def sign_law_def)
  obtain v where v: "await_verdict (se_race ?env) = Ok v" "fst v"
      "snd v = None \<or> snd v = Some (confirm_message c (sd_signing_key them) ?t True)"
    by (cases uf) (auto simp: await_verdict_def honest_env_def Let_def t confirm_message_def)
  have conf: "exchange_confirm c ?h ?t ?env v = Ok ()"
    using v(2,3) honest_confirm_verifies [OF laws, of them n' ?t]
    by (auto simp: exchange_confirm_def honest_env_def Let_def t confirm_message_def)
  obtain m' st' where up: "trust_upsert to_json uuid no_faults m store ?tp = (m', st', Ok ())"
    using disk by blast
  then have "st' = store\<lparr> ts_peers := upsert_list ?tp (ts_peers store) \<rparr>"
    by (auto elim: trust_upsert_cases)
  then have "trust_get st' (sd_machine_id them) = Some ?tp"
    by (simp add: trust_get_peer_lookup trusted.lookup_put trusted_of_def our_hello_def)
  moreover have "se_nonce ?env = n" "se_uuid ?env = uuid" "se_faults ?env = no_faults" "se_now ?env = now"
    by (simp_all add: honest_env_def Let_def)
  ultimately show ?thesis
    using hello pk v(1) conf up
    by (simp add: run_session_inner_def Let_def) (simp add: trusted_of_def our_hello_def)
qed


definition demo_deps :: "byte \<Rightarrow> string \<Rightarrow> byte session_deps" where
  "demo_deps k i = \<lparr> sd_signing_key = k, sd_machine_id = i, sd_display_name = i \<rparr>"

lemma demo_disk: "\<exists>m' st'. trust_upsert demo_to_json ''u'' no_faults Map.empty demo_store p = (m', st', Ok ())"
proof -
  have "upsert_list p (ts_peers demo_store) = [p]" by (simp add: demo_store_def)
  then have "demo_to_json \<lparr> tf_peers = upsert_list p (ts_peers demo_store) \<rparr> = Some ''bob''"
    by (simp add: demo_to_json_def)
  then show ?thesis
    using no_faults_upsert [of Map.empty demo_store "''u''" demo_to_json p] demo_tmp_neq by blast
qed



end
