(* ===== verification/Rotating_Log.thy ===== *)
theory Rotating_Log
  imports Config "HOL-Library.Sublist"
begin

text \<open>
  The size-bounded log (\<^verbatim>\<open>crates/synbad-config/src/logging.rs\<close>): a current file and three backups, each at
  most \<open>limit\<close> bytes.  The write loop is a partial function whose value \<open>None\<close> means that it does not return.
  A failed append leaves a prefix of what it was writing, of the length of the fault's payload.
\<close>

subsection \<open>Model\<close>

definition LOG_BYTES :: nat where "LOG_BYTES = 2 * 1024 * 1024"
definition BACKUPS :: nat where "BACKUPS = 3"

record log_file =
  lf_path :: path
  lf_open :: bool
  lf_bytes :: nat
  lf_limit :: nat

definition backup_path :: "path \<Rightarrow> nat \<Rightarrow> path" where
  "backup_path p i = butlast p @ [last p @ CHR ''.'' # dec_digits i]"

definition fs_append :: "faults \<Rightarrow> fs \<Rightarrow> path \<Rightarrow> string \<Rightarrow> fs \<times> (io_kind, unit) result" where
  "fs_append fl m p data =
     (let old = (case m p of None \<Rightarrow> [] | Some s \<Rightarrow> s) in
      case fl (Op_Write p) of
        Some (e, left) \<Rightarrow>
          (m(p \<mapsto> old @ take (case left of None \<Rightarrow> 0 | Some l \<Rightarrow> length l) data), Err e)
      | None \<Rightarrow> (m(p \<mapsto> old @ data), Ok ()))"

text \<open>\<^verbatim>\<open>OpenOptions::new().create(true).append(true).open\<close>.\<close>

definition fs_open_append :: "faults \<Rightarrow> fs \<Rightarrow> path \<Rightarrow> fs \<times> (io_kind, unit) result" where
  "fs_open_append fl m p = (case fl (Op_Create p) of
       Some (e, _) \<Rightarrow> (m, Err e)
     | None \<Rightarrow> (if m p = None then m(p \<mapsto> []) else m, Ok ()))"

definition trim_existing :: "faults \<Rightarrow> fs \<Rightarrow> path \<Rightarrow> nat \<Rightarrow> fs \<times> (io_kind, unit) result" where
  "trim_existing fl m p limit =
     (case fs_read fl m p of
        Inl e \<Rightarrow> if e = NotFound then (m, Ok ()) else (m, Err e)
      | Inr body \<Rightarrow>
          if limit < length body then fs_write fl m p (drop (length body - limit) body) else (m, Ok ()))"

fun trim_all :: "faults \<Rightarrow> fs \<Rightarrow> path list \<Rightarrow> nat \<Rightarrow> fs \<times> (io_kind, unit) result" where
  "trim_all fl m [] limit = (m, Ok ())"
| "trim_all fl m (p # ps) limit = (case trim_existing fl m p limit of
       (m1, Inl e) \<Rightarrow> (m1, Err e)
     | (m1, Inr _) \<Rightarrow> trim_all fl m1 ps limit)"

definition log_paths :: "path \<Rightarrow> path list" where
  "log_paths p = map (\<lambda>i. if i = 0 then p else backup_path p i) [0 ..< BACKUPS + 1]"

definition with_limit :: "faults \<Rightarrow> fs \<Rightarrow> path \<Rightarrow> nat \<Rightarrow> fs \<times> (io_kind, log_file) result" where
  "with_limit fl m p limit =
     (case (case parent p of Some d \<Rightarrow> fs_mkdir fl d | None \<Rightarrow> Ok ()) of
        Inl e \<Rightarrow> (m, Err e)
      | Inr _ \<Rightarrow>
        (case trim_all fl m (log_paths p) limit of
           (m1, Inl e) \<Rightarrow> (m1, Err e)
         | (m1, Inr _) \<Rightarrow>
             (case fs_open_append fl m1 p of
                (m2, Inl e) \<Rightarrow> (m2, Err e)
              | (m2, Inr _) \<Rightarrow>
                  (m2, Ok \<lparr> lf_path = p, lf_open = True,
                            lf_bytes = (case m2 p of None \<Rightarrow> 0 | Some s \<Rightarrow> length s), lf_limit = limit \<rparr>))))"

fun shift_backups :: "faults \<Rightarrow> fs \<Rightarrow> path \<Rightarrow> nat list \<Rightarrow> fs \<times> (io_kind, unit) result" where
  "shift_backups fl m p [] = (m, Ok ())"
| "shift_backups fl m p (i # is) =
     (if m (backup_path p i) = None then shift_backups fl m p is
      else case fs_rename fl m (backup_path p i) (backup_path p (i + 1)) of
        (m1, Inl e) \<Rightarrow> (m1, Err e)
      | (m1, Inr _) \<Rightarrow> shift_backups fl m1 p is)"

definition rotate_log :: "faults \<Rightarrow> fs \<Rightarrow> log_file \<Rightarrow> fs \<times> log_file \<times> (io_kind, unit) result" where
  "rotate_log fl m lf =
     (let lf1 = lf\<lparr> lf_open := False \<rparr>; p = lf_path lf;
          m1 = fst (fs_remove fl m (backup_path p BACKUPS))
      in case shift_backups fl m1 p (rev [1 ..< BACKUPS]) of
           (m2, Inl e) \<Rightarrow> (m2, lf1, Err e)
         | (m2, Inr _) \<Rightarrow>
             (case (if m2 p = None then (m2, Ok ()) else fs_rename fl m2 p (backup_path p 1)) of
                (m3, Inl e) \<Rightarrow> (m3, lf1, Err e)
              | (m3, Inr _) \<Rightarrow> (m3, lf1\<lparr> lf_bytes := 0 \<rparr>, Ok ())))"

definition reopen_log :: "faults \<Rightarrow> fs \<Rightarrow> log_file \<Rightarrow> fs \<times> log_file \<times> (io_kind, unit) result" where
  "reopen_log fl m lf =
     (if lf_open lf then (m, lf, Ok ())
      else case fs_open_append fl m (lf_path lf) of
        (m1, Inl e) \<Rightarrow> (m1, lf, Err e)
      | (m1, Inr _) \<Rightarrow> (m1, lf\<lparr> lf_open := True \<rparr>, Ok ()))"

partial_function (option) write_log ::
  "faults \<Rightarrow> fs \<Rightarrow> log_file \<Rightarrow> string \<Rightarrow> (fs \<times> log_file \<times> (io_kind, unit) result) option" where
  "write_log fl m lf remaining =
     (if remaining = [] then Some (m, lf, Ok ())
      else case (if lf_limit lf \<le> lf_bytes lf then rotate_log fl m lf else (m, lf, Ok ())) of
        (m1, lf1, Inl e) \<Rightarrow> Some (m1, lf1, Err e)
      | (m1, lf1, Inr _) \<Rightarrow>
          (case reopen_log fl m1 lf1 of
             (m2, lf2, Inl e) \<Rightarrow> Some (m2, lf2, Err e)
           | (m2, lf2, Inr _) \<Rightarrow>
               (let size = min (length remaining) (lf_limit lf2 - lf_bytes lf2) in
                case fs_append fl m2 (lf_path lf2) (take size remaining) of
                  (m3, Inl e) \<Rightarrow> Some (m3, lf2, Err e)
                | (m3, Inr _) \<Rightarrow>
                    write_log fl m3 (lf2\<lparr> lf_bytes := lf_bytes lf2 + size \<rparr>) (drop size remaining))))"

subsection \<open>The files stay apart\<close>

lemma dec_digits_123: "dec_digits 1 = ''1''" "dec_digits 2 = ''2''" "dec_digits 3 = ''3''" "dec_digits (Suc 0) = ''1''"
  by (simp_all add: dec_digits.simps) code_simp+

lemma backup_path_neq:
  assumes "p \<noteq> []"
  shows "backup_path p i \<noteq> p" and "backup_path p 1 \<noteq> backup_path p 2" "backup_path p 1 \<noteq> backup_path p 3"
    "backup_path p 2 \<noteq> backup_path p 3"
proof -
  show "backup_path p i \<noteq> p"
  proof
    assume "backup_path p i = p"
    then have "last p @ CHR ''.'' # dec_digits i = last p" using assms by (metis backup_path_def last_snoc)
    then show False by simp
  qed
qed (simp_all add: backup_path_def dec_digits_123)

subsection \<open>Rotation\<close>

definition content :: "fs \<Rightarrow> path \<Rightarrow> string" where
  "content m p = (case m p of None \<Rightarrow> [] | Some s \<Rightarrow> s)"

text \<open>Everything the four files hold, oldest first.\<close>

definition log_view :: "fs \<Rightarrow> path \<Rightarrow> string" where
  "log_view m p = content m (backup_path p 3) @ content m (backup_path p 2) @ content m (backup_path p 1) @ content m p"

definition log_bounded :: "fs \<Rightarrow> path \<Rightarrow> nat \<Rightarrow> bool" where
  "log_bounded m p limit \<longleftrightarrow> (\<forall>q \<in> set (log_paths p). length (content m q) \<le> limit)"

lemma log_paths_eq: "log_paths p = [p, backup_path p 1, backup_path p 2, backup_path p 3]"
  by (simp add: log_paths_def BACKUPS_def upt_rec numeral_2_eq_2 numeral_3_eq_3)

lemma rename_content:
  assumes "fs_rename fl m q q' = (m', r)" and "q \<noteq> q'"
  shows "is_ok r \<Longrightarrow> m' = (m(q := None))(q' := m q)" and "is_ok r \<Longrightarrow> m q \<noteq> None"
    and "\<not> is_ok r \<Longrightarrow> m' = m"
  using assms by (auto simp: fs_rename_def split: option.splits)

lemma remove_content:
  "fst (fs_remove fl m q) = m \<or> fst (fs_remove fl m q) = m(q := None)"
  by (auto simp: fs_remove_def split: option.splits)

text \<open>Moving the two older backups up: what the four files hold afterwards.\<close>

lemma shift_backups_content:
  assumes "shift_backups fl m p [2, 1] = (m', r)" and "p \<noteq> []"
  shows "suffix (log_view m' p) (log_view m p)"
    and "m' p = m p" and "log_bounded m p limit \<Longrightarrow> log_bounded m' p limit"
    and "is_ok r \<Longrightarrow> m' (backup_path p 1) = None"
proof -
  define b1 where "b1 = backup_path p 1"
  define b2 where "b2 = backup_path p 2"
  define b3 where "b3 = backup_path p 3"
  have neq: "b1 \<noteq> p" "b2 \<noteq> p" "b3 \<noteq> p" "b1 \<noteq> b2" "b1 \<noteq> b3" "b2 \<noteq> b3"
    using backup_path_neq [OF assms(2)] by (simp_all add: b1_def b2_def b3_def del: One_nat_def)
  note neq = neq neq [symmetric]
  obtain m1 r1 where s1: "(if m b2 = None then (m, Ok ()) else fs_rename fl m b2 b3) = (m1, r1)" by fastforce
  have m1: "m1 = m \<or> m1 = (m(b2 := None))(b3 := m b2)" and ok1: "is_ok r1 \<Longrightarrow> m1 b2 = None"
    using s1 rename_content [of fl m b2 b3 m1 r1] neq by (auto split: if_splits)
  have shift: "shift_backups fl m p [2, 1] =
      (case r1 of Inl e \<Rightarrow> (m1, Err e)
       | Inr _ \<Rightarrow> if m1 b1 = None then (m1, Ok ()) else
           (case fs_rename fl m1 b1 b2 of (m2, Inl e) \<Rightarrow> (m2, Err e) | (m2, Inr _) \<Rightarrow> (m2, Ok ())))"
    using s1 by (auto simp: b1_def b2_def b3_def one_add_one split: if_splits sum.splits prod.splits simp del: One_nat_def)
  have m': "m' = m1 \<or> (is_ok r1 \<and> m' = (m1(b1 := None))(b2 := m1 b1))"
    and ok: "is_ok r \<Longrightarrow> m' b1 = None"
    using assms(1) rename_content [of fl m1 b1 b2] neq unfolding shift
    by (auto split: if_splits prod.splits sum.splits)
  have view: "log_view f p = content f b3 @ content f b2 @ content f b1 @ content f p" for f
    by (simp add: log_view_def b1_def b2_def b3_def)
  have bounded: "log_bounded f p limit \<longleftrightarrow> length (content f p) \<le> limit \<and> length (content f b1) \<le> limit
      \<and> length (content f b2) \<le> limit \<and> length (content f b3) \<le> limit" for f
    by (simp add: log_bounded_def log_paths_eq b1_def b2_def b3_def)
  show "suffix (log_view m' p) (log_view m p)"
    using m1 ok1 m' neq unfolding view by (auto simp: content_def suffix_def)
  show "m' p = m p" using m1 m' neq by auto
  show "log_bounded m' p limit" if "log_bounded m p limit"
    using that m1 m' neq unfolding bounded by (auto simp: content_def)
  show "m' (backup_path p 1) = None" if "is_ok r" using ok that by (simp add: b1_def)
qed

text \<open>Rotation, whatever fails: older content may go, the rest keeps its order; on success the current
  file has become the first backup.\<close>

lemma rotate_log_content:
  assumes "rotate_log fl m lf = (m', lf', r)" and "lf_path lf = p" and "p \<noteq> []"
  shows "suffix (log_view m' p) (log_view m p)"
    and "log_bounded m p limit \<Longrightarrow> log_bounded m' p limit"
    and "is_ok r \<Longrightarrow> content m' p = [] \<and> lf_bytes lf' = 0 \<and> content m' (backup_path p 1) = content m p"
    and "\<not> is_ok r \<Longrightarrow> m' p = m p \<and> lf_bytes lf' = lf_bytes lf"
    and "lf_path lf' = p" and "lf_limit lf' = lf_limit lf"
proof -
  define b1 where "b1 = backup_path p 1"
  define b3 where "b3 = backup_path p 3"
  note apart = backup_path_neq [OF assms(3)] backup_path_neq [OF assms(3), symmetric]
  have neq: "b1 \<noteq> p" "b3 \<noteq> p" using apart by (simp_all add: b1_def b3_def del: One_nat_def)
  define m1 where "m1 = fst (fs_remove fl m b3)"
  have m1: "m1 = m \<or> m1 = m(b3 := None)" unfolding m1_def by (rule remove_content)
  then have r1: "suffix (log_view m1 p) (log_view m p)" "m1 p = m p" "log_bounded m p limit \<Longrightarrow> log_bounded m1 p limit"
    using apart neq
    by (auto simp: log_view_def content_def b3_def log_bounded_def log_paths_eq suffix_def simp del: One_nat_def)
  obtain m2 r2 where s2: "shift_backups fl m1 p [2, 1] = (m2, r2)" by (cases "shift_backups fl m1 p [2, 1]")
  note sh = shift_backups_content [OF s2 assms(3), folded b1_def]
  have rev: "rev [1 ..< BACKUPS] = [2, 1]" by (simp add: BACKUPS_def upt_rec numeral_2_eq_2 numeral_3_eq_3)
  have b3: "backup_path p BACKUPS = b3" by (simp add: b3_def BACKUPS_def)
  obtain m3 r3 where s3: "(if m2 p = None then (m2, Ok ()) else fs_rename fl m2 p b1) = (m3, r3)" by fastforce
  have rot: "rotate_log fl m lf = (case r2 of Inl e \<Rightarrow> (m2, lf\<lparr> lf_open := False \<rparr>, Err e)
      | Inr _ \<Rightarrow> (case r3 of Inl e \<Rightarrow> (m3, lf\<lparr> lf_open := False \<rparr>, Err e)
         | Inr _ \<Rightarrow> (m3, lf\<lparr> lf_open := False, lf_bytes := 0 \<rparr>, Ok ())))"
    unfolding rotate_log_def Let_def assms(2) rev b3 m1_def [symmetric] b1_def [symmetric] s2 s3 prod.case
    by (simp only: log_file.simps)
  have m3: "m3 = m2 \<or> (m3 = (m2(p := None))(b1 := m2 p))" and ok3: "is_ok r3 \<Longrightarrow> m3 p = None"
    and mv3: "is_ok r3 \<Longrightarrow> m2 b1 = None \<Longrightarrow> content m3 b1 = content m2 p" and err3: "\<not> is_ok r3 \<Longrightarrow> m3 = m2"
    using s3 rename_content [of fl m2 p b1 m3 r3] neq by (auto simp: content_def split: if_splits)
  have view3: "suffix (log_view m3 p) (log_view m2 p)" if "is_ok r2"
    using m3 sh(4) that neq apart err3
    by (auto simp: log_view_def content_def b1_def suffix_def simp del: One_nat_def)
  have bounded3: "log_bounded m2 p limit \<Longrightarrow> log_bounded m3 p limit"
    using m3 neq apart
    by (auto simp: log_bounded_def log_paths_eq content_def b1_def simp del: One_nat_def)
  show "suffix (log_view m' p) (log_view m p)"
    using assms(1) r1(1) sh(1) view3 unfolding rot
    by (auto split: sum.splits intro: suffix_order.trans)
  show "log_bounded m' p limit" if "log_bounded m p limit"
    using assms(1) r1(3) [OF that] sh(3) bounded3 unfolding rot by (auto split: sum.splits)
  show "content m' p = [] \<and> lf_bytes lf' = 0 \<and> content m' (backup_path p 1) = content m p" if "is_ok r"
    using assms(1) that ok3 mv3 sh(2,4) r1(2) unfolding rot b1_def [symmetric]
    by (auto simp: content_def split: sum.splits)
  show "m' p = m p \<and> lf_bytes lf' = lf_bytes lf" if "\<not> is_ok r"
    using assms(1) that err3 sh(2) r1(2) unfolding rot by (auto split: sum.splits)
  show "lf_path lf' = p" "lf_limit lf' = lf_limit lf"
    using assms(1,2) unfolding rot by (auto split: sum.splits)
qed

subsection \<open>Writing\<close>

definition log_inv :: "fs \<Rightarrow> log_file \<Rightarrow> bool" where
  "log_inv m lf \<longleftrightarrow> lf_path lf \<noteq> [] \<and> 0 < lf_limit lf \<and> log_bounded m (lf_path lf) (lf_limit lf)
     \<and> lf_bytes lf = length (content m (lf_path lf))"

lemma content_bounded: "log_bounded m p limit \<Longrightarrow> length (content m p) \<le> limit"
  by (simp add: log_bounded_def log_paths_eq)

text \<open>Making room: after it the current file has room for at least one byte.\<close>

lemma make_room:
  assumes "(if lf_limit lf \<le> lf_bytes lf then rotate_log fl m lf else (m, lf, Ok ())) = (m', lf', r)"
    and "log_inv m lf"
  shows "log_inv m' lf'" and "lf_path lf' = lf_path lf" and "lf_limit lf' = lf_limit lf"
    and "suffix (log_view m' (lf_path lf)) (log_view m (lf_path lf))"
    and "is_ok r \<Longrightarrow> lf_bytes lf' < lf_limit lf"
    and "is_ok r \<Longrightarrow> m' = m \<or> lf_limit lf \<le> length (log_view m' (lf_path lf))"
proof -
  let ?p = "lf_path lf"
  have p: "?p \<noteq> []" and b: "lf_bytes lf = length (content m ?p)" and lim: "0 < lf_limit lf"
    and bd: "log_bounded m ?p (lf_limit lf)"
    using assms(2) by (auto simp: log_inv_def)
  have "log_inv m' lf' \<and> lf_path lf' = ?p \<and> lf_limit lf' = lf_limit lf
      \<and> suffix (log_view m' ?p) (log_view m ?p)
      \<and> (is_ok r \<longrightarrow> lf_bytes lf' < lf_limit lf \<and> (m' = m \<or> lf_limit lf \<le> length (log_view m' ?p)))"
  proof (cases "lf_limit lf \<le> lf_bytes lf")
    case True
    then have rot: "rotate_log fl m lf = (m', lf', r)" using assms(1) by simp
    note c = rotate_log_content [OF rot refl p]
    have "lf_bytes lf' = length (content m' ?p)"
      using c(3,4) b by (cases "is_ok r") (auto simp: content_def)
    moreover have "lf_limit lf \<le> length (log_view m' ?p)" if "is_ok r"
      using c(3) [OF that] True b by (simp add: log_view_def)
    ultimately show ?thesis
      using c p lim bd by (auto simp: log_inv_def)
  next
    case False
    then show ?thesis using assms by auto
  qed
  then show "log_inv m' lf'" "lf_path lf' = lf_path lf" "lf_limit lf' = lf_limit lf"
    "suffix (log_view m' (lf_path lf)) (log_view m (lf_path lf))"
    "is_ok r \<Longrightarrow> lf_bytes lf' < lf_limit lf"
    "is_ok r \<Longrightarrow> m' = m \<or> lf_limit lf \<le> length (log_view m' (lf_path lf))" by auto
qed

lemma reopen_log_content:
  assumes "reopen_log fl m lf = (m', lf', r)"
  shows "content m' q = content m q" and "lf_path lf' = lf_path lf" "lf_limit lf' = lf_limit lf" "lf_bytes lf' = lf_bytes lf"
  using assms
  by (auto simp: reopen_log_def fs_open_append_def content_def split: if_splits option.splits prod.splits sum.splits)

lemma log_view_cong: "(\<And>q. content m' q = content m q) \<Longrightarrow> log_view m' p = log_view m p"
  and log_bounded_cong: "(\<And>q. content m' q = content m q) \<Longrightarrow> log_bounded m' p l = log_bounded m p l"
  by (simp_all add: log_view_def log_bounded_def)

lemma append_content:
  assumes "p \<noteq> []" and "fl (Op_Write p) = None"
  shows "fs_append fl m p data = (m(p \<mapsto> content m p @ data), Ok ())"
    and "log_view (m(p \<mapsto> content m p @ data)) p = log_view m p @ data"
    and "log_bounded m p limit \<Longrightarrow> length (content m p @ data) \<le> limit \<Longrightarrow>
         log_bounded (m(p \<mapsto> content m p @ data)) p limit"
  using assms backup_path_neq(1) [OF assms(1)]
  by (simp_all add: fs_append_def content_def log_view_def log_bounded_def log_paths_eq)


definition demo_log :: log_file where
  "demo_log = \<lparr> lf_path = [''core.log''], lf_open = True, lf_bytes = 2, lf_limit = 2 \<rparr>"


end
