(* ===== verification/Requests.thy ===== *)
theory Requests
  imports Config_Edit
begin

text \<open>
  The IPC request dispatcher (\<^verbatim>\<open>crates/synbadd/src/supervisor/requests.rs\<close>), the periodic repair of the network
  services, and the arms of the run loop over the whole supervisor (\<^verbatim>\<open>supervisor/mod.rs\<close>).  The wording of error
  values and of quoted strings (\<^verbatim>\<open>Display\<close>, \<^verbatim>\<open>Debug\<close>) is in the argument \<open>texts\<close>.
\<close>

subsection \<open>Requests\<close>

record texts =
  show_config_error :: "config_error \<Rightarrow> string"
  show_trust_error :: "trust_error \<Rightarrow> string"
  debug_str :: "string \<Rightarrow> string"

definition gc_pairing_tasks :: "world \<Rightarrow> supervisor \<Rightarrow> supervisor" where
  "gc_pairing_tasks w s =
     s\<lparr> v_pairing_tasks := filter (\<lambda>t. \<not> w_finished w t) (v_pairing_tasks s),
       v_pairing_confirm := filter (\<lambda>t. \<not> w_closed w t) (v_pairing_confirm s) \<rparr>"

definition register_pairing :: "world \<Rightarrow> string \<Rightarrow> supervisor \<Rightarrow> supervisor" where
  "register_pairing w session_id s =
     gc_pairing_tasks w
       (s\<lparr> v_pairing_confirm := List.insert session_id (v_pairing_confirm s),
          v_pairing_tasks := v_pairing_tasks s @ [session_id] \<rparr>)"

definition start_pairing ::
  "texts \<Rightarrow> world \<Rightarrow> string \<Rightarrow> supervisor \<Rightarrow> supervisor \<times> (string, unit) result" where
  "start_pairing tx w machine_id s =
     (let s1 = gc_pairing_tasks w s in
      if \<not> length (v_pairing_tasks s1) < 64 then (s1, Err ''too many pairing sessions; retry shortly'')
      else case map_of (v_peers s1) machine_id of
        None \<Rightarrow> (s1, Err (''peer '' @ debug_str tx machine_id @ '' not currently discovered''))
      | Some peer \<Rightarrow> (register_pairing w (w_uuid w) s1, Ok ()))"

definition list_audio_devices :: "world \<Rightarrow> supervisor \<Rightarrow> response" where
  "list_audio_devices w s =
     (if v_audio s \<and> w_queue_full w then RespError ''audio bridge is not responding''
      else case w_devices w of
        Inr (inputs, outputs) \<Rightarrow> RespAudioDevices inputs outputs
      | Inl e \<Rightarrow> RespError e)"

definition audio_status_snapshot :: "world \<Rightarrow> supervisor \<Rightarrow> response" where
  "audio_status_snapshot w s =
     (if \<not> v_audio s then RespAudioStatus []
      else if w_queue_full w then RespError ''audio bridge is not responding''
      else case w_statuses w of
        Some peers \<Rightarrow> RespAudioStatus peers
      | None \<Rightarrow> RespError ''audio bridge did not reply within two seconds'')"

definition forget_demoted :: "audio_config \<Rightarrow> audio_config \<Rightarrow> supervisor \<Rightarrow> supervisor" where
  "forget_demoted old new s =
     (let demoted = {pid \<in> set (map fst (v_peers s)). peer_audio_active old pid \<and> \<not> peer_audio_active new pid}
      in s\<lparr> v_audio_live := v_audio_live s - demoted,
           v_audio_backoff := (\<lambda>pid. if pid \<in> demoted then None else v_audio_backoff s pid) \<rparr>)"

definition update_audio_config ::
  "daemon_api \<Rightarrow> dirs \<Rightarrow> world \<Rightarrow> audio_config \<Rightarrow> supervisor \<Rightarrow> supervisor \<times> (config_error, unit) result" where
  "update_audio_config api d w new_audio s =
     (let old_audio = audio (s_config s) in
      case set_config api d w ((s_config s)\<lparr> audio := new_audio \<rparr>) s of
        (s1, Inl e) \<Rightarrow> (s1, Err e)
      | (s1, Inr _) \<Rightarrow>
          (let s2 = (if audio_enabled old_audio \<noteq> audio_enabled new_audio then reconcile_audio_subsystem w s1 else s1);
               s3 = offer_command (Reconfigure new_audio) s2;
               s4 = (if audio_enabled old_audio \<and> audio_enabled new_audio
                     then forget_demoted old_audio new_audio s3 else s3)
           in (reconcile_audio_sessions (w_busy w) (w_now w) s4, Ok ())))"

definition revoke_trust ::
  "daemon_api \<Rightarrow> texts \<Rightarrow> world \<Rightarrow> string \<Rightarrow> supervisor \<Rightarrow> supervisor \<times> response" where
  "revoke_trust api tx w machine_id s =
     (case trust_remove (trust_ser api) (w_uuid w) (w_faults w) (s_fs s) (v_trust s) machine_id of
        (m, st, r) \<Rightarrow>
          (let s1 = s\<lparr> s_fs := m, v_trust := st \<rparr> in
           case r of
             Inr True \<Rightarrow> (offer_command (ClosePeer machine_id) (send_event (EvTrustRevoked machine_id) s1), RespOk)
           | Inr False \<Rightarrow> (s1, RespError (''peer '' @ debug_str tx machine_id @ '' is not trusted''))
           | Inl e \<Rightarrow> (s1, RespError (show_trust_error tx e))))"

definition set_config_text :: "texts \<Rightarrow> config \<Rightarrow> config_error \<Rightarrow> string" where
  "set_config_text tx c e =
     (if validate c = Ok () then ''persisting new config'' else show_config_error tx e)"

text \<open>\<^verbatim>\<open>connected_peers\<close> is a sorted set, \<^verbatim>\<open>peers\<close> a hash map.\<close>

definition handle_request ::
  "daemon_api \<Rightarrow> dirs \<Rightarrow> texts \<Rightarrow> world \<Rightarrow> request \<Rightarrow> supervisor \<Rightarrow> supervisor \<times> response" where
  "handle_request api d tx w req s = (case req of
       GetStatus \<Rightarrow> (s, RespStatus (s_state s) (s_log_tail s) (sorted_list_of_set (s_connected_peers s)) (s_active_screen s))
     | GetConfig \<Rightarrow> (s, RespConfig (s_config s))
     | SetConfig c \<Rightarrow> (case set_config api d w c s of
           (s1, Inr _) \<Rightarrow> (s1, RespOk)
         | (s1, Inl e) \<Rightarrow> (s1, RespError (set_config_text tx c e)))
     | Start \<Rightarrow> (reconcile_audio_subsystem w (request_start d (w_faults w) s), RespOk)
     | Stop \<Rightarrow> (reconcile_audio_subsystem w (request_stop d (w_faults w) (w_exits w) s), RespOk)
     | Restart \<Rightarrow> (reconcile_audio_subsystem w (request_restart d (w_faults w) (w_exits w) s), RespOk)
     | Subscribe \<Rightarrow> (s, RespOk)
     | ListPeers \<Rightarrow> (s, RespPeers (map snd (v_peers s)))
     | GetLocalIdentity \<Rightarrow> (s, RespLocalIdentity (v_machine_id s) (v_fingerprint s))
     | StartPairing machine_id \<Rightarrow> (case start_pairing tx w machine_id s of
           (s1, Inr _) \<Rightarrow> (s1, RespOk)
         | (s1, Inl e) \<Rightarrow> (s1, RespError e))
     | ConfirmPairing session_id accept \<Rightarrow>
         if session_id \<in> set (v_pairing_confirm s)
         then (s\<lparr> v_pairing_confirm := removeAll session_id (v_pairing_confirm s),
                 v_decisions := v_decisions s @ [(session_id, accept)] \<rparr>, RespOk)
         else (s, RespError (''no pending pairing session '' @ debug_str tx session_id))
     | ListTrustedPeers \<Rightarrow> (s, RespTrustedPeers (trust_list (v_trust s)))
     | Shutdown \<Rightarrow> (s\<lparr> s_shutdown := True \<rparr>, RespOk)
     | RevokeTrust machine_id \<Rightarrow> revoke_trust api tx w machine_id s
     | ListAudioDevices \<Rightarrow> (s, list_audio_devices w s)
     | SetAudioConfig a \<Rightarrow> (case update_audio_config api d w a s of
           (s1, Inr _) \<Rightarrow> (s1, RespOk)
         | (s1, Inl e) \<Rightarrow> (s1, RespError (set_config_text tx ((s_config s)\<lparr> audio := a \<rparr>) e)))
     | GetAudioStatus \<Rightarrow> (s, audio_status_snapshot w s))"

subsection \<open>Start of the daemon\<close>

text \<open>
  The identity, the file watcher and the binary resolver are made before; their failure ends the program.  What is
  left of \<^verbatim>\<open>Supervisor::new\<close>: the configuration and the trust store are read, the versions are restored, the
  best-effort listeners are tried once, and the Core is launched unless the user had stopped it.
\<close>

datatype start_error = BadConfig config_error | BadTrust trust_error

definition supervisor_init ::
  "daemon_api \<Rightarrow> world \<Rightarrow> string \<Rightarrow> string \<Rightarrow> config \<Rightarrow> versioned_config \<Rightarrow> trusted_peer_store \<Rightarrow> fs \<Rightarrow> supervisor" where
  "supervisor_init api w machine_id fingerprint c v trust m =
     core_sup.extend (core_boot c m)
       \<lparr> v_versioned = v, v_machine_id = machine_id, v_fingerprint = fingerprint, v_peers = [], v_trust = trust,
         v_pairing_confirm = [], v_pairing_tasks = [], v_decisions = [],
         v_sync_tasks = [], v_sync_confirmed = (\<lambda>_. None), v_sync_backoff = (\<lambda>_. None),
         v_audio = False, v_audio_listener = False, v_audio_dial_deps = False, v_audio_inflight = {},
         v_audio_live = {}, v_audio_backoff = (\<lambda>_. None),
         v_advert = (if w_discovery_starts w
                     then Some \<lparr> adv_service_port = service_port c, adv_sync_port = sync_port c, adv_core_port = port c,
                                 adv_audio_port = 0, adv_config_head = state_head api v \<rparr>
                     else None),
         v_browser = w_discovery_starts w, v_pairing_name = server_name c, v_pairing_listener = w_pairing_binds w,
         v_incoming_pairings = True, v_sync_listener = w_sync_binds w,
         v_listener_ports = (service_port c, sync_port c, signal_port (audio c)),
         v_audio_dials = [], v_audio_cmds = [] \<rparr>"

definition supervisor_new ::
  "daemon_api \<Rightarrow> dirs \<Rightarrow> world \<Rightarrow> string \<Rightarrow> string \<Rightarrow> fs \<Rightarrow> (start_error, supervisor) result" where
  "supervisor_new api d w machine_id fingerprint m =
     (case config_load (toml_de api) (w_faults w) m (config_file d) of
        Inl e \<Rightarrow> Err (BadConfig e)
      | Inr loaded \<Rightarrow>
          (let c = (case loaded of None \<Rightarrow> config_default | Some c \<Rightarrow> c);
               (m1, v) = bootstrap_versioned api (w_faults w) m d c machine_id
           in case trust_load (trust_de api) (w_faults w) m1 (config_dir d @ [''trusted-peers.json'']) of
                Inl e \<Rightarrow> Err (BadTrust e)
              | Inr trust \<Rightarrow>
                  Ok (reconcile_audio_subsystem w
                    (launch d (w_faults w) (supervisor_init api w machine_id fingerprint c v trust m1)))))"

subsection \<open>The run loop over the whole supervisor\<close>

text \<open>
  The arms that concern the Core alone are those of the Core's state machine, on the extended record.  \<open>sup_exit\<close> are
  the two ways out of the loop: a shutdown request and a signal.
\<close>

definition wind_down :: "world \<Rightarrow> supervisor \<Rightarrow> supervisor" where
  "wind_down w s = teardown_audio_subsystem w (stop_core (w_exits w) s)"

definition reconcile_tick :: "daemon_api \<Rightarrow> world \<Rightarrow> supervisor \<Rightarrow> supervisor" where
  "reconcile_tick api w s =
     reconcile_audio_sessions (w_busy w) (w_now w) (gc_pairing_tasks w
       (reconcile_sync_sessions (state_head api) (w_busy w) (w_sync_result w) (w_now w)
         (reconcile_network_services (state_head api) w s)))"

inductive sup_step :: "daemon_api \<Rightarrow> dirs \<Rightarrow> texts \<Rightarrow> (path \<times> io_kind \<Rightarrow> string) \<Rightarrow> supervisor \<Rightarrow> supervisor \<Rightarrow> bool"
  for api :: daemon_api and d :: dirs and tx :: texts and show_io :: "path \<times> io_kind \<Rightarrow> string" where
  stalled: "s_core_connect_deadline s = Some t \<Longrightarrow> t \<le> now \<Longrightarrow> sup_step api d tx show_io s (core_stalled s)"
| due: "s_restart_at s = Some t \<Longrightarrow> t \<le> now \<Longrightarrow> sup_step api d tx show_io s (restart_due s)"
| resolved: "s_tasks s = c # ts \<Longrightarrow>
    sup_step api d tx show_io s
      (on_core_resolved d show_io fl now ans (resolve_core fetched c) (s\<lparr> s_tasks := ts \<rparr>))"
| daemon_log: "sup_step api d tx show_io s (record_log line s)"
| core_log: "sup_step api d tx show_io s (handle_core_log now pid line s)"
| exit_arrives: "sup_step api d tx show_io s (s\<lparr> s_exits := s_exits s @ [x] \<rparr>)"
| exits: "s_exits s = (pid, status) # xs \<Longrightarrow>
    sup_step api d tx show_io s (handle_child_exit now pid status (s\<lparr> s_exits := xs \<rparr>))"
| request: "handle_request api d tx w req s = (t, reply) \<Longrightarrow> \<not> s_shutdown t \<Longrightarrow> sup_step api d tx show_io s t"
| file_edited: "sup_step api d tx show_io s (handle_config_changed api d w (s\<lparr> s_fs := m \<rparr>))"
| sync_op: "sup_step api d tx show_io s (fst (handle_sync_op api d w op s))"
| discovery: "v_browser s \<Longrightarrow> sup_step api d tx show_io s (handle_discovery (state_head api) busy now ev s)"
| audio_event: "v_audio s \<Longrightarrow> sup_step api d tx show_io s (handle_audio_event now aev s)"
| dial_outcome: "sup_step api d tx show_io s (handle_audio_dial_outcome now outcome s)"
| incoming_pairing: "v_incoming_pairings s \<Longrightarrow> sup_step api d tx show_io s (register_pairing w session_id s)"
| tick: "sup_step api d tx show_io s (reconcile_tick api w s)"

inductive sup_exit :: "daemon_api \<Rightarrow> dirs \<Rightarrow> texts \<Rightarrow> supervisor \<Rightarrow> supervisor \<Rightarrow> bool"
  for api :: daemon_api and d :: dirs and tx :: texts where
  shutdown: "handle_request api d tx w req s = (t, reply) \<Longrightarrow> s_shutdown t \<Longrightarrow> sup_exit api d tx s (wind_down w t)"
| signal: "sup_exit api d tx s (wind_down w s)"

inductive sup_reachable :: "daemon_api \<Rightarrow> dirs \<Rightarrow> texts \<Rightarrow> (path \<times> io_kind \<Rightarrow> string) \<Rightarrow> supervisor \<Rightarrow> bool"
  for api :: daemon_api and d :: dirs and tx :: texts and show_io :: "path \<times> io_kind \<Rightarrow> string" where
  boot: "supervisor_new api d w machine_id fingerprint m = Ok s \<Longrightarrow> sup_reachable api d tx show_io s"
| step: "sup_reachable api d tx show_io s \<Longrightarrow> sup_step api d tx show_io s t \<Longrightarrow> sup_reachable api d tx show_io t"

end
