(* ===== verification/Core_Retry.thy ===== *)
theory Core_Retry
  imports Core_Lifecycle
begin

text \<open>
  The Core's retry schedule, the finality of Stop, the user's intent across daemon restarts, and the
  program that is spawned when the configuration changes while a resolution is in flight.
\<close>

subsection \<open>Retry delays\<close>



subsection \<open>Stop is final\<close>

text \<open>Once sharing is not wanted, no step of the run loop starts anything: timers, landing
  resolutions, late exits, log lines and configuration edits leave the Core stopped and spawn
  nothing.  Only an explicit Start or Restart changes that.\<close>

theorem stop_is_final:
  assumes "core_reachable d show_io s" and "\<not> s_desired_running s" and "core_step d show_io fl s t"
  shows "t = request_start d fl s \<or> (\<exists>arrivals. t = request_restart d fl arrivals s)
     \<or> (\<not> s_desired_running t \<and> s_state t = Stopped \<and> s_child_pid t = None \<and> s_spawns t = s_spawns s)"
proof -
  have inv: "core_inv s" using assms(1) by (rule core_reachable_inv)
  then have stopped: "s_state s = Stopped" "s_restart_at s = None" and base: "core_base s"
    using assms(2) by (auto simp: core_inv_def)
  then have none: "s_child_pid s = None"
    using core_baseD(1) [OF base] by (cases "s_child_pid s") auto
  show ?thesis
    using assms(3) inv
  proof cases
    case (resolved c ts now ans fetched)
    then show ?thesis using assms(2) stopped none by (simp add: on_core_resolved_unwanted)
  next
    case (exits pid status xs now)
    then show ?thesis using assms(2) stopped none by (simp add: handle_child_exit_def)
  next
    case (req_stop arrivals)
    then show ?thesis using stopped none by (simp add: request_stop_def)
  next
    case (edit c arrivals)
    then show ?thesis using assms(2) stopped none by (simp add: restart_if_needed_def)
  qed (use assms(2) stopped none in auto)
qed

definition demo_stopped :: core_sup where
  "demo_stopped = request_stop demo_dirs no_faults [] demo_running"

lemma demo_stopped_facts:
  "core_reachable demo_dirs demo_show demo_stopped" "\<not> s_desired_running demo_stopped"
  unfolding demo_stopped_def
  by (rule core_reachable.step [OF demo_running_facts(1) core_step.req_stop])
    (simp add: request_stop_def persist_user_stopped_def)

theorem stop_is_final_witness:
  "s_spawns (record_log ''x'' demo_stopped) = s_spawns demo_stopped
   \<or> record_log ''x'' demo_stopped = request_start demo_dirs no_faults demo_stopped
   \<or> (\<exists>arrivals. record_log ''x'' demo_stopped = request_restart demo_dirs no_faults arrivals demo_stopped)"
  using stop_is_final [OF demo_stopped_facts core_step.daemon_log [of _ _ no_faults demo_stopped "''x''"]] by blast

subsection \<open>The user's intent survives a daemon restart\<close>

definition marker_tracks :: "dirs \<Rightarrow> core_sup \<Rightarrow> bool" where
  "marker_tracks d s \<longleftrightarrow> (s_fs s (user_stopped_marker d) = None \<longleftrightarrow> s_desired_running s)"

lemma marker_distinct [simp]:
  "user_stopped_marker d \<noteq> generated_conf d" "user_stopped_marker d \<noteq> generated_settings d"
  by (simp_all add: user_stopped_marker_def generated_conf_def generated_settings_def)

lemma start_core_simps [simp]:
  "s_fs (start_core s) = s_fs s" "s_desired_running (start_core s) = s_desired_running s"
  by (simp_all add: start_core_def Let_def)

lemma restart_core_simps [simp]:
  "s_fs (restart_core arr s) = s_fs s" "s_desired_running (restart_core arr s) = s_desired_running s"
  by (simp_all add: restart_core_def)

lemma persist_marker:
  "s_fs (persist_user_stopped d no_faults stopped s) (user_stopped_marker d) = (if stopped then Some [] else None)"
  by (auto simp: persist_user_stopped_def fs_write_def fs_remove_def no_faults_def split: option.splits)

lemma on_core_resolved_marker:
  assumes "core_inv s" and "s_tasks s = c # ts" and "marker_tracks d s"
  shows "marker_tracks d (on_core_resolved d show_io fl now ans outcome (s\<lparr> s_tasks := ts \<rparr>))"
proof (cases "s_desired_running s")
  case True
  show ?thesis
    by (rule on_core_resolved_cases [OF assms(1,2) True, of d show_io fl now ans outcome])
      (use assms(3) True in \<open>simp_all add: marker_tracks_def\<close>)
next
  case False
  then show ?thesis using assms(3) by (simp add: on_core_resolved_unwanted marker_tracks_def)
qed

lemma handle_child_exit_marker:
  assumes "core_inv s" and "marker_tracks d s"
  shows "marker_tracks d (handle_child_exit now pid status s)"
proof (cases "s_child_pid s = Some pid \<and> s_desired_running s")
  case True
  then show ?thesis
    using retry_after_exit_armed [OF retire_child_quiet [OF assms(1)], of pid now status now "es_code status"] assms(2)
    by (metis handle_child_exit_eq marker_tracks_def retire_child_simps(4,5))
next
  case False
  then show ?thesis using assms(2) by (auto simp: handle_child_exit_def marker_tracks_def Let_def)
qed

lemma core_step_marker:
  assumes "core_step d show_io no_faults s t" and "core_inv s" and "marker_tracks d s"
  shows "marker_tracks d t"
  using assms
proof (induction rule: core_step.induct)
  case (exits s pid status xs now)
  have "core_inv (s\<lparr> s_exits := xs \<rparr>)"
    using exits.prems(1) by - (rule core_inv_frame [of s], simp_all add: core_inv_valid core_inv_tail)
  moreover have "marker_tracks d (s\<lparr> s_exits := xs \<rparr>)" using exits.prems(2) by (simp add: marker_tracks_def)
  ultimately show ?case by (rule handle_child_exit_marker)
next
  case (resolved s c ts now ans fetched)
  then show ?case by (simp add: on_core_resolved_marker)
qed (auto simp: marker_tracks_def restart_due_def request_start_def request_stop_def request_restart_def
    restart_if_needed_def persist_marker)

text \<open>In a run without file-system faults, a daemon started on the files another one leaves behind, at
  any moment and with any valid configuration, wants sharing exactly if the other one wanted it: an
  explicit Stop survives, everything else starts again.\<close>

theorem intent_survives_restart:
  assumes "validate c = Ok ()"
    and "rtranclp (core_step d show_io no_faults) (launch d no_faults (core_boot c m)) s"
  shows "s_desired_running (launch d no_faults (core_boot c' (s_fs s))) = s_desired_running s"
proof -
  have "core_inv s \<and> marker_tracks d s"
    using assms(2)
  proof (induction rule: rtranclp_induct)
    case base
    have "core_inv (launch d no_faults (core_boot c m))"
      using core_reachable_inv [OF core_reachable.boot [OF assms(1)]] .
    moreover have "marker_tracks d (launch d no_faults (core_boot c m))"
      by (simp add: marker_tracks_def launch_def core_boot_def no_faults_def)
    ultimately show ?case ..
  next
    case (step s t)
    then show ?case using core_step_inv core_step_marker by blast
  qed
  then show ?thesis
    by (auto simp: launch_def core_boot_def no_faults_def marker_tracks_def)
qed

theorem intent_survives_restart_witness:
  "\<not> s_desired_running (launch demo_dirs no_faults (core_boot config_default
       (s_fs (request_stop demo_dirs no_faults [] demo_started))))"
proof -
  have "rtranclp (core_step demo_dirs demo_show no_faults) demo_started
      (request_stop demo_dirs no_faults [] demo_started)"
    by (rule r_into_rtranclp, rule core_step.req_stop)
  from intent_survives_restart [OF validate_config_default this [unfolded demo_started_def], of config_default]
  show ?thesis by (simp add: demo_started_def request_stop_def)
qed

subsection \<open>The program spawned after an edit\<close>

lemma on_core_resolved_spawns:
  assumes "core_inv s" and "s_tasks s = c # ts" and "s_desired_running s"
  shows "s_child_pid (on_core_resolved d show_io no_faults now (Spawned pid None) (Ok (Unified p))
           (s\<lparr> s_tasks := ts \<rparr>)) = Some pid"
proof -
  note r = resolution_quiet [OF assms]
  show ?thesis
    using assms(3) r(3,5)
    by (simp add: on_core_resolved_def is_running_child_def write_core_artefacts_def fs_write_def no_faults_def
        build_command_def spawn_child_def Let_def)
qed

text \<open>If the user sets an explicit Core binary while a resolution is in flight, the restart
  keeps that resolution, and when it lands the program it resolved for the \<^emph>\<open>old\<close> configuration is spawned,
  under the new configuration, with no further restart pending: the override is ignored.\<close>

theorem override_during_resolution_is_ignored:
  assumes "core_reachable d show_io s" and "s_desired_running s" and "s_tasks s = [c]"
    and "core_path (binaries c) = None"
    and "validate c' = Ok ()" and "core_path (binaries c') = Some new" and "core_inputs_differ (s_config s) c'"
    and "t = restart_if_needed arrivals (core_inputs_differ (s_config s) c') (s\<lparr> s_config := c' \<rparr>)"
    and "u = on_core_resolved d show_io no_faults now (Spawned pid None) (resolve_core (Ok (Unified downloaded)) c)
               (t\<lparr> s_tasks := [] \<rparr>)"
  shows "s_tasks t = [c] \<and> s_config u = c' \<and> s_state u = Running pid
     \<and> fst (last (s_spawns u)) = downloaded \<and> s_tasks u = [] \<and> s_restart_at u = None"
proof -
  have inv: "core_inv s" using assms(1) by (rule core_reachable_inv)
  then have res: "s_core_resolving s" using assms(3) by (auto simp: core_inv_def core_base_def split: if_splits)
  have t: "t = restart_core arrivals (s\<lparr> s_config := c' \<rparr>)"
    using assms(2,7,8) by (simp add: restart_if_needed_def)
  have ts: "s_tasks t = [c]" "s_config t = c'" "s_desired_running t"
    using res assms(2,3) by (simp_all add: t restart_core_def start_core_def is_running_child_def Let_def)
  have invt: "core_inv t" unfolding assms(8) by (rule adopt_config_inv [OF inv assms(5)])
  have out: "resolve_core (Ok (Unified downloaded)) c = Ok (Unified downloaded)"
    using assms(4) by (simp add: resolve_core_def)
  have "s_child_pid u = Some pid"
    unfolding assms(9) out by (rule on_core_resolved_spawns [OF invt ts(1,3)])
  have "core_inv u" unfolding assms(9) by (rule on_core_resolved_inv [OF invt ts(1)])
  then have base: "core_base u" by (rule core_inv_base)
  then have run: "s_state u = Running pid" "s_restart_at u = None" "s_tasks u = []"
    using \<open>s_child_pid u = Some pid\<close> by (auto simp: core_base_def)
  have "s_config u = c' \<and> fst (last (s_spawns u)) = downloaded"
  proof (rule on_core_resolved_cases [OF invt ts(1,3), of d show_io no_faults now "Spawned pid None" "Ok (Unified downloaded)"])
    fix what s'
    assume "on_core_resolved d show_io no_faults now (Spawned pid None) (Ok (Unified downloaded)) (t\<lparr> s_tasks := [] \<rparr>)
      = start_failed now what s'"
    then have "s_state u = Crashed None" using assms(9) out by simp
    then show ?thesis using run(1) by simp
  next
    fix p layout program args s2
    assume "on_core_resolved d show_io no_faults now (Spawned pid None) (Ok (Unified downloaded)) (t\<lparr> s_tasks := [] \<rparr>) = s2"
      and b: "Ok (Unified downloaded) = Ok layout"
        "build_command layout (s_config t) (generated_conf d) (generated_settings d) = Ok (program, args)"
        "s_spawns s2 = s_spawns t @ [(program, args)]" "s_config s2 = s_config t"
    then have "u = s2" using assms(9) out by simp
    then show ?thesis using b ts(2) by (auto simp: build_command_def)
  qed
  then show ?thesis using ts(1) run by simp
qed

definition demo_override :: config where
  "demo_override = config_default\<lparr> binaries := \<lparr> core_path = Some ''/opt/core'' \<rparr> \<rparr>"

definition demo_edited :: core_sup where
  "demo_edited = restart_if_needed [] True (demo_started\<lparr> s_config := demo_override \<rparr>)"

definition demo_landed :: core_sup where
  "demo_landed = on_core_resolved demo_dirs demo_show no_faults 9 (Spawned 8 None)
     (resolve_core (Ok (Unified ''downloaded'')) config_default) (demo_edited\<lparr> s_tasks := [] \<rparr>)"

theorem override_during_resolution_is_ignored_witness:
  "core_path (binaries (s_config demo_landed)) = Some ''/opt/core''
   \<and> s_state demo_landed = Running 8 \<and> fst (last (s_spawns demo_landed)) = ''downloaded''"
proof -
  have diff: "core_inputs_differ (s_config demo_started) demo_override"
    by (simp add: demo_started_facts core_inputs_differ_def core_view_def config_eq_def demo_override_def config_default_def)
  have valid: "validate demo_override = Ok ()"
    by (simp add: demo_override_def validate_def config_default_def)
  have none: "core_path (binaries config_default) = None" by (simp add: config_default_def)
  have some: "core_path (binaries demo_override) = Some ''/opt/core''" by (simp add: demo_override_def)
  from override_during_resolution_is_ignored [OF demo_started_facts(1,3,2) none valid some diff refl refl, of "[]" 9 8 "''downloaded''"]
  show ?thesis
    unfolding demo_landed_def demo_edited_def using diff by (simp add: demo_override_def)
qed

end
