(* ===== verification/Daemon.thy ===== *)
theory Daemon
  imports Requests Core_Retry
begin

text \<open>
  The supervisor as one state machine: its invariant through every arm of the run loop, and what one periodic
  tick repairs.
\<close>

subsection \<open>Methods of the Core leave the rest of the supervisor alone\<close>

lemma send_event_rest [simp]: "core_sup.more (send_event e s) = core_sup.more s"
  by (simp add: send_event_def)

lemma set_state_rest [simp]: "core_sup.more (set_state st s) = core_sup.more s"
  by (simp add: set_state_def Let_def)

lemma note_structured_rest [simp]: "core_sup.more (note_structured e s) = core_sup.more s"
  by (simp add: note_structured_def split: event.splits)

lemma record_log_rest [simp]: "core_sup.more (record_log l s) = core_sup.more s"
  by (simp add: record_log_def Let_def split: option.splits)

lemma start_core_rest [simp]: "core_sup.more (start_core s) = core_sup.more s"
  by (simp add: start_core_def Let_def)

lemma stop_core_rest [simp]: "core_sup.more (stop_core arr s) = core_sup.more s"
  by (simp add: stop_core_def Let_def split: option.splits)

lemma restart_core_rest [simp]: "core_sup.more (restart_core arr s) = core_sup.more s"
  by (simp add: restart_core_def)

lemma start_failed_rest [simp]: "core_sup.more (start_failed now what s) = core_sup.more s"
  by (simp add: start_failed_def schedule_restart_def Let_def split: prod.splits)

lemma write_core_artefacts_rest: "write_core_artefacts d fl s = (t, r) \<Longrightarrow> core_sup.more t = core_sup.more s"
  by (auto simp: write_core_artefacts_def Let_def split: prod.splits sum.splits)

lemma spawn_child_rest: "spawn_child now ans p args s = (t, r) \<Longrightarrow> core_sup.more t = core_sup.more s"
  by (auto simp: spawn_child_def Let_def split: spawn_answer.splits option.splits if_splits)

lemma on_core_resolved_rest [simp]:
  "core_sup.more (on_core_resolved d show_io fl now ans outcome s) = core_sup.more s"
  by (auto simp: on_core_resolved_def Let_def split: sum.splits prod.splits
      dest!: write_core_artefacts_rest spawn_child_rest)

lemma retire_child_rest [simp]: "core_sup.more (retire_child now pid st s) = core_sup.more s"
  by (simp add: retire_child_def Let_def)

lemma note_repeated_failure_rest [simp]: "core_sup.more (note_repeated_failure c s) = core_sup.more s"
  by (simp add: note_repeated_failure_def)

lemma schedule_restart_rest [simp]: "core_sup.more (fst (schedule_restart now s)) = core_sup.more s"
  by (simp add: schedule_restart_def Let_def split: prod.splits)

lemma retry_after_exit_rest [simp]: "core_sup.more (retry_after_exit now c s) = core_sup.more s"
proof -
  obtain s5 delay where s5: "schedule_restart now (note_repeated_failure c s) = (s5, delay)" by fastforce
  then have "core_sup.more s5 = core_sup.more s"
    using schedule_restart_rest [of now "note_repeated_failure c s"] by simp
  then show ?thesis unfolding retry_after_exit_def s5 Let_def prod.case by simp
qed

lemma handle_child_exit_rest [simp]: "core_sup.more (handle_child_exit now pid st s) = core_sup.more s"
  by (simp add: handle_child_exit_def Let_def)

lemma core_stalled_rest [simp]: "core_sup.more (core_stalled s) = core_sup.more s"
  by (simp add: core_stalled_def Let_def split: option.splits)

lemma handle_core_log_rest [simp]: "core_sup.more (handle_core_log now pid l s) = core_sup.more s"
  by (simp add: handle_core_log_def maybe_force_reconnect_def Let_def split: option.splits)

lemma request_rest [simp]:
  "core_sup.more (request_start d fl s) = core_sup.more s"
  "core_sup.more (request_stop d fl arr s) = core_sup.more s"
  "core_sup.more (request_restart d fl arr s) = core_sup.more s"
  "core_sup.more (restart_due s) = core_sup.more s"
  "core_sup.more (restart_if_needed arr b s) = core_sup.more s"
  by (simp_all add: request_start_def request_stop_def request_restart_def persist_user_stopped_def
      restart_due_def restart_if_needed_def Let_def)

subsection \<open>The supervisor's invariant\<close>

text \<open>Audio is up only while sharing is wanted; while it is down, no session is live or being dialled.  An advertisement is
  out exactly while the browser runs.\<close>

lemma is_none_map [simp]: "Option.is_none (map_option f x) = Option.is_none x"
  by (cases x) simp_all

definition audio_coupled :: "supervisor \<Rightarrow> bool" where
  "audio_coupled s \<longleftrightarrow> (v_audio s \<longrightarrow> s_desired_running s) \<and> v_audio_dial_deps s = v_audio s
     \<and> v_browser s = (\<not> Option.is_none (v_advert s))
     \<and> (\<not> v_audio s \<longrightarrow> v_audio_live s = {} \<and> v_audio_inflight s = {} \<and> \<not> v_audio_listener s)"

definition sup_inv :: "supervisor \<Rightarrow> bool" where
  "sup_inv s \<longleftrightarrow> core_inv s \<and> peers_ok s \<and> audio_coupled s"

lemma rest_fields:
  fixes s t :: supervisor
  assumes "core_sup.more t = core_sup.more s"
  shows "v_audio t = v_audio s" "v_audio_dial_deps t = v_audio_dial_deps s" "v_audio_live t = v_audio_live s"
    "v_audio_inflight t = v_audio_inflight s" "v_audio_listener t = v_audio_listener s" "v_peers t = v_peers s"
    "v_browser t = v_browser s" "v_advert t = v_advert s"
  using assms by (cases s; cases t; simp)+

lemma sup_inv_rest:
  assumes "sup_inv s" and "core_sup.more t = core_sup.more s" and "core_inv t"
    and "s_desired_running t \<or> \<not> v_audio s"
  shows "sup_inv t"
  using assms rest_fields [OF assms(2)] by (auto simp: sup_inv_def audio_coupled_def peers_ok_def)

lemma sup_inv_core: "sup_inv s \<Longrightarrow> core_inv s"
  by (simp add: sup_inv_def)

lemma stopped_no_audio: "sup_inv s \<Longrightarrow> s_desired_running s \<or> \<not> v_audio s"
  by (auto simp: sup_inv_def audio_coupled_def)

subsection \<open>Methods outside the Core\<close>

definition same_core :: "supervisor \<Rightarrow> supervisor \<Rightarrow> bool" where
  "same_core t s \<longleftrightarrow> core_sup.truncate t = core_sup.truncate s"

lemma same_core_fields:
  assumes "same_core t s"
  shows "s_desired_running t = s_desired_running s" and "s_config t = s_config s" and "core_inv t = core_inv s"
proof -
  have eq: "core_sup.truncate t = core_sup.truncate s" using assms by (simp add: same_core_def)
  then show "s_desired_running t = s_desired_running s" "s_config t = s_config s"
    by (simp_all add: core_sup.truncate_def)
  have inv: "core_inv a" if "core_inv b" "core_sup.truncate a = core_sup.truncate b" for a b :: supervisor
    by (rule core_inv_frame [OF that(1)])
      (use that(2) core_inv_valid [OF that(1)] core_inv_tail [OF that(1)] in \<open>auto simp: core_sup.truncate_def\<close>)
  show "core_inv t = core_inv s" using inv [OF _ eq] inv [OF _ eq [symmetric]] by blast
qed

lemma same_core_refl [simp]: "same_core s s"
  by (simp add: same_core_def)

lemma same_core_trans: "same_core t s \<Longrightarrow> same_core u t \<Longrightarrow> same_core u s"
  by (simp add: same_core_def)

text \<open>The fields the coupling of audio speaks of.\<close>

definition audio_part :: "supervisor \<Rightarrow> bool \<times> bool \<times> string set \<times> string set \<times> bool \<times> (string \<times> discovered_peer) list \<times> bool \<times> bool" where
  "audio_part s = (v_audio s, v_audio_dial_deps s, v_audio_live s, v_audio_inflight s, v_audio_listener s, v_peers s,
     v_browser s, Option.is_none (v_advert s))"

lemma sup_inv_same:
  assumes "sup_inv s" and "core_inv t" and "s_desired_running t = s_desired_running s" and "audio_part t = audio_part s"
  shows "sup_inv t"
  using assms by (simp add: sup_inv_def audio_coupled_def audio_part_def peers_ok_def)

lemma offer_command_same [simp]: "same_core (offer_command c s) s" "audio_part (offer_command c s) = audio_part s"
  "v_advert (offer_command c s) = v_advert s" "v_listener_ports (offer_command c s) = v_listener_ports s"
  "v_versioned (offer_command c s) = v_versioned s" "v_browser (offer_command c s) = v_browser s"
  "v_pairing_listener (offer_command c s) = v_pairing_listener s" "v_sync_listener (offer_command c s) = v_sync_listener s"
  "v_pairing_name (offer_command c s) = v_pairing_name s"
  by (simp_all add: offer_command_def same_core_def audio_part_def core_sup.truncate_def)

lemma same_core_inv:
  assumes "sup_inv s" and "same_core t s" and "audio_part t = audio_part s"
  shows "sup_inv t"
proof (rule sup_inv_same [OF assms(1)])
  show "core_inv t" using same_core_fields(3) [OF assms(2)] sup_inv_core [OF assms(1)] by blast
  show "s_desired_running t = s_desired_running s" using assms(2) by (rule same_core_fields)
  show "audio_part t = audio_part s" by fact
qed

lemma offer_inv: "sup_inv s \<Longrightarrow> sup_inv (offer_command c s)"
  by (erule same_core_inv) simp_all

lemma pull_same: "same_core (fold (maybe_pull_from head busy now) ps s) s
    \<and> audio_part (fold (maybe_pull_from head busy now) ps s) = audio_part s"
proof (induction ps arbitrary: s)
  case (Cons p ps)
  have "same_core (maybe_pull_from head busy now p s) s" "audio_part (maybe_pull_from head busy now p s) = audio_part s"
    by (simp_all add: maybe_pull_from_eq same_core_def audio_part_def core_sup.truncate_def)
  then show ?case using Cons [of "maybe_pull_from head busy now p s"] same_core_trans by auto
qed simp

lemma settle_same: "same_core (fold (settle_sync now) ts s) s \<and> audio_part (fold (settle_sync now) ts s) = audio_part s"
proof (induction ts arbitrary: s)
  case (Cons t ts)
  obtain pid h ok where t: "t = (pid, h, ok)" by (cases t)
  have "same_core (settle_sync now t s) s" "audio_part (settle_sync now t s) = audio_part s"
    by (simp_all add: t settle_sync_def Let_def same_core_def audio_part_def core_sup.truncate_def)
  then show ?case using Cons [of "settle_sync now t s"] same_core_trans by auto
qed simp

lemma push_same: "same_core (push_to_trusted_peers head busy now s) s"
  "audio_part (push_to_trusted_peers head busy now s) = audio_part s"
proof -
  let ?s0 = "s\<lparr> v_sync_confirmed := (\<lambda>_. None), v_sync_backoff := (\<lambda>_. None) \<rparr>"
  have "same_core ?s0 s" "audio_part ?s0 = audio_part s"
    by (simp_all add: same_core_def audio_part_def core_sup.truncate_def)
  then show "same_core (push_to_trusted_peers head busy now s) s"
    "audio_part (push_to_trusted_peers head busy now s) = audio_part s"
    using pull_same [of head busy now "map snd (v_peers s)" ?s0] same_core_trans
    by (auto simp: push_to_trusted_peers_def)
qed

lemma sync_same: "same_core (reconcile_sync_sessions head busy result now s) s"
  "audio_part (reconcile_sync_sessions head busy result now s) = audio_part s"
  using settle_same [of now "finished_syncs result s" s] pull_same same_core_trans
  unfolding reconcile_sync_sessions_def Let_def by metis+

lemma gc_same [simp]: "same_core (gc_pairing_tasks w s) s" "audio_part (gc_pairing_tasks w s) = audio_part s"
  by (simp_all add: gc_pairing_tasks_def same_core_def audio_part_def core_sup.truncate_def)

text \<open>The services other than audio.\<close>

definition other_services :: "supervisor \<Rightarrow> bool \<times> bool \<times> bool \<times> bool \<times> string" where
  "other_services s =
     (v_browser s, Option.is_none (v_advert s), v_pairing_listener s, v_sync_listener s, v_pairing_name s)"

lemma other_services_iff [simp]:
  "other_services t = other_services s \<longleftrightarrow>
     v_browser t = v_browser s \<and> Option.is_none (v_advert t) = Option.is_none (v_advert s)
     \<and> v_pairing_listener t = v_pairing_listener s \<and> v_sync_listener t = v_sync_listener s
     \<and> v_pairing_name t = v_pairing_name s"
  by (simp add: other_services_def)

lemma dials_same:
  "same_core (fold (dial_audio_one busy now) ps s) s \<and> v_audio (fold (dial_audio_one busy now) ps s) = v_audio s
   \<and> v_audio_dial_deps (fold (dial_audio_one busy now) ps s) = v_audio_dial_deps s
   \<and> v_peers (fold (dial_audio_one busy now) ps s) = v_peers s
   \<and> v_audio_listener (fold (dial_audio_one busy now) ps s) = v_audio_listener s
   \<and> v_advert (fold (dial_audio_one busy now) ps s) = v_advert s
   \<and> v_listener_ports (fold (dial_audio_one busy now) ps s) = v_listener_ports s
   \<and> v_versioned (fold (dial_audio_one busy now) ps s) = v_versioned s
   \<and> other_services (fold (dial_audio_one busy now) ps s) = other_services s"
proof (induction ps arbitrary: s)
  case (Cons p ps)
  have "same_core (dialled p s) s \<and> v_audio (dialled p s) = v_audio s \<and> v_audio_dial_deps (dialled p s) = v_audio_dial_deps s
     \<and> v_peers (dialled p s) = v_peers s \<and> v_audio_listener (dialled p s) = v_audio_listener s
     \<and> v_advert (dialled p s) = v_advert s \<and> v_listener_ports (dialled p s) = v_listener_ports s
     \<and> v_versioned (dialled p s) = v_versioned s \<and> other_services (dialled p s) = other_services s"
    by (simp add: dialled_def other_services_def same_core_def core_sup.truncate_def)
  then show ?case
    using Cons [of "dialled p s"] Cons [of s] same_core_trans by (auto simp: dial_audio_one_eq)
qed simp

lemma reconcile_audio_sessions_same:
  "same_core (reconcile_audio_sessions busy now s) s" "v_audio (reconcile_audio_sessions busy now s) = v_audio s"
  "v_audio_dial_deps (reconcile_audio_sessions busy now s) = v_audio_dial_deps s"
  "v_peers (reconcile_audio_sessions busy now s) = v_peers s"
  "v_audio_listener (reconcile_audio_sessions busy now s) = v_audio_listener s"
  "v_advert (reconcile_audio_sessions busy now s) = v_advert s"
  "v_listener_ports (reconcile_audio_sessions busy now s) = v_listener_ports s"
  "v_versioned (reconcile_audio_sessions busy now s) = v_versioned s"
  "other_services (reconcile_audio_sessions busy now s) = other_services s"
  "\<not> v_audio_dial_deps s \<Longrightarrow> reconcile_audio_sessions busy now s = s"
  using dials_same [of busy now "map snd (v_peers s)" s] by (simp_all add: reconcile_audio_sessions_def)

lemma reconcile_audio_sessions_inv:
  assumes "sup_inv s" shows "sup_inv (reconcile_audio_sessions busy now s)"
proof (cases "v_audio_dial_deps s")
  case False
  then show ?thesis using assms by (simp add: reconcile_audio_sessions_same(10))
next
  case True
  note same = reconcile_audio_sessions_same(1-9) [of busy now s]
  show ?thesis
    using assms True same same_core_fields [OF same(1)] by (simp add: sup_inv_def audio_coupled_def peers_ok_def)
qed

text \<open>\<open>loosely\<close>: as the invariant, but sharing may have been stopped with audio still up.\<close>

definition loosely_coupled :: "supervisor \<Rightarrow> bool" where
  "loosely_coupled s \<longleftrightarrow> core_inv s \<and> peers_ok s \<and> v_audio_dial_deps s = v_audio s
     \<and> v_browser s = (\<not> Option.is_none (v_advert s))
     \<and> (\<not> v_audio s \<longrightarrow> v_audio_live s = {} \<and> v_audio_inflight s = {} \<and> \<not> v_audio_listener s)"

lemma sup_inv_loosely: "sup_inv s \<longleftrightarrow> loosely_coupled s \<and> (v_audio s \<longrightarrow> s_desired_running s)"
  by (auto simp: sup_inv_def loosely_coupled_def audio_coupled_def)

lemma teardown_same:
  "same_core (teardown_audio_subsystem w s) s" "\<not> v_audio (teardown_audio_subsystem w s)"
  "\<not> v_audio_dial_deps (teardown_audio_subsystem w s)" "v_audio_live (teardown_audio_subsystem w s) = {}"
  "v_audio_inflight (teardown_audio_subsystem w s) = {}" "\<not> v_audio_listener (teardown_audio_subsystem w s)"
  "v_peers (teardown_audio_subsystem w s) = v_peers s" "v_versioned (teardown_audio_subsystem w s) = v_versioned s"
  "v_listener_ports (teardown_audio_subsystem w s) = v_listener_ports s"
  "other_services (teardown_audio_subsystem w s) = other_services s"
  by (simp_all add: teardown_audio_subsystem_def offer_command_def same_core_def core_sup.truncate_def)

lemma teardown_inv: "loosely_coupled s \<Longrightarrow> sup_inv (teardown_audio_subsystem w s)"
  using teardown_same [of w s] same_core_fields [OF teardown_same(1) [of w s]]
  by (simp add: sup_inv_loosely loosely_coupled_def peers_ok_def)

lemma ensure_same:
  assumes "\<not> v_audio s" and "audio_enabled (audio (s_config s))"
  shows "same_core (ensure_audio_subsystem w s) s" and "v_audio (ensure_audio_subsystem w s)"
    and "v_audio_dial_deps (ensure_audio_subsystem w s)" and "v_audio_listener (ensure_audio_subsystem w s) = w_bound w"
    and "v_peers (ensure_audio_subsystem w s) = v_peers s" and "v_versioned (ensure_audio_subsystem w s) = v_versioned s"
    and "v_listener_ports (ensure_audio_subsystem w s) = v_listener_ports s"
    and "other_services (ensure_audio_subsystem w s) = other_services s"
proof -
  define s1 where "s1 = s\<lparr> v_audio := True, v_audio_listener := w_bound w, v_audio_dial_deps := True \<rparr>"
  define s2 where "s2 = (if w_bound w
      then s1\<lparr> v_advert := map_option (set_audio_port (w_adv_ok w) (signal_port (audio (s_config s1)))) (v_advert s1) \<rparr>
      else s1)"
  have e: "ensure_audio_subsystem w s = reconcile_audio_sessions (w_busy w) (w_now w) s2"
    using assms by (simp add: ensure_audio_subsystem_def s1_def [symmetric] s2_def Let_def)
  have s2: "same_core s2 s" "v_audio s2" "v_audio_dial_deps s2" "v_audio_listener s2 = w_bound w" "v_peers s2 = v_peers s"
    "v_versioned s2 = v_versioned s" "v_listener_ports s2 = v_listener_ports s" "other_services s2 = other_services s"
    by (simp_all add: s2_def s1_def same_core_def core_sup.truncate_def)
  show "same_core (ensure_audio_subsystem w s) s"
    unfolding e using s2(1) reconcile_audio_sessions_same(1) by (rule same_core_trans)
  show "v_audio (ensure_audio_subsystem w s)" "v_audio_dial_deps (ensure_audio_subsystem w s)"
    "v_audio_listener (ensure_audio_subsystem w s) = w_bound w" "v_peers (ensure_audio_subsystem w s) = v_peers s"
    "v_versioned (ensure_audio_subsystem w s) = v_versioned s"
    "v_listener_ports (ensure_audio_subsystem w s) = v_listener_ports s"
    "other_services (ensure_audio_subsystem w s) = other_services s"
    unfolding e using s2 reconcile_audio_sessions_same(1-9) [of "w_busy w" "w_now w" s2] by simp_all
qed

lemma audio_subsystem_same:
  "same_core (reconcile_audio_subsystem w s) s" "v_peers (reconcile_audio_subsystem w s) = v_peers s"
  "v_versioned (reconcile_audio_subsystem w s) = v_versioned s"
  "v_listener_ports (reconcile_audio_subsystem w s) = v_listener_ports s"
  "v_audio (reconcile_audio_subsystem w s) \<longleftrightarrow> s_desired_running s \<and> audio_enabled (audio (s_config s))"
  "other_services (reconcile_audio_subsystem w s) = other_services s"
proof -
  let ?want = "s_desired_running s \<and> audio_enabled (audio (s_config s))"
  have "same_core (reconcile_audio_subsystem w s) s \<and> v_peers (reconcile_audio_subsystem w s) = v_peers s
      \<and> v_versioned (reconcile_audio_subsystem w s) = v_versioned s
      \<and> v_listener_ports (reconcile_audio_subsystem w s) = v_listener_ports s
      \<and> (v_audio (reconcile_audio_subsystem w s) \<longleftrightarrow> ?want)
      \<and> other_services (reconcile_audio_subsystem w s) = other_services s"
  proof (cases ?want)
    case True
    show ?thesis
    proof (cases "v_audio s")
      case False
      then show ?thesis using True ensure_same [of s w] by (simp add: reconcile_audio_subsystem_def)
    qed (use True in \<open>simp add: reconcile_audio_subsystem_def ensure_audio_subsystem_def\<close>)
  next
    case False
    then have "reconcile_audio_subsystem w s = (if v_audio s then teardown_audio_subsystem w s else s)"
      unfolding reconcile_audio_subsystem_def Let_def by (simp only: if_True not_False_eq_True)
    then show ?thesis using False teardown_same [of w s] by simp
  qed
  then show "same_core (reconcile_audio_subsystem w s) s" "v_peers (reconcile_audio_subsystem w s) = v_peers s"
    "v_versioned (reconcile_audio_subsystem w s) = v_versioned s"
    "v_listener_ports (reconcile_audio_subsystem w s) = v_listener_ports s"
    "v_audio (reconcile_audio_subsystem w s) \<longleftrightarrow> s_desired_running s \<and> audio_enabled (audio (s_config s))"
    "other_services (reconcile_audio_subsystem w s) = other_services s" by blast+
qed

lemma audio_subsystem_inv:
  assumes "loosely_coupled s" shows "sup_inv (reconcile_audio_subsystem w s)"
proof (cases "s_desired_running s \<and> audio_enabled (audio (s_config s))")
  case True
  show ?thesis
  proof (cases "v_audio s")
    case False
    note e = ensure_same [OF False conjunct2 [OF True], of w]
    have "sup_inv (ensure_audio_subsystem w s)"
      using assms True e same_core_fields [OF e(1)] by (simp add: sup_inv_loosely loosely_coupled_def peers_ok_def)
    then show ?thesis using True by (simp add: reconcile_audio_subsystem_def)
  next
    case v: True
    then show ?thesis
      using True assms by (simp add: reconcile_audio_subsystem_def ensure_audio_subsystem_def sup_inv_loosely)
  qed
next
  case False
  then have "reconcile_audio_subsystem w s = (if v_audio s then teardown_audio_subsystem w s else s)"
    unfolding reconcile_audio_subsystem_def Let_def by (simp only: if_True not_False_eq_True)
  then show ?thesis using teardown_inv [OF assms, of w] assms by (simp add: sup_inv_loosely)
qed

text \<open>Requests that change the run state leave the coupling to the reconciliation that follows.\<close>

lemma loosely_rest:
  assumes "sup_inv s" and "core_sup.more t = core_sup.more s" and "core_inv t"
  shows "loosely_coupled t"
  using assms rest_fields [OF assms(2)] by (auto simp: sup_inv_loosely loosely_coupled_def peers_ok_def)

lemma discovery_inv:
  assumes "sup_inv s" shows "sup_inv (handle_discovery head busy now ev s)"
proof (cases ev)
  case (Found peer)
  define s1 where "s1 = s\<lparr> v_peers := AList.update (dp_machine_id peer) peer (v_peers s) \<rparr>"
  have p1: "peers_ok s1" by (rule peers_ok_update [of s _ peer]) (use assms in \<open>simp_all add: s1_def sup_inv_def\<close>)
  have "same_core s1 s" by (simp add: s1_def same_core_def core_sup.truncate_def)
  then have i1: "sup_inv s1"
    using assms p1 same_core_fields [of s1 s] by (simp add: sup_inv_loosely loosely_coupled_def s1_def)
  define s3 where "s3 = (send_event (EvPeerDiscovered peer) s1)
      \<lparr> v_sync_confirmed := (v_sync_confirmed s1)(dp_machine_id peer := None),
        v_sync_backoff := (v_sync_backoff s1)(dp_machine_id peer := None) \<rparr>"
  have c3: "core_inv s3"
    by (rule core_inv_frame [OF sup_inv_core [OF i1]])
      (simp_all add: s3_def core_inv_valid [OF sup_inv_core [OF i1]] core_inv_tail [OF sup_inv_core [OF i1]])
  have i3: "sup_inv s3"
    by (rule sup_inv_same [OF i1 c3]) (simp_all add: s3_def audio_part_def send_event_def)
  have pull: "sup_inv (maybe_pull_from head busy now peer s3)"
    by (rule same_core_inv [OF i3]) (use pull_same [of head busy now "[peer]" s3] in simp_all)
  have "handle_discovery head busy now ev s =
      (if (case map_of (v_peers s) (dp_machine_id peer) of None \<Rightarrow> True | Some p \<Rightarrow> \<not> same_peer p peer)
       then reconcile_audio_sessions busy now (maybe_pull_from head busy now peer s3) else s1)"
    by (simp add: Found handle_discovery_def Let_def s1_def s3_def send_event_def split: option.splits)
  then show ?thesis using reconcile_audio_sessions_inv [OF pull] i1 by simp
next
  case (Lost pid)
  show ?thesis
  proof (cases "map_of (v_peers s) pid")
    case None
    then show ?thesis using assms Lost by (simp add: handle_discovery_def)
  next
    case (Some y)
    define t where "t = (send_event (EvPeerLost pid) (s\<lparr> v_peers := AList.delete pid (v_peers s) \<rparr>))
             \<lparr> v_audio_live := v_audio_live s - {pid}, v_audio_backoff := (v_audio_backoff s)(pid := None),
               v_sync_confirmed := (v_sync_confirmed s)(pid := None), v_sync_backoff := (v_sync_backoff s)(pid := None),
               v_sync_tasks := AList.delete pid (v_sync_tasks s) \<rparr>"
    have t: "handle_discovery head busy now ev s = offer_command (ClosePeer pid) t"
      by (simp add: Lost handle_discovery_def Some t_def)
    have c: "core_inv t"
      by (rule core_inv_frame [OF sup_inv_core [OF assms]])
        (simp_all add: t_def core_inv_valid [OF sup_inv_core [OF assms]] core_inv_tail [OF sup_inv_core [OF assms]])
    have "peers_ok t"
      by (rule peers_ok_delete [of s t pid]) (use assms in \<open>simp_all add: t_def sup_inv_def send_event_def\<close>)
    then have "sup_inv t"
      using assms c by (auto simp: sup_inv_loosely loosely_coupled_def t_def send_event_def)
    then show ?thesis unfolding t by (rule offer_inv)
  qed
qed

lemma audio_event_inv:
  assumes "sup_inv s" and "v_audio s" shows "sup_inv (handle_audio_event now ev s)"
proof -
  have base: "core_inv (send_event e (s\<lparr> v_audio_live := l, v_audio_inflight := i, v_audio_backoff := b \<rparr>))" for e l i b
    by (rule core_inv_frame [OF sup_inv_core [OF assms(1)]])
      (simp_all add: core_inv_valid [OF sup_inv_core [OF assms(1)]] core_inv_tail [OF sup_inv_core [OF assms(1)]])
  have inv: "sup_inv (send_event e (s\<lparr> v_audio_live := l, v_audio_inflight := i, v_audio_backoff := b \<rparr>))" for e l i b
    using assms base [where e = e and l = l and i = i and b = b] by (auto simp: sup_inv_loosely loosely_coupled_def send_event_def peers_ok_def)
  obtain e l i b where "handle_audio_event now ev s
      = send_event e (s\<lparr> v_audio_live := l, v_audio_inflight := i, v_audio_backoff := b \<rparr>)"
  proof (cases ev)
    case (PeerStatus status)
    show ?thesis
      by (cases "as_last_error status = None")
        (rule that [of "EvAudioPeerStatus status" "(v_audio_backoff s)(as_machine_id status := None)" "v_audio_inflight s" "insert (as_machine_id status) (v_audio_live s)"], simp add: PeerStatus handle_audio_event_def,
         rule that [of "EvAudioPeerStatus status" "v_audio_backoff s" "v_audio_inflight s" "v_audio_live s - {as_machine_id status}"], simp add: PeerStatus handle_audio_event_def)
  next
    case (AudioFailed peer message)
    show ?thesis
    proof (cases peer)
      case None
      show ?thesis
        by (rule that [of "EvAudioError peer message" "v_audio_backoff s" "v_audio_inflight s" "v_audio_live s"])
          (simp add: AudioFailed None handle_audio_event_def)
    next
      case (Some pid)
      show ?thesis
        by (rule that [of "EvAudioError peer message" "(v_audio_backoff s)(pid \<mapsto> after_failure now (v_audio_backoff s pid))" "v_audio_inflight s - {pid}" "v_audio_live s - {pid}"])
          (simp add: AudioFailed Some handle_audio_event_def)
    qed
  next
    case DevicesChanged
    show ?thesis
      by (rule that [of EvAudioDevicesChanged "v_audio_backoff s" "v_audio_inflight s" "v_audio_live s"])
        (simp add: DevicesChanged handle_audio_event_def)
  next
    case (SessionClosed pid)
    show ?thesis
      by (rule that [of "EvAudioPeerRemoved pid" "v_audio_backoff s" "v_audio_inflight s" "v_audio_live s - {pid}"])
        (simp add: SessionClosed handle_audio_event_def)
  qed
  then show ?thesis using inv by simp
qed

lemma dial_outcome_inv:
  assumes "sup_inv s" shows "sup_inv (handle_audio_dial_outcome now outcome s)"
proof -
  have "same_core (s\<lparr> v_audio_inflight := i, v_audio_backoff := b \<rparr>) s" for i b
    by (simp add: same_core_def core_sup.truncate_def)
  then have "core_inv (s\<lparr> v_audio_inflight := i, v_audio_backoff := b \<rparr>)" for i b
    using same_core_fields(3) sup_inv_core [OF assms] by blast
  then have "sup_inv (s\<lparr> v_audio_inflight := v_audio_inflight s - {pid}, v_audio_backoff := b \<rparr>)" for pid b
    using assms by (auto simp: sup_inv_loosely loosely_coupled_def peers_ok_def)
  then show ?thesis by (cases outcome) (simp_all add: handle_audio_dial_outcome_def)
qed

lemma register_pairing_inv: "sup_inv s \<Longrightarrow> sup_inv (register_pairing w i s)"
  by (erule same_core_inv)
    (simp_all add: register_pairing_def gc_pairing_tasks_def same_core_def audio_part_def core_sup.truncate_def)

subsection \<open>Edits and requests\<close>

lemma sup_inv_edit:
  assumes "sup_inv s" and "core_inv t" and "core_sup.more t = core_sup.more s" and "s_desired_running t = s_desired_running s"
  shows "sup_inv t"
  using sup_inv_rest [OF assms(1,3,2)] stopped_no_audio [OF assms(1)] assms(4) by simp

lemma apply_local_edit_keeps:
  assumes "sup_inv s" and "validate c = Ok ()"
  shows "sup_inv (apply_local_edit api d w c b s)"
proof (rule sup_inv_same [OF assms(1) apply_local_edit_inv [OF sup_inv_core [OF assms(1)] assms(2)]])
  obtain v' changed where v: "apply_local (v_versioned s) c (v_machine_id s) = (v', changed)" by fastforce
  define s4 where "s4 = restart_if_needed (w_exits w) (b \<and> core_inputs_differ (s_config s) c)
     (send_event EvConfigChanged (if changed then persist_sidecar api d w (s\<lparr> v_versioned := v', s_config := c \<rparr>)
        else s\<lparr> v_versioned := v', s_config := c \<rparr>))"
  have e: "apply_local_edit api d w c b s =
      (if changed then push_to_trusted_peers (state_head api) (w_busy w) (w_now w) s4 else s4)"
    by (simp add: apply_local_edit_def v s4_def Let_def)
  have more: "core_sup.more s4 = core_sup.more (s\<lparr> v_versioned := v' \<rparr>)"
    by (simp add: s4_def persist_sidecar_def)
  have "audio_part s4 = audio_part s" using rest_fields [OF more] by (simp add: audio_part_def)
  moreover have "s_desired_running s4 = s_desired_running s" by (simp add: s4_def persist_sidecar_def)
  ultimately show "s_desired_running (apply_local_edit api d w c b s) = s_desired_running s"
    "audio_part (apply_local_edit api d w c b s) = audio_part s"
    unfolding e using push_same [of "state_head api" "w_busy w" "w_now w" s4] same_core_fields(1) by simp_all
qed

lemma fs_inv:
  assumes "sup_inv s" shows "sup_inv (s\<lparr> s_fs := m \<rparr>)"
  by (rule sup_inv_edit [OF assms core_inv_update(2) [OF sup_inv_core [OF assms]]]) simp_all

lemma set_config_keeps: "sup_inv s \<Longrightarrow> sup_inv (fst (set_config api d w c s))"
  by (auto simp: set_config_def intro: fs_inv apply_local_edit_keeps split: sum.splits prod.splits)

lemma handle_config_changed_keeps: "sup_inv s \<Longrightarrow> sup_inv (handle_config_changed api d w s)"
  by (auto simp: handle_config_changed_def intro: apply_local_edit_keeps dest: config_load_valid
      split: sum.splits option.splits)

lemma handle_sync_op_keeps:
  assumes "sup_inv s" shows "sup_inv (fst (handle_sync_op api d w op s))"
proof (rule sup_inv_same [OF assms handle_sync_op_inv [OF sup_inv_core [OF assms]]])
  have roll: "s_desired_running (roll_back_merge api d w t) = s_desired_running t"
    "audio_part (roll_back_merge api d w t) = audio_part t" for t
    by (simp_all add: roll_back_merge_def audio_part_def split: sum.splits option.splits)
  have adopt: "s_desired_running (adopt_merge api d w t) = s_desired_running t"
    "audio_part (adopt_merge api d w t) = audio_part t" for t
  proof -
    have "core_sup.more (adopt_merge api d w t) = core_sup.more t"
      by (simp add: adopt_merge_def persist_sidecar_def Let_def)
    from rest_fields [OF this] show "audio_part (adopt_merge api d w t) = audio_part t" by (simp add: audio_part_def)
    show "s_desired_running (adopt_merge api d w t) = s_desired_running t"
      by (simp add: adopt_merge_def persist_sidecar_def Let_def)
  qed
  show "s_desired_running (fst (handle_sync_op api d w op s)) = s_desired_running s"
    "audio_part (fst (handle_sync_op api d w op s)) = audio_part s"
    by (cases op; simp add: handle_sync_op_def Let_def roll adopt split: prod.splits; simp add: audio_part_def)+
qed

subsection \<open>Requests\<close>

lemma run_state_requests_keep:
  assumes "sup_inv s"
  shows "sup_inv (reconcile_audio_subsystem w (request_start d fl s))"
    and "sup_inv (reconcile_audio_subsystem w (request_stop d fl arr s))"
    and "sup_inv (reconcile_audio_subsystem w (request_restart d fl arr s))"
  by (rule audio_subsystem_inv, rule loosely_rest [OF assms], simp,
      intro request_start_inv request_stop_inv request_restart_inv sup_inv_core [OF assms])+

lemma forget_demoted_keeps: "sup_inv s \<Longrightarrow> sup_inv (forget_demoted old new s)"
proof -
  assume i: "sup_inv s"
  have same: "same_core (forget_demoted old new s) s"
    by (simp add: forget_demoted_def Let_def same_core_def core_sup.truncate_def)
  show ?thesis
    using i same_core_fields [OF same]
    by (auto simp: sup_inv_loosely loosely_coupled_def peers_ok_def forget_demoted_def Let_def)
qed

lemma update_audio_config_keeps:
  assumes "sup_inv s" shows "sup_inv (fst (update_audio_config api d w a s))"
proof -
  obtain s1 r where set: "set_config api d w ((s_config s)\<lparr> audio := a \<rparr>) s = (s1, r)" by fastforce
  have i1: "sup_inv s1" using set_config_keeps [OF assms, of api d w "(s_config s)\<lparr> audio := a \<rparr>"] set by simp
  then have "sup_inv (reconcile_audio_subsystem w s1)" by (rule audio_subsystem_inv [OF conjunct1 [OF iffD1 [OF sup_inv_loosely]]])
  then show ?thesis
    using i1 unfolding update_audio_config_def Let_def set
    by (cases r) (auto intro!: reconcile_audio_sessions_inv forget_demoted_keeps offer_inv)
qed

lemma revoke_trust_keeps:
  assumes "sup_inv s" shows "sup_inv (fst (revoke_trust api tx w m s))"
proof -
  obtain fs st r where rm: "trust_remove (trust_ser api) (w_uuid w) (w_faults w) (s_fs s) (v_trust s) m = (fs, st, r)"
    by (metis prod_cases3)
  have i1: "sup_inv (s\<lparr> s_fs := fs, v_trust := st \<rparr>)"
    by (rule same_core_inv [OF fs_inv [OF assms]])
      (simp_all add: same_core_def audio_part_def core_sup.truncate_def)
  note c1 = sup_inv_core [OF i1]
  have c2: "core_inv (send_event (EvTrustRevoked m) (s\<lparr> s_fs := fs, v_trust := st \<rparr>))"
    by (rule core_inv_frame [OF c1]) (use core_inv_valid [OF c1] core_inv_tail [OF c1] in simp_all)
  have i2: "sup_inv (send_event (EvTrustRevoked m) (s\<lparr> s_fs := fs, v_trust := st \<rparr>))"
    by (rule sup_inv_same [OF i1 c2]) (simp_all add: audio_part_def send_event_def)
  show ?thesis
    using i1 offer_inv [OF i2, of "ClosePeer m"] by (auto simp: revoke_trust_def rm Let_def split: sum.splits bool.splits)
qed

lemma start_pairing_keeps:
  assumes "sup_inv s" shows "sup_inv (fst (start_pairing tx w m s))"
proof -
  have "sup_inv (gc_pairing_tasks w s)" by (rule same_core_inv [OF assms]) simp_all
  then show ?thesis
    using register_pairing_inv by (auto simp: start_pairing_def Let_def split: option.splits)
qed

lemma handle_request_keeps:
  assumes "sup_inv s" shows "sup_inv (fst (handle_request api d tx w req s))"
proof -
  have set: "sup_inv (fst (case set_config api d w c s of (s1, Inr _) \<Rightarrow> (s1, RespOk) | (s1, Inl e) \<Rightarrow> (s1, f e)))" for c f
    using set_config_keeps [OF assms, of api d w c] by (auto split: prod.splits sum.splits)
  have aud: "sup_inv (fst (case update_audio_config api d w a s of (s1, Inr _) \<Rightarrow> (s1, RespOk) | (s1, Inl e) \<Rightarrow> (s1, f e)))" for a f
    using update_audio_config_keeps [OF assms, of api d w a] by (auto split: prod.splits sum.splits)
  have pair: "sup_inv (fst (case start_pairing tx w m s of (s1, Inr _) \<Rightarrow> (s1, RespOk) | (s1, Inl e) \<Rightarrow> (s1, RespError e)))" for m
    using start_pairing_keeps [OF assms, of tx w m] by (auto split: prod.splits sum.splits)
  have confirm: "sup_inv (s\<lparr> v_pairing_confirm := c, v_decisions := e \<rparr>)" for c e
    by (rule same_core_inv [OF assms]) (simp_all add: same_core_def audio_part_def core_sup.truncate_def)
  have shut: "sup_inv (s\<lparr> s_shutdown := True \<rparr>)"
  proof (rule sup_inv_edit [OF assms])
    note c = sup_inv_core [OF assms]
    show "core_inv (s\<lparr> s_shutdown := True \<rparr>)"
      by (rule core_inv_frame [OF c]) (use core_inv_valid [OF c] core_inv_tail [OF c] in simp_all)
  qed simp_all
  show ?thesis
    by (cases req; simp add: handle_request_def assms set aud pair confirm shut run_state_requests_keep [OF assms]
          revoke_trust_keeps [OF assms])
qed

lemma wind_down_idle:
  "s_child_pid (wind_down w s) = None" "s_child_kill (wind_down w s) = None" "s_state (wind_down w s) = Stopped"
  "\<not> v_audio (wind_down w s)" "\<not> v_audio_listener (wind_down w s)" "v_audio_live (wind_down w s) = {}"
  using teardown_same [of w "stop_core (w_exits w) s"]
  by (simp_all add: wind_down_def same_core_def core_sup.truncate_def)

end
