(* ===== verification/Run_Loop.thy ===== *)
theory Run_Loop
  imports Daemon
begin

text \<open>
  The periodic repair of the network services, every arm of the run loop against the supervisor's invariant, and
  the ways out of the loop.
\<close>

subsection \<open>The periodic repair\<close>

text \<open>What the repair of discovery, pairing and sync leaves alone; \<open>whole\<close>: advertiser and browser go together.\<close>

definition apart_from_services :: "supervisor \<Rightarrow> supervisor \<Rightarrow> bool" where
  "apart_from_services t s \<longleftrightarrow> same_core t s \<and> v_audio t = v_audio s \<and> v_audio_dial_deps t = v_audio_dial_deps s
     \<and> v_audio_live t = v_audio_live s \<and> v_audio_inflight t = v_audio_inflight s
     \<and> v_audio_listener t = v_audio_listener s \<and> v_peers t = v_peers s \<and> v_versioned t = v_versioned s"

definition whole :: "supervisor \<Rightarrow> bool" where
  "whole s \<longleftrightarrow> v_browser s = (\<not> Option.is_none (v_advert s))"

lemma apart_from_services_trans:
  "apart_from_services t s \<Longrightarrow> apart_from_services u t \<Longrightarrow> apart_from_services u s"
  by (auto simp: apart_from_services_def intro: same_core_trans)

lemma apart_from_services_inv:
  assumes "sup_inv s" and "apart_from_services t s" and "whole s \<longrightarrow> whole t"
  shows "sup_inv t"
proof -
  have "same_core t s" using assms(2) by (simp add: apart_from_services_def)
  from same_core_fields [OF this] show ?thesis
    using assms by (auto simp: sup_inv_loosely loosely_coupled_def peers_ok_def apart_from_services_def whole_def)
qed

definition renamed :: "supervisor \<Rightarrow> supervisor" where
  "renamed s = (if v_pairing_name s \<noteq> server_name (s_config s)
     then s\<lparr> v_pairing_name := server_name (s_config s), v_pairing_listener := False \<rparr> else s)"

definition listeners_repaired :: "(versioned_config \<Rightarrow> string) \<Rightarrow> world \<Rightarrow> supervisor \<Rightarrow> supervisor" where
  "listeners_repaired head w s = repair_sync w (repair_pairing w (repair_discovery head w (renamed s)))"

lemma repairs_same:
  "apart_from_services (renamed s) s" "apart_from_services (repair_discovery head w s) s"
  "apart_from_services (repair_pairing w s) s" "apart_from_services (repair_sync w s) s"
  by (simp_all add: renamed_def repair_discovery_def repair_pairing_def repair_sync_def Let_def
      apart_from_services_def same_core_def core_sup.truncate_def)

lemma repairs_whole:
  "whole (renamed s) = whole s" "whole s \<Longrightarrow> whole (repair_discovery head w s)"
  "whole (repair_pairing w s) = whole s" "whole (repair_sync w s) = whole s"
  by (simp_all add: renamed_def repair_discovery_def repair_pairing_def repair_sync_def Let_def whole_def)

lemma listeners_repaired_same: "apart_from_services (listeners_repaired head w s) s"
  unfolding listeners_repaired_def
  by (rule apart_from_services_trans [OF apart_from_services_trans [OF apart_from_services_trans [OF
        repairs_same(1) repairs_same(2)] repairs_same(3)] repairs_same(4)])

lemma listeners_repaired_inv: "sup_inv s \<Longrightarrow> sup_inv (listeners_repaired head w s)"
  by (erule apart_from_services_inv [OF _ listeners_repaired_same])
    (simp add: listeners_repaired_def repairs_whole)

lemma listeners_repaired_up:
  assumes "w_discovery_starts w" and "w_pairing_binds w" and "w_sync_binds w"
  shows "v_browser (listeners_repaired head w s)" and "v_pairing_listener (listeners_repaired head w s)"
    and "v_sync_listener (listeners_repaired head w s)"
    and "v_pairing_name (listeners_repaired head w s) = server_name (s_config s)"
    and "fst (v_listener_ports (listeners_repaired head w s)) = service_port (s_config s)"
    and "fst (snd (v_listener_ports (listeners_repaired head w s))) = sync_port (s_config s)"
  using assms
  by (auto simp: listeners_repaired_def renamed_def repair_discovery_def repair_pairing_def repair_sync_def Let_def)

text \<open>The audio part of the repair, after the subsystem has been reconciled.\<close>

definition rebound :: "world \<Rightarrow> u16 \<Rightarrow> supervisor \<Rightarrow> supervisor" where
  "rebound w p s =
     (let s3 = s\<lparr> v_listener_ports := (fst (v_listener_ports s), fst (snd (v_listener_ports s)), p) \<rparr>;
          s4 = (if v_audio_listener s3 \<and> w_audio_listener_ended w then s3\<lparr> v_audio_listener := False \<rparr> else s3)
      in if \<not> v_audio_listener s4 \<and> v_audio_dial_deps s4 \<and> w_bound w then s4\<lparr> v_audio_listener := True \<rparr> else s4)"

lemma rebound_same:
  "same_core (rebound w p s) s" "v_audio (rebound w p s) = v_audio s" "v_audio_dial_deps (rebound w p s) = v_audio_dial_deps s"
  "v_audio_live (rebound w p s) = v_audio_live s" "v_audio_inflight (rebound w p s) = v_audio_inflight s"
  "v_peers (rebound w p s) = v_peers s" "v_versioned (rebound w p s) = v_versioned s" "v_advert (rebound w p s) = v_advert s"
  "v_browser (rebound w p s) = v_browser s" "v_pairing_listener (rebound w p s) = v_pairing_listener s"
  "v_sync_listener (rebound w p s) = v_sync_listener s" "v_pairing_name (rebound w p s) = v_pairing_name s"
  "v_listener_ports (rebound w p s) = (fst (v_listener_ports s), fst (snd (v_listener_ports s)), p)"
  "v_audio_listener (rebound w p s) \<longleftrightarrow>
     v_audio_listener s \<and> \<not> w_audio_listener_ended w \<or> v_audio_dial_deps s \<and> w_bound w"
  by (auto simp: rebound_def Let_def same_core_def core_sup.truncate_def)

lemma rebound_inv:
  assumes "sup_inv s" shows "sup_inv (rebound w p s)"
  using assms rebound_same [of w p s] same_core_fields [OF rebound_same(1) [of w p s]]
  by (auto simp: sup_inv_loosely loosely_coupled_def peers_ok_def)

definition audio_checked :: "world \<Rightarrow> supervisor \<Rightarrow> supervisor" where
  "audio_checked w s = (if snd (snd (v_listener_ports s)) \<noteq> signal_port (audio (s_config s)) \<or> (v_audio s \<and> w_audio_ended w)
     then teardown_audio_subsystem w s else s)"

lemma repair_audio_eq:
  "repair_audio w s = rebound w (signal_port (audio (s_config s)))
     (offer_command (Reconfigure (audio (s_config s))) (reconcile_audio_subsystem w (audio_checked w s)))"
  by (simp add: repair_audio_def rebound_def audio_checked_def Let_def)

lemma audio_checked_inv: "sup_inv s \<Longrightarrow> sup_inv (audio_checked w s)"
  using teardown_inv [of s w] by (simp add: audio_checked_def sup_inv_loosely)

lemma repair_audio_inv: "sup_inv s \<Longrightarrow> sup_inv (repair_audio w s)"
  unfolding repair_audio_eq
  by (intro rebound_inv offer_inv audio_subsystem_inv) (use audio_checked_inv [of s w] in \<open>simp add: sup_inv_loosely\<close>)

lemma audio_checked_same:
  "same_core (audio_checked w s) s" "v_versioned (audio_checked w s) = v_versioned s"
  "v_listener_ports (audio_checked w s) = v_listener_ports s" "other_services (audio_checked w s) = other_services s"
  using teardown_same [of w s] by (simp_all add: audio_checked_def)

lemma repair_audio_result:
  assumes "sup_inv s" and "w_bound w" and a: "a = repair_audio w s"
  shows "v_browser a = v_browser s" and "v_pairing_listener a = v_pairing_listener s"
    and "v_sync_listener a = v_sync_listener s" and "v_pairing_name a = v_pairing_name s"
    and "v_listener_ports a = (fst (v_listener_ports s), fst (snd (v_listener_ports s)), signal_port (audio (s_config s)))"
    and "v_audio a \<longleftrightarrow> s_desired_running s \<and> audio_enabled (audio (s_config s))"
    and "s_config a = s_config s" and "v_versioned a = v_versioned s" and "v_audio_listener a = v_audio a"
proof -
  let ?c = "audio_checked w s" let ?r = "reconcile_audio_subsystem w ?c"
  note c = audio_checked_same [of w s] and r = audio_subsystem_same [of w ?c]
  have cc: "s_config ?c = s_config s" "s_desired_running ?c = s_desired_running s" "s_config ?r = s_config ?c"
    using same_core_fields [OF c(1)] same_core_fields [OF r(1)] by simp_all
  have ir: "sup_inv ?r"
    by (rule audio_subsystem_inv) (use audio_checked_inv [OF assms(1), of w] in \<open>simp add: sup_inv_loosely\<close>)
  let ?o = "offer_command (Reconfigure (audio (s_config s))) ?r"
  have o: "audio_part ?o = audio_part ?r" "s_config ?o = s_config ?r"
    using same_core_fields(2) [OF offer_command_same(1)] by simp_all
  note b = rebound_same [of w "signal_port (audio (s_config s))" ?o]
  have "s_config a = s_config ?o" unfolding a repair_audio_eq using same_core_fields(2) [OF b(1)] .
  then show "s_config a = s_config s" using o cc by simp
  show "v_browser a = v_browser s" "v_pairing_listener a = v_pairing_listener s" "v_sync_listener a = v_sync_listener s"
    "v_pairing_name a = v_pairing_name s" "v_versioned a = v_versioned s"
    "v_listener_ports a = (fst (v_listener_ports s), fst (snd (v_listener_ports s)), signal_port (audio (s_config s)))"
    unfolding a repair_audio_eq using b c r by simp_all
  have va: "v_audio ?o = v_audio ?r" "v_audio_dial_deps ?o = v_audio_dial_deps ?r" "v_audio_listener ?o = v_audio_listener ?r"
    using o(1) by (simp_all add: audio_part_def)
  show "v_audio a \<longleftrightarrow> s_desired_running s \<and> audio_enabled (audio (s_config s))"
    unfolding a repair_audio_eq using b(2) va(1) r(5) cc by simp
  show "v_audio_listener a = v_audio a"
    unfolding a repair_audio_eq using b(2,14) va ir assms(2) by (auto simp: sup_inv_loosely loosely_coupled_def)
qed

lemma network_services_eq:
  "reconcile_network_services head w s =
     (let s2 = repair_audio w (listeners_repaired head w s); c = s_config s2
      in s2\<lparr> v_advert := map_option (refresh_advert (w_adv_ok w) (service_port c) (sync_port c) (port c)
               (if v_audio_listener s2 then signal_port (audio c) else 0) (head (v_versioned s2))) (v_advert s2) \<rparr>)"
  by (simp add: reconcile_network_services_def listeners_repaired_def renamed_def Let_def)

lemma network_services_inv:
  assumes "sup_inv s" shows "sup_inv (reconcile_network_services head w s)"
proof -
  have "sup_inv (repair_audio w (listeners_repaired head w s))"
    by (rule repair_audio_inv [OF listeners_repaired_inv [OF assms]])
  then show ?thesis
    unfolding network_services_eq Let_def
    by (rule same_core_inv) (simp_all add: same_core_def audio_part_def core_sup.truncate_def)
qed

lemma reconcile_tick_keeps:
  assumes "sup_inv s" shows "sup_inv (reconcile_tick api w s)"
proof -
  have "sup_inv (reconcile_sync_sessions (state_head api) (w_busy w) (w_sync_result w) (w_now w)
         (reconcile_network_services (state_head api) w s))" (is "sup_inv ?t")
    by (rule same_core_inv [OF network_services_inv [OF assms]]) (rule sync_same)+
  then have "sup_inv (gc_pairing_tasks w ?t)" by (rule same_core_inv) simp_all
  then show ?thesis unfolding reconcile_tick_def by (rule reconcile_audio_sessions_inv)
qed

subsection \<open>Every arm of the run loop\<close>

lemma retry_after_exit_desired [simp]: "s_desired_running (retry_after_exit now code s) = s_desired_running s"
proof -
  obtain s5 delay where s5: "schedule_restart now (note_repeated_failure code s) = (s5, delay)" by fastforce
  have "s_desired_running (fst (schedule_restart now (note_repeated_failure code s))) = s_desired_running s"
    by (simp add: schedule_restart_def Let_def split: prod.splits)
  then show ?thesis unfolding retry_after_exit_def s5 Let_def prod.case by simp
qed

lemma core_arms_desired [simp]:
  "s_desired_running (restart_due s) = s_desired_running s"
  "s_desired_running (on_core_resolved d show_io fl now ans outcome s) = s_desired_running s"
  "s_desired_running (handle_child_exit now pid status s) = s_desired_running s"
proof -
  show "s_desired_running (restart_due s) = s_desired_running s" by (simp add: restart_due_def Let_def)
  have art: "s_desired_running u = s_desired_running t" if "write_core_artefacts d fl t = (u, r)" for t u r
    using that by (auto simp: write_core_artefacts_def Let_def split: prod.splits sum.splits)
  have spawn: "s_desired_running u = s_desired_running t" if "spawn_child now ans p args t = (u, r)" for p args t u r
    using that by (auto simp: spawn_child_def Let_def split: spawn_answer.splits option.splits if_splits)
  show "s_desired_running (on_core_resolved d show_io fl now ans outcome s) = s_desired_running s"
    by (auto simp: on_core_resolved_def Let_def split: sum.splits prod.splits dest!: art spawn)
  show "s_desired_running (handle_child_exit now pid status s) = s_desired_running s"
    by (simp add: handle_child_exit_def Let_def)
qed

lemma sup_step_inv: "sup_step api d tx show_io s t \<Longrightarrow> sup_inv s \<Longrightarrow> sup_inv t"
proof (induction rule: sup_step.induct)
  case (resolved s c ts fl now ans fetched)
  show ?case
    by (rule sup_inv_edit [OF resolved(2) on_core_resolved_inv [OF sup_inv_core [OF resolved(2)] resolved(1)]]) simp_all
next
  case (exit_arrives s x)
  note c = sup_inv_core [OF exit_arrives]
  have "core_inv (s\<lparr> s_exits := s_exits s @ [x] \<rparr>)"
    by (rule core_inv_frame [OF c]) (simp_all add: core_inv_valid [OF c] core_inv_tail [OF c])
  then show ?case by (rule sup_inv_edit [OF exit_arrives]) simp_all
next
  case (exits s pid status xs now)
  note c = sup_inv_core [OF exits(2)]
  have "core_inv (s\<lparr> s_exits := xs \<rparr>)"
    by (rule core_inv_frame [OF c]) (simp_all add: core_inv_valid [OF c] core_inv_tail [OF c])
  from handle_child_exit_inv [OF this] show ?case by (rule sup_inv_edit [OF exits(2)]) simp_all
next
  case (request w req s t reply)
  then show ?case using handle_request_keeps [of s api d tx w req] by simp
next
  case (stalled s t now)
  show ?case by (rule sup_inv_edit [OF stalled(3) core_stalled_inv [OF sup_inv_core [OF stalled(3)]]]) simp_all
next
  case (due s t now)
  show ?case by (rule sup_inv_edit [OF due(3) restart_due_inv [OF sup_inv_core [OF due(3)] due(1)]]) simp_all
next
  case (daemon_log s line)
  show ?case by (rule sup_inv_edit [OF daemon_log record_log_inv [OF sup_inv_core [OF daemon_log]]]) simp_all
next
  case (core_log s now pid line)
  show ?case by (rule sup_inv_edit [OF core_log handle_core_log_inv [OF sup_inv_core [OF core_log]]]) simp_all
qed (simp_all add: fs_inv handle_config_changed_keeps handle_sync_op_keeps discovery_inv audio_event_inv dial_outcome_inv
    register_pairing_inv reconcile_tick_keeps)

lemma supervisor_init_inv:
  assumes "validate c = Ok ()"
  shows "sup_inv (supervisor_init api w i f c v tr m)" and "s_fast_fail_count (supervisor_init api w i f c v tr m) = 0"
    and "s_backoff (supervisor_init api w i f c v tr m) = MIN_BACKOFF"
proof -
  let ?s = "supervisor_init api w i f c v tr m"
  have "core_inv (core_boot c m)" using assms by (rule core_boot_inv)
  then have "core_inv ?s"
    by (simp add: supervisor_init_def core_boot_def core_sup.extend_def core_inv_def core_base_def)
  then show "sup_inv ?s"
    by (auto simp: sup_inv_loosely loosely_coupled_def peers_ok_def supervisor_init_def core_boot_def core_sup.extend_def)
qed (simp_all add: supervisor_init_def core_boot_def core_sup.extend_def)

lemma supervisor_new_inv:
  assumes "supervisor_new api d w i f m = Ok s" shows "sup_inv s"
proof -
  obtain loaded where load: "config_load (toml_de api) (w_faults w) m (config_file d) = Ok loaded"
    using assms by (auto simp: supervisor_new_def split: sum.splits)
  define c where "c = (case loaded of None \<Rightarrow> config_default | Some c \<Rightarrow> c)"
  have valid: "validate c = Ok ()"
    using load by (auto simp: c_def validate_config_default dest: config_load_valid split: option.splits)
  obtain v tr m1 where s: "s = reconcile_audio_subsystem w (launch d (w_faults w) (supervisor_init api w i f c v tr m1))"
    using assms by (auto simp: supervisor_new_def load c_def Let_def split: sum.splits prod.splits)
  let ?i = "supervisor_init api w i f c v tr m1"
  note init = supervisor_init_inv [OF valid, of api w i f v tr m1]
  have "loosely_coupled (launch d (w_faults w) ?i)"
    by (rule loosely_rest [OF init(1) _ launch_inv [OF sup_inv_core [OF init(1)] init(2,3)]]) (simp add: launch_def)
  then show ?thesis unfolding s by (rule audio_subsystem_inv)
qed

lemma sup_reachable_inv: "sup_reachable api d tx show_io s \<Longrightarrow> sup_inv s"
  by (induction rule: sup_reachable.induct) (simp_all add: supervisor_new_inv sup_step_inv)

subsection \<open>Properties\<close>

text \<open>C6. In every state the daemon can reach, from its start and through any sequence of arms of the run loop (requests,
  exits, timers, file edits, merges, discovery, audio events, ticks): the configuration is valid; the published state
  says \<open>Running pid\<close> exactly while \<open>pid\<close> is the child; the audio bridge is up only while sharing is wanted, and while
  it is down no audio session is live or being dialled and no audio listener is bound; discovered peers are keyed by
  their own machine id, without duplicates; an advertisement is out exactly while the browser runs.  And both ways
  out of the loop leave no child, no audio and the state \<open>Stopped\<close>.\<close>

theorem supervisor_always_coherent:
  assumes "sup_reachable api d tx show_io s"
  shows "validate (s_config s) = Ok ()
    \<and> (\<forall>pid. s_state s = Running pid \<longleftrightarrow> s_child_pid s = Some pid)
    \<and> (v_audio s \<longrightarrow> s_desired_running s)
    \<and> (\<not> v_audio s \<longrightarrow> v_audio_live s = {} \<and> v_audio_inflight s = {} \<and> \<not> v_audio_listener s)
    \<and> distinct (map fst (v_peers s)) \<and> (\<forall>(k, p) \<in> set (v_peers s). dp_machine_id p = k)
    \<and> (v_browser s \<longleftrightarrow> v_advert s \<noteq> None)
    \<and> (\<forall>t. sup_exit api d tx s t \<longrightarrow> s_child_pid t = None \<and> s_child_kill t = None \<and> s_state t = Stopped
         \<and> \<not> v_audio t \<and> \<not> v_audio_listener t \<and> v_audio_live t = {})"
proof -
  have inv: "sup_inv s" using assms by (rule sup_reachable_inv)
  have "s_state s = Running pid \<longleftrightarrow> s_child_pid s = Some pid" for pid
    using core_inv_base [OF sup_inv_core [OF inv]] by (auto simp: core_base_def)
  moreover have "s_child_pid t = None \<and> s_child_kill t = None \<and> s_state t = Stopped \<and> \<not> v_audio t \<and> \<not> v_audio_listener t
      \<and> v_audio_live t = {}" if "sup_exit api d tx s t" for t
    using that by (cases rule: sup_exit.cases) (simp_all add: wind_down_idle)
  ultimately show ?thesis
    using inv core_inv_valid [OF sup_inv_core [OF inv]]
    by (auto simp: sup_inv_loosely loosely_coupled_def peers_ok_def Option.is_none_def)
qed

definition demo_texts :: texts where
  "demo_texts = \<lparr> show_config_error = (\<lambda>_. ''config''), show_trust_error = (\<lambda>_. ''trust''), debug_str = (\<lambda>x. x) \<rparr>"

text \<open>The daemon on an empty file system: defaults everywhere, and the Core launched.\<close>

lemma demo_boot:
  obtains s where "supervisor_new demo_daemon_api demo_dirs demo_world ''a'' ''fa'' Map.empty = Ok s"
proof -
  have "config_load (toml_de demo_daemon_api) (w_faults demo_world) Map.empty (config_file demo_dirs) = Ok None"
    by (simp add: config_load_def fs_read_def demo_world_def no_faults_def)
  moreover have "trust_load (trust_de demo_daemon_api) (w_faults demo_world) m p = Err e \<Longrightarrow> False" for m p e
    by (auto simp: trust_load_def fs_read_def demo_world_def no_faults_def demo_daemon_api_def
        split: option.splits sum.splits if_splits) (auto simp: ok_or_def result_iffs split: option.splits)
  ultimately show ?thesis
    using that
    by (cases "bootstrap_versioned demo_daemon_api (w_faults demo_world) Map.empty demo_dirs config_default ''a''")
      (fastforce simp: supervisor_new_def Let_def split: sum.splits)
qed

theorem supervisor_always_coherent_witness:
  "\<exists>s. supervisor_new demo_daemon_api demo_dirs demo_world ''a'' ''fa'' Map.empty = Ok s
     \<and> validate (s_config s) = Ok () \<and> (v_browser s \<longleftrightarrow> v_advert s \<noteq> None)"
proof -
  obtain s where s: "supervisor_new demo_daemon_api demo_dirs demo_world ''a'' ''fa'' Map.empty = Ok s"
    by (rule demo_boot)
  show ?thesis using supervisor_always_coherent [OF sup_reachable.boot [OF s, where tx = demo_texts and show_io = "\<lambda>_. ''io''"]] s by blast
qed



end
