(* ===== verification/Ipc_Server.thy ===== *)
theory Ipc_Server
  imports Ipc_Types Cipher
begin

text \<open>
  The local socket between daemon and GUI: the server's connection task and its claim on the socket
  (\<^verbatim>\<open>crates/synbad-ipc/src/server.rs\<close>) and the blocking client (\<^verbatim>\<open>crates/synbad-ipc/src/client.rs\<close>).  Messages
  are JSON lines; the JSON codec is a parameter.  Reading a message is interrupted whenever an event has to be
  written, so it is an instance of the cancellation-safe reader.
\<close>

subsection \<open>Messages\<close>

definition MAX_MESSAGE_BYTES :: nat where "MAX_MESSAGE_BYTES = 1024 * 1024"

datatype message = MsgRequest request | MsgResponse response | MsgEvent event

datatype ipc_error = IpcIo io_kind | IpcTooLarge | IpcJson | IpcWriteZero | IpcDaemon string | IpcUnexpected | IpcClosed

record ipc_codec =
  msg_to_vec :: "message \<Rightarrow> byte list option"
  msg_from_slice :: "byte list \<Rightarrow> message option"

definition nl :: byte where "nl = 10"

fun position :: "byte \<Rightarrow> byte list \<Rightarrow> nat option" where
  "position b [] = None"
| "position b (x # xs) = (if x = b then Some 0 else map_option Suc (position b xs))"

text \<open>What a read takes of the bytes it sees: up to and including the first newline.\<close>

definition msg_take :: "byte list \<Rightarrow> nat" where
  "msg_take bytes = (case position nl bytes of None \<Rightarrow> length bytes | Some i \<Rightarrow> i + 1)"

subsection \<open>The server's reader and writer\<close>

fun read_message :: "byte list \<Rightarrow> rx list \<Rightarrow> byte list \<times> rx list \<times> (ipc_error, byte list option) result poll" where
  "read_message buffer [] = (buffer, [], Blocked)"
| "read_message buffer (Closed # inb) = (buffer, Closed # inb, Ready (Ok None))"
| "read_message buffer (Failed e # inb) = (buffer, inb, Ready (Err (IpcIo e)))"
| "read_message buffer (Data bytes # inb) =
     (if bytes = [] then read_message buffer inb
      else let n = msg_take bytes in
        if MAX_MESSAGE_BYTES < length buffer + n then (buffer, Data bytes # inb, Ready (Err IpcTooLarge))
        else if position nl bytes \<noteq> None
        then ([], (if n < length bytes then Data (drop n bytes) # inb else inb), Ready (Ok (Some (buffer @ take n bytes))))
        else read_message (buffer @ bytes) inb)"

definition encode :: "ipc_codec \<Rightarrow> message \<Rightarrow> (ipc_error, byte list) result" where
  "encode codec m =
     and_then (ok_or (msg_to_vec codec m) IpcJson) (\<lambda>v.
       if MAX_MESSAGE_BYTES < length (v @ [nl]) then Err IpcTooLarge else Ok (v @ [nl]))"

text \<open>\<open>ok\<close>: the bytes are written and flushed within the deadline.\<close>

definition send_message :: "ipc_codec \<Rightarrow> bool \<Rightarrow> message \<Rightarrow> (ipc_error, byte list) result" where
  "send_message codec ok m =
     and_then (encode codec m) (\<lambda>line. if ok then Ok line else Err (IpcIo TimedOut))"

subsection \<open>One connection\<close>

text \<open>
  \<open>ic_sub\<close> is the connection's receiver on the event bus: the events it still holds, and whether it has lost some.
  \<open>ic_pipe\<close> is what has arrived and is not read yet.
\<close>

record ipc_conn =
  ic_buffer :: "byte list"
  ic_pipe :: "rx list"
  ic_sub :: "(event list \<times> bool) option"
  ic_out :: "message list"
  ic_requests :: "request list"
  ic_open :: bool

definition conn_new :: ipc_conn where
  "conn_new = \<lparr> ic_buffer = [], ic_pipe = [], ic_sub = None, ic_out = [], ic_requests = [], ic_open = True \<rparr>"

text \<open>A receiver holds at most \<open>cap\<close> events; the oldest is lost when another comes.\<close>

definition bus_push :: "nat \<Rightarrow> event \<Rightarrow> event list \<times> bool \<Rightarrow> event list \<times> bool" where
  "bus_push cap e r = (if length (fst r) < cap then (fst r @ [e], snd r) else (tl (fst r @ [e]), True))"

definition bus_pushes :: "nat \<Rightarrow> event list \<Rightarrow> event list \<times> bool \<Rightarrow> event list \<times> bool" where
  "bus_pushes cap es r = fold (bus_push cap) es r"

datatype conn_input =
    In_Arrive "rx list"
  | In_Broadcast event
  | In_Read (in_during: "event list") (in_reply: "response option") (in_ok: bool)
  | In_Event (in_ok: bool)
  | In_Bus_Closed
  | In_Timeout

definition close_conn :: "ipc_conn \<Rightarrow> ipc_conn" where "close_conn c = c\<lparr> ic_open := False \<rparr>"

text \<open>Write a message, or give up the connection.\<close>

definition write_or_close :: "ipc_codec \<Rightarrow> bool \<Rightarrow> message \<Rightarrow> ipc_conn \<Rightarrow> ipc_conn" where
  "write_or_close codec ok m c = (case send_message codec ok m of
       Inl _ \<Rightarrow> close_conn c
     | Inr _ \<Rightarrow> c\<lparr> ic_out := ic_out c @ [m] \<rparr>)"

text \<open>
  A complete line.  \<open>during\<close> are the events broadcast while the daemon works on the request (a receiver that exists
  already has them, see below), \<open>reply\<close> is its answer within the deadline, if any; \<open>err\<close> words what was received instead of a request.
\<close>

definition handle_line ::
  "ipc_codec \<Rightarrow> nat \<Rightarrow> (message option \<Rightarrow> string) \<Rightarrow> byte list \<Rightarrow> event list \<Rightarrow> response option \<Rightarrow> bool \<Rightarrow> ipc_conn \<Rightarrow> ipc_conn" where
  "handle_line codec cap err line during reply ok c =
     (case msg_from_slice codec line of
        Some (MsgRequest req) \<Rightarrow>
          (let pending = (if req = Subscribe then Some (bus_pushes cap during ([], False)) else None);
               c1 = c\<lparr> ic_requests := ic_requests c @ [req] \<rparr>
           in case reply of
                None \<Rightarrow> close_conn c1
              | Some r \<Rightarrow>
                  let c2 = write_or_close codec ok (MsgResponse r) c1 in
                  if \<not> ic_open c2 then c2
                  else if req = Subscribe then c2\<lparr> ic_sub := pending \<rparr> else c2)
      | other \<Rightarrow> write_or_close codec ok (MsgResponse (RespError (err other))) c)"

definition conn_step ::
  "ipc_codec \<Rightarrow> nat \<Rightarrow> (message option \<Rightarrow> string) \<Rightarrow> conn_input \<Rightarrow> ipc_conn \<Rightarrow> ipc_conn" where
  "conn_step codec cap err i c =
     (if \<not> ic_open c then c
      else case i of
        In_Arrive xs \<Rightarrow> c\<lparr> ic_pipe := ic_pipe c @ xs \<rparr>
      | In_Broadcast e \<Rightarrow> c\<lparr> ic_sub := map_option (bus_push cap e) (ic_sub c) \<rparr>
      | In_Read during reply ok \<Rightarrow>
          (case read_message (ic_buffer c) (ic_pipe c) of
             (b, inb, res) \<Rightarrow>
               let c1 = c\<lparr> ic_buffer := b, ic_pipe := inb, ic_sub := map_option (bus_pushes cap during) (ic_sub c) \<rparr>
               in case res of
                 Blocked \<Rightarrow> c1
               | Ready (Inr (Some line)) \<Rightarrow> handle_line codec cap err line during reply ok c1
               | Ready _ \<Rightarrow> close_conn c1)
      | In_Event ok \<Rightarrow>
          (case ic_sub c of
             Some (es, lagged) \<Rightarrow>
               if lagged then close_conn c
               else (case es of
                  [] \<Rightarrow> c
                | e # rest \<Rightarrow> write_or_close codec ok (MsgEvent e) (c\<lparr> ic_sub := Some (rest, lagged) \<rparr>))
           | None \<Rightarrow> c)
      | In_Bus_Closed \<Rightarrow> if ic_sub c = Some ([], False) then close_conn c else c
      | In_Timeout \<Rightarrow> if ic_sub c = None then close_conn c else c)"

definition conn_run ::
  "ipc_codec \<Rightarrow> nat \<Rightarrow> (message option \<Rightarrow> string) \<Rightarrow> conn_input list \<Rightarrow> ipc_conn \<Rightarrow> ipc_conn" where
  "conn_run codec cap err ins c = fold (conn_step codec cap err) ins c"

subsection \<open>The client\<close>

text \<open>
  What the operating system answers to a read or write of the client.  \<open>expired k\<close>: the deadline has passed at the
  \<open>k\<close>-th look at the clock; \<open>dl\<close>: there is a deadline at all.  \<open>held\<close> is what the buffered reader holds.  The result is
  \<open>None\<close> while the client waits.
\<close>

datatype io_read = RdBytes "byte list" | RdInterrupted | RdWouldBlock | RdFail io_kind

datatype io_write = WrBytes nat | WrInterrupted | WrWouldBlock | WrFail io_kind

function client_recv ::
  "ipc_codec \<Rightarrow> bool \<Rightarrow> (nat \<Rightarrow> bool) \<Rightarrow> nat \<Rightarrow> byte list \<Rightarrow> byte list \<Rightarrow> io_read list \<Rightarrow>
   byte list \<times> io_read list \<times> (ipc_error, message) result option" where
  "client_recv codec dl expired k held buf evs =
     (if dl \<and> expired k then (held, evs, Some (Err (IpcIo TimedOut)))
      else case (if held \<noteq> [] then RdBytes held # evs else evs) of
        [] \<Rightarrow> ([], [], None)
      | RdBytes bytes # evs' \<Rightarrow>
          if bytes = [] then ([], evs', Some (Err IpcClosed))
          else let n = msg_take bytes in
            if MAX_MESSAGE_BYTES < length buf + n then (bytes, evs', Some (Err IpcTooLarge))
            else if position nl bytes \<noteq> None
            then (drop n bytes, evs', Some (ok_or (msg_from_slice codec (buf @ take n bytes)) IpcJson))
            else client_recv codec dl expired (Suc k) [] (buf @ bytes) evs'
      | RdInterrupted # evs' \<Rightarrow> client_recv codec dl expired (Suc k) [] buf evs'
      | RdWouldBlock # evs' \<Rightarrow>
          if dl \<and> expired (Suc k) then ([], evs', Some (Err (IpcIo TimedOut)))
          else client_recv codec dl expired (Suc (Suc k)) [] buf evs'
      | RdFail e # evs' \<Rightarrow> ([], evs', Some (Err (IpcIo e))))"
  by auto
termination
  by (relation "measure (\<lambda>(_, _, _, _, held, _, evs). length evs + (if held = [] then 0 else 1))")
    (auto split: if_splits)

declare client_recv.simps [simp del]

text \<open>\<open>sent\<close> counts the bytes of the line written so far.\<close>

fun client_write ::
  "bool \<Rightarrow> (nat \<Rightarrow> bool) \<Rightarrow> nat \<Rightarrow> byte list \<Rightarrow> nat \<Rightarrow> io_write list \<Rightarrow> nat \<times> (ipc_error, unit) result option" where
  "client_write dl expired k line sent [] = (sent, if length line \<le> sent then Some (Ok ()) else None)"
| "client_write dl expired k line sent (ev # evs) =
     (if length line \<le> sent then (sent, Some (Ok ()))
      else case ev of
        WrBytes n \<Rightarrow>
          if n = 0 then (sent, Some (Err IpcWriteZero))
          else let sent' = sent + min n (length line - sent) in
            if dl \<and> expired k \<and> sent' < length line then (sent', Some (Err (IpcIo TimedOut)))
            else client_write dl expired (Suc k) line sent' evs
      | WrInterrupted \<Rightarrow> client_write dl expired k line sent evs
      | WrWouldBlock \<Rightarrow>
          if dl \<and> (expired k \<or> expired (Suc k)) then (sent, Some (Err (IpcIo TimedOut)))
          else client_write dl expired (Suc (Suc k)) line sent evs
      | WrFail e \<Rightarrow> (sent, Some (Err (IpcIo e))))"

definition client_send ::
  "ipc_codec \<Rightarrow> bool \<Rightarrow> (nat \<Rightarrow> bool) \<Rightarrow> request \<Rightarrow> io_write list \<Rightarrow> byte list \<times> (ipc_error, unit) result option" where
  "client_send codec dl expired req evs = (case encode codec (MsgRequest req) of
       Inl e \<Rightarrow> ([], Some (Err e))
     | Inr line \<Rightarrow> (case client_write dl expired 0 line 0 evs of (sent, r) \<Rightarrow> (take sent line, r)))"

definition response_of :: "message \<Rightarrow> (ipc_error, response) result" where
  "response_of m = (case m of
       MsgResponse (RespError e) \<Rightarrow> Err (IpcDaemon e)
     | MsgResponse r \<Rightarrow> Ok r
     | _ \<Rightarrow> Err IpcUnexpected)"

text \<open>Each of the two operations has a deadline of its own.\<close>

definition client_request ::
  "ipc_codec \<Rightarrow> bool \<Rightarrow> (nat \<Rightarrow> bool) \<Rightarrow> (nat \<Rightarrow> bool) \<Rightarrow> request \<Rightarrow> io_write list \<Rightarrow> byte list \<Rightarrow> io_read list \<Rightarrow>
   byte list \<times> (ipc_error, response) result option" where
  "client_request codec dl expired expired' req wevs held revs =
     (case client_send codec dl expired req wevs of
        (out, None) \<Rightarrow> (out, None)
      | (out, Some (Inl e)) \<Rightarrow> (out, Some (Err e))
      | (out, Some (Inr _)) \<Rightarrow>
          (case client_recv codec dl expired' 0 held [] revs of
             (_, _, None) \<Rightarrow> (out, None)
           | (_, _, Some r) \<Rightarrow> (out, Some (and_then r response_of))))"

subsection \<open>Claiming the socket\<close>

text \<open>
  \<^verbatim>\<open>Listener::bind\<close> on Unix, run by any number of daemons at once: each takes the lock file, tries to create the
  socket, and if the name is in use unlinks it only if it is a socket nobody listens on.  A daemon may fail or die
  anywhere; the kernel then releases its lock and leaves its socket behind.  Other programs may leave files and dead
  sockets at the path, and remove them.
\<close>

datatype sock_file = Sock_Live nat | Sock_Stale | Not_Socket

datatype bind_pc = Pb_Idle | Pb_Locked | Pb_In_Use | Pb_Refused | Pb_Removed | Pb_Bound | Pb_Failed

record bind_world =
  bw_file :: "sock_file option"
  bw_lock :: "nat option"
  bw_pc :: "nat \<Rightarrow> bind_pc"

definition set_pc :: "nat \<Rightarrow> bind_pc \<Rightarrow> bind_world \<Rightarrow> bind_world" where
  "set_pc p x w = w\<lparr> bw_pc := (bw_pc w)(p := x) \<rparr>"

definition unlock :: "nat \<Rightarrow> bind_world \<Rightarrow> bind_world" where
  "unlock p w = (if bw_lock w = Some p then w\<lparr> bw_lock := None \<rparr> else w)"

inductive bind_step :: "bind_world \<Rightarrow> bind_world \<Rightarrow> bool" where
  lock: "bw_pc w p = Pb_Idle \<Longrightarrow> bw_lock w = None \<Longrightarrow> bind_step w (set_pc p Pb_Locked (w\<lparr> bw_lock := Some p \<rparr>))"
| busy: "bw_pc w p = Pb_Idle \<Longrightarrow> bw_lock w \<noteq> None \<Longrightarrow> bind_step w (set_pc p Pb_Failed w)"
| create: "bw_pc w p \<in> {Pb_Locked, Pb_Removed} \<Longrightarrow> bw_file w = None \<Longrightarrow>
    bind_step w (set_pc p Pb_Bound (w\<lparr> bw_file := Some (Sock_Live p) \<rparr>))"
| in_use: "bw_pc w p = Pb_Locked \<Longrightarrow> bw_file w \<noteq> None \<Longrightarrow> bind_step w (set_pc p Pb_In_Use w)"
| refused: "bw_pc w p = Pb_In_Use \<Longrightarrow> bw_file w = Some Sock_Stale \<Longrightarrow> bind_step w (set_pc p Pb_Refused w)"
| remove: "bw_pc w p = Pb_Refused \<Longrightarrow> bind_step w (set_pc p Pb_Removed (w\<lparr> bw_file := None \<rparr>))"
| fail: "bw_pc w p \<in> {Pb_Locked, Pb_In_Use, Pb_Refused, Pb_Removed} \<Longrightarrow> bind_step w (unlock p (set_pc p Pb_Failed w))"
| leave: "bw_pc w p = Pb_Bound \<Longrightarrow> f \<in> {None, Some Sock_Stale} \<Longrightarrow>
    bind_step w (unlock p (set_pc p Pb_Idle (w\<lparr> bw_file := f \<rparr>)))"
| retry: "bw_pc w p = Pb_Failed \<Longrightarrow> bind_step w (set_pc p Pb_Idle w)"
| other: "bw_file w \<in> {None, Some Sock_Stale, Some Not_Socket} \<Longrightarrow> f \<in> {None, Some Sock_Stale, Some Not_Socket} \<Longrightarrow>
    bind_step w (w\<lparr> bw_file := f \<rparr>)"

inductive bind_reachable :: "bind_world \<Rightarrow> bool" where
  start: "bind_reachable \<lparr> bw_file = f, bw_lock = None, bw_pc = (\<lambda>_. Pb_Idle) \<rparr>"
    if "f \<in> {None, Some Sock_Stale, Some Not_Socket}"
| step: "bind_reachable w \<Longrightarrow> bind_step w w' \<Longrightarrow> bind_reachable w'"

inductive_cases bind_stepE: "bind_step w w'"

subsection \<open>Only one daemon owns the socket\<close>

definition owner_pcs :: "bind_pc set" where
  "owner_pcs = {Pb_Locked, Pb_In_Use, Pb_Refused, Pb_Removed, Pb_Bound}"

definition bind_inv :: "bind_world \<Rightarrow> bool" where
  "bind_inv w \<longleftrightarrow> (\<forall>p. bw_lock w = Some p \<longleftrightarrow> bw_pc w p \<in> owner_pcs)
     \<and> (\<forall>p. bw_file w = Some (Sock_Live p) \<longleftrightarrow> bw_pc w p = Pb_Bound)"

lemma bind_invD:
  assumes "bind_inv w"
  shows "bw_lock w = Some p \<longleftrightarrow> bw_pc w p \<in> owner_pcs" "bw_file w = Some (Sock_Live p) \<longleftrightarrow> bw_pc w p = Pb_Bound"
  using assms by (simp_all add: bind_inv_def)

lemma bind_owner:
  assumes "bind_inv w" and "bw_pc w p \<in> owner_pcs"
  shows "bw_pc w q \<in> owner_pcs \<longleftrightarrow> q = p" "bw_lock w = Some p" "bw_pc w p \<noteq> Pb_Bound \<Longrightarrow> bw_pc w q \<noteq> Pb_Bound"
proof -
  show l: "bw_lock w = Some p" using bind_invD(1) [OF assms(1)] assms(2) by simp
  show iff: "bw_pc w q \<in> owner_pcs \<longleftrightarrow> q = p" using bind_invD(1) [OF assms(1), of q] l by auto
  show "bw_pc w p \<noteq> Pb_Bound \<Longrightarrow> bw_pc w q \<noteq> Pb_Bound" using iff by (auto simp: owner_pcs_def)
qed

lemma bind_inv_own:
  assumes inv: "bind_inv w" and own: "bw_pc w p \<in> owner_pcs" "x \<in> owner_pcs"
    and fl: "\<And>q. f = Some (Sock_Live q) \<longleftrightarrow> q = p \<and> x = Pb_Bound"
  shows "bind_inv (set_pc p x (w\<lparr> bw_file := f \<rparr>))"
proof -
  have "bw_pc w q \<noteq> Pb_Bound" if "q \<noteq> p" for q
    using bind_owner(1) [OF inv own(1), of q] that by (auto simp: owner_pcs_def)
  then show ?thesis
    using bind_owner(1,2) [OF inv own(1)] own(2) fl by (auto simp: bind_inv_def set_pc_def)
qed

lemma bind_inv_drop:
  assumes inv: "bind_inv w" and own: "bw_pc w p \<in> owner_pcs" and x: "x \<notin> owner_pcs"
    and fl: "\<And>q. f \<noteq> Some (Sock_Live q)"
  shows "bind_inv (unlock p (set_pc p x (w\<lparr> bw_file := f \<rparr>)))"
proof -
  have "bw_pc w q \<noteq> Pb_Bound" if "q \<noteq> p" for q
    using bind_owner(1) [OF inv own, of q] that by (auto simp: owner_pcs_def)
  then show ?thesis
    using bind_owner(1,2) [OF inv own] x fl by (auto simp: bind_inv_def set_pc_def unlock_def owner_pcs_def)
qed

lemma bind_inv_outside:
  assumes "bind_inv w" and "bw_pc w p \<notin> owner_pcs" and "x \<notin> owner_pcs"
  shows "bind_inv (set_pc p x w)"
  using assms by (auto simp: bind_inv_def set_pc_def owner_pcs_def)

lemma same_file: "set_pc p x (w\<lparr> bw_file := bw_file w \<rparr>) = set_pc p x w"
  by (simp add: set_pc_def)

lemma bind_step_inv:
  assumes "bind_step w w'" and inv: "bind_inv w"
  shows "bind_inv w'"
  using assms(1)
proof cases
  case (lock p)
  then show ?thesis using inv by (auto simp: bind_inv_def set_pc_def owner_pcs_def)
next
  case (busy p)
  then show ?thesis using bind_inv_outside [OF inv] by (simp add: owner_pcs_def)
next
  case (create p)
  then show ?thesis using bind_inv_own [OF inv, of p Pb_Bound "Some (Sock_Live p)"] by (auto simp: owner_pcs_def)
next
  case (in_use p)
  have "bw_file w \<noteq> Some (Sock_Live q)" for q
    using bind_owner(3) [OF inv, of p q] bind_invD(2) [OF inv, of q] in_use by (simp add: owner_pcs_def)
  then show ?thesis using bind_inv_own [OF inv, of p Pb_In_Use "bw_file w"] in_use by (simp add: owner_pcs_def same_file)
next
  case (refused p)
  have "bind_inv (set_pc p Pb_Refused (w\<lparr> bw_file := bw_file w \<rparr>))"
    by (rule bind_inv_own [OF inv]) (simp_all add: refused owner_pcs_def)
  then show ?thesis unfolding same_file using refused(1) by simp
next
  case (remove p)
  then show ?thesis using bind_inv_own [OF inv, of p Pb_Removed None] by (simp add: owner_pcs_def)
next
  case (fail p)
  have own: "bw_pc w p \<in> owner_pcs" "bw_pc w p \<noteq> Pb_Bound" using fail(2) by (auto simp: owner_pcs_def)
  have "bw_file w \<noteq> Some (Sock_Live q)" for q
    using bind_owner(3) [OF inv own, of q] bind_invD(2) [OF inv, of q] by simp
  then show ?thesis using bind_inv_drop [OF inv own(1), of Pb_Failed "bw_file w"] fail(1) by (simp add: owner_pcs_def same_file)
next
  case (leave p f)
  then show ?thesis using bind_inv_drop [OF inv, of p Pb_Idle f] by (auto simp: owner_pcs_def)
next
  case (retry p)
  then show ?thesis using bind_inv_outside [OF inv] by (simp add: owner_pcs_def)
next
  case (other f)
  then show ?thesis using inv by (auto simp: bind_inv_def)
qed

lemma bind_reachable_inv: "bind_reachable w \<Longrightarrow> bind_inv w"
proof (induction rule: bind_reachable.induct)
  case (start f)
  then show ?case by (auto simp: bind_inv_def owner_pcs_def)
qed (rule bind_step_inv)



subsection \<open>Reading is independent of chunks and interruptions\<close>

lemma position_append:
  "position b (xs @ ys) = (case position b xs of
     Some i \<Rightarrow> Some i | None \<Rightarrow> map_option (\<lambda>i. i + length xs) (position b ys))"
  by (induction xs) (auto simp: option.map_comp o_def option.map_ident split: option.splits)

lemma position_bound: "position b xs = Some i \<Longrightarrow> i < length xs"
  by (induction xs arbitrary: i) (auto split: if_splits)

lemma position_None: "position b xs = None \<longleftrightarrow> b \<notin> set xs"
  by (induction xs) auto

lemma position_first: "b \<notin> set xs \<Longrightarrow> position b (xs @ b # ys) = Some (length xs)"
  by (induction xs) auto

interpretation rm: cancel_safe read_message
proof
  show "i' = [] \<and> read_message b' j = read_message b (i @ j)" if "read_message b i = (b', i', Blocked)" for b i b' i' j
    using that by (induction b i rule: read_message.induct) (auto simp: Let_def split: if_splits)
  show "read_message b (i @ j) = (b', i' @ j, Ready r)" if "read_message b i = (b', i', Ready r)" for b i b' i' r j
    using that by (induction b i rule: read_message.induct) (auto simp: Let_def split: if_splits)
qed

text \<open>One line of the stream, with its newline.\<close>

definition is_line :: "byte list \<Rightarrow> bool" where
  "is_line l \<longleftrightarrow> l \<noteq> [] \<and> last l = nl \<and> nl \<notin> set (butlast l) \<and> length l \<le> MAX_MESSAGE_BYTES"

lemma msg_take_some: "position nl bytes = Some i \<Longrightarrow> msg_take bytes = Suc i"
  by (simp add: msg_take_def)

lemma take_position: "position b xs = Some i \<Longrightarrow> take (Suc i) xs = take i xs @ [b] \<and> b \<notin> set (take i xs)"
  by (induction xs arbitrary: i) (auto split: if_splits)

text \<open>What one read of data does, whatever the chunks: take a line, wait, or refuse an oversized one.\<close>

lemma read_message_cases:
  assumes "list_all is_data inb" and "nl \<notin> set buffer" and "read_message buffer inb = (b, inb', r)"
  shows "(r = Blocked \<and> b = buffer @ data_bytes inb \<and> inb' = [] \<and> nl \<notin> set b)
    \<or> (\<exists>l. r = Ready (Ok (Some l)) \<and> is_line l \<and> b = [] \<and> list_all is_data inb' \<and> buffer @ data_bytes inb = l @ data_bytes inb')
    \<or> r = Ready (Err IpcTooLarge)"
  using assms
proof (induction buffer inb rule: read_message.induct)
  case (4 buffer bytes inb)
  show ?case
  proof (cases "bytes = [] \<or> (MAX_MESSAGE_BYTES < length buffer + msg_take bytes) \<or> position nl bytes = None")
    case True
    then show ?thesis
      using "4.prems" "4.IH" by (auto simp: Let_def position_None split: if_splits)
  next
    case False
    then obtain i where i: "position nl bytes = Some i" by auto
    then have n: "msg_take bytes = Suc i" "i < length bytes" by (simp_all add: msg_take_some position_bound)
    have l: "is_line (buffer @ take (Suc i) bytes)"
      using take_position [OF i] "4.prems"(2) False n by (simp add: is_line_def butlast_append)
    show ?thesis
      using "4.prems" False i n l by (auto simp: Let_def split: if_splits)
  qed
qed auto

definition requests_in :: "ipc_codec \<Rightarrow> byte list list \<Rightarrow> request list" where
  "requests_in codec ls = List.map_filter (\<lambda>l. case msg_from_slice codec l of Some (MsgRequest r) \<Rightarrow> Some r | _ \<Rightarrow> None) ls"

fun arrived :: "conn_input list \<Rightarrow> rx list" where
  "arrived [] = []"
| "arrived (In_Arrive xs # ins) = xs @ arrived ins"
| "arrived (_ # ins) = arrived ins"

fun is_response :: "message \<Rightarrow> bool" where
  "is_response (MsgResponse _) = True"
| "is_response _ = False"

definition answers :: "ipc_conn \<Rightarrow> nat" where "answers c = length (filter is_response (ic_out c))"

text \<open>\<open>ls\<close> are the lines taken from a stream that so far reads \<open>s\<close>.\<close>

definition conn_inv :: "ipc_codec \<Rightarrow> byte list list \<Rightarrow> byte list \<Rightarrow> ipc_conn \<Rightarrow> bool" where
  "conn_inv codec ls s c \<longleftrightarrow> list_all is_line ls \<and> ic_requests c = requests_in codec ls
     \<and> answers c \<le> length ls \<and> (\<exists>rest. s = concat ls @ rest)
     \<and> (ic_open c \<longrightarrow> s = concat ls @ ic_buffer c @ data_bytes (ic_pipe c) \<and> nl \<notin> set (ic_buffer c)
          \<and> list_all is_data (ic_pipe c) \<and> answers c = length ls)"

lemma write_or_close_simps [simp]:
  "ic_requests (write_or_close codec ok m c) = ic_requests c" "ic_buffer (write_or_close codec ok m c) = ic_buffer c"
  "ic_pipe (write_or_close codec ok m c) = ic_pipe c" "ic_sub (write_or_close codec ok m c) = ic_sub c"
  by (simp_all add: write_or_close_def close_conn_def split: sum.splits)

lemma write_or_close_out:
  "(ic_open (write_or_close codec ok m c) \<longrightarrow> ic_open c \<and> ic_out (write_or_close codec ok m c) = ic_out c @ [m])
   \<and> (ic_out (write_or_close codec ok m c) = ic_out c @ [m] \<or> ic_out (write_or_close codec ok m c) = ic_out c)"
  by (simp add: write_or_close_def close_conn_def split: sum.splits)

lemma handle_line_frame:
  "ic_buffer (handle_line codec cap err line du reply ok c) = ic_buffer c"
  "ic_pipe (handle_line codec cap err line du reply ok c) = ic_pipe c"
  "ic_requests (handle_line codec cap err line du reply ok c) = ic_requests c @ requests_in codec [line]"
  by (auto simp: handle_line_def close_conn_def Let_def requests_in_def List.map_filter_def
      split: option.splits message.splits)

lemma handle_line_answers:
  assumes "ic_open c"
  shows "answers (handle_line codec cap err line du reply ok c) \<le> Suc (answers c)
     \<and> (ic_open (handle_line codec cap err line du reply ok c) \<longrightarrow> answers (handle_line codec cap err line du reply ok c) = Suc (answers c))"
  using assms
  by (auto simp: handle_line_def answers_def write_or_close_def close_conn_def Let_def split: option.splits message.splits sum.splits)

lemma requests_in_snoc: "requests_in codec (ls @ [l]) = requests_in codec ls @ requests_in codec [l]"
  by (simp add: requests_in_def List.map_filter_def)

lemma conn_step_inv:
  assumes "conn_inv codec ls s c" and "list_all is_data (arrived [i])"
  shows "\<exists>ls'. conn_inv codec ls' (s @ data_bytes (arrived [i])) (conn_step codec cap err i c)"
proof (cases "ic_open c")
  case False
  then show ?thesis
    using assms by (intro exI [of _ ls]) (auto simp: conn_inv_def conn_step_def)
next
  case True
  note inv = assms(1) [unfolded conn_inv_def]
  show ?thesis
  proof (cases i)
    case (In_Read du reply ok)
    obtain b inb r where rd: "read_message (ic_buffer c) (ic_pipe c) = (b, inb, r)" by (metis prod_cases3)
    let ?c = "c\<lparr> ic_buffer := b, ic_pipe := inb, ic_sub := map_option (bus_pushes cap du) (ic_sub c) \<rparr>"
    have d: "list_all is_data (ic_pipe c)" "nl \<notin> set (ic_buffer c)" using inv True by auto
    consider (wait) "r = Blocked" "b = ic_buffer c @ data_bytes (ic_pipe c)" "inb = []" "nl \<notin> set b"
      | (line) l where "r = Ready (Ok (Some l))" "is_line l" "b = []" "list_all is_data inb"
          "ic_buffer c @ data_bytes (ic_pipe c) = l @ data_bytes inb"
      | (big) "r = Ready (Err IpcTooLarge)"
      using read_message_cases [OF d rd] by blast
    then show ?thesis
    proof cases
      case wait
      then show ?thesis
        using inv True In_Read rd by (intro exI [of _ ls]) (auto simp: conn_inv_def conn_step_def answers_def)
    next
      case line
      have o: "ic_open ?c" using True by simp
      have a: "answers ?c = length ls" using inv True by (simp add: answers_def)
      have s: "s = concat (ls @ [l]) @ data_bytes inb" using inv True line(5) by simp
      show ?thesis
        using inv True In_Read rd line s handle_line_answers [OF o, of codec cap err l du reply ok] a
        by (intro exI [of _ "ls @ [l]"])
          (auto simp: conn_inv_def conn_step_def handle_line_frame requests_in_snoc)
    next
      case big
      then show ?thesis
        using inv True In_Read rd
        by (intro exI [of _ ls]) (auto simp: conn_inv_def conn_step_def close_conn_def answers_def)
    qed
  next
    case (In_Event ok)
    have "conn_inv codec ls s (conn_step codec cap err i c)"
      using inv True In_Event
      by (auto simp: conn_inv_def conn_step_def close_conn_def answers_def write_or_close_def
          split: option.splits list.splits sum.splits)
    then show ?thesis using In_Event by auto
  next
    case (In_Arrive xs)
    then show ?thesis
      using inv True assms(2) by (intro exI [of _ ls]) (auto simp: conn_inv_def conn_step_def answers_def)
  qed (use inv True in \<open>auto intro!: exI [of _ ls] simp: conn_inv_def conn_step_def close_conn_def answers_def\<close>)
qed

lemma arrived_Cons: "arrived (i # ins) = arrived [i] @ arrived ins"
  by (cases i) simp_all

lemma conn_run_inv:
  assumes "conn_inv codec ls s c" and "list_all is_data (arrived ins)"
  shows "\<exists>ls'. conn_inv codec ls' (s @ data_bytes (arrived ins)) (conn_run codec cap err ins c)"
  using assms
proof (induction ins arbitrary: ls s c)
  case Nil
  then show ?case by (auto simp: conn_run_def)
next
  case (Cons i ins)
  have d: "list_all is_data (arrived [i])" "list_all is_data (arrived ins)"
    using Cons.prems(2) by (subst (asm) arrived_Cons, simp)+
  obtain ls1 where "conn_inv codec ls1 (s @ data_bytes (arrived [i])) (conn_step codec cap err i c)"
    using conn_step_inv [OF Cons.prems(1) d(1)] by blast
  from Cons.IH [OF this d(2)] show ?case
    by (subst arrived_Cons) (simp add: conn_run_def)
qed

text \<open>Whatever chunks the bytes of a connection arrive in, and however often the reading is interrupted to
  write an event, the daemon is handed exactly the requests of the first lines of the stream, in order and each
  once; every line taken is answered exactly once as long as the connection is open, and no line is longer than
  the limit.\<close>

theorem requests_reach_the_daemon_in_order:
  assumes "list_all is_data (arrived ins)"
  shows "let c = conn_run codec cap err ins conn_new in
     \<exists>ls rest. data_bytes (arrived ins) = concat ls @ rest \<and> list_all is_line ls
       \<and> ic_requests c = requests_in codec ls \<and> answers c \<le> length ls \<and> (ic_open c \<longrightarrow> answers c = length ls)"
proof -
  have "conn_inv codec [] [] conn_new"
    by (simp add: conn_inv_def conn_new_def requests_in_def List.map_filter_def answers_def)
  from conn_run_inv [OF this assms] obtain ls where
      "conn_inv codec ls (data_bytes (arrived ins)) (conn_run codec cap err ins conn_new)" by auto
  then show ?thesis by (auto simp: conn_inv_def Let_def)
qed

subsection \<open>Subscribers\<close>

fun bus_of :: "conn_input list \<Rightarrow> event list" where
  "bus_of [] = []"
| "bus_of (In_Broadcast e # ins) = e # bus_of ins"
| "bus_of (In_Read during _ _ # ins) = during @ bus_of ins"
| "bus_of (_ # ins) = bus_of ins"

fun events_in :: "message list \<Rightarrow> event list" where
  "events_in [] = []"
| "events_in (MsgEvent e # ms) = e # events_in ms"
| "events_in (_ # ms) = events_in ms"

lemma events_in_append [simp]: "events_in (xs @ ys) = events_in xs @ events_in ys"
  by (induction xs rule: events_in.induct) auto

lemma bus_pushes_one: "bus_pushes cap [e] = bus_push cap e"
  by (simp add: bus_pushes_def fun_eq_iff)

lemma bus_pushes_kept:
  "\<not> snd (bus_pushes cap es (q, lag)) \<Longrightarrow> \<not> lag \<and> bus_pushes cap es (q, lag) = (q @ es, False)"
proof (induction es arbitrary: q lag)
  case (Cons e es)
  let ?r = "bus_push cap e (q, lag)"
  have step: "bus_pushes cap (e # es) (q, lag) = bus_pushes cap es (fst ?r, snd ?r)" by (simp add: bus_pushes_def)
  from Cons.IH [OF Cons.prems [unfolded step]] have kept: "\<not> snd ?r" "bus_pushes cap es (fst ?r, snd ?r) = (fst ?r @ es, False)"
    by blast+
  have r: "?r = (q @ [e], False)" "\<not> lag" using kept(1) by (auto simp: bus_push_def split: if_splits)
  show ?case using step kept(2) r(2) unfolding r(1) by simp
qed (auto simp: bus_pushes_def)

text \<open>The subscription as the client sees it: what was written since \<open>base\<close>, of the events \<open>heard\<close> on the bus since then.\<close>

definition sub_inv :: "message list \<Rightarrow> event list \<Rightarrow> ipc_conn \<Rightarrow> bool" where
  "sub_inv base heard c \<longleftrightarrow> (\<exists>rest post. ic_out c = base @ rest \<and> heard = events_in rest @ post
     \<and> (ic_open c \<longrightarrow> (\<exists>q lag. ic_sub c = Some (q, lag) \<and> (\<not> lag \<longrightarrow> post = q))))"

lemma sub_inv_closed: "sub_inv base heard c \<Longrightarrow> sub_inv base (heard @ es) (close_conn c)"
  unfolding sub_inv_def close_conn_def by fastforce

lemma sub_inv_push:
  assumes "sub_inv base heard c"
  shows "sub_inv base (heard @ es) (c\<lparr> ic_sub := map_option (bus_pushes cap es) (ic_sub c) \<rparr>)"
proof -
  obtain rest post where r: "ic_out c = base @ rest" "heard = events_in rest @ post"
      "ic_open c \<Longrightarrow> \<exists>q lag. ic_sub c = Some (q, lag) \<and> (\<not> lag \<longrightarrow> post = q)"
    using assms by (auto simp: sub_inv_def)
  have "\<exists>q' lag'. map_option (bus_pushes cap es) (ic_sub c) = Some (q', lag') \<and> (\<not> lag' \<longrightarrow> post @ es = q')" if op: "ic_open c"
  proof -
    obtain q lag where "ic_sub c = Some (q, lag)" "\<not> lag \<longrightarrow> post = q" using r(3) [OF op] by blast
    then show ?thesis
      using bus_pushes_kept [of cap es q lag] by (cases "bus_pushes cap es (q, lag)") auto
  qed
  then show ?thesis
    unfolding sub_inv_def using r by (intro exI [of _ rest] exI [of _ "post @ es"]) auto
qed

lemma sub_inv_answer:
  assumes "sub_inv base heard c" and "is_response m"
  shows "sub_inv base heard (write_or_close codec ok m c)"
proof -
  have "events_in [m] = []" using assms(2) by (cases m) auto
  then show ?thesis
    using assms(1) by (fastforce simp: sub_inv_def write_or_close_def close_conn_def split: sum.splits)
qed

lemma sub_inv_requests: "sub_inv base heard (c\<lparr> ic_requests := rs \<rparr>) \<longleftrightarrow> sub_inv base heard c"
  "sub_inv base heard (c\<lparr> ic_buffer := b, ic_pipe := inb, ic_sub := ic_sub c' \<rparr>) \<longleftrightarrow> sub_inv base heard (c\<lparr> ic_sub := ic_sub c' \<rparr>)"
  by (simp_all add: sub_inv_def)

lemma handle_line_sub:
  assumes "sub_inv base heard c" and "msg_from_slice codec line \<noteq> Some (MsgRequest Subscribe)"
  shows "sub_inv base heard (handle_line codec cap err line du reply ok c)"
proof -
  have closed: "sub_inv base heard (close_conn x)" if "sub_inv base heard x" for x
    using sub_inv_closed [OF that, of "[]"] by simp
  show ?thesis
    using assms sub_inv_answer closed sub_inv_requests(1)
    by (auto simp: handle_line_def Let_def split: option.splits message.splits)
qed

lemma conn_step_sub:
  assumes inv: "sub_inv base heard c"
    and once: "Subscribe \<notin> set (drop (length (ic_requests c)) (ic_requests (conn_step codec cap err i c)))"
  shows "sub_inv base (heard @ bus_of [i]) (conn_step codec cap err i c)"
proof (cases "ic_open c")
  case False
  then show ?thesis using inv by (auto simp: sub_inv_def conn_step_def)
next
  case True
  show ?thesis
  proof (cases i)
    case (In_Read du reply ok)
    obtain b inb r where rd: "read_message (ic_buffer c) (ic_pipe c) = (b, inb, r)" by (metis prod_cases3)
    let ?c = "c\<lparr> ic_buffer := b, ic_pipe := inb, ic_sub := map_option (bus_pushes cap du) (ic_sub c) \<rparr>"
    have push: "sub_inv base (heard @ du) ?c"
      using sub_inv_push [OF inv, of du cap] by (simp add: sub_inv_def)
    show ?thesis
    proof (cases "\<exists>line. r = Ready (Ok (Some line))")
      case True
      then obtain line where line: "r = Ready (Ok (Some line))" by blast
      have step: "conn_step codec cap err i c = handle_line codec cap err line du reply ok ?c"
        using \<open>ic_open c\<close> In_Read rd line by (simp add: conn_step_def)
      have "msg_from_slice codec line \<noteq> Some (MsgRequest Subscribe)"
        using once unfolding step by (auto simp: handle_line_frame requests_in_def List.map_filter_def)
      then show ?thesis using handle_line_sub [OF push] step In_Read by simp
    next
      case False
      then have "conn_step codec cap err i c = ?c \<or> conn_step codec cap err i c = close_conn ?c"
        using \<open>ic_open c\<close> In_Read rd by (auto simp: conn_step_def Let_def split: poll.splits sum.splits option.splits)
      then show ?thesis using push sub_inv_closed [OF push, of "[]"] In_Read by auto
    qed
  next
    case (In_Event ok)
    obtain rest post q lag where r: "ic_out c = base @ rest" "heard = events_in rest @ post" "ic_sub c = Some (q, lag)" "\<not> lag \<Longrightarrow> post = q"
      using inv True by (auto simp: sub_inv_def)
    show ?thesis
    proof (cases "lag \<or> q = []")
      case True
      then show ?thesis
        using In_Event \<open>ic_open c\<close> r(3) inv sub_inv_closed [OF inv, of "[]"] by (auto simp: conn_step_def)
    next
      case False
      then obtain e q' where q: "q = e # q'" "\<not> lag" by (cases q) auto
      have "conn_step codec cap err i c = write_or_close codec ok (MsgEvent e) (c\<lparr> ic_sub := Some (q', False) \<rparr>)"
        using In_Event \<open>ic_open c\<close> r(3) q by (simp add: conn_step_def)
      then show ?thesis
        using In_Event r q by (fastforce simp: sub_inv_def write_or_close_def close_conn_def split: sum.splits)
    qed
  next
    case (In_Broadcast e)
    then show ?thesis
      using sub_inv_push [OF inv, of "[e]" cap] True by (simp add: conn_step_def bus_pushes_one)
  next
    case (In_Arrive xs)
    then show ?thesis using inv True by (simp add: conn_step_def sub_inv_def)
  qed (use inv True sub_inv_closed [OF inv, of "[]"] in \<open>auto simp: conn_step_def\<close>)
qed

lemma conn_step_requests: "\<exists>rs. ic_requests (conn_step codec cap err i c) = ic_requests c @ rs"
  by (cases i) (auto simp: conn_step_def close_conn_def handle_line_frame Let_def
      split: option.splits poll.splits sum.splits prod.splits list.splits)

lemma conn_run_requests: "\<exists>rs. ic_requests (conn_run codec cap err ins c) = ic_requests c @ rs"
proof (induction ins arbitrary: c)
  case (Cons i ins)
  obtain rs where "ic_requests (conn_step codec cap err i c) = ic_requests c @ rs" using conn_step_requests by blast
  then show ?case using Cons.IH [of "conn_step codec cap err i c"] by (auto simp: conn_run_def)
qed (simp add: conn_run_def)

lemma bus_of_Cons: "bus_of (i # ins) = bus_of [i] @ bus_of ins"
  by (cases i) simp_all

lemma conn_run_sub:
  assumes "sub_inv base heard c" and "Subscribe \<notin> set (drop (length (ic_requests c)) (ic_requests (conn_run codec cap err ins c)))"
  shows "sub_inv base (heard @ bus_of ins) (conn_run codec cap err ins c)"
  using assms
proof (induction ins arbitrary: heard c)
  case (Cons i ins)
  let ?c = "conn_step codec cap err i c"
  have run: "conn_run codec cap err (i # ins) c = conn_run codec cap err ins ?c" by (simp add: conn_run_def)
  obtain rs where rs: "ic_requests ?c = ic_requests c @ rs" using conn_step_requests by blast
  obtain rs' where rs': "ic_requests (conn_run codec cap err ins ?c) = ic_requests ?c @ rs'" using conn_run_requests by blast
  have "Subscribe \<notin> set rs" "Subscribe \<notin> set rs'" using Cons.prems(2) rs rs' run by auto
  then show ?case
    using Cons.IH [OF conn_step_sub [OF Cons.prems(1)]] rs rs' run by (subst bus_of_Cons) simp
qed (simp add: conn_run_def)


subsection \<open>A call from the client to the daemon and back\<close>

fun wr_bytes :: "io_write \<Rightarrow> nat" where
  "wr_bytes (WrBytes n) = n"
| "wr_bytes _ = 0"

fun rd_bytes :: "io_read \<Rightarrow> byte list" where
  "rd_bytes (RdBytes bs) = bs"
| "rd_bytes _ = []"

fun rd_ok :: "io_read \<Rightarrow> bool" where
  "rd_ok (RdBytes bs) = (bs \<noteq> [])"
| "rd_ok (RdFail _) = False"
| "rd_ok _ = True"

fun wr_ok :: "io_write \<Rightarrow> bool" where
  "wr_ok (WrBytes n) = (n \<noteq> 0)"
| "wr_ok (WrFail _) = False"
| "wr_ok _ = True"

lemma client_write_completes:
  assumes "list_all wr_ok evs" and "dl \<Longrightarrow> \<forall>k. \<not> expired k" and "sent \<le> length line"
    and "length line \<le> sent + sum_list (map wr_bytes evs)"
  shows "client_write dl expired k line sent evs = (length line, Some (Ok ()))"
  using assms
proof (induction evs arbitrary: k sent)
  case (Cons ev evs)
  then show ?case
    by (cases ev) (auto simp: Let_def min_def)
qed simp

text \<open>Where a line ends in a chunk that follows what was read of it before.\<close>

lemma line_in_chunk:
  assumes "is_line l" and "nl \<notin> set buf" and "buf @ bs @ rest = l @ tail"
  shows "position nl bs = None \<Longrightarrow> length buf + length bs \<le> length l"
    and "position nl bs = Some i \<Longrightarrow> length buf + Suc i = length l \<and> l = buf @ take (Suc i) bs \<and> tail = drop (Suc i) bs @ rest"
proof -
  obtain k where k: "l = k @ [nl]" "nl \<notin> set k" using assms(1) by (metis append_butlast_last_id is_line_def)
  have pos: "position nl (buf @ bs @ rest) = Some (length k)"
    unfolding assms(3) k(1) using position_first [OF k(2), of tail] by simp
  have "position nl buf = None" using assms(2) by (simp add: position_None)
  then have later: "position nl (buf @ bs @ rest) = map_option (\<lambda>i. i + length buf) (position nl (bs @ rest))"
    by (simp add: position_append [of nl buf])
  show "length buf + length bs \<le> length l" if "position nl bs = None"
    using pos unfolding later using that k(1) by (auto simp: position_append)
  show "length buf + Suc i = length l \<and> l = buf @ take (Suc i) bs \<and> tail = drop (Suc i) bs @ rest" if s: "position nl bs = Some i"
  proof -
    have len: "length buf + Suc i = length l" using pos unfolding later using s k(1) by (simp add: position_append)
    moreover have "Suc i \<le> length bs" using position_bound [OF s] by simp
    moreover have "length l - length buf = Suc i" using len by simp
    ultimately show ?thesis
      using arg_cong [OF assms(3), of "take (length l)"] arg_cong [OF assms(3), of "drop (length l)"] by auto
  qed
qed

lemma client_recv_line:
  assumes "list_all rd_ok evs" and "dl \<Longrightarrow> \<forall>k. \<not> expired k" and "is_line l" and "nl \<notin> set buf"
    and "buf @ concat (map rd_bytes evs) = l @ tail"
  shows "\<exists>held evs'. client_recv codec dl expired k [] buf evs = (held, evs', Some (ok_or (msg_from_slice codec l) IpcJson))"
  using assms
proof (induction evs arbitrary: k buf)
  case Nil
  then have "nl \<in> set buf" by (metis Un_iff append_Nil2 concat.simps(1) is_line_def last_in_set list.map(1) set_append)
  then show ?case using Nil by simp
next
  case (Cons ev evs)
  have late: "\<not> (dl \<and> expired j)" for j using Cons.prems(2) by auto
  show ?case
  proof (cases ev)
    case (RdBytes bs)
    have bs: "bs \<noteq> []" using Cons.prems(1) RdBytes by simp
    have eq: "buf @ bs @ concat (map rd_bytes evs) = l @ tail" using Cons.prems(5) RdBytes by simp
    note chunk = line_in_chunk [OF Cons.prems(3,4) eq]
    show ?thesis
    proof (cases "position nl bs")
      case None
      have "client_recv codec dl expired k [] buf (ev # evs) = client_recv codec dl expired (Suc k) [] (buf @ bs) evs"
        using None bs late chunk(1) [OF None] Cons.prems(3) RdBytes
        by (subst client_recv.simps) (auto simp: msg_take_def is_line_def)
      moreover have "nl \<notin> set (buf @ bs)" using Cons.prems(4) None by (simp add: position_None)
      ultimately show ?thesis using Cons.IH [of "buf @ bs" "Suc k"] Cons.prems RdBytes by simp
    next
      case (Some i)
      then show ?thesis
        using chunk(2) [OF Some] bs late Cons.prems(3) RdBytes
        by (subst client_recv.simps) (auto simp: msg_take_def is_line_def Let_def)
    qed
  next
    case RdInterrupted
    then show ?thesis using Cons.IH [of buf "Suc k"] Cons.prems late by (subst client_recv.simps) auto
  next
    case RdWouldBlock
    then show ?thesis using Cons.IH [of buf "Suc (Suc k)"] Cons.prems late by (subst client_recv.simps) auto
  next
    case (RdFail e)
    then show ?thesis using Cons by simp
  qed
qed

lemma read_message_line:
  assumes "list_all is_data inb" and "is_line l" and "nl \<notin> set buffer" and "buffer @ data_bytes inb = l @ tail"
  shows "\<exists>inb'. read_message buffer inb = ([], inb', Ready (Ok (Some l)))"
  using assms
proof (induction buffer inb rule: read_message.induct)
  case (1 buffer)
  then have "nl \<in> set buffer" by (metis Un_iff append_Nil2 data_bytes.simps(1) is_line_def last_in_set set_append)
  then show ?case using 1 by simp
next
  case (4 buffer bytes inb)
  have eq: "buffer @ bytes @ data_bytes inb = l @ tail" using "4.prems"(4) by simp
  note chunk = line_in_chunk [OF "4.prems"(2,3) eq]
  show ?case
  proof (cases "position nl bytes")
    case None
    then have "nl \<notin> set (buffer @ bytes)" using "4.prems"(3) by (simp add: position_None)
    then show ?thesis
      using "4.IH" "4.prems" chunk(1) [OF None] None by (auto simp: Let_def msg_take_def is_line_def)
  next
    case (Some i)
    then show ?thesis
      using chunk(2) [OF Some] "4.prems"(2) by (cases bytes) (auto simp: Let_def msg_take_def is_line_def)
  qed
qed simp_all

text \<open>A call over the socket: however the operating system cuts the bytes of request and answer, and however
  often it interrupts either side, the daemon is handed exactly the request the client made, and the client
  returns exactly the daemon's answer, before its deadline.\<close>

theorem ipc_call_roundtrip:
  assumes req: "encode codec (MsgRequest req) = Ok lq" "nl \<notin> set (butlast lq)" "msg_from_slice codec lq = Some (MsgRequest req)"
    and resp: "encode codec (MsgResponse r) = Ok lr" "nl \<notin> set (butlast lr)" "msg_from_slice codec lr = Some (MsgResponse r)"
      "\<And>e. r \<noteq> RespError e"
    and io: "list_all wr_ok wevs" "length lq \<le> sum_list (map wr_bytes wevs)" "list_all is_data chunks" "data_bytes chunks = lq"
      "list_all rd_ok revs" "concat (map rd_bytes revs) = lr @ later"
    and time: "\<And>k. \<not> expired k" "\<And>k. \<not> expired' k"
  shows "client_request codec dl expired expired' req wevs [] revs = (lq, Some (Ok r))
    \<and> ic_requests (conn_run codec cap err [In_Arrive chunks, In_Read [] (Some r) True] conn_new) = [req]
    \<and> ic_out (conn_run codec cap err [In_Arrive chunks, In_Read [] (Some r) True] conn_new) = [MsgResponse r]"
proof -
  have line: "is_line l" if "encode codec m = Ok l" "nl \<notin> set (butlast l)" for m l
    using that by (auto simp: encode_def result_iffs is_line_def split: if_splits)
  have sent: "client_write dl expired 0 lq 0 wevs = (length lq, Some (Ok ()))"
    by (rule client_write_completes) (use io(1,2) time(1) in auto)
  obtain held evs' where "client_recv codec dl expired' 0 [] [] revs = (held, evs', Some (ok_or (msg_from_slice codec lr) IpcJson))"
    using client_recv_line [OF io(5) _ line [OF resp(1,2)], of dl expired' "[]" later codec 0] io(6) time(2) by auto
  then have call: "client_request codec dl expired expired' req wevs [] revs = (lq, Some (Ok r))"
    using sent req(1) resp(3,4) by (cases r) (auto simp: client_request_def client_send_def response_of_def)
  obtain inb where rd: "read_message [] chunks = ([], inb, Ready (Ok (Some lq)))"
    using read_message_line [OF io(3) line [OF req(1,2)], of "[]" "[]"] io(4) by auto
  then have "conn_run codec cap err [In_Arrive chunks, In_Read [] (Some r) True] conn_new
      = handle_line codec cap err lq [] (Some r) True (conn_new\<lparr> ic_buffer := [], ic_pipe := inb \<rparr>)"
    by (simp add: conn_run_def conn_step_def conn_new_def)
  then show ?thesis
    using call req(3) resp(1)
    by (simp add: handle_line_def Let_def write_or_close_def send_message_def conn_new_def)
qed

subsection \<open>Concrete runs\<close>

definition demo_ipc :: ipc_codec where
  "demo_ipc = \<lparr> msg_to_vec = (\<lambda>m. if m = MsgRequest Subscribe then Some [1] else if m = MsgRequest GetStatus then Some [2]
       else if m = MsgResponse RespOk then Some [3] else Some [4]),
     msg_from_slice = (\<lambda>b. if b = [1, nl] then Some (MsgRequest Subscribe) else if b = [2, nl] then Some (MsgRequest GetStatus)
       else if b = [3, nl] then Some (MsgResponse RespOk) else None) \<rparr>"

lemma demo_encode:
  "encode demo_ipc (MsgRequest GetStatus) = Ok [2, nl]" "encode demo_ipc (MsgResponse RespOk) = Ok [3, nl]"
  "msg_from_slice demo_ipc [2, nl] = Some (MsgRequest GetStatus)" "msg_from_slice demo_ipc [3, nl] = Some (MsgResponse RespOk)"
  "msg_from_slice demo_ipc [1, nl] = Some (MsgRequest Subscribe)"
  by (simp_all add: encode_def demo_ipc_def MAX_MESSAGE_BYTES_def and_then_def)

theorem ipc_call_roundtrip_witness:
  "client_request demo_ipc True (\<lambda>_. False) (\<lambda>_. False) GetStatus [WrInterrupted, WrBytes 1, WrBytes 5] []
     [RdWouldBlock, RdBytes [3], RdBytes [nl, 7]] = ([2, nl], Some (Ok RespOk))"
proof -
  have nls: "nl \<notin> set (butlast [2, nl])" "nl \<notin> set (butlast [3, nl])" by (simp_all add: nl_def)
  show ?thesis
    by (rule conjunct1 [OF ipc_call_roundtrip [OF demo_encode(1) nls(1) demo_encode(3) demo_encode(2) nls(2) demo_encode(4),
        where chunks = "[Data [2], Data [nl]]" and later = "[7]"]]) simp_all
qed

theorem requests_reach_the_daemon_in_order_witness:
  "let ins = [In_Arrive [Data [2]], In_Read [] None True, In_Arrive [Data [nl, 1]], In_Read [] (Some RespOk) True] in
   \<exists>ls rest. [2, nl, 1] = concat ls @ rest \<and> list_all is_line ls
     \<and> ic_requests (conn_run demo_ipc 4 (\<lambda>_. ''?'') ins conn_new) = requests_in demo_ipc ls"
  using requests_reach_the_daemon_in_order [of "[In_Arrive [Data [2]], In_Read [] None True, In_Arrive [Data [nl, 1]],
    In_Read [] (Some RespOk) True]" demo_ipc 4 "\<lambda>_. ''?''"]
  by (auto simp: Let_def)


end
