(* ===== verification/Log_Files.thy ===== *)
theory Log_Files
  imports Log_Parse "HOL-Library.Sublist"
begin

text \<open>
  The Core's output on its way to the log.  \<^verbatim>\<open>spawn_log_reader\<close>
  (\<^verbatim>\<open>crates/synbadd/src/supervisor/core_proc.rs\<close>) cuts the byte stream of a pipe into capped lines; the
  size-bounded log file with three backups is \<^verbatim>\<open>RotatingLog\<close>
  (\<^verbatim>\<open>crates/synbad-config/src/logging.rs\<close>).  Bytes are characters.
\<close>

subsection \<open>Lossy UTF-8 decoding\<close>

definition in_range :: "nat \<Rightarrow> nat \<Rightarrow> nat \<Rightarrow> bool" where
  "in_range lo hi b \<longleftrightarrow> lo \<le> b \<and> b \<le> hi"

text \<open>The ranges a sequence's continuation bytes must lie in, by its first byte; \<open>None\<close> for a byte that
  starts no sequence.\<close>

definition continuation :: "nat \<Rightarrow> (nat \<times> nat) list option" where
  "continuation b =
     (if b < 0x80 then Some []
      else if in_range 0xC2 0xDF b then Some [(0x80, 0xBF)]
      else if b = 0xE0 then Some [(0xA0, 0xBF), (0x80, 0xBF)]
      else if in_range 0xE1 0xEC b \<or> b = 0xEE \<or> b = 0xEF then Some [(0x80, 0xBF), (0x80, 0xBF)]
      else if b = 0xED then Some [(0x80, 0x9F), (0x80, 0xBF)]
      else if b = 0xF0 then Some [(0x90, 0xBF), (0x80, 0xBF), (0x80, 0xBF)]
      else if in_range 0xF1 0xF3 b then Some [(0x80, 0xBF), (0x80, 0xBF), (0x80, 0xBF)]
      else if b = 0xF4 then Some [(0x80, 0x8F), (0x80, 0xBF), (0x80, 0xBF)]
      else None)"

fun match_ranges :: "(nat \<times> nat) list \<Rightarrow> string \<Rightarrow> nat" where
  "match_ranges ((lo, hi) # rs) (c # cs) = (if in_range lo hi (of_char c) then Suc (match_ranges rs cs) else 0)"
| "match_ranges _ _ = 0"

lemma match_ranges_le: "match_ranges rs cs \<le> length rs" "match_ranges rs cs \<le> length cs"
  by (induction rs cs rule: match_ranges.induct) auto

definition replacement :: string where "replacement = [CHR 0xEF, CHR 0xBF, CHR 0xBD]"

text \<open>\<^verbatim>\<open>String::from_utf8_lossy\<close>: each maximal invalid part becomes one replacement character.\<close>

function from_utf8_lossy :: "string \<Rightarrow> string" where
  "from_utf8_lossy [] = []"
| "from_utf8_lossy (c # cs) =
     (case continuation (of_char c) of
        None \<Rightarrow> replacement @ from_utf8_lossy cs
      | Some rs \<Rightarrow>
          (let k = match_ranges rs cs in
           (if k = length rs then c # take k cs else replacement) @ from_utf8_lossy (drop k cs)))"
  by pat_completeness auto
termination
  by (relation "measure length") (auto simp: less_Suc_eq_le)

lemma length_from_utf8_lossy: "length (from_utf8_lossy s) \<le> 3 * length s"
proof (induction s rule: from_utf8_lossy.induct)
  case (2 c cs)
  show ?case
  proof (cases "continuation (of_char c)")
    case None
    then show ?thesis using 2(1) by (simp add: replacement_def)
  next
    case (Some rs)
    let ?k = "match_ranges rs cs"
    have "length (from_utf8_lossy (drop ?k cs)) \<le> 3 * (length cs - ?k)"
      using 2(2) [OF Some refl] by simp
    moreover have "?k \<le> length cs" by (rule match_ranges_le)
    ultimately show ?thesis using Some by (auto simp: replacement_def Let_def)
  qed
qed simp

text \<open>\<^verbatim>\<open>trim_end\<close>: a trailing white-space character of one, two or three bytes is dropped, repeatedly.\<close>

definition trailing_ws :: "string \<Rightarrow> nat" where
  "trailing_ws s = (case find (\<lambda>k. k \<le> length s \<and> ws_len (drop (length s - k) s) = k) [1, 2, 3] of
      Some k \<Rightarrow> k | None \<Rightarrow> 0)"

function trim_end :: "string \<Rightarrow> string" where
  "trim_end s = (if trailing_ws s = 0 then s else trim_end (take (length s - trailing_ws s) s))"
  by auto

lemma trailing_ws_le: "trailing_ws s \<le> length s"
  by (auto simp: trailing_ws_def split: option.splits dest: find_Some_iff [THEN iffD1])

termination trim_end
proof (relation "measure length")
  fix s
  assume "trailing_ws s \<noteq> 0"
  then show "(take (length s - trailing_ws s) s, s) \<in> measure length"
    using trailing_ws_le [of s] by simp
qed simp

declare trim_end.simps [simp del]

definition str_trim :: "string \<Rightarrow> string" where "str_trim s = trim_end (trim_start s)"

lemma length_trim_end: "length (trim_end s) \<le> length s"
proof (induction s rule: trim_end.induct)
  case (1 s)
  then show ?case by (subst trim_end.simps) (auto intro: le_trans)
qed

subsection \<open>The log reader\<close>

definition LINE_CAP :: nat where "LINE_CAP = 16 * 1024"

definition newline :: char where "newline = CHR 0x0A"

definition finish_line :: "string \<Rightarrow> bool \<Rightarrow> string" where
  "finish_line bytes truncated =
     trim_end (from_utf8_lossy bytes) @ (if truncated then '' [truncated]'' else [])"

text \<open>
  The lines the reader produces.  \<open>buf\<close> is what \<^verbatim>\<open>fill_buf\<close> still holds, \<open>reads\<close> are the further reads of the
  pipe, none of them empty, and \<open>failed\<close> tells whether the pipe ends with an error (the pending bytes are
  then dropped) or with end of file.  \<open>accepts k\<close> tells whether the receiver still takes the \<open>k\<close>-th line; the
  reader stops at the first line it does not take, after writing that line to disk.
\<close>

function log_reader ::
  "(nat \<Rightarrow> bool) \<Rightarrow> bool \<Rightarrow> nat \<Rightarrow> string \<Rightarrow> string list \<Rightarrow> string \<Rightarrow> bool \<Rightarrow> string list" where
  "log_reader accepts failed k buf reads bytes truncated =
     (if buf = [] then
        (case reads of
           r # rs \<Rightarrow> if r = [] then (if bytes = [] then [] else [finish_line bytes truncated])
                     else log_reader accepts failed k r rs bytes truncated
         | [] \<Rightarrow> if failed \<or> bytes = [] then [] else [finish_line bytes truncated])
      else
        let fin = find_char newline buf;
            n = (case fin of None \<Rightarrow> length buf | Some i \<Rightarrow> i + 1);
            keep = min n (LINE_CAP - length bytes);
            bytes' = bytes @ take keep buf;
            truncated' = (truncated \<or> keep < n)
        in if fin \<noteq> None
           then finish_line bytes' truncated' #
                (if accepts k then log_reader accepts failed (Suc k) (drop n buf) reads [] False else [])
           else log_reader accepts failed k (drop n buf) reads bytes' truncated')"
  by auto
termination
  by (relation "measure (\<lambda>(_, _, _, buf, reads, _, _). length buf + length (concat reads) + length reads)")
    (auto simp: Let_def split: option.splits)

declare log_reader.simps [simp del]

text \<open>The reference: split the whole stream after every newline.\<close>

function segments :: "string \<Rightarrow> string list" where
  "segments s = (if s = [] then [] else case find_char newline s of
       None \<Rightarrow> [s]
     | Some i \<Rightarrow> take (i + 1) s # segments (drop (i + 1) s))"
  by auto
termination by (relation "measure length") auto

declare segments.simps [simp del]

definition core_line :: "string \<Rightarrow> string" where
  "core_line seg = finish_line (take LINE_CAP seg) (LINE_CAP < length seg)"

lemma find_char_append:
  "find_char c (xs @ ys) = (case find_char c xs of
     Some i \<Rightarrow> Some i | None \<Rightarrow> map_option (\<lambda>i. i + length xs) (find_char c ys))"
  by (induction xs) (auto simp: option.map_comp o_def option.map_ident split: option.splits)

lemma find_char_bound: "find_char c xs = Some i \<Longrightarrow> i < length xs"
  by (induction xs arbitrary: i) (auto split: if_splits)

text \<open>What the loop's variables say of the part of the current line read so far.\<close>

definition pending :: "string \<Rightarrow> string \<Rightarrow> bool \<Rightarrow> bool" where
  "pending part bytes truncated \<longleftrightarrow> find_char newline part = None \<and> bytes = take LINE_CAP part
     \<and> truncated = (LINE_CAP < length part)"

lemma pending_Nil [simp]: "pending [] bytes truncated \<longleftrightarrow> bytes = [] \<and> \<not> truncated"
  by (auto simp: pending_def)

lemma pending_extend:
  assumes "pending part bytes truncated" and "n \<le> length buf"
  shows "bytes @ take (min n (LINE_CAP - length bytes)) buf = take LINE_CAP (part @ take n buf)"
    and "(truncated \<or> min n (LINE_CAP - length bytes) < n) \<longleftrightarrow> LINE_CAP < length (part @ take n buf)"
  using assms by (auto simp: pending_def min_def)

lemma log_reader_spec:
  assumes "pending part bytes truncated" and "[] \<notin> set reads"
  shows "log_reader (\<lambda>_. True) False k buf reads bytes truncated = map core_line (segments (part @ buf @ concat reads))"
  using assms
proof (induction "\<lambda>_ :: nat. True" False k buf reads bytes truncated arbitrary: part rule: log_reader.induct)
  case (1 k buf reads bytes truncated)
  show ?case
  proof (cases "buf = []")
    case True
    show ?thesis
    proof (cases reads)
      case Nil
      have "bytes = [] \<longleftrightarrow> part = []" using "1.prems"(1) by (auto simp: pending_def LINE_CAP_def)
      then show ?thesis
        using True Nil "1.prems"(1)
        by (subst log_reader.simps, subst segments.simps) (auto simp: pending_def core_line_def)
    next
      case (Cons r rs)
      then have "log_reader (\<lambda>_. True) False k buf reads bytes truncated = log_reader (\<lambda>_. True) False k r rs bytes truncated"
        using True "1.prems"(2) by (subst log_reader.simps) auto
      then show ?thesis using "1.hyps"(1) [OF True Cons _ "1.prems"(1)] "1.prems"(2) Cons True by auto
    qed
  next
    case False
    let ?n = "case find_char newline buf of None \<Rightarrow> length buf | Some i \<Rightarrow> i + 1"
    have n: "?n \<le> length buf" using find_char_bound [of newline buf] by (auto split: option.splits simp: Suc_le_eq)
    note ext = pending_extend [OF "1.prems"(1) n]
    have none: "find_char newline part = None" using "1.prems"(1) by (simp add: pending_def)
    show ?thesis
    proof (cases "find_char newline buf")
      case None
      have p: "pending (part @ buf) (take LINE_CAP (part @ buf)) (LINE_CAP < length (part @ buf))"
        using none None by (simp add: pending_def find_char_append)
      have "log_reader (\<lambda>_. True) False k buf reads bytes truncated
          = log_reader (\<lambda>_. True) False k [] reads (take LINE_CAP (part @ buf)) (LINE_CAP < length (part @ buf))"
        using False None ext by (subst log_reader.simps) (simp add: Let_def)
      then show ?thesis
        using "1.hyps"(3) [OF False refl refl refl refl refl, of "part @ buf"] None ext p "1.prems"(2) by simp
    next
      case (Some i)
      have seg: "segments (part @ buf @ concat reads)
          = (part @ take (Suc i) buf) # segments (drop (Suc i) buf @ concat reads)"
        using none Some n find_char_bound [OF Some] False
        by (subst segments.simps) (auto simp: find_char_append)
      have "log_reader (\<lambda>_. True) False k buf reads bytes truncated
          = core_line (part @ take (Suc i) buf) # log_reader (\<lambda>_. True) False (Suc k) (drop (Suc i) buf) reads [] False"
        using False Some ext by (subst log_reader.simps) (simp add: Let_def core_line_def)
      then show ?thesis
        using "1.hyps"(2) [OF False refl refl refl refl refl, of "[]"] Some "1.prems"(2) seg by simp
    qed
  qed
qed

lemma length_core_line: "length (core_line seg) \<le> 3 * LINE_CAP + 12"
proof -
  have "length (trim_end (from_utf8_lossy (take LINE_CAP seg))) \<le> 3 * length (take LINE_CAP seg)"
    using length_trim_end length_from_utf8_lossy le_trans by blast
  also have "\<dots> \<le> 3 * LINE_CAP" by simp
  finally show ?thesis unfolding core_line_def finish_line_def length_append by (rule add_mono) simp
qed

lemma concat_segments: "concat (segments s) = s"
  by (induction s rule: segments.induct) (subst segments.simps, auto split: option.splits)

text \<open>C37. However the pipe splits the Core's output into reads, the reader produces the same lines: one per
  newline-terminated segment of the whole stream, and one for an unterminated rest, each from the first
  16 KiB of its segment and marked when more was read.  The segments make up the stream, nothing is lost or
  reordered, and every line stays below 48 KiB plus the mark.\<close>

theorem log_reader_independent_of_chunks:
  assumes "[] \<notin> set reads"
  shows "log_reader (\<lambda>_. True) False 0 [] reads [] False = map core_line (segments (concat reads))
     \<and> concat (segments (concat reads)) = concat reads
     \<and> (\<forall>line \<in> set (log_reader (\<lambda>_. True) False 0 [] reads [] False). length line \<le> 3 * LINE_CAP + 12)"
  using log_reader_spec [of "[]" "[]" False reads 0 "[]"] assms concat_segments length_core_line by auto

theorem log_reader_independent_of_chunks_witness:
  "log_reader (\<lambda>_. True) False 0 [] [''a'', ''b'' @ [newline, CHR ''c'']] [] False
     = map core_line (segments (concat [''a'', ''b'' @ [newline, CHR ''c'']]))"
  using log_reader_independent_of_chunks [of "[''a'', ''b'' @ [newline, CHR ''c'']]"] by simp

end
