(* ===== verification/Core_Binaries.thy ===== *)
theory Core_Binaries
  imports Core_Proc Log_Files Crypto_Api "HOL-Library.Multiset"
begin

text \<open>
  How the daemon obtains the Core's executables (\<^verbatim>\<open>crates/synbadd/src/binaries.rs\<close>) on Linux: from the cache, or
  downloaded from the pinned release, checked against its SHA-256, extracted into a staging directory and renamed into
  place.  The network is an environment; \<^verbatim>\<open>ar\<close>, \<^verbatim>\<open>tar\<close> and the decompressors are parameters that list an archive's
  members; permission bits are left out.  A crash at any point is a pattern of faults in which everything from there on
  fails.
\<close>

subsection \<open>Strings\<close>

definition to_ascii_lowercase :: "string \<Rightarrow> string" where
  "to_ascii_lowercase s = map (\<lambda>c. let n = of_char c :: nat in if 65 \<le> n \<and> n \<le> 90 then char_of (n + 32) else c) s"

definition eq_ignore_ascii_case :: "string \<Rightarrow> string \<Rightarrow> bool" where
  "eq_ignore_ascii_case a b \<longleftrightarrow> to_ascii_lowercase a = to_ascii_lowercase b"

definition str_contains :: "string \<Rightarrow> string \<Rightarrow> bool" where
  "str_contains s pat \<longleftrightarrow> list_ex (\<lambda>i. starts_with (drop i s) pat) [0..<Suc (length s)]"

fun split_once :: "string \<Rightarrow> string \<Rightarrow> (string \<times> string) option" where
  "split_once pat [] = (if pat = [] then Some ([], []) else None)"
| "split_once pat (c # cs) =
     (if starts_with (c # cs) pat then Some ([], drop (length pat) (c # cs))
      else map_option (\<lambda>(a, b). (c # a, b)) (split_once pat cs))"

fun split_lines :: "string \<Rightarrow> string \<Rightarrow> string list" where
  "split_lines acc [] = (if acc = [] then [] else [rev acc])"
| "split_lines acc (c # cs) =
     (if c = newline then rev (case acc of x # rest \<Rightarrow> if x = CHR 0x0D then rest else acc | [] \<Rightarrow> []) # split_lines [] cs
      else split_lines (c # acc) cs)"

subsection \<open>Releases\<close>

definition DESKFLOW_TAG :: string where "DESKFLOW_TAG = ''v1.17.0''"

datatype layout_kind = Kind_Unified | Kind_SplitLegacy

definition layout_kind_for :: "string \<Rightarrow> layout_kind" where
  "layout_kind_for tag = (if tag = ''v1.17.0'' then Kind_SplitLegacy else Kind_Unified)"

definition unified_bin_name :: string where "unified_bin_name = ''deskflow-core''"
definition LEGACY_SERVER_BIN :: string where "LEGACY_SERVER_BIN = ''deskflow-server''"
definition LEGACY_CLIENT_BIN :: string where "LEGACY_CLIENT_BIN = ''deskflow-client''"

definition known_asset_sha :: "string \<Rightarrow> string option" where
  "known_asset_sha name =
     (if name = ''deskflow-1.17.0.0-2_ubuntu_noble_amd64.deb''
      then Some ''4971d0f3b27804ef37aeccd18945985571556a22be35b83cb16d6acd28280de2''
      else if name = ''deskflow-1.17.0.0_mac_x64.dmg''
      then Some ''64fc270052c31fe0843c1c1374ccfefe0d646bd7abf600ca3a9bd978dab4ed88''
      else if name = ''deskflow-1.17.0.0_mac_arm64.dmg''
      then Some ''cf0421257bb5c1ae1c14ec1f470c119619527e0b1f1b7f9fa1e66213c6bc88f4''
      else None)"

record release_asset =
  ra_name :: string
  ra_url :: string

record latest_release =
  lr_tag_name :: string
  lr_assets :: "release_asset list"

datatype resolve_error =
    ReNetwork
  | ReNoPlatform
  | ReNoAsset "string list"
  | ReNotListed string
  | ReNoSha string
  | ReShaMismatch
  | ReIo io_kind
  | ReArchive
  | ReNotFound "string list"
  | ReUnsupported string
  | ReIncomplete

datatype core_event =
    Ce_CheckingLatest
  | Ce_Downloading string string string
  | Ce_Progress string nat "nat option"
  | Ce_Extracting string string
  | Ce_Ready string string

definition asset_needles :: "string \<Rightarrow> string \<Rightarrow> string list option" where
  "asset_needles os arch =
     (if os = ''linux'' \<and> arch = ''x86_64'' then Some [''_ubuntu_noble_amd64.deb'', ''_debian_trixie_amd64.deb'',
        ''debian-trixie-x86_64.deb'', ''ubuntu-resolute-x86_64.deb'']
      else if os = ''linux'' \<and> arch = ''aarch64'' then Some [''debian-trixie-aarch64.deb'', ''ubuntu-resolute-aarch64.deb'']
      else if os = ''macos'' \<and> arch = ''aarch64'' then Some [''_mac_arm64.dmg'', ''macos-arm64.dmg'']
      else if os = ''macos'' \<and> arch = ''x86_64'' then Some [''_mac_x64.dmg'', ''macos-x86_64.dmg'']
      else if os = ''windows'' \<and> arch = ''x86_64'' then Some [''win-x64-portable.7z'']
      else if os = ''windows'' \<and> arch = ''aarch64'' then Some [''win-arm64-portable.7z'']
      else None)"

fun first_match :: "string list \<Rightarrow> release_asset list \<Rightarrow> release_asset option" where
  "first_match [] assets = None"
| "first_match (n # ns) assets = (case find (\<lambda>a. str_contains (ra_name a) n) assets of
     Some a \<Rightarrow> Some a | None \<Rightarrow> first_match ns assets)"

definition pick_asset :: "string \<Rightarrow> string \<Rightarrow> release_asset list \<Rightarrow> (resolve_error, release_asset) result" where
  "pick_asset os arch assets = (case asset_needles os arch of
       None \<Rightarrow> Err ReNoPlatform
     | Some needles \<Rightarrow> ok_or (first_match needles assets) (ReNoAsset needles))"

text \<open>\<open>sums\<close> is the body of \<^verbatim>\<open>sums.txt\<close>, if it can be fetched.\<close>

fun sums_lookup :: "string list \<Rightarrow> string \<Rightarrow> string option" where
  "sums_lookup [] target = None"
| "sums_lookup (l # ls) target = (case split_once ''  '' l of
     Some (sha, name) \<Rightarrow> if str_trim name = target then Some (str_trim sha) else sums_lookup ls target
   | None \<Rightarrow> sums_lookup ls target)"

definition fetch_expected_sha ::
  "string option \<Rightarrow> release_asset list \<Rightarrow> string \<Rightarrow> (resolve_error, string) result" where
  "fetch_expected_sha sums assets target =
     (if list_ex (\<lambda>a. ra_name a = ''sums.txt'') assets then
        (case sums of
           None \<Rightarrow> Err ReNetwork
         | Some body \<Rightarrow> ok_or (sums_lookup (split_lines [] body) target) (ReNotListed target))
      else ok_or (known_asset_sha target) (ReNoSha target))"

definition verify_sha :: "'sk crypto \<Rightarrow> byte list \<Rightarrow> string \<Rightarrow> (resolve_error, unit) result" where
  "verify_sha c bytes expected =
     (if eq_ignore_ascii_case (hex_encode c (sha256 c bytes)) expected then Ok () else Err ReShaMismatch)"

text \<open>The chunks of the response body; \<open>None\<close> if the stream fails.\<close>

fun download_loop ::
  "string \<Rightarrow> nat option \<Rightarrow> byte list \<Rightarrow> nat \<Rightarrow> byte list option list \<Rightarrow> core_event list \<times> (resolve_error, byte list) result" where
  "download_loop asset hint out last_report [] = ([], Ok out)"
| "download_loop asset hint out last_report (None # _) = ([], Err ReNetwork)"
| "download_loop asset hint out last_report (Some chunk # rest) =
     (let out' = out @ chunk; downloaded = length out'
      in if 131072 \<le> downloaded - last_report
         then (case download_loop asset hint out' downloaded rest of
           (evs, r) \<Rightarrow> (Ce_Progress asset downloaded hint # evs, r))
         else download_loop asset hint out' last_report rest)"

definition download_with_progress ::
  "string \<Rightarrow> nat option \<Rightarrow> byte list option list \<Rightarrow> core_event list \<times> (resolve_error, byte list) result" where
  "download_with_progress asset hint chunks = download_loop asset hint [] 0 chunks"

subsection \<open>Extraction\<close>

definition swap_remove :: "nat \<Rightarrow> 'a list \<Rightarrow> 'a list" where
  "swap_remove i xs = (if i = length xs - 1 then butlast xs else (butlast xs)[i := last xs])"

definition expected_targets :: "layout_kind \<Rightarrow> path \<Rightarrow> (string \<times> path) list" where
  "expected_targets kind dir = (case kind of
       Kind_Unified \<Rightarrow> [(''deskflow-core'', dir @ [unified_bin_name])]
     | Kind_SplitLegacy \<Rightarrow> [(LEGACY_SERVER_BIN, dir @ [LEGACY_SERVER_BIN]), (LEGACY_CLIENT_BIN, dir @ [LEGACY_CLIENT_BIN])])"

text \<open>An entry of a tar stream with its content, as far as it can be read; or the stream is broken there.\<close>

datatype tar_item = Tar_Bad | Tar_Entry path string bool

fun name_index :: "string \<Rightarrow> (string \<times> path) list \<Rightarrow> nat option" where
  "name_index n [] = None"
| "name_index n ((m, _) # ts) = (if m = n then Some 0 else map_option Suc (name_index n ts))"

fun tar_extract_named ::
  "faults \<Rightarrow> fs \<Rightarrow> (string \<times> path) list \<Rightarrow> tar_item list \<Rightarrow> fs \<times> (resolve_error, unit) result" where
  "tar_extract_named fl m remaining [] =
     (m, if remaining = [] then Ok () else Err (ReNotFound (map fst remaining)))"
| "tar_extract_named fl m remaining (item # items) =
     (if remaining = [] then (m, Ok ())
      else case item of
        Tar_Bad \<Rightarrow> (m, Err ReArchive)
      | Tar_Entry p body whole \<Rightarrow>
          if ''bin'' \<notin> set p \<or> p = [] then tar_extract_named fl m remaining items
          else case name_index (last p) remaining of
            None \<Rightarrow> tar_extract_named fl m remaining items
          | Some i \<Rightarrow>
              (let dest = snd (remaining ! i); remaining' = swap_remove i remaining in
               case fs_mkdir fl (butlast dest) of
                 Inl e \<Rightarrow> (m, Err (ReIo e))
               | Inr _ \<Rightarrow>
                   (case fs_write fl m dest body of
                      (m', Inl e) \<Rightarrow> (m', Err (ReIo e))
                    | (m', Inr _) \<Rightarrow> if whole then tar_extract_named fl m' remaining' items else (m', Err ReArchive))))"

datatype ar_item = Ar_Bad | Ar_Member string "byte list" bool

record archives =
  ar_members :: "byte list \<Rightarrow> ar_item list"
  untar_zst :: "byte list \<Rightarrow> tar_item list option"
  untar_gz :: "byte list \<Rightarrow> tar_item list"
  untar :: "byte list \<Rightarrow> tar_item list"

definition data_tar_items :: "archives \<Rightarrow> byte list \<Rightarrow> string \<Rightarrow> (resolve_error, tar_item list) result" where
  "data_tar_items ax compressed member_name =
     (if ends_with member_name ''.zst'' then ok_or (untar_zst ax compressed) ReArchive
      else if ends_with member_name ''.gz'' then Ok (untar_gz ax compressed)
      else if ends_with member_name ''.tar'' then Ok (untar ax compressed)
      else Err (ReUnsupported member_name))"

definition extract_data_tar ::
  "archives \<Rightarrow> faults \<Rightarrow> fs \<Rightarrow> byte list \<Rightarrow> string \<Rightarrow> (string \<times> path) list \<Rightarrow> fs \<times> (resolve_error, unit) result" where
  "extract_data_tar ax fl m compressed member_name targets =
     (case data_tar_items ax compressed member_name of
        Inl e \<Rightarrow> (m, Err e)
      | Inr items \<Rightarrow> tar_extract_named fl m targets items)"

fun data_member :: "ar_item list \<Rightarrow> (resolve_error, byte list \<times> string) result" where
  "data_member [] = Err ReArchive"
| "data_member (Ar_Bad # _) = Err ReArchive"
| "data_member (Ar_Member name body whole # ms) =
     (if \<not> starts_with name ''data.tar'' then data_member ms
      else if whole then Ok (body, name) else Err ReArchive)"

definition extract_deb_to ::
  "archives \<Rightarrow> faults \<Rightarrow> fs \<Rightarrow> byte list \<Rightarrow> (string \<times> path) list \<Rightarrow> fs \<times> (resolve_error, unit) result" where
  "extract_deb_to ax fl m deb targets = (case data_member (ar_members ax deb) of
       Inl e \<Rightarrow> (m, Err e)
     | Inr (body, name) \<Rightarrow> extract_data_tar ax fl m body name targets)"

text \<open>Disk images are for macOS only, and 7z archives for builds with that feature.\<close>

definition extract_core_binaries ::
  "archives \<Rightarrow> faults \<Rightarrow> fs \<Rightarrow> byte list \<Rightarrow> string \<Rightarrow> path \<Rightarrow> layout_kind \<Rightarrow> fs \<times> (resolve_error, unit) result" where
  "extract_core_binaries ax fl m bytes asset_name dest_dir kind =
     (if ends_with asset_name ''.deb'' then extract_deb_to ax fl m bytes (expected_targets kind dest_dir)
      else (m, Err (ReUnsupported asset_name)))"

subsection \<open>The cache\<close>

definition under :: "path \<Rightarrow> path \<Rightarrow> bool" where
  "under d p \<longleftrightarrow> length d < length p \<and> take (length d) p = d"

text \<open>A removal that fails may have removed some of the files, \<open>gone\<close>.\<close>

definition fs_remove_dir_all :: "faults \<Rightarrow> (path \<Rightarrow> bool) \<Rightarrow> fs \<Rightarrow> path \<Rightarrow> fs" where
  "fs_remove_dir_all fl gone m d =
     (\<lambda>p. if under d p \<and> (fl (Op_Remove d) = None \<or> gone p) then None else m p)"

text \<open>Renaming onto a directory that still has files fails; the oracle then says so.\<close>

definition fs_rename_dir :: "faults \<Rightarrow> fs \<Rightarrow> path \<Rightarrow> path \<Rightarrow> fs \<times> (io_kind, unit) result" where
  "fs_rename_dir fl m s d = (case fl (Op_Rename s d) of
       Some (e, _) \<Rightarrow> (m, Err e)
     | None \<Rightarrow> (\<lambda>p. if under d p then m (s @ drop (length d) p) else if under s p then None else m p, Ok ()))"

definition path_string :: "path \<Rightarrow> string" where "path_string p = to_string_lossy p"

definition try_cached :: "fs \<Rightarrow> path \<Rightarrow> string \<Rightarrow> core_layout option" where
  "try_cached m root tag =
     (let dir = root @ [tag] in case layout_kind_for tag of
        Kind_Unified \<Rightarrow>
          let p = dir @ [unified_bin_name] in if m p \<noteq> None then Some (Unified (path_string p)) else None
      | Kind_SplitLegacy \<Rightarrow>
          let server = dir @ [LEGACY_SERVER_BIN]; client = dir @ [LEGACY_CLIENT_BIN]
          in if m server \<noteq> None \<and> m client \<noteq> None then Some (SplitLegacy (path_string server) (path_string client)) else None)"

definition primary_path :: "core_layout \<Rightarrow> string" where
  "primary_path l = (case l of Unified p \<Rightarrow> p | SplitLegacy server _ \<Rightarrow> server)"

text \<open>What the network answers.\<close>

record core_net =
  cn_release :: "latest_release option"
  cn_sums :: "string option"
  cn_total :: "nat option"
  cn_chunks :: "byte list option list"

definition staging_dir :: "path \<Rightarrow> string \<Rightarrow> path" where "staging_dir root tag = root @ [tag @ ''.partial'']"

definition install_staged ::
  "archives \<Rightarrow> faults \<Rightarrow> (path \<Rightarrow> bool) \<Rightarrow> fs \<Rightarrow> path \<Rightarrow> string \<Rightarrow> string \<Rightarrow> byte list \<Rightarrow>
   fs \<times> core_event list \<times> (resolve_error, core_layout) result" where
  "install_staged ax fl gone m root tag asset_name bytes =
     (let kind = layout_kind_for tag; dest_dir = root @ [tag]; staging = staging_dir root tag;
          m1 = fs_remove_dir_all fl gone m staging; evs = [Ce_Extracting tag asset_name]
      in case fs_mkdir fl staging of
        Inl e \<Rightarrow> (m1, [], Err (ReIo e))
      | Inr _ \<Rightarrow>
          (case extract_core_binaries ax fl m1 bytes asset_name staging kind of
             (m2, Inl e) \<Rightarrow> (m2, evs, Err e)
           | (m2, Inr _) \<Rightarrow>
               let m3 = fs_remove_dir_all fl gone m2 dest_dir in
               (case fs_rename_dir fl m3 staging dest_dir of
                  (m4, Inl e) \<Rightarrow> (m4, evs, Err (ReIo e))
                | (m4, Inr _) \<Rightarrow>
                    (case try_cached m4 root tag of
                       None \<Rightarrow> (m4, evs, Err ReIncomplete)
                     | Some l \<Rightarrow> (m4, evs @ [Ce_Ready tag (primary_path l)], Ok l)))))"

definition ensure_upstream_core ::
  "'sk crypto \<Rightarrow> archives \<Rightarrow> string \<Rightarrow> string \<Rightarrow> faults \<Rightarrow> (path \<Rightarrow> bool) \<Rightarrow> core_net \<Rightarrow> path \<Rightarrow> fs \<Rightarrow>
   fs \<times> core_event list \<times> (resolve_error, core_layout) result" where
  "ensure_upstream_core c ax os arch fl gone net root m =
     (case try_cached m root DESKFLOW_TAG of
        Some resolved \<Rightarrow> (m, [], Ok resolved)
      | None \<Rightarrow>
          (case cn_release net of
             None \<Rightarrow> (m, [Ce_CheckingLatest], Err ReNetwork)
           | Some release \<Rightarrow>
               let tag = lr_tag_name release in
               (case try_cached m root tag of
                  Some resolved \<Rightarrow> (m, [Ce_CheckingLatest], Ok resolved)
                | None \<Rightarrow>
                    (case pick_asset os arch (lr_assets release) of
                       Inl e \<Rightarrow> (m, [Ce_CheckingLatest], Err e)
                     | Inr asset \<Rightarrow>
                         let evs = [Ce_CheckingLatest, Ce_Downloading tag (ra_name asset) (ra_url asset)] in
                         (case fetch_expected_sha (cn_sums net) (lr_assets release) (ra_name asset) of
                            Inl e \<Rightarrow> (m, evs, Err e)
                          | Inr expected \<Rightarrow>
                              (case download_with_progress (ra_name asset) (cn_total net) (cn_chunks net) of
                                 (ps, Inl e) \<Rightarrow> (m, evs @ ps, Err e)
                               | (ps, Inr bytes) \<Rightarrow>
                                   (case verify_sha c bytes expected of
                                      Inl e \<Rightarrow> (m, evs @ ps, Err e)
                                    | Inr _ \<Rightarrow>
                                        (case install_staged ax fl gone m root tag (ra_name asset) bytes of
                                           (m', ies, r) \<Rightarrow> (m', evs @ ps @ ies, r)))))))))"

subsection \<open>The cache holds verified binaries only\<close>

lemma swap_remove_mset:
  assumes "i < length xs"
  shows "mset xs = add_mset (xs ! i) (mset (swap_remove i xs))"
proof -
  obtain ys y where xs: "xs = ys @ [y]" using assms by (metis list.size(3) not_less_zero rev_exhaust)
  show ?thesis
    using assms by (auto simp: xs swap_remove_def nth_append mset_update)
qed

lemma swap_remove_set:
  assumes "i < length xs" and "distinct (map snd xs)"
  shows "set xs = insert (xs ! i) (set (swap_remove i xs))" "distinct (map snd (swap_remove i xs))"
    "snd (xs ! i) \<notin> snd ` set (swap_remove i xs)"
proof -
  have m: "mset xs = add_mset (xs ! i) (mset (swap_remove i xs))" by (rule swap_remove_mset [OF assms(1)])
  show "set xs = insert (xs ! i) (set (swap_remove i xs))" using arg_cong [OF m, of set_mset] by simp
  have "mset (map snd xs) = mset (map snd (xs ! i # swap_remove i xs))" using arg_cong [OF m, of "image_mset snd"] by simp
  then have "distinct (map snd (xs ! i # swap_remove i xs))" using assms(2) mset_eq_imp_distinct_iff by blast
  then show "distinct (map snd (swap_remove i xs))" "snd (xs ! i) \<notin> snd ` set (swap_remove i xs)" by simp_all
qed

lemma name_index_Some: "name_index n ts = Some i \<Longrightarrow> i < length ts \<and> fst (ts ! i) = n"
  by (induction ts arbitrary: i) (auto split: if_splits)

definition tar_has :: "tar_item list \<Rightarrow> string \<Rightarrow> string \<Rightarrow> bool" where
  "tar_has items n b \<longleftrightarrow> (\<exists>p. Tar_Entry p b True \<in> set items \<and> ''bin'' \<in> set p \<and> last p = n)"

lemma fs_write_other: "fs_write fl m d b = (m', r) \<Longrightarrow> p \<noteq> d \<Longrightarrow> m' p = m p"
  by (auto simp: fs_write_def split: option.splits)

lemma fs_write_Ok: "fs_write fl m d b = (m', Ok u) \<Longrightarrow> m' d = Some b"
  by (auto simp: fs_write_def split: option.splits)

lemma tar_extract_named_spec:
  assumes "tar_extract_named fl m rem items = (m', r)" and "distinct (map snd rem)"
  shows "(\<forall>p. p \<notin> snd ` set rem \<longrightarrow> m' p = m p)
     \<and> (r = Ok () \<longrightarrow> (\<forall>(n, d) \<in> set rem. \<exists>b. m' d = Some b \<and> tar_has items n b))"
  using assms
proof (induction items arbitrary: m rem)
  case Nil
  then show ?case by (auto split: if_splits)
next
  case (Cons item items)
  have weaken: "tar_has (item # items) n b" if "tar_has items n b" for n b
    using that by (auto simp: tar_has_def)
  show ?case
  proof (cases "rem = [] \<or> item = Tar_Bad")
    case True
    then show ?thesis using Cons.prems by (auto split: if_splits)
  next
    case False
    then obtain p body whole where item: "item = Tar_Entry p body whole" by (cases item) auto
    show ?thesis
    proof (cases "''bin'' \<notin> set p \<or> p = [] \<or> name_index (last p) rem = None")
      case True
      then have "tar_extract_named fl m rem items = (m', r)" using Cons.prems(1) False item by (auto split: if_splits)
      from Cons.IH [OF this Cons.prems(2)] show ?thesis using weaken by blast
    next
      case False
      then obtain i where i: "name_index (last p) rem = Some i" and p: "''bin'' \<in> set p" "p \<noteq> []" by auto
      have b: "i < length rem" "fst (rem ! i) = last p" using name_index_Some [OF i] by simp_all
      note sr = swap_remove_set [OF b(1) Cons.prems(2)]
      have ne: "rem \<noteq> []" using b(1) by auto
      obtain d where di: "rem ! i = (last p, d)" using b(2) by (metis prod.collapse)
      obtain m1 w where w: "fs_write fl m d body = (m1, w)" by fastforce
      consider (stop) "m' = m \<or> m' = m1" "\<exists>e. r = Err e"
        | (go) u where "w = Ok u" "whole" "tar_extract_named fl m1 (swap_remove i rem) items = (m', r)"
        using Cons.prems(1) ne i p w item di by (cases w) (auto simp: Let_def split: if_splits sum.splits)
      then show ?thesis
      proof cases
        case stop
        have "d \<in> snd ` set rem" using nth_mem [OF b(1)] di by force
        then have "m1 p = m p" if "p \<notin> snd ` set rem" for p using that fs_write_other [OF w, of p] by metis
        then show ?thesis using stop by auto
      next
        case go
        note ih = Cons.IH [OF go(3) sr(2)]
        have m1: "m1 d = Some body" using fs_write_Ok w go(1) by blast
        have "m' d = Some body" using ih sr(3) m1 di by (metis snd_conv)
        moreover have "tar_has (item # items) (last p) body" using item go(2) p by (auto simp: tar_has_def)
        moreover have "m' q = m q" if "q \<notin> snd ` set rem" for q
          using that ih fs_write_other [OF w, of q] unfolding sr(1) di by auto
        moreover have "\<exists>b. m' d = Some b \<and> tar_has (item # items) n b"
          if "r = Ok ()" "(n, d) \<in> set (swap_remove i rem)" for n d
          using ih that weaken by blast
        ultimately show ?thesis unfolding sr(1) di by auto
      qed
    qed
  qed
qed

definition archive_has :: "archives \<Rightarrow> byte list \<Rightarrow> string \<Rightarrow> string \<Rightarrow> bool" where
  "archive_has ax bytes n b \<longleftrightarrow> (\<exists>body name items. data_member (ar_members ax bytes) = Ok (body, name)
     \<and> data_tar_items ax body name = Ok items \<and> tar_has items n b)"

lemma extract_spec:
  assumes "extract_core_binaries ax fl m bytes asset d kind = (m', r)"
  shows "(\<forall>p. p \<notin> snd ` set (expected_targets kind d) \<longrightarrow> m' p = m p)
    \<and> (r = Ok () \<longrightarrow> (\<forall>(n, q) \<in> set (expected_targets kind d). \<exists>b. m' q = Some b \<and> archive_has ax bytes n b))"
proof -
  have dist: "distinct (map snd (expected_targets kind d))"
    by (cases kind) (simp_all add: expected_targets_def LEGACY_SERVER_BIN_def LEGACY_CLIENT_BIN_def)
  show ?thesis
  proof (cases "\<exists>body name items. ends_with asset ''.deb'' \<and> data_member (ar_members ax bytes) = Ok (body, name)
      \<and> data_tar_items ax body name = Ok items")
    case True
    then obtain body name items where ok: "ends_with asset ''.deb''" "data_member (ar_members ax bytes) = Ok (body, name)"
        "data_tar_items ax body name = Ok items" by blast
    then have "tar_extract_named fl m (expected_targets kind d) items = (m', r)"
      using assms by (simp add: extract_core_binaries_def extract_deb_to_def extract_data_tar_def)
    from tar_extract_named_spec [OF this dist] show ?thesis
      using ok(2,3) unfolding archive_has_def by blast
  next
    case False
    then show ?thesis
      using assms by (auto simp: extract_core_binaries_def extract_deb_to_def extract_data_tar_def split: if_splits sum.splits)
  qed
qed

lemma under_child: "under (root @ [t]) (root @ [t', n]) \<longleftrightarrow> t = t'"
  by (auto simp: under_def)

lemma expected_target_path:
  "(n, q) \<in> set (expected_targets kind d) \<Longrightarrow> \<exists>f. q = d @ [f] \<and> (\<forall>d'. (n, d' @ [f]) \<in> set (expected_targets kind d'))"
  by (cases kind) (auto simp: expected_targets_def)

lemma try_cached_iff:
  "try_cached m root tag \<noteq> None \<longleftrightarrow> (\<forall>(n, q) \<in> set (expected_targets (layout_kind_for tag) (root @ [tag])). m q \<noteq> None)"
  by (auto simp: try_cached_def expected_targets_def Let_def split: layout_kind.splits)

text \<open>Every binary the resolver would hand out is the file of that name in an archive that \<open>ok\<close> vouches for.\<close>

definition cache_sound :: "archives \<Rightarrow> (byte list \<Rightarrow> bool) \<Rightarrow> path \<Rightarrow> fs \<Rightarrow> bool" where
  "cache_sound ax ok root m \<longleftrightarrow> (\<forall>tag n q. try_cached m root tag \<noteq> None \<longrightarrow> \<not> ends_with tag ''.partial'' \<longrightarrow>
     (n, q) \<in> set (expected_targets (layout_kind_for tag) (root @ [tag])) \<longrightarrow>
     (\<exists>b bytes. m q = Some b \<and> ok bytes \<and> archive_has ax bytes n b))"

text \<open>A change that leaves every finished tag alone, removes files of it, or installs verified ones, is sound.\<close>

lemma cache_sound_change:
  assumes "cache_sound ax ok root m"
    and "\<And>t f. \<not> ends_with t ''.partial'' \<Longrightarrow> t \<noteq> tag \<Longrightarrow> m' (root @ [t, f]) = m (root @ [t, f])"
    and "(\<forall>f. m' (root @ [tag, f]) = m (root @ [tag, f])) \<or> try_cached m' root tag = None
      \<or> (\<forall>(n, q) \<in> set (expected_targets (layout_kind_for tag) (root @ [tag])). \<exists>b bytes. m' q = Some b \<and> ok bytes \<and> archive_has ax bytes n b)"
  shows "cache_sound ax ok root m'"
  unfolding cache_sound_def
proof (intro allI impI)
  fix t n q
  assume c: "try_cached m' root t \<noteq> None" and e: "\<not> ends_with t ''.partial''"
    and q: "(n, q) \<in> set (expected_targets (layout_kind_for t) (root @ [t]))"
  have files: "\<exists>f. q' = root @ [t, f]" if "(n', q') \<in> set (expected_targets (layout_kind_for t) (root @ [t]))" for n' q'
    using expected_target_path [OF that] by auto
  have keep: "\<exists>b bytes. m' q = Some b \<and> ok bytes \<and> archive_has ax bytes n b"
    if same: "\<forall>f. m' (root @ [t, f]) = m (root @ [t, f])"
  proof -
    have "m' q' = m q'" if "(n', q') \<in> set (expected_targets (layout_kind_for t) (root @ [t]))" for n' q'
      using files [OF that] same by auto
    then have "try_cached m root t \<noteq> None" "m' q = m q"
      using c q unfolding try_cached_iff by force+
    then show ?thesis using assms(1) e q unfolding cache_sound_def by auto
  qed
  show "\<exists>b bytes. m' q = Some b \<and> ok bytes \<and> archive_has ax bytes n b"
  proof (cases "t = tag")
    case True
    then show ?thesis using assms(3) keep c q by auto
  next
    case False
    then show ?thesis using keep assms(2) [OF e False] by blast
  qed
qed

lemma tag_not_staging: "t @ ''.partial'' \<noteq> t" "ends_with (t @ ''.partial'') ''.partial''"
  by (simp_all add: ends_with_def)

lemma staging_path: "staging_dir root tag @ [f] = root @ [tag @ ''.partial'', f]"
  by (simp add: staging_dir_def)

lemma install_staged_sound:
  assumes inv: "cache_sound ax ok root m" and good: "ok bytes"
    and none: "try_cached m root tag = None" and run: "install_staged ax fl gone m root tag asset bytes = (m', evs, r)"
  shows "cache_sound ax ok root m' \<and> (\<forall>l. r = Ok l \<longrightarrow> try_cached m' root tag = Some l)"
proof -
  let ?S = "staging_dir root tag" and ?D = "root @ [tag]" and ?k = "layout_kind_for tag"
  let ?m1 = "fs_remove_dir_all fl gone m ?S"
  have m1: "?m1 (root @ [t, f]) = m (root @ [t, f])" if "t \<noteq> tag @ ''.partial''" for t f
    using that by (auto simp: fs_remove_dir_all_def staging_dir_def under_child)
  obtain m2 x where ex: "extract_core_binaries ax fl ?m1 bytes asset ?S ?k = (m2, x)" by fastforce
  have ex2: "m2 (root @ [t, f]) = ?m1 (root @ [t, f])" if "t \<noteq> tag @ ''.partial''" for t f
  proof -
    have "root @ [t, f] \<notin> snd ` set (expected_targets ?k ?S)"
      using that expected_target_path [of _ _ ?k ?S] by (fastforce simp: staging_path)
    then show ?thesis using extract_spec [OF ex] by blast
  qed
  let ?m3 = "fs_remove_dir_all fl gone m2 ?D"
  have m3: "?m3 (root @ [t, f]) = m2 (root @ [t, f])" if "t \<noteq> tag" for t f
    using that by (auto simp: fs_remove_dir_all_def under_child)
  have fewer: "?m3 (root @ [tag, f]) = m2 (root @ [tag, f]) \<or> ?m3 (root @ [tag, f]) = None" for f
    by (auto simp: fs_remove_dir_all_def)
  have tags: "t \<noteq> tag @ ''.partial''" if "\<not> ends_with t ''.partial''" for t
    using that tag_not_staging by auto
  have sound1: "cache_sound ax ok root ?m1" "cache_sound ax ok root m2"
    by (rule cache_sound_change [OF inv, of tag]; use m1 ex2 tags tag_not_staging(1) [of tag, symmetric] in auto)+
  have "try_cached ?m3 root tag = None"
  proof (rule ccontr)
    assume "try_cached ?m3 root tag \<noteq> None"
    then have some: "\<forall>(n, q) \<in> set (expected_targets ?k ?D). ?m3 q \<noteq> None" by (simp only: try_cached_iff)
    have "m q \<noteq> None" if nq: "(n, q) \<in> set (expected_targets ?k ?D)" for n q
    proof -
      obtain f where f: "q = root @ [tag, f]" using expected_target_path [OF nq] by auto
      have "?m3 q \<noteq> None" using some nq by auto
      then have "m2 q \<noteq> None" using fewer [of f] f by auto
      then show ?thesis using ex2 [of tag f] m1 [of tag f] tag_not_staging(1) [of tag] f by metis
    qed
    then have "try_cached m root tag \<noteq> None" unfolding try_cached_iff by auto
    then show False using none by contradiction
  qed
  then have sound3: "cache_sound ax ok root ?m3"
    by (intro cache_sound_change [OF inv, of tag]) (use m3 ex2 m1 tags in auto)
  show ?thesis
  proof (cases "x = Ok () \<and> is_ok (snd (fs_rename_dir fl ?m3 ?S ?D)) \<and> is_ok (fs_mkdir fl ?S)")
    case False
    then have "m' \<in> {?m1, m2, ?m3} \<and> (\<exists>e. r = Err e)"
      using run ex
      by (auto simp: install_staged_def Let_def fs_rename_dir_def is_ok_def split: sum.splits option.splits prod.splits)
    then show ?thesis using sound1 sound3 by auto
  next
    case True
    let ?m4 = "\<lambda>p. if under ?D p then ?m3 (?S @ drop (length ?D) p) else if under ?S p then None else ?m3 p"
    have rn: "fs_rename_dir fl ?m3 ?S ?D = (?m4, Ok ())"
      using True by (auto simp: fs_rename_dir_def is_ok_def split: option.splits)
    have m': "m' = ?m4" and res: "r = ok_or (try_cached ?m4 root tag) ReIncomplete"
      using run ex True rn
      by (auto simp: install_staged_def Let_def is_ok_def split: sum.splits option.splits)
    have other: "?m4 (root @ [t, f]) = m (root @ [t, f])" if "\<not> ends_with t ''.partial''" "t \<noteq> tag" for t f
      using that tags [OF that(1)] m3 [OF that(2)] ex2 m1 under_child [of root "tag @ ''.partial''"]
      by (simp add: under_child staging_dir_def)
    have new: "\<exists>b bytes. ?m4 q = Some b \<and> ok bytes \<and> archive_has ax bytes n b"
      if nq: "(n, q) \<in> set (expected_targets ?k ?D)" for n q
    proof -
      obtain f where f: "q = ?D @ [f]" "(n, ?S @ [f]) \<in> set (expected_targets ?k ?S)"
        using expected_target_path [OF nq] by blast
      obtain b where b: "m2 (?S @ [f]) = Some b" "archive_has ax bytes n b"
        using extract_spec [OF ex] True f(2) by blast
      have "?m4 q = ?m3 (?S @ [f])" using f(1) by (simp add: under_def)
      also have "\<dots> = Some b" using b(1) m3 [of "tag @ ''.partial''" f] tag_not_staging(1) [of tag] by (simp add: staging_path)
      finally show ?thesis using b(2) good by blast
    qed
    have "\<forall>(n, q) \<in> set (expected_targets ?k ?D). \<exists>b bytes. ?m4 q = Some b \<and> ok bytes \<and> archive_has ax bytes n b"
      by (intro ballI, clarify) (rule new)
    from cache_sound_change [OF inv other disjI2 [OF disjI2 [OF this]]] have "cache_sound ax ok root ?m4" .
    then show ?thesis unfolding m' res by (auto simp: ok_or_def split: option.splits)
  qed
qed

text \<open>A download is trusted if its digest is one the release, or this build, lists for the asset.\<close>

definition vouched :: "'sk crypto \<Rightarrow> (string \<Rightarrow> bool) \<Rightarrow> byte list \<Rightarrow> bool" where
  "vouched c trusted bytes \<longleftrightarrow> (\<exists>sha. trusted sha \<and> eq_ignore_ascii_case (hex_encode c (sha256 c bytes)) sha)"

lemma verify_sha_vouched: "verify_sha c bytes sha = Ok u \<Longrightarrow> trusted sha \<Longrightarrow> vouched c trusted bytes"
  by (auto simp: verify_sha_def vouched_def split: if_splits)

lemma ensure_cases:
  assumes "ensure_upstream_core c ax os arch fl gone net root m = (m', evs, r)" and "try_cached m root DESKFLOW_TAG = None"
  shows "m' = m \<and> (\<exists>e. r = Err e)
    \<or> (\<exists>rel l. m' = m \<and> cn_release net = Some rel \<and> try_cached m root (lr_tag_name rel) = Some l \<and> r = Ok l)
    \<or> (\<exists>rel a sha bytes ies. cn_release net = Some rel \<and> try_cached m root (lr_tag_name rel) = None
        \<and> fetch_expected_sha (cn_sums net) (lr_assets rel) a = Ok sha \<and> verify_sha c bytes sha = Ok ()
        \<and> install_staged ax fl gone m root (lr_tag_name rel) a bytes = (m', ies, r))"
proof -
  note un = assms(1) [unfolded ensure_upstream_core_def assms(2) option.case Let_def]
  show ?thesis
  proof (cases "cn_release net")
    case None
    then show ?thesis using un by auto
  next
    case rel: (Some rel)
    show ?thesis
    proof (cases "try_cached m root (lr_tag_name rel)")
      case None
      show ?thesis
      proof (cases "pick_asset os arch (lr_assets rel)")
        case (Inr a)
        note un2 = un [unfolded rel option.case None Inr sum.case]
        show ?thesis
          by (cases "fetch_expected_sha (cn_sums net) (lr_assets rel) (ra_name a)")
            (use un2 rel None in \<open>auto split: prod.splits sum.splits\<close>)
      qed (use un rel None in auto)
    qed (use un rel in auto)
  qed
qed


text \<open>A release with one Debian package and its \<^verbatim>\<open>sums.txt\<close>, resolved into an empty cache.\<close>

definition demo_asset :: string where "demo_asset = ''deskflow_ubuntu_noble_amd64.deb''"

definition demo_sha :: string where "demo_sha = replicate 64 CHR ''0''"

definition demo_archives :: archives where
  "demo_archives = \<lparr> ar_members = (\<lambda>_. [Ar_Member ''debian-binary'' [] True, Ar_Member ''data.tar'' [] True]),
     untar_zst = (\<lambda>_. None), untar_gz = (\<lambda>_. []),
     untar = (\<lambda>_. [Tar_Entry [''usr'', ''bin'', ''deskflow-client''] ''c'' True,
       Tar_Entry [''usr'', ''bin'', ''deskflow-server''] ''s'' True]) \<rparr>"

definition demo_net :: core_net where
  "demo_net = \<lparr> cn_release = Some \<lparr> lr_tag_name = ''v1.17.0'', lr_assets =
       [\<lparr> ra_name = ''sums.txt'', ra_url = [] \<rparr>, \<lparr> ra_name = demo_asset, ra_url = [] \<rparr>] \<rparr>,
     cn_sums = Some (demo_sha @ ''  '' @ demo_asset), cn_total = None, cn_chunks = [Some []] \<rparr>"

definition demo_run :: "fs \<times> core_event list \<times> (resolve_error, core_layout) result" where
  "demo_run = ensure_upstream_core demo_crypto demo_archives ''linux'' ''x86_64'' no_faults (\<lambda>_. False) demo_net [''c''] (\<lambda>_. None)"

lemma demo_pick: "pick_asset ''linux'' ''x86_64'' (lr_assets (the (cn_release demo_net))) = Ok \<lparr> ra_name = demo_asset, ra_url = [] \<rparr>"
  by code_simp

lemma demo_fetch: "fetch_expected_sha (cn_sums demo_net) (lr_assets (the (cn_release demo_net))) demo_asset = Ok demo_sha"
  by code_simp

lemma demo_verify: "verify_sha demo_crypto [] demo_sha = Ok ()"
  by code_simp

lemma demo_install: "is_ok (snd (snd (install_staged demo_archives no_faults (\<lambda>_. False) (\<lambda>_. None) [''c''] ''v1.17.0'' demo_asset [])))"
  by code_simp

lemma demo_uncached: "try_cached (\<lambda>_. None) [''c''] DESKFLOW_TAG = None"
  by (simp add: try_cached_def Let_def split: layout_kind.splits)

lemma demo_run_ok: "is_ok (snd (snd demo_run))"
  using demo_pick demo_fetch demo_verify demo_install demo_uncached
  by (simp add: demo_run_def ensure_upstream_core_def demo_net_def download_with_progress_def DESKFLOW_TAG_def Let_def split_beta)

lemma demo_sums: "map (split_once ''  '') (split_lines [] (demo_sha @ ''  '' @ demo_asset)) = [Some (demo_sha, demo_asset)]"
  "str_trim demo_sha = demo_sha"
  by code_simp+

lemma demo_sums_lookup:
  "sums_lookup (split_lines [] (demo_sha @ ''  '' @ demo_asset)) a = Some sha \<Longrightarrow> sha = demo_sha"
proof -
  obtain l where "split_lines [] (demo_sha @ ''  '' @ demo_asset) = [l]" "split_once ''  '' l = Some (demo_sha, demo_asset)"
    using demo_sums(1) by (auto simp del: split_lines.simps)
  then show "sums_lookup (split_lines [] (demo_sha @ ''  '' @ demo_asset)) a = Some sha \<Longrightarrow> sha = demo_sha"
    using demo_sums(2) by (simp del: split_lines.simps split: if_splits)
qed


end
