(* ===== verification/Updater.thy ===== *)
theory Updater
  imports Core_Binaries
begin

text \<open>
  The self-updater (\<^verbatim>\<open>crates/synbad-update\<close>) on Linux: choosing a release, downloading and unpacking it, and
  replacing the two installed programs, directly or through a privileged helper.  GitHub's answers, \<^verbatim>\<open>semver\<close>, the
  \<^verbatim>\<open>tar\<close> and \<^verbatim>\<open>self_replace\<close> crates, JSON and the elevation tools are parameters; permission bits are left out.
  A program that is killed is a pattern of faults in which everything from there on fails.
\<close>

subsection \<open>Choosing a release\<close>

record gh_asset =
  gh_name :: string
  gh_size :: nat
  gh_url :: string

record gh_release =
  gr_tag_name :: string
  gr_html_url :: string
  gr_body :: "string option"
  gr_assets :: "gh_asset list"
  gr_draft :: bool

record update_info =
  ui_tag :: string
  ui_version :: string
  ui_html_url :: string
  ui_asset_url :: string
  ui_asset_name :: string
  ui_asset_size :: nat
  ui_body :: string

record check_result =
  ck_info :: update_info
  ck_newer :: bool

datatype update_error =
    UeNetwork
  | UeNoRelease
  | UeUnsupportedHost
  | UeNoMatchingAsset string string
  | UeNoParent
  | UeIo io_kind
  | UeBadArchive
  | UeNotInArchive string
  | UeSelfReplace
  | UeBadPlan
  | UeSerialize
  | UeNoHelper
  | UeNoTool
  | UeAuthCancelled
  | UeAuthFailed
  | UeHelperExit "int option"

definition trim_v :: "string \<Rightarrow> string" where
  "trim_v s = dropWhile (\<lambda>c. c = CHR ''v'') s"

definition version_of :: "string \<Rightarrow> string" where
  "version_of tag = trim_v (str_trim tag)"

text \<open>\<open>parse\<close> is \<^verbatim>\<open>semver::Version::parse\<close>; versions are totally ordered.\<close>

definition is_newer :: "(string \<Rightarrow> 'v::linorder option) \<Rightarrow> string \<Rightarrow> string \<Rightarrow> bool" where
  "is_newer parse tag current = (case parse (version_of tag) of
       None \<Rightarrow> False
     | Some lhs \<Rightarrow> (case parse (version_of current) of None \<Rightarrow> False | Some rhs \<Rightarrow> rhs < lhs))"

text \<open>\<^verbatim>\<open>Iterator::max_by\<close>: the last of the greatest.\<close>

fun max_by_fst :: "('v::linorder \<times> 'a) list \<Rightarrow> ('v \<times> 'a) option" where
  "max_by_fst [] = None"
| "max_by_fst (x # xs) = Some (foldl (\<lambda>a b. if fst b < fst a then a else b) x xs)"

definition versioned_releases ::
  "(string \<Rightarrow> 'v::linorder option) \<Rightarrow> gh_release list \<Rightarrow> ('v \<times> gh_release) list" where
  "versioned_releases parse releases =
     List.map_filter (\<lambda>r. map_option (\<lambda>v. (v, r)) (parse (version_of (gr_tag_name r)))) (filter (\<lambda>r. \<not> gr_draft r) releases)"

definition host_target :: "string \<Rightarrow> string \<Rightarrow> bool \<Rightarrow> (update_error, string) result" where
  "host_target os arch gnu =
     (if os = ''linux'' \<and> arch = ''x86_64'' \<and> gnu then Ok ''x86_64-unknown-linux-gnu''
      else if os = ''linux'' \<and> arch = ''aarch64'' \<and> gnu then Ok ''aarch64-unknown-linux-gnu''
      else if os = ''macos'' then Ok (if arch = ''aarch64'' then ''aarch64-apple-darwin'' else ''x86_64-apple-darwin'')
      else if os = ''windows'' \<and> arch = ''x86_64'' then Ok ''x86_64-pc-windows-msvc''
      else Err UeUnsupportedHost)"

definition update_pick_asset :: "gh_asset list \<Rightarrow> string \<Rightarrow> string \<Rightarrow> gh_asset option" where
  "update_pick_asset assets tag target =
     (let base = ''synbad-'' @ version_of tag @ ''-'' @ target;
          prefer_zip = ends_with target ''-pc-windows-msvc'';
          expected = base @ ''.'' @ (if prefer_zip then ''zip'' else ''tar.gz'');
          alternate = base @ ''.tgz''
      in find (\<lambda>a. gh_name a = expected \<or> \<not> prefer_zip \<and> gh_name a = alternate) assets)"

text \<open>\<open>answer\<close>: the list of releases, if GitHub gave one.\<close>

definition check ::
  "(string \<Rightarrow> 'v::linorder option) \<Rightarrow> (update_error, string) result \<Rightarrow> gh_release list option \<Rightarrow> string \<Rightarrow>
   (update_error, check_result) result" where
  "check parse host answer current_version =
     (case answer of
        None \<Rightarrow> Err UeNetwork
      | Some releases \<Rightarrow>
          (case max_by_fst (versioned_releases parse releases) of
             None \<Rightarrow> Err UeNoRelease
           | Some (_, release) \<Rightarrow>
               and_then host (\<lambda>target.
                 case update_pick_asset (gr_assets release) (gr_tag_name release) target of
                   None \<Rightarrow> Err (UeNoMatchingAsset target (gr_tag_name release))
                 | Some asset \<Rightarrow>
                     let info = \<lparr> ui_tag = gr_tag_name release, ui_version = trim_v (gr_tag_name release),
                           ui_html_url = gr_html_url release, ui_asset_url = gh_url asset, ui_asset_name = gh_name asset,
                           ui_asset_size = gh_size asset, ui_body = (case gr_body release of None \<Rightarrow> [] | Some b \<Rightarrow> b) \<rparr>
                     in Ok \<lparr> ck_info = info, ck_newer = is_newer parse (ui_tag info) current_version \<rparr>)))"

subsection \<open>Downloading and unpacking\<close>

datatype progress = Stage string | Download nat nat

text \<open>One turn of the download loop: a chunk, a chunk of which only this much reached the disk, or a failed read.\<close>

datatype dl_item = Dl_Chunk string | Dl_Write_Failed string io_kind | Dl_Read_Failed

fun download_chunks ::
  "fs \<Rightarrow> path \<Rightarrow> nat \<Rightarrow> string \<Rightarrow> nat \<Rightarrow> dl_item list \<Rightarrow> fs \<times> progress list \<times> (update_error, unit) result" where
  "download_chunks m dest sz sofar total_read [] = (m(dest \<mapsto> sofar), [], Ok ())"
| "download_chunks m dest sz sofar total_read (Dl_Read_Failed # _) = (m(dest \<mapsto> sofar), [], Err UeNetwork)"
| "download_chunks m dest sz sofar total_read (Dl_Write_Failed part e # _) = (m(dest \<mapsto> sofar @ part), [], Err (UeIo e))"
| "download_chunks m dest sz sofar total_read (Dl_Chunk c # rest) =
     (if c = [] then (m(dest \<mapsto> sofar), [], Ok ())
      else let n = total_read + length c in
        case download_chunks m dest sz (sofar @ c) n rest of
          (m', ps, r) \<Rightarrow> (m', Download n sz # ps, r))"

text \<open>\<open>body\<close>: what the server sends, if it answers at all.\<close>

definition download_to ::
  "faults \<Rightarrow> fs \<Rightarrow> dl_item list option \<Rightarrow> path \<Rightarrow> nat \<Rightarrow> fs \<times> progress list \<times> (update_error, unit) result" where
  "download_to fl m body dest sz = (case body of
       None \<Rightarrow> (m, [], Err UeNetwork)
     | Some items \<Rightarrow>
         (case fl (Op_Create dest) of
            Some (e, _) \<Rightarrow> (m, [], Err (UeIo e))
          | None \<Rightarrow> download_chunks m dest sz [] 0 items))"

text \<open>\<open>unpack\<close> lists the files \<^verbatim>\<open>tar\<close> writes below the destination, and whether it got through.\<close>

definition unpack_files :: "fs \<Rightarrow> path \<Rightarrow> (path \<times> string) list \<Rightarrow> fs" where
  "unpack_files m dest files = foldl (\<lambda>m (p, c). m(dest @ p \<mapsto> c)) m files"

definition extract_tar_gz ::
  "(string \<Rightarrow> (path \<times> string) list \<times> bool) \<Rightarrow> faults \<Rightarrow> fs \<Rightarrow> path \<Rightarrow> path \<Rightarrow> fs \<times> (update_error, unit) result" where
  "extract_tar_gz unpack fl m archive dest = (case fs_read fl m archive of
       Inl e \<Rightarrow> (m, Err (UeIo e))
     | Inr bytes \<Rightarrow> (unpack_files m dest (fst (unpack bytes)), if snd (unpack bytes) then Ok () else Err UeBadArchive))"

definition extract_archive ::
  "(string \<Rightarrow> (path \<times> string) list \<times> bool) \<Rightarrow> faults \<Rightarrow> fs \<Rightarrow> path \<Rightarrow> path \<Rightarrow> fs \<times> (update_error, unit) result" where
  "extract_archive unpack fl m archive dest =
     (let lname = to_ascii_lowercase (if archive = [] then [] else last archive) in
      if ends_with lname ''.tar.gz'' \<or> ends_with lname ''.tgz'' then extract_tar_gz unpack fl m archive dest
      else (m, Err UeBadArchive))"

text \<open>A directory as \<^verbatim>\<open>read_dir\<close> lists it; \<open>De_Bad\<close> is an entry, or the rest of a directory, that cannot be read.\<close>

datatype dentry = De_File string | De_Dir string "dentry list" | De_Other string | De_Bad

function (sequential) walk :: "path \<Rightarrow> string \<Rightarrow> path option \<Rightarrow> dentry list \<Rightarrow> path option \<times> bool" where
  "walk dir name out [] = (out, True)"
| "walk dir name out (De_Bad # _) = (out, False)"
| "walk dir name out (De_Other _ # es) = walk dir name out es"
| "walk dir name out (De_File n # es) =
     (if eq_ignore_ascii_case n name then (Some (dir @ [n]), True) else walk dir name out es)"
| "walk dir name out (De_Dir n sub # es) =
     (case (if out \<noteq> None then (out, True) else walk (dir @ [n]) name out sub) of
        (out', ok) \<Rightarrow> if ok then walk dir name out' es else (out', False))"
  by pat_completeness auto

termination
  by (relation "measure (\<lambda>(_, _, _, es). size_list size es)") auto

definition find_binary :: "path \<Rightarrow> dentry list \<Rightarrow> string \<Rightarrow> path option" where
  "find_binary root listing name = fst (walk root name None listing)"

subsection \<open>Replacing the programs\<close>

definition fs_copy :: "faults \<Rightarrow> fs \<Rightarrow> path \<Rightarrow> path \<Rightarrow> fs \<times> (io_kind, unit) result" where
  "fs_copy fl m p q = (case fs_read fl m p of Inl e \<Rightarrow> (m, Err e) | Inr body \<Rightarrow> fs_write fl m q body)"

text \<open>Rename, or copy to a staging file beside the destination and rename that.\<close>

definition rename_or_stage ::
  "faults \<Rightarrow> fs \<Rightarrow> path \<Rightarrow> path \<Rightarrow> path option \<Rightarrow> fs \<times> (update_error, unit) result" where
  "rename_or_stage fl m source dest staging = (case fs_rename fl m source dest of
       (m', Inr _) \<Rightarrow> (m', Ok ())
     | (m', Inl _) \<Rightarrow>
         (case staging of
            None \<Rightarrow> (m', Err UeNoParent)
          | Some st \<Rightarrow>
              (case fs_copy fl m' source st of
                 (m1, Inl e) \<Rightarrow> (m1, Err (UeIo e))
               | (m1, Inr _) \<Rightarrow> (case fs_rename fl m1 st dest of (m2, r) \<Rightarrow> (m2, map_err UeIo r)))))"

definition replace_sibling :: "faults \<Rightarrow> fs \<Rightarrow> path \<Rightarrow> path \<Rightarrow> fs \<times> (update_error, unit) result" where
  "replace_sibling fl m source dest =
     rename_or_stage fl m source dest (Some (with_extension dest ''synbad-update.new''))"

text \<open>\<open>u\<close> is the process id and the nanoseconds that make the staging name unique.\<close>

definition external_replace :: "faults \<Rightarrow> string \<Rightarrow> fs \<Rightarrow> path \<Rightarrow> path \<Rightarrow> fs \<times> (update_error, unit) result" where
  "external_replace fl u m source dest =
     rename_or_stage fl m source dest (map_option (\<lambda>d. d @ [''.synbad-update-stage-'' @ u]) (parent dest))"

definition check_dir_writable :: "faults \<Rightarrow> string \<Rightarrow> fs \<Rightarrow> path \<Rightarrow> fs \<times> (update_error, unit) result" where
  "check_dir_writable fl u m dir =
     (let probe = dir @ [''.synbad-update-probe-'' @ u] in
      case fs_create_new fl m probe of
        (m1, Inl e) \<Rightarrow> (m1, Err (UeIo e))
      | (m1, Inr _) \<Rightarrow> (fst (fs_remove fl m1 probe), Ok ()))"

definition binary_basename_for_path :: "path \<Rightarrow> string" where
  "binary_basename_for_path p = (if p = [] then ''synbadd'' else last p)"

definition sibling_basename :: "path \<Rightarrow> string" where
  "sibling_basename exe =
     (let trimmed = rev (takeWhile (\<lambda>c. c \<noteq> CHR ''/'' \<and> c \<noteq> CHR 0x5C) (rev (binary_basename_for_path exe)));
          (stem, ext) = (if ends_with trimmed ''.exe'' then (take (length trimmed - 4) trimmed, ''.exe'') else (trimmed, []));
          other = (if stem = ''synbad-gui'' then ''synbadd'' else ''synbad-gui'')
      in other @ ext)"

record plan_move =
  pm_src :: path
  pm_dst :: path

record plan =
  pl_tag :: string
  pl_moves :: "plan_move list"

record applied =
  ap_replaced_self :: path
  ap_replaced_sibling :: "path option"
  ap_tag :: string
  ap_elevated :: bool

text \<open>\<open>sr exe new\<close> is \<^verbatim>\<open>self_replace\<close> in the program at \<open>exe\<close>.\<close>

type_synonym self_replacer = "path \<Rightarrow> path \<Rightarrow> fs \<Rightarrow> fs \<times> bool"

definition install_inline ::
  "self_replacer \<Rightarrow> faults \<Rightarrow> fs \<Rightarrow> path \<Rightarrow> path \<Rightarrow> path option \<Rightarrow> path option \<Rightarrow> string \<Rightarrow> fs \<times> (update_error, applied) result" where
  "install_inline sr fl m exe new_self sibling_dest new_sibling tag =
     (case (case (sibling_dest, new_sibling) of
              (Some target, Some source) \<Rightarrow> replace_sibling fl m source target
            | _ \<Rightarrow> (m, Ok ())) of
        (m1, Inl e) \<Rightarrow> (m1, Err e)
      | (m1, Inr _) \<Rightarrow>
          (case sr exe new_self m1 of
             (m2, False) \<Rightarrow> (m2, Err UeSelfReplace)
           | (m2, True) \<Rightarrow>
               (m2, Ok \<lparr> ap_replaced_self = exe, ap_replaced_sibling = sibling_dest, ap_tag = tag, ap_elevated = False \<rparr>)))"

subsection \<open>The privileged helper\<close>

fun apply_moves :: "faults \<Rightarrow> (nat \<Rightarrow> string) \<Rightarrow> fs \<Rightarrow> plan_move list \<Rightarrow> fs \<times> (update_error, unit) result" where
  "apply_moves fl u m [] = (m, Ok ())"
| "apply_moves fl u m (mv # mvs) = (case external_replace fl (u (length mvs)) m (pm_src mv) (pm_dst mv) of
       (m1, Inl e) \<Rightarrow> (m1, Err e)
     | (m1, Inr _) \<Rightarrow> apply_moves fl u m1 mvs)"

definition apply_plan ::
  "(string \<Rightarrow> plan option) \<Rightarrow> faults \<Rightarrow> (nat \<Rightarrow> string) \<Rightarrow> fs \<Rightarrow> path \<Rightarrow> fs \<times> (update_error, plan) result" where
  "apply_plan plan_de fl u m plan_path = (case fs_read fl m plan_path of
       Inl e \<Rightarrow> (m, Err (UeIo e))
     | Inr bytes \<Rightarrow>
         (case plan_de bytes of
            None \<Rightarrow> (m, Err UeBadPlan)
          | Some pl \<Rightarrow> (case apply_moves fl u m (pl_moves pl) of
                (m1, Inl e) \<Rightarrow> (m1, Err e)
              | (m1, Inr _) \<Rightarrow> (m1, Ok pl))))"

definition parse_apply_update_args :: "string list \<Rightarrow> string option" where
  "parse_apply_update_args args = (case args of
       first # flag # p # _ \<Rightarrow> if first = ''__apply-update'' \<and> flag = ''--plan'' then Some p else None
     | _ \<Rightarrow> None)"

text \<open>
  How the elevation tool ends: it could not be started, it ended without running the helper (the user declined), or it
  ran the helper under the helper's own faults, which may have been killed in the end.
\<close>

datatype el_outcome = El_Spawn_Failed io_kind | El_Status "int option" | El_Ran faults bool

record elevation =
  el_display :: bool
  el_pkexec :: bool
  el_tty :: bool
  el_sudo :: bool
  el_outcome :: el_outcome

definition interpret_status :: "int option \<Rightarrow> (update_error, unit) result" where
  "interpret_status status = (case status of
       None \<Rightarrow> Err (UeHelperExit None)
     | Some c \<Rightarrow> if c = 0 then Ok () else if c = 126 then Err UeAuthCancelled else if c = 127 then Err UeAuthFailed
         else Err (UeHelperExit (Some c)))"

definition helper_status :: "bool \<Rightarrow> (update_error, plan) result \<Rightarrow> int option" where
  "helper_status killed r = (if killed then None else Some (if is_ok r then 0 else 1))"

definition apply_with_elevation ::
  "(string \<Rightarrow> plan option) \<Rightarrow> (nat \<Rightarrow> string) \<Rightarrow> elevation \<Rightarrow> fs \<Rightarrow> path \<Rightarrow> path \<Rightarrow> fs \<times> (update_error, unit) result" where
  "apply_with_elevation plan_de u el m helper plan_path =
     (if m helper = None then (m, Err UeNoHelper)
      else if el_display el \<and> el_pkexec el \<or> el_tty el \<and> el_sudo el then
        (case el_outcome el of
           El_Spawn_Failed e \<Rightarrow> (m, Err (UeIo e))
         | El_Status st \<Rightarrow> (m, interpret_status st)
         | El_Ran fl killed \<Rightarrow>
             (case apply_plan plan_de fl u m plan_path of
                (m1, r) \<Rightarrow> (m1, interpret_status (helper_status killed r))))
      else (m, Err UeNoTool))"

definition helper_path_for :: "fs \<Rightarrow> path \<Rightarrow> path" where
  "helper_path_for m exe =
     (let name = (if exe = [] then [] else last exe);
          stem = (if ends_with name ''.exe'' then take (length name - 4) name else name);
          candidate = butlast exe @ [''synbadd'']
      in if stem = ''synbadd'' then exe else if m candidate \<noteq> None then candidate else exe)"

subsection \<open>The whole update\<close>

text \<open>The third-party code and the operating system's listing, and what the world does during one update.\<close>

record update_api =
  up_unpack :: "string \<Rightarrow> (path \<times> string) list \<times> bool"
  up_ls :: "fs \<Rightarrow> path \<Rightarrow> dentry list"
  up_self_replace :: self_replacer
  up_plan_ser :: "plan \<Rightarrow> string option"
  up_plan_de :: "string \<Rightarrow> plan option"

record update_env =
  ue_faults :: faults
  ue_exe :: "path option"
  ue_probe :: string
  ue_tmp :: path
  ue_body :: "dl_item list option"
  ue_uniq :: "nat \<Rightarrow> string"
  ue_elevation :: elevation

definition extract_dir :: "update_env \<Rightarrow> path" where "extract_dir env = ue_tmp env @ [''extract'']"

text \<open>Download, unpack and find the new version of the running program.\<close>

definition fetch_update ::
  "update_api \<Rightarrow> update_env \<Rightarrow> update_info \<Rightarrow> path \<Rightarrow> fs \<Rightarrow> fs \<times> progress list \<times> (update_error, path) result" where
  "fetch_update api env info exe m =
     (let fl = ue_faults env; archive = ue_tmp env @ [ui_asset_name info]; dir = extract_dir env;
          name = binary_basename_for_path exe; down = [Stage ''downloading'']
      in case fs_mkdir fl (ue_tmp env) of
        Inl e \<Rightarrow> (m, down, Err (UeIo e))
      | Inr _ \<Rightarrow>
          (case download_to fl m (ue_body env) archive (ui_asset_size info) of
             (m1, ps, Inl e) \<Rightarrow> (m1, down @ ps, Err e)
           | (m1, ps, Inr _) \<Rightarrow>
               (let evs = down @ ps @ [Stage ''extracting''] in
                case fs_mkdir fl dir of
                  Inl e \<Rightarrow> (m1, evs, Err (UeIo e))
                | Inr _ \<Rightarrow>
                    (case extract_archive (up_unpack api) fl m1 archive dir of
                       (m2, Inl e) \<Rightarrow> (m2, evs, Err e)
                     | (m2, Inr _) \<Rightarrow> (m2, evs, ok_or (find_binary dir (up_ls api m2 dir) name) (UeNotInArchive name))))))"

definition update_moves :: "path \<Rightarrow> path \<Rightarrow> path \<Rightarrow> path option \<Rightarrow> plan_move list" where
  "update_moves exe new_self sibling new_sibling =
     (case new_sibling of None \<Rightarrow> [] | Some src \<Rightarrow> [\<lparr> pm_src = src, pm_dst = sibling \<rparr>]) @ [\<lparr> pm_src = new_self, pm_dst = exe \<rparr>]"

definition install_elevated ::
  "update_api \<Rightarrow> update_env \<Rightarrow> plan \<Rightarrow> path \<Rightarrow> fs \<Rightarrow> fs \<times> progress list \<times> (update_error, unit) result" where
  "install_elevated api env pl exe m =
     (let evs = [Stage ''waiting for authorisation'']; plan_path = ue_tmp env @ [''plan.json''] in
      case up_plan_ser api pl of
        None \<Rightarrow> (m, evs, Err UeSerialize)
      | Some bytes \<Rightarrow>
          (case fs_write (ue_faults env) m plan_path bytes of
             (m1, Inl e) \<Rightarrow> (m1, evs, Err (UeIo e))
           | (m1, Inr _) \<Rightarrow>
               (case apply_with_elevation (up_plan_de api) (ue_uniq env) (ue_elevation env) m1 (helper_path_for m1 exe) plan_path of
                  (m2, r) \<Rightarrow> (m2, evs @ [Stage ''installing (elevated)''], r))))"

definition install_update ::
  "update_api \<Rightarrow> update_env \<Rightarrow> update_info \<Rightarrow> bool \<Rightarrow> path \<Rightarrow> path \<Rightarrow> fs \<Rightarrow> fs \<times> progress list \<times> (update_error, applied) result" where
  "install_update api env info writable exe new_self m =
     (let sibling = butlast exe @ [sibling_basename exe]; present = m sibling \<noteq> None; dir = extract_dir env;
          new_sibling = (if present then find_binary dir (up_ls api m dir) (sibling_basename exe) else None);
          sibling_dest = (if present then Some sibling else None)
      in if writable then
           (case install_inline (up_self_replace api) (ue_faults env) m exe new_self sibling_dest new_sibling (ui_tag info) of
              (m1, r) \<Rightarrow> (m1, [Stage ''installing''], r))
         else
           (case install_elevated api env \<lparr> pl_tag = ui_tag info, pl_moves = update_moves exe new_self sibling new_sibling \<rparr> exe m of
              (m1, evs, Inl e) \<Rightarrow> (m1, evs, Err e)
            | (m1, evs, Inr _) \<Rightarrow>
                (m1, evs, Ok \<lparr> ap_replaced_self = exe, ap_replaced_sibling = sibling_dest, ap_tag = ui_tag info, ap_elevated = True \<rparr>)))"

definition download_and_apply ::
  "update_api \<Rightarrow> update_env \<Rightarrow> update_info \<Rightarrow> fs \<Rightarrow> fs \<times> progress list \<times> (update_error, applied) result" where
  "download_and_apply api env info m =
     (case ue_exe env of
        None \<Rightarrow> (m, [], Err (UeIo NotFound))
      | Some exe \<Rightarrow>
          (case parent exe of
             None \<Rightarrow> (m, [], Err UeNoParent)
           | Some install_dir \<Rightarrow>
               (case check_dir_writable (ue_faults env) (ue_probe env) m install_dir of
                  (m0, probe) \<Rightarrow>
                    (case fetch_update api env info exe m0 of
                       (m1, evs, Inl e) \<Rightarrow> (m1, evs, Err e)
                     | (m1, evs, Inr new_self) \<Rightarrow>
                         (case install_update api env info (is_ok probe) exe new_self m1 of
                            (m2, evs', r) \<Rightarrow> (m2, evs @ evs', r))))))"

subsection \<open>What is offered\<close>

lemma max_by_fst_step:
  "fst (foldl (\<lambda>a b. if fst b < fst a then a else b) x xs) = Max (insert (fst x) (fst ` set xs))
   \<and> foldl (\<lambda>a b. if fst b < fst a then a else b) x xs \<in> insert x (set xs)" for x :: "'v::linorder \<times> 'a"
proof (induction xs arbitrary: x)
  case (Cons y xs)
  show ?case
  proof (cases "fst y < fst x")
    case True
    have "Max (insert (fst x) (insert (fst y) (fst ` set xs))) = Max (insert (fst x) (fst ` set xs))"
      using True by (cases "xs = []") (auto simp: max_def)
    then show ?thesis using Cons [of x] True by auto
  next
    case False
    have "Max (insert (fst x) (insert (fst y) (fst ` set xs))) = Max (insert (fst y) (fst ` set xs))"
      using False by (cases "xs = []") (auto simp: max_def)
    then show ?thesis using Cons [of y] False by auto
  qed
qed simp

lemma max_by_fst_Some:
  assumes "max_by_fst xs = Some (v, x)"
  shows "(v, x) \<in> set xs" "(w, y) \<in> set xs \<Longrightarrow> w \<le> (v :: 'v::linorder)"
proof -
  obtain z zs where xs: "xs = z # zs" using assms by (cases xs) auto
  then have f: "(v, x) = foldl (\<lambda>a b. if fst b < fst a then a else b) z zs" using assms by simp
  show "(v, x) \<in> set xs" using max_by_fst_step [of z zs] f xs by auto
  have "v = Max (insert (fst z) (fst ` set zs))" using max_by_fst_step [of z zs] f by (metis fst_conv)
  then show "w \<le> v" if "(w, y) \<in> set xs" using that xs by (force intro: Max_ge)
qed

lemma max_by_fst_None: "max_by_fst xs = None \<longleftrightarrow> xs = []"
  by (cases xs) auto

lemma versioned_releases_iff:
  "(v, r) \<in> set (versioned_releases parse releases) \<longleftrightarrow>
     r \<in> set releases \<and> \<not> gr_draft r \<and> parse (version_of (gr_tag_name r)) = Some v"
  by (force simp: versioned_releases_def List.map_filter_def image_iff)

text \<open>The specification: a published release that no published release exceeds, and the archives that fit a host.\<close>

definition highest_release :: "(string \<Rightarrow> 'v::linorder option) \<Rightarrow> gh_release list \<Rightarrow> gh_release \<Rightarrow> 'v \<Rightarrow> bool" where
  "highest_release parse releases r v \<longleftrightarrow> r \<in> set releases \<and> \<not> gr_draft r \<and> parse (version_of (gr_tag_name r)) = Some v
     \<and> (\<forall>r' w. r' \<in> set releases \<longrightarrow> \<not> gr_draft r' \<longrightarrow> parse (version_of (gr_tag_name r')) = Some w \<longrightarrow> w \<le> v)"

definition fits_host :: "string \<Rightarrow> string \<Rightarrow> gh_asset \<Rightarrow> bool" where
  "fits_host target version a \<longleftrightarrow> gh_name a \<in>
     (if ends_with target ''-pc-windows-msvc'' then {''synbad-'' @ version @ ''-'' @ target @ ''.zip''}
      else {''synbad-'' @ version @ ''-'' @ target @ ''.tar.gz'', ''synbad-'' @ version @ ''-'' @ target @ ''.tgz''})"

lemma update_pick_asset_eq: "update_pick_asset assets tag target = find (fits_host target (version_of tag)) assets"
  unfolding update_pick_asset_def Let_def by (rule arg_cong [of _ _ "\<lambda>f. find f assets"]) (auto simp: fits_host_def fun_eq_iff)

lemma max_release_highest:
  assumes "max_by_fst (versioned_releases parse releases) = Some (v, rel)"
  shows "highest_release parse releases rel v"
  using max_by_fst_Some [OF assms] unfolding highest_release_def versioned_releases_iff by blast

text \<open>The update check offers exactly the published release with the highest version, never a draft or an
  unversioned tag, with an archive made for this release and this host, and calls it newer exactly if its version
  exceeds the running one; it fails only if the list is not available, no release is published, the host is not
  supported, or the highest release has no archive for the host.\<close>

theorem update_offers_highest_release:
  "(check parse host (Some releases) current = Ok ck \<longrightarrow>
      (\<exists>rel v target a. highest_release parse releases rel v \<and> host = Ok target \<and> a \<in> set (gr_assets rel)
         \<and> fits_host target (version_of (gr_tag_name rel)) a
         \<and> ui_tag (ck_info ck) = gr_tag_name rel \<and> ui_asset_name (ck_info ck) = gh_name a \<and> ui_asset_url (ck_info ck) = gh_url a
         \<and> (ck_newer ck \<longleftrightarrow> (\<exists>c. parse (version_of current) = Some c \<and> c < (v :: 'v::linorder)))))
   \<and> (check parse host (Some releases) current = Err e \<longrightarrow>
      e = UeNoRelease \<and> (\<forall>rel v. \<not> highest_release parse releases rel v)
      \<or> host = Err e
      \<or> (\<exists>rel v target. highest_release parse releases rel v \<and> e = UeNoMatchingAsset target (gr_tag_name rel)
           \<and> (\<forall>a \<in> set (gr_assets rel). \<not> fits_host target (version_of (gr_tag_name rel)) a)))"
proof (cases "max_by_fst (versioned_releases parse releases)")
  case None
  then have "versioned_releases parse releases = []" by (simp add: max_by_fst_None)
  then have "\<not> highest_release parse releases rel v" for rel v
    using versioned_releases_iff [of v rel parse releases] by (auto simp: highest_release_def)
  then show ?thesis using None by (simp add: check_def)
next
  case (Some vr)
  then obtain v rel where vr: "max_by_fst (versioned_releases parse releases) = Some (v, rel)" by (cases vr) auto
  note top = max_release_highest [OF vr]
  then have v: "parse (version_of (gr_tag_name rel)) = Some v" by (simp add: highest_release_def)
  show ?thesis
  proof (cases host)
    case (Inl e)
    then show ?thesis using vr by (auto simp: check_def)
  next
    case (Inr target)
    show ?thesis
    proof (cases "update_pick_asset (gr_assets rel) (gr_tag_name rel) target")
      case None
      then have "\<forall>a \<in> set (gr_assets rel). \<not> fits_host target (version_of (gr_tag_name rel)) a"
        by (simp add: update_pick_asset_eq find_None_iff)
      then show ?thesis using vr Inr None top by (auto simp: check_def)
    next
      case (Some a)
      then have "a \<in> set (gr_assets rel)" "fits_host target (version_of (gr_tag_name rel)) a"
        by (auto simp: update_pick_asset_eq find_Some_iff)
      moreover have "is_newer parse (gr_tag_name rel) current \<longleftrightarrow> (\<exists>c. parse (version_of current) = Some c \<and> c < v)"
        using v by (auto simp: is_newer_def split: option.splits)
      ultimately show ?thesis
        using vr Inr Some top by (fastforce simp: check_def Let_def)
    qed
  qed
qed

subsection \<open>Finding a program in the unpacked files\<close>

function (sequential) listed :: "path \<Rightarrow> dentry list \<Rightarrow> path set" where
  "listed dir [] = {}"
| "listed dir (De_File n # es) = insert (dir @ [n]) (listed dir es)"
| "listed dir (De_Dir n sub # es) = listed (dir @ [n]) sub \<union> listed dir es"
| "listed dir (_ # es) = listed dir es"
  by pat_completeness auto

termination
  by (relation "measure (\<lambda>(_, es). size_list size es)") auto

function (sequential) unreadable :: "dentry list \<Rightarrow> bool" where
  "unreadable [] \<longleftrightarrow> False"
| "unreadable (De_Bad # es) \<longleftrightarrow> True"
| "unreadable (De_Dir n sub # es) \<longleftrightarrow> unreadable sub \<or> unreadable es"
| "unreadable (_ # es) \<longleftrightarrow> unreadable es"
  by pat_completeness auto

termination
  by (relation "measure (size_list size)") auto

lemma under_parent: "under (d @ [n]) p \<Longrightarrow> under d p"
  unfolding under_def using take_take [of "length d" "length (d @ [n])" p] by (auto simp: min_def)

lemma listed_under: "p \<in> listed dir es \<Longrightarrow> under dir p"
  by (induction dir es rule: listed.induct) (auto dest: under_parent simp: under_def [of _ "_ @ [_]"])

lemma walk_sound:
  "fst (walk dir name out es) = Some p \<Longrightarrow> out = Some p \<or> p \<in> listed dir es \<and> eq_ignore_ascii_case (last p) name"
  by (induction dir name out es rule: walk.induct) (auto split: if_splits prod.splits)

lemma walk_complete:
  "\<not> unreadable es \<Longrightarrow> snd (walk dir name out es)
     \<and> (out \<noteq> None \<or> (\<exists>q \<in> listed dir es. eq_ignore_ascii_case (last q) name) \<longrightarrow> fst (walk dir name out es) \<noteq> None)"
proof (induction dir name out es rule: walk.induct)
  case (5 dir name out n sub es)
  obtain out' ok where e: "(if out \<noteq> None then (out, True) else walk (dir @ [n]) name out sub) = (out', ok)" by fastforce
  have sub: "ok" "out \<noteq> None \<or> (\<exists>q \<in> listed (dir @ [n]) sub. eq_ignore_ascii_case (last q) name) \<Longrightarrow> out' \<noteq> None"
    using 5 e by (auto split: if_splits)
  show ?case using 5(2) [OF e [symmetric] sub(1)] 5(3) sub(2) e sub(1) by auto
qed auto

lemma find_binary_Some:
  assumes "find_binary dir es name = Some p"
  shows "p \<in> listed dir es" "eq_ignore_ascii_case (last p) name" "under dir p"
  using walk_sound [of dir name None es p] assms listed_under by (auto simp: find_binary_def)

lemma find_binary_complete:
  "\<not> unreadable es \<Longrightarrow> q \<in> listed dir es \<Longrightarrow> eq_ignore_ascii_case (last q) name \<Longrightarrow> find_binary dir es name \<noteq> None"
  using walk_complete [of es dir name None] by (auto simp: find_binary_def)

text \<open>A listing shows files that exist, and all of them unless something could not be read.\<close>

definition listing_law :: "(fs \<Rightarrow> path \<Rightarrow> dentry list) \<Rightarrow> bool" where
  "listing_law ls \<longleftrightarrow> (\<forall>m dir. listed dir (ls m dir) \<subseteq> {p. m p \<noteq> None}
     \<and> (\<not> unreadable (ls m dir) \<longrightarrow> {p. under dir p \<and> m p \<noteq> None} \<subseteq> listed dir (ls m dir)))"

subsection \<open>Replacing one file\<close>

lemma rename_or_stage_spec:
  assumes "rename_or_stage fl m s d st = (m', r)" and "s \<noteq> d" and "\<And>t. st = Some t \<Longrightarrow> t \<noteq> s \<and> t \<noteq> d"
  shows "m' d = (if is_ok r then m s else m d)" "is_ok r \<Longrightarrow> m s \<noteq> None"
    "q \<noteq> s \<Longrightarrow> q \<noteq> d \<Longrightarrow> st \<noteq> Some q \<Longrightarrow> m' q = m q"
  using assms
  by (auto simp: rename_or_stage_def fs_rename_def fs_copy_def fs_read_def fs_write_def is_ok_def map_err_def ok_or_def
      split: option.splits sum.splits prod.splits if_splits)

lemma under_sibling: "under t (d @ [x]) \<longleftrightarrow> under t (d @ [y])"
  by (auto simp: under_def)

text \<open>\<open>self_replace\<close> puts the new content in place in one step, with a hidden file beside the program.\<close>

definition self_replace_law :: "self_replacer \<Rightarrow> bool" where
  "self_replace_law sr \<longleftrightarrow> (\<forall>exe new m m' ok. sr exe new m = (m', ok) \<longrightarrow>
     m' exe = (if ok then m new else m exe) \<and> (ok \<longrightarrow> m new \<noteq> None)
     \<and> (\<exists>t. \<forall>q. q \<noteq> exe \<longrightarrow> q \<noteq> butlast exe @ [CHR ''.'' # t] \<longrightarrow> m' q = m q))"

lemma self_replace_lawD:
  assumes "self_replace_law sr" and "sr exe new m = (m', ok)"
  shows "\<exists>t. m' exe = (if ok then m new else m exe) \<and> (ok \<longrightarrow> m new \<noteq> None)
    \<and> (\<forall>q. q \<noteq> exe \<longrightarrow> q \<noteq> butlast exe @ [CHR ''.'' # t] \<longrightarrow> m' q = m q)"
  using assms unfolding self_replace_law_def by blast

text \<open>From \<open>m\<close> to \<open>m'\<close> each program is the old or the new one, and the running program changed only after its sibling.\<close>

definition replaced_in_order :: "fs \<Rightarrow> fs \<Rightarrow> path \<Rightarrow> path \<Rightarrow> path \<Rightarrow> path option \<Rightarrow> bool \<Rightarrow> bool" where
  "replaced_in_order m m' exe sib new_self new_sib finished \<longleftrightarrow>
     (m' exe = m exe \<or> m' exe = m new_self \<and> m new_self \<noteq> None)
   \<and> (m' sib = m sib \<or> (\<exists>s. new_sib = Some s \<and> m' sib = m s \<and> m s \<noteq> None))
   \<and> (finished \<or> m' exe \<noteq> m exe \<longrightarrow> m' exe = m new_self \<and> m new_self \<noteq> None
       \<and> (\<forall>s. new_sib = Some s \<longrightarrow> m' sib = m s \<and> m s \<noteq> None))"

definition program_name :: "string \<Rightarrow> bool" where
  "program_name n \<longleftrightarrow> n = ''synbadd'' \<or> n = ''synbad-gui''"

lemma sibling_of_program:
  assumes "program_name n"
  shows "program_name (sibling_basename (d @ [n]))" "sibling_basename (d @ [n]) \<noteq> n"
    "\<not> eq_ignore_ascii_case (sibling_basename (d @ [n])) n"
proof -
  have eq: "sibling_basename (d @ [n]) = sibling_basename [n]"
    by (simp add: sibling_basename_def binary_basename_for_path_def)
  have "sibling_basename [''synbadd''] = ''synbad-gui''" "sibling_basename [''synbad-gui''] = ''synbadd''"
    "\<not> eq_ignore_ascii_case ''synbad-gui'' ''synbadd''" "\<not> eq_ignore_ascii_case ''synbadd'' ''synbad-gui''"
    by code_simp+
  then show "program_name (sibling_basename (d @ [n]))" "sibling_basename (d @ [n]) \<noteq> n"
    "\<not> eq_ignore_ascii_case (sibling_basename (d @ [n])) n"
    unfolding eq using assms by (auto simp: program_name_def)
qed

lemma program_staging:
  assumes "program_name n" and "program_name n'"
  shows "with_extension (d @ [n]) ''synbad-update.new'' = d @ [n @ ''.synbad-update.new'']" "n' \<noteq> n @ ''.synbad-update.new''"
    "n' \<noteq> CHR ''.'' # t"
proof -
  have "file_stem ''synbadd'' = ''synbadd''" "file_stem ''synbad-gui'' = ''synbad-gui''" by code_simp+
  then show "with_extension (d @ [n]) ''synbad-update.new'' = d @ [n @ ''.synbad-update.new'']"
    using assms(1) by (auto simp: with_extension_def program_name_def)
  show "n' \<noteq> n @ ''.synbad-update.new''" "n' \<noteq> CHR ''.'' # t" using assms by (auto simp: program_name_def)
qed

subsection \<open>Replacing both programs\<close>

text \<open>The programs are in \<open>d\<close>, the new files below \<open>tmp\<close>, which does not contain \<open>d\<close>.\<close>

definition update_paths :: "path \<Rightarrow> path \<Rightarrow> string \<Rightarrow> string \<Rightarrow> path \<Rightarrow> path option \<Rightarrow> bool" where
  "update_paths tmp d n n' new_self new_sib \<longleftrightarrow> program_name n \<and> program_name n' \<and> n \<noteq> n' \<and> \<not> under tmp (d @ [n])
     \<and> under tmp new_self \<and> (\<forall>s. new_sib = Some s \<longrightarrow> under tmp s \<and> s \<noteq> new_self)"

lemma update_pathsD:
  assumes "update_paths tmp d n n' new_self new_sib"
  shows "new_self \<noteq> d @ [x]" "new_sib = Some s \<Longrightarrow> s \<noteq> d @ [x]" "new_sib = Some s \<Longrightarrow> s \<noteq> new_self"
    "n \<noteq> n'" "program_name n" "program_name n'"
  using assms under_sibling [of tmp d x n] by (auto simp: update_paths_def)

text \<open>One move of a file from \<open>tmp\<close> into \<open>d\<close>.\<close>

lemma move_in:
  assumes "rename_or_stage fl m s (d @ [n]) (Some (d @ [x])) = (m1, r)" and "\<And>y. s \<noteq> d @ [y]" and "x \<noteq> n"
  shows "m1 (d @ [n]) = (if is_ok r then m s else m (d @ [n]))" "is_ok r \<Longrightarrow> m s \<noteq> None"
    "q \<noteq> s \<Longrightarrow> q \<noteq> d @ [n] \<Longrightarrow> q \<noteq> d @ [x] \<Longrightarrow> m1 q = m q"
proof -
  have "s \<noteq> d @ [n]" "\<And>t. Some (d @ [x]) = Some t \<Longrightarrow> t \<noteq> s \<and> t \<noteq> d @ [n]" using assms(2) [of n] assms(2) [of x] assms(3) by auto
  note spec = rename_or_stage_spec [OF assms(1) this]
  show "m1 (d @ [n]) = (if is_ok r then m s else m (d @ [n]))" "is_ok r \<Longrightarrow> m s \<noteq> None"
    "q \<noteq> s \<Longrightarrow> q \<noteq> d @ [n] \<Longrightarrow> q \<noteq> d @ [x] \<Longrightarrow> m1 q = m q"
    using spec by auto
qed

text \<open>The sibling first, and the running program only if that succeeded.\<close>

lemma in_orderI:
  assumes "new_sib = None \<Longrightarrow> m1 = m \<and> ok1"
    and "\<And>s. new_sib = Some s \<Longrightarrow> m1 sib = (if ok1 then m s else m sib) \<and> (ok1 \<longrightarrow> m s \<noteq> None)"
    and "m1 exe = m exe" "m1 new_self = m new_self"
    and "\<not> ok1 \<Longrightarrow> m' = m1 \<and> \<not> ok"
    and "ok1 \<Longrightarrow> m' exe = (if ok then m1 new_self else m1 exe) \<and> (ok \<longrightarrow> m1 new_self \<noteq> None) \<and> m' sib = m1 sib"
  shows "replaced_in_order m m' exe sib new_self new_sib ok"
  using assms by (cases new_sib; cases ok1; cases ok) (auto simp: replaced_in_order_def)

lemma install_inline_in_order:
  assumes law: "self_replace_law sr" and paths: "update_paths tmp d n n' new_self new_sib"
    and run: "install_inline sr fl m (d @ [n]) new_self (if present then Some (d @ [n']) else None) new_sib tag = (m', r)"
    and sib: "new_sib \<noteq> None \<Longrightarrow> present"
  shows "replaced_in_order m m' (d @ [n]) (d @ [n']) new_self new_sib (is_ok r)"
proof -
  note p = update_pathsD [OF paths]
  note st = program_staging [OF p(6)] program_staging [OF p(5)]
  obtain m1 w where w: "(case new_sib of None \<Rightarrow> (m, Ok ()) | Some s \<Rightarrow> replace_sibling fl m s (d @ [n'])) = (m1, w)" by fastforce
  have "(case (if present then Some (d @ [n']) else None, new_sib) of (Some target, Some source) \<Rightarrow> replace_sibling fl m source target
      | _ \<Rightarrow> (m, Ok ())) = (m1, w)"
    using w sib by (cases new_sib) auto
  note run1 = run [unfolded install_inline_def this]
  obtain m2 ok where sr: "sr (d @ [n]) new_self m1 = (m2, ok)" by fastforce
  then obtain t where l: "m2 (d @ [n]) = (if ok then m1 new_self else m1 (d @ [n]))" "ok \<longrightarrow> m1 new_self \<noteq> None"
      "\<forall>q. q \<noteq> d @ [n] \<longrightarrow> q \<noteq> d @ [CHR ''.'' # t] \<longrightarrow> m2 q = m1 q"
    using self_replace_lawD [OF law, of "d @ [n]"] unfolding butlast_snoc by blast
  show ?thesis
  proof (rule in_orderI [where ?m1.0 = m1 and ?ok1.0 = "is_ok w"])
    show "m1 = m \<and> is_ok w" if "new_sib = None" using w that by auto
    have mv: "rename_or_stage fl m s (d @ [n']) (Some (d @ [n' @ ''.synbad-update.new''])) = (m1, w)" if "new_sib = Some s" for s
      using w that st(1) [OF p(5)] by (simp add: replace_sibling_def)
    show "m1 (d @ [n']) = (if is_ok w then m s else m (d @ [n'])) \<and> (is_ok w \<longrightarrow> m s \<noteq> None)" if "new_sib = Some s" for s
      using move_in [OF mv [OF that] p(2) [OF that]] by simp
    have keep: "m1 q = m q" if "\<And>s. new_sib = Some s \<Longrightarrow> q \<noteq> s" "q \<noteq> d @ [n']" "q \<noteq> d @ [n' @ ''.synbad-update.new'']" for q
    proof (cases new_sib)
      case None
      then show ?thesis using w by simp
    next
      case (Some s)
      show ?thesis using move_in(3) [OF mv [OF Some] p(2) [OF Some]] that Some by auto
    qed
    show "m1 (d @ [n]) = m (d @ [n])"
    proof (rule keep)
      show "d @ [n] \<noteq> s" if "new_sib = Some s" for s using p(2) [OF that, of n] by metis
    qed (use p(4) st(2) [OF p(5)] in simp_all)
    show "m1 new_self = m new_self" by (rule keep) (use p(1,3) in blast)+
    show "m' = m1 \<and> \<not> is_ok r" if "\<not> is_ok w" using run1 that by (auto simp: is_ok_def split: sum.splits)
    show "m' (d @ [n]) = (if is_ok r then m1 new_self else m1 (d @ [n])) \<and> (is_ok r \<longrightarrow> m1 new_self \<noteq> None) \<and> m' (d @ [n']) = m1 (d @ [n'])"
      if "is_ok w"
      using run1 that sr l p(4) st(3) [OF p(6)] by (cases ok) (auto simp: is_ok_def split: sum.splits)
  qed
qed

lemma stage_name: "program_name n \<Longrightarrow> n \<noteq> ''.synbad-update-stage-'' @ u"
  by (auto simp: program_name_def)

lemma external_replace_stage:
  "external_replace fl u m s (d @ [n]) = rename_or_stage fl m s (d @ [n]) (Some (d @ [''.synbad-update-stage-'' @ u]))"
  by (simp add: external_replace_def parent_def)

lemma apply_moves_in_order:
  assumes paths: "update_paths tmp d n n' new_self new_sib"
    and run: "apply_moves fl u m (update_moves (d @ [n]) new_self (d @ [n']) new_sib) = (m', r)"
  shows "replaced_in_order m m' (d @ [n]) (d @ [n']) new_self new_sib (is_ok r)"
proof -
  note p = update_pathsD [OF paths]
  note st = stage_name [OF p(5)] stage_name [OF p(6)]
  obtain m1 w where w: "(case new_sib of None \<Rightarrow> (m, Ok ()) | Some s \<Rightarrow> external_replace fl (u 1) m s (d @ [n'])) = (m1, w)"
    by fastforce
  obtain m2 w2 where w2: "external_replace fl (u 0) m1 new_self (d @ [n]) = (m2, w2)" by fastforce
  note mv2 = move_in [OF w2 [unfolded external_replace_stage] p(1) st(1) [symmetric]]
  have mv: "rename_or_stage fl m s (d @ [n']) (Some (d @ [''.synbad-update-stage-'' @ u 1])) = (m1, w)" if "new_sib = Some s" for s
    using w that by (simp add: external_replace_stage)
  show ?thesis
  proof (rule in_orderI [where ?m1.0 = m1 and ?ok1.0 = "is_ok w"])
    show "m1 = m \<and> is_ok w" if "new_sib = None" using w that by auto
    show "m1 (d @ [n']) = (if is_ok w then m s else m (d @ [n'])) \<and> (is_ok w \<longrightarrow> m s \<noteq> None)" if "new_sib = Some s" for s
      using move_in [OF mv [OF that] p(2) [OF that] st(2) [symmetric]] by simp
    have keep: "m1 q = m q" if "\<And>s. new_sib = Some s \<Longrightarrow> q \<noteq> s" "q \<noteq> d @ [n']" "q \<noteq> d @ [''.synbad-update-stage-'' @ u 1]" for q
    proof (cases new_sib)
      case None
      then show ?thesis using w by simp
    next
      case (Some s)
      show ?thesis using move_in(3) [OF mv [OF Some] p(2) [OF Some] st(2) [symmetric]] that Some by auto
    qed
    show "m1 (d @ [n]) = m (d @ [n])"
    proof (rule keep)
      show "d @ [n] \<noteq> s" if "new_sib = Some s" for s using p(2) [OF that, of n] by metis
    qed (use p(4) st(1) in simp_all)
    show "m1 new_self = m new_self" by (rule keep) (use p(1,3) in blast)+
    show "m' = m1 \<and> \<not> is_ok r" if "\<not> is_ok w"
      using run w that by (cases new_sib; cases w) (auto simp: update_moves_def)
    have fin: "m' = m2 \<and> is_ok r = is_ok w2" if "is_ok w"
      using run w w2 that by (cases new_sib; cases w; cases w2) (auto simp: update_moves_def)
    have "m2 (d @ [n']) = m1 (d @ [n'])" using mv2(3) [OF not_sym [OF p(1)]] p(4) st(2) by simp
    then show "m' (d @ [n]) = (if is_ok r then m1 new_self else m1 (d @ [n])) \<and> (is_ok r \<longrightarrow> m1 new_self \<noteq> None) \<and> m' (d @ [n']) = m1 (d @ [n'])"
      if "is_ok w"
      using fin [OF that] mv2(1,2) by auto
  qed
qed

text \<open>Nothing happened yet.\<close>

lemma in_order_refl: "replaced_in_order m m exe sib new_self new_sib False"
  by (simp add: replaced_in_order_def)

lemma in_order_weaken: "replaced_in_order m m' exe sib new_self new_sib ok \<Longrightarrow> (ok' \<longrightarrow> ok) \<Longrightarrow> replaced_in_order m m' exe sib new_self new_sib ok'"
  by (auto simp: replaced_in_order_def)

lemma in_order_cong:
  assumes "replaced_in_order m1 m' exe sib new_self new_sib ok" and "m1 exe = m exe" "m1 sib = m sib" "m1 new_self = m new_self"
    and "\<And>s. new_sib = Some s \<Longrightarrow> m1 s = m s"
  shows "replaced_in_order m m' exe sib new_self new_sib ok"
  using assms by (cases new_sib) (auto simp: replaced_in_order_def)

text \<open>What is read back is the plan that was written.\<close>

definition plan_law :: "(plan \<Rightarrow> string option) \<Rightarrow> (string \<Rightarrow> plan option) \<Rightarrow> bool" where
  "plan_law ser de \<longleftrightarrow> (\<forall>pl s. ser pl = Some s \<longrightarrow> de s = Some pl)"

lemma apply_plan_in_order:
  assumes paths: "update_paths tmp d n n' new_self new_sib" and pp: "m pp = Some bytes" and de: "plan_de bytes = Some pl"
    and moves: "pl_moves pl = update_moves (d @ [n]) new_self (d @ [n']) new_sib" and run: "apply_plan plan_de fl u m pp = (m', r)"
  shows "replaced_in_order m m' (d @ [n]) (d @ [n']) new_self new_sib (is_ok r)"
proof (cases "fl (Op_Read pp)")
  case None
  obtain m1 w where w: "apply_moves fl u m (pl_moves pl) = (m1, w)" by fastforce
  have "m' = m1" "is_ok r = is_ok w"
    using run None pp de w by (auto simp: apply_plan_def fs_read_def is_ok_def split: sum.splits)
  then show ?thesis using apply_moves_in_order [OF paths w [unfolded moves]] by simp
next
  case (Some e)
  then show ?thesis using run in_order_refl by (cases e) (auto simp: apply_plan_def fs_read_def)
qed

lemma elevated_plan_in_order:
  assumes tool: "el_outcome el \<noteq> El_Status (Some 0)"
    and paths: "update_paths tmp d n n' new_self new_sib" and pp: "m pp = Some bytes" and de: "plan_de bytes = Some pl"
    and moves: "pl_moves pl = update_moves (d @ [n]) new_self (d @ [n']) new_sib"
    and run: "apply_with_elevation plan_de u el m helper pp = (m', r)"
  shows "replaced_in_order m m' (d @ [n]) (d @ [n']) new_self new_sib (is_ok r)"
proof (cases "m' = m \<and> \<not> is_ok r")
  case True
  then show ?thesis using in_order_refl by simp
next
  case False
  then obtain fl killed where "el_outcome el = El_Ran fl killed"
    using run tool
    by (cases "el_outcome el") (auto simp: apply_with_elevation_def interpret_status_def split: if_splits option.splits)
  then obtain rp where rp: "apply_plan plan_de fl u m pp = (m', rp)" "is_ok r \<longrightarrow> is_ok rp"
    using run False
    by (auto simp: apply_with_elevation_def interpret_status_def helper_status_def split: if_splits prod.splits)
  show ?thesis using in_order_weaken [OF apply_plan_in_order [OF paths pp de moves rp(1)] rp(2)] .
qed

lemma install_elevated_in_order:
  assumes plans: "plan_law (up_plan_ser api) (up_plan_de api)" and tool: "el_outcome (ue_elevation env) \<noteq> El_Status (Some 0)"
    and paths: "update_paths (extract_dir env) d n n' new_self new_sib" and tmp: "\<not> under (ue_tmp env) (d @ [n])"
    and run: "install_elevated api env \<lparr> pl_tag = tag, pl_moves = update_moves (d @ [n]) new_self (d @ [n']) new_sib \<rparr> (d @ [n]) m = (m', evs, r)"
  shows "replaced_in_order m m' (d @ [n]) (d @ [n']) new_self new_sib (is_ok r)"
proof -
  let ?pl = "\<lparr> pl_tag = tag, pl_moves = update_moves (d @ [n]) new_self (d @ [n']) new_sib \<rparr>" and ?pp = "ue_tmp env @ [''plan.json'']"
  have away: "q \<noteq> ?pp" if "under (extract_dir env) q" for q using that by (auto simp: under_def extract_dir_def)
  have away2: "d @ [x] \<noteq> ?pp" for x using tmp under_sibling [of "ue_tmp env" d x n] by (auto simp: under_def)
  have same: "replaced_in_order m m2 (d @ [n]) (d @ [n']) new_self new_sib ok"
    if "replaced_in_order m1 m2 (d @ [n]) (d @ [n']) new_self new_sib ok" "\<And>q. q \<noteq> ?pp \<Longrightarrow> m1 q = m q" for m1 m2 ok
    by (rule in_order_cong [OF that(1)]) (use that(2) away away2 paths in \<open>auto simp: update_paths_def\<close>)
  show ?thesis
  proof (cases "up_plan_ser api ?pl")
    case None
    then show ?thesis using run in_order_refl by (auto simp: install_elevated_def Let_def)
  next
    case (Some bytes)
    obtain m1 w where w: "fs_write (ue_faults env) m ?pp bytes = (m1, w)" by fastforce
    have m1: "m1 q = m q" if "q \<noteq> ?pp" for q using fs_write_other [OF w that] .
    show ?thesis
    proof (cases w)
      case (Inl e)
      then show ?thesis using run Some w same [OF in_order_refl m1] by (auto simp: install_elevated_def Let_def)
    next
      case (Inr v)
      have pp: "m1 ?pp = Some bytes" using fs_write_Ok w Inr by blast
      have de: "up_plan_de api bytes = Some ?pl" using plans Some by (auto simp: plan_law_def)
      have el: "apply_with_elevation (up_plan_de api) (ue_uniq env) (ue_elevation env) m1 (helper_path_for m1 (d @ [n])) ?pp = (m', r)"
        using run Some w Inr by (auto simp: install_elevated_def Let_def split: prod.splits)
      have "replaced_in_order m1 m' (d @ [n]) (d @ [n']) new_self new_sib (is_ok r)"
        by (rule elevated_plan_in_order [OF tool paths pp de _ el]) simp
      then show ?thesis using same m1 by blast
    qed
  qed
qed

subsection \<open>The programs are always complete\<close>

text \<open>The body of the answer, if it arrives and is stored completely.\<close>

fun dl_content :: "dl_item list \<Rightarrow> string option" where
  "dl_content [] = Some []"
| "dl_content (Dl_Chunk c # rest) = (if c = [] then Some [] else map_option (append c) (dl_content rest))"
| "dl_content (_ # rest) = None"

lemma download_chunks_spec:
  assumes "download_chunks m dest sz sofar k items = (m', ps, r)"
  shows "q \<noteq> dest \<Longrightarrow> m' q = m q" "is_ok r \<Longrightarrow> \<exists>b. dl_content items = Some b \<and> m' dest = Some (sofar @ b)"
  using assms
  by (induction m dest sz sofar k items arbitrary: m' ps r rule: download_chunks.induct)
    (fastforce simp: Let_def split: if_splits prod.splits)+

lemma download_to_spec:
  assumes "download_to fl m body dest sz = (m', ps, r)"
  shows "q \<noteq> dest \<Longrightarrow> m' q = m q" "is_ok r \<Longrightarrow> \<exists>items b. body = Some items \<and> dl_content items = Some b \<and> m' dest = Some b"
  using assms download_chunks_spec [of m dest sz "[]" 0 _ m' ps r]
  by (auto simp: download_to_def split: option.splits)

lemma unpack_files_simps [simp]:
  "unpack_files m dest [] = m" "unpack_files m dest ((p, c) # files) = unpack_files (m(dest @ p \<mapsto> c)) dest files"
  by (simp_all add: unpack_files_def)

lemma unpack_files_spec:
  "unpack_files m dest files q = Some c \<Longrightarrow> m q = Some c \<or> (\<exists>rel. (rel, c) \<in> set files \<and> q = dest @ rel)"
  "(\<And>rel. q \<noteq> dest @ rel) \<Longrightarrow> unpack_files m dest files q = m q"
  "(rel, c) \<in> set files \<or> m (dest @ rel) \<noteq> None \<Longrightarrow> unpack_files m dest files (dest @ rel) \<noteq> None"
  by (induction files arbitrary: m) (fastforce split: if_splits)+

lemma extract_archive_spec:
  assumes "extract_archive unpack fl m archive dest = (m', r)"
  shows "\<exists>files. m' = unpack_files m dest files \<and> (is_ok r \<longrightarrow> (\<exists>bytes. m archive = Some bytes \<and> files = fst (unpack bytes)))"
proof -
  have "m' = unpack_files m dest [] \<and> \<not> is_ok r
      \<or> (\<exists>bytes. m archive = Some bytes \<and> m' = unpack_files m dest (fst (unpack bytes)))"
    using assms by (auto simp: extract_archive_def extract_tar_gz_def Let_def fs_read_def ok_or_def split: if_splits option.splits sum.splits)
  then show ?thesis by blast
qed

text \<open>A file of that name in the archive that was downloaded.\<close>

definition shipped :: "update_api \<Rightarrow> update_env \<Rightarrow> string \<Rightarrow> string \<Rightarrow> bool" where
  "shipped api env name c \<longleftrightarrow> (\<exists>items bytes rel. ue_body env = Some items \<and> dl_content items = Some bytes
     \<and> (rel, c) \<in> set (fst (up_unpack api bytes)) \<and> rel \<noteq> [] \<and> eq_ignore_ascii_case (last rel) name)"

text \<open>What the extraction directory holds after a successful download.\<close>

definition unpacked :: "update_api \<Rightarrow> update_env \<Rightarrow> fs \<Rightarrow> bool" where
  "unpacked api env m \<longleftrightarrow> (\<exists>items bytes mx. ue_body env = Some items \<and> dl_content items = Some bytes
     \<and> m = unpack_files mx (extract_dir env) (fst (up_unpack api bytes)) \<and> (\<forall>q. under (extract_dir env) q \<longrightarrow> mx q = None))"

lemma fetch_update_spec:
  assumes run: "fetch_update api env info (d @ [n]) m = (m', evs, r)" and empty: "\<And>q. under (extract_dir env) q \<Longrightarrow> m q = None"
  shows "\<not> under (ue_tmp env) q \<Longrightarrow> m' q = m q"
    "r = Ok p \<Longrightarrow> find_binary (extract_dir env) (up_ls api m' (extract_dir env)) n = Some p \<and> unpacked api env m'"
proof -
  let ?a = "ue_tmp env @ [ui_asset_name info]" and ?d = "extract_dir env"
  obtain m1 ps w where w: "download_to (ue_faults env) m (ue_body env) ?a (ui_asset_size info) = (m1, ps, w)" by (cases rule: prod_cases3)
  obtain m2 x where x: "extract_archive (up_unpack api) (ue_faults env) m1 ?a ?d = (m2, x)" by fastforce
  note dl = download_to_spec [OF w]
  obtain files where files: "m2 = unpack_files m1 ?d files" "is_ok x \<longrightarrow> (\<exists>bytes. m1 ?a = Some bytes \<and> files = fst (up_unpack api bytes))"
    using extract_archive_spec [OF x] by blast
  have m': "m' \<in> {m, m1, m2}"
    and ok: "r = Ok p \<Longrightarrow> is_ok w \<and> is_ok x \<and> m' = m2 \<and> find_binary ?d (up_ls api m' ?d) n = Some p"
    using run w x
    by (auto simp: fetch_update_def Let_def binary_basename_for_path_def ok_or_def is_ok_def split: sum.splits option.splits)
  show "m' q = m q" if "\<not> under (ue_tmp env) q"
  proof -
    have "q \<noteq> ?a" "\<And>rel. q \<noteq> ?d @ rel" using that by (auto simp: under_def extract_dir_def)
    then have "m1 q = m q" "m2 q = m1 q" using dl(1) unpack_files_spec(2) files(1) by blast+
    then show ?thesis using m' by auto
  qed
  assume r: "r = Ok p"
  then obtain items b where b: "ue_body env = Some items" "dl_content items = Some b" "m1 ?a = Some b" using ok dl(2) by blast
  have "m2 = unpack_files m1 ?d (fst (up_unpack api b))" using files ok [OF r] b(3) by auto
  moreover have "m1 q = None" if "under ?d q" for q
  proof -
    have "q \<noteq> ?a" using that by (auto simp: under_def extract_dir_def)
    then show ?thesis using dl(1) empty [OF that] by simp
  qed
  ultimately show "find_binary ?d (up_ls api m' ?d) n = Some p \<and> unpacked api env m'"
    using ok [OF r] b unfolding unpacked_def by blast
qed

lemma found_is_shipped:
  assumes "listing_law ls" and "unpacked api env m" and "find_binary (extract_dir env) (ls m (extract_dir env)) name = Some p"
  shows "\<exists>c. m p = Some c \<and> shipped api env name c"
proof -
  let ?d = "extract_dir env"
  note f = find_binary_Some [OF assms(3)]
  obtain c where c: "m p = Some c" using assms(1) f(1) unfolding listing_law_def by blast
  obtain items bytes mx where u: "ue_body env = Some items" "dl_content items = Some bytes"
      "m = unpack_files mx ?d (fst (up_unpack api bytes))" "\<forall>q. under ?d q \<longrightarrow> mx q = None"
    using assms(2) unfolding unpacked_def by blast
  then obtain rel where "(rel, c) \<in> set (fst (up_unpack api bytes))" "p = ?d @ rel"
    using unpack_files_spec(1) [of mx ?d _ p c] c f(3) by auto
  moreover from this have "rel \<noteq> []" using f(3) by (auto simp: under_def)
  ultimately show ?thesis using c u(1,2) f(2) unfolding shipped_def by (intro exI [of _ c]) auto
qed

lemma shipped_is_found:
  assumes "listing_law ls" and "unpacked api env m" and "shipped api env name c" and "\<not> unreadable (ls m (extract_dir env))"
  shows "find_binary (extract_dir env) (ls m (extract_dir env)) name \<noteq> None"
proof -
  let ?d = "extract_dir env"
  obtain items bytes rel mx where s: "(rel, c) \<in> set (fst (up_unpack api bytes))" "rel \<noteq> []" "eq_ignore_ascii_case (last rel) name"
      "m = unpack_files mx ?d (fst (up_unpack api bytes))"
    using assms(2,3) unfolding unpacked_def shipped_def by auto
  have "under ?d (?d @ rel)" "m (?d @ rel) \<noteq> None"
    using s unpack_files_spec(3) [of rel c "fst (up_unpack api bytes)" mx ?d] by (simp_all add: under_def)
  then have "?d @ rel \<in> listed ?d (ls m ?d)" using assms(1,4) unfolding listing_law_def by blast
  then show ?thesis using find_binary_complete assms(4) s(2,3) by simp
qed

lemma probe_spec:
  assumes "check_dir_writable fl u m dir = (m', r)"
  shows "q \<noteq> dir @ [''.synbad-update-probe-'' @ u] \<Longrightarrow> m' q = m q"
  using assms by (auto simp: check_dir_writable_def Let_def fs_create_new_def fs_remove_def split: option.splits if_splits sum.splits prod.splits)

lemma install_update_in_order:
  assumes laws: "listing_law (up_ls api)" "self_replace_law (up_self_replace api)" "plan_law (up_plan_ser api) (up_plan_de api)"
    and tool: "el_outcome (ue_elevation env) \<noteq> El_Status (Some 0)"
    and n: "program_name n" and tmp: "\<not> under (ue_tmp env) (d @ [n])"
    and self: "find_binary (extract_dir env) (up_ls api m (extract_dir env)) n = Some new_self"
    and run: "install_update api env info writable (d @ [n]) new_self m = (m', evs, r)"
  defines "n' \<equiv> sibling_basename (d @ [n])"
  defines "new_sib \<equiv> if m (d @ [n']) \<noteq> None then find_binary (extract_dir env) (up_ls api m (extract_dir env)) n' else None"
  shows "replaced_in_order m m' (d @ [n]) (d @ [n']) new_self new_sib (is_ok r)"
proof -
  note sib = sibling_of_program [OF n, of d, folded n'_def]
  have out: "\<not> under (extract_dir env) (d @ [n])" using tmp under_parent by (auto simp: extract_dir_def)
  have "s \<noteq> new_self" if "new_sib = Some s" for s
  proof
    assume "s = new_self"
    then have "find_binary (extract_dir env) (up_ls api m (extract_dir env)) n' = Some new_self"
      using that by (auto simp: new_sib_def split: if_splits)
    from find_binary_Some(2) [OF this] find_binary_Some(2) [OF self] show False
      using sib(3) by (simp add: eq_ignore_ascii_case_def)
  qed
  then have paths: "update_paths (extract_dir env) d n n' new_self new_sib"
    using n sib(1,2) out find_binary_Some(3) [OF self] find_binary_Some(3)
    by (auto simp: update_paths_def new_sib_def split: if_splits)
  have run': "(if writable then
       (case install_inline (up_self_replace api) (ue_faults env) m (d @ [n]) new_self
           (if m (d @ [n']) \<noteq> None then Some (d @ [n']) else None) new_sib (ui_tag info) of
          (m1, r) \<Rightarrow> (m1, [Stage ''installing''], r))
     else
       (case install_elevated api env \<lparr> pl_tag = ui_tag info, pl_moves = update_moves (d @ [n]) new_self (d @ [n']) new_sib \<rparr> (d @ [n]) m of
          (m1, evs, Inl e) \<Rightarrow> (m1, evs, Err e)
        | (m1, evs, Inr _) \<Rightarrow> (m1, evs, Ok \<lparr> ap_replaced_self = d @ [n],
             ap_replaced_sibling = (if m (d @ [n']) \<noteq> None then Some (d @ [n']) else None), ap_tag = ui_tag info, ap_elevated = True \<rparr>)))
     = (m', evs, r)"
    using run unfolding install_update_def Let_def butlast_snoc n'_def new_sib_def .
  show ?thesis
  proof (cases writable)
    case True
    then have inl: "install_inline (up_self_replace api) (ue_faults env) m (d @ [n]) new_self
        (if m (d @ [n']) \<noteq> None then Some (d @ [n']) else None) new_sib (ui_tag info) = (m', r)"
      using run' by (auto split: prod.splits)
    have "m (d @ [n']) \<noteq> None" if "new_sib \<noteq> None" using that by (auto simp: new_sib_def split: if_splits)
    from install_inline_in_order [OF laws(2) paths inl this] show ?thesis .
  next
    case False
    obtain m1 evs1 r1 where el: "install_elevated api env \<lparr> pl_tag = ui_tag info,
        pl_moves = update_moves (d @ [n]) new_self (d @ [n']) new_sib \<rparr> (d @ [n]) m = (m1, evs1, r1)" by (cases rule: prod_cases3)
    then have "m' = m1" "is_ok r = is_ok r1" using run' False by (auto split: sum.splits)
    then show ?thesis using install_elevated_in_order [OF laws(3) tool paths tmp el] by simp
  qed
qed


subsection \<open>Concrete updates\<close>

definition demo_parse :: "string \<Rightarrow> nat option" where
  "demo_parse s = (if s = ''2'' then Some 2 else if s = ''1'' then Some 1 else None)"

definition demo_releases :: "gh_release list" where
  "demo_releases = [\<lparr> gr_tag_name = ''v2'', gr_html_url = [], gr_body = None,
     gr_assets = [\<lparr> gh_name = ''synbad-2-x86_64-unknown-linux-gnu.tar.gz'', gh_size = 7, gh_url = ''u'' \<rparr>], gr_draft = False \<rparr>]"

lemma update_offers_highest_release_witness:
  "\<exists>ck. check demo_parse (Ok ''x86_64-unknown-linux-gnu'') (Some demo_releases) ''1'' = Ok ck \<and> ck_newer ck
     \<and> (\<exists>rel v. highest_release demo_parse demo_releases rel v \<and> ui_tag (ck_info ck) = gr_tag_name rel)"
proof -
  let ?c = "check demo_parse (Ok ''x86_64-unknown-linux-gnu'') (Some demo_releases) ''1''"
  have "(case ?c of Inr ck \<Rightarrow> ck_newer ck | Inl _ \<Rightarrow> False)" by code_simp
  then obtain ck where ck: "?c = Ok ck" "ck_newer ck" by (auto split: sum.splits)
  show ?thesis
    using update_offers_highest_release [of demo_parse "Ok ''x86_64-unknown-linux-gnu''" demo_releases "''1''" ck] ck by blast
qed

definition demo_update_ls :: "fs \<Rightarrow> path \<Rightarrow> dentry list" where
  "demo_update_ls m dir =
     (if \<forall>q. under dir q \<longrightarrow> m q \<noteq> None \<longrightarrow> q \<in> {dir @ [''synbadd''], dir @ [''synbad-gui'']}
      then map De_File (filter (\<lambda>n. m (dir @ [n]) \<noteq> None) [''synbadd'', ''synbad-gui'']) else [De_Bad])"

definition demo_update_api :: update_api where
  "demo_update_api = \<lparr> up_unpack = (\<lambda>_. ([([''synbadd''], ''D''), ([''synbad-gui''], ''G'')], True)), up_ls = demo_update_ls,
     up_self_replace = (\<lambda>exe new m. case m new of None \<Rightarrow> (m, False) | Some c \<Rightarrow> (m(exe \<mapsto> c), True)),
     up_plan_ser = (\<lambda>_. None), up_plan_de = (\<lambda>_. None) \<rparr>"

definition demo_update_env :: update_env where
  "demo_update_env = \<lparr> ue_faults = no_faults, ue_exe = Some [''bin'', ''synbad-gui''], ue_probe = [], ue_tmp = [''tmp''],
     ue_body = Some [Dl_Chunk ''x''], ue_uniq = (\<lambda>_. []),
     ue_elevation = \<lparr> el_display = False, el_pkexec = False, el_tty = False, el_sudo = False, el_outcome = El_Status None \<rparr> \<rparr>"

definition demo_update_info :: update_info where
  "demo_update_info = \<lparr> ui_tag = ''v2'', ui_version = ''2'', ui_html_url = [], ui_asset_url = [], ui_asset_name = ''a.tgz'',
     ui_asset_size = 1, ui_body = [] \<rparr>"

definition demo_installed :: fs where
  "demo_installed q = (if q = [''bin'', ''synbadd''] \<or> q = [''bin'', ''synbad-gui''] then Some ''old'' else None)"

lemma demo_update_ls_simps:
  "listed dir (map De_File ns) = (\<lambda>n. dir @ [n]) ` set ns" "\<not> unreadable (map De_File ns)"
  by (induction ns) auto

lemma demo_update_laws:
  "listing_law (up_ls demo_update_api)" "self_replace_law (up_self_replace demo_update_api)"
  "plan_law (up_plan_ser demo_update_api) (up_plan_de demo_update_api)"
proof -
  show "listing_law (up_ls demo_update_api)"
    by (auto simp: demo_update_api_def listing_law_def demo_update_ls_def demo_update_ls_simps simp del: filter.simps)
  show "self_replace_law (up_self_replace demo_update_api)" "plan_law (up_plan_ser demo_update_api) (up_plan_de demo_update_api)"
    by (auto simp: demo_update_api_def self_replace_law_def plan_law_def split: option.splits)
qed

definition demo_fetched :: fs where
  "demo_fetched = demo_installed([''tmp'', ''a.tgz''] \<mapsto> ''x'', [''tmp'', ''extract'', ''synbadd''] \<mapsto> ''D'',
     [''tmp'', ''extract'', ''synbad-gui''] \<mapsto> ''G'')"

lemma demo_fetched_ls: "demo_update_ls demo_fetched [''tmp'', ''extract''] = [De_File ''synbadd'', De_File ''synbad-gui'']"
proof -
  have "\<forall>q. under [''tmp'', ''extract''] q \<longrightarrow> demo_fetched q \<noteq> None \<longrightarrow>
      q \<in> {[''tmp'', ''extract''] @ [''synbadd''], [''tmp'', ''extract''] @ [''synbad-gui'']}"
    by (auto simp: demo_fetched_def demo_installed_def under_def split: if_splits)
  from if_P [OF this] have "demo_update_ls demo_fetched [''tmp'', ''extract''] =
      map De_File (filter (\<lambda>n. demo_fetched ([''tmp'', ''extract''] @ [n]) \<noteq> None) [''synbadd'', ''synbad-gui''])"
    unfolding demo_update_ls_def .
  then show ?thesis by (simp add: demo_fetched_def)
qed

lemma demo_find:
  "find_binary [''tmp'', ''extract''] [De_File ''synbadd'', De_File ''synbad-gui''] ''synbad-gui'' = Some [''tmp'', ''extract'', ''synbad-gui'']"
  "find_binary [''tmp'', ''extract''] [De_File ''synbadd'', De_File ''synbad-gui''] ''synbadd'' = Some [''tmp'', ''extract'', ''synbadd'']"
  by code_simp+

lemma demo_archive_name: "ends_with (to_ascii_lowercase ''a.tgz'') ''.tgz''"
  by code_simp

lemma demo_fetch_update:
  "\<exists>evs. fetch_update demo_update_api demo_update_env demo_update_info [''bin'', ''synbad-gui''] demo_installed
     = (demo_fetched, evs, Ok [''tmp'', ''extract'', ''synbad-gui''])"
  using demo_fetched_ls demo_find(1) demo_archive_name
  by (simp add: fetch_update_def Let_def demo_update_env_def demo_update_info_def demo_update_api_def extract_dir_def fs_mkdir_def
      no_faults_def download_to_def extract_archive_def extract_tar_gz_def fs_read_def binary_basename_for_path_def demo_fetched_def [symmetric])

lemma demo_update_ok: "is_ok (snd (snd (download_and_apply demo_update_api demo_update_env demo_update_info demo_installed)))"
proof -
  have probe: "check_dir_writable no_faults [] demo_installed [''bin''] = (demo_installed, Ok ())"
    by (auto simp: check_dir_writable_def Let_def fs_create_new_def fs_remove_def no_faults_def demo_installed_def fun_eq_iff)
  have sib: "sibling_basename [''bin'', ''synbad-gui''] = ''synbadd''" by code_simp
  obtain evs where f: "fetch_update demo_update_api demo_update_env demo_update_info [''bin'', ''synbad-gui''] demo_installed
     = (demo_fetched, evs, Ok [''tmp'', ''extract'', ''synbad-gui''])" using demo_fetch_update by blast
  have m: "demo_fetched [''bin'', ''synbadd''] = Some ''old''" "demo_fetched [''tmp'', ''extract'', ''synbadd''] = Some ''D''"
    "demo_fetched [''tmp'', ''extract'', ''synbad-gui''] = Some ''G''"
    by (simp_all add: demo_fetched_def demo_installed_def)
  have "is_ok (snd (snd (install_update demo_update_api demo_update_env demo_update_info True [''bin'', ''synbad-gui'']
      [''tmp'', ''extract'', ''synbad-gui''] demo_fetched)))"
    using demo_fetched_ls demo_find(2) m
    by (simp add: install_update_def Let_def sib demo_update_env_def extract_dir_def demo_update_api_def install_inline_def
        replace_sibling_def rename_or_stage_def fs_rename_def no_faults_def)
  then show ?thesis
    using probe f
    by (simp add: download_and_apply_def demo_update_env_def parent_def split_beta is_ok_def)
qed


end
