(* ===== verification/Identity.thy ===== *)
theory Identity
  imports Pairing Core_Binaries
begin

text \<open>
  The identity of a machine (\<^verbatim>\<open>crates/synbad-discovery/src/identity.rs\<close>): a machine id and an Ed25519 key kept in three
  files, created on the first start and read back on every later one.  The disk is the fault-injecting file system with
  the permission bits of each file.  \<^verbatim>\<open>uuid\<close>, \<^verbatim>\<open>ed25519-dalek\<close> and the random source are parameters: a signing key is the
  value \<open>from_bytes\<close> gives for its 32 secret bytes.
\<close>

datatype identity_error =
    IdIo path io_kind
  | BadMachineId path
  | BadKeyLength path

record 'u identity =
  id_machine_id :: 'u
  id_public_key :: "byte list"
  id_secret_key :: "byte list"
  id_fingerprint :: string

record disk =
  dk_files :: fs
  dk_modes :: "path \<Rightarrow> nat"

text \<open>
  What a start meets: faults of reads and writes, whether a metadata call succeeds, whether the permissions can be
  changed, the permissions the umask gives a new file, and the values drawn at random.
\<close>

record 'u id_env =
  ie_faults :: faults
  ie_stat :: "path \<Rightarrow> bool"
  ie_chmod :: bool
  ie_new_mode :: nat
  ie_uuid :: 'u
  ie_random :: "byte list"

record ('u, 'sk) id_api =
  ia_crypto :: "'sk crypto"
  ia_from_bytes :: "byte list \<Rightarrow> 'sk"
  ia_uuid_parse :: "string \<Rightarrow> 'u option"
  ia_uuid_show :: "'u \<Rightarrow> string"

definition bytes_as_content :: "byte list \<Rightarrow> string" where
  "bytes_as_content bs = map (\<lambda>b. char_of (unat b)) bs"

text \<open>Lossy conversion changes exactly the strings that are not UTF-8.\<close>

definition is_utf8 :: "string \<Rightarrow> bool" where
  "is_utf8 s \<longleftrightarrow> from_utf8_lossy s = s"

text \<open>\<^verbatim>\<open>Path::exists\<close> answers no when the metadata cannot be read.\<close>

definition path_exists :: "'u id_env \<Rightarrow> disk \<Rightarrow> path \<Rightarrow> bool" where
  "path_exists env d p \<longleftrightarrow> ie_stat env p \<and> dk_files d p \<noteq> None"

definition disk_write :: "'u id_env \<Rightarrow> disk \<Rightarrow> path \<Rightarrow> string \<Rightarrow> disk \<times> (io_kind, unit) result" where
  "disk_write env d p body =
     (case fs_write (ie_faults env) (dk_files d) p body of
        (m, r) \<Rightarrow> (\<lparr> dk_files = m,
                      dk_modes = (if dk_files d p = None then (dk_modes d)(p := ie_new_mode env) else dk_modes d) \<rparr>, r))"

definition machine_id_path :: "path \<Rightarrow> path" where "machine_id_path dir = dir @ [''machine-id'']"
definition secret_path :: "path \<Rightarrow> path" where "secret_path dir = dir @ [''ed25519.secret'']"
definition public_path :: "path \<Rightarrow> path" where "public_path dir = dir @ [''ed25519.public'']"

definition load_or_create_machine_id ::
  "('u, 'sk) id_api \<Rightarrow> 'u id_env \<Rightarrow> path \<Rightarrow> disk \<Rightarrow> disk \<times> (identity_error, 'u) result" where
  "load_or_create_machine_id api env dir d =
     (let p = machine_id_path dir in
      case fs_read (ie_faults env) (dk_files d) p of
        Inr s \<Rightarrow> (d, if \<not> is_utf8 s then Err (IdIo p OtherIo)
                    else ok_or (ia_uuid_parse api (str_trim s)) (BadMachineId p))
      | Inl e \<Rightarrow>
          if e = NotFound then
            (case disk_write env d p (ia_uuid_show api (ie_uuid env)) of
               (d1, Inl e1) \<Rightarrow> (d1, Err (IdIo p e1))
             | (d1, Inr _) \<Rightarrow> (d1, Ok (ie_uuid env)))
          else (d, Err (IdIo p e)))"

text \<open>Mode 0600.\<close>

definition restrict_secret :: "'u id_env \<Rightarrow> path \<Rightarrow> disk \<Rightarrow> disk" where
  "restrict_secret env p d =
     (if ie_stat env p \<and> ie_chmod env then d\<lparr> dk_modes := (dk_modes d)(p := 384) \<rparr> else d)"

definition verifying_key :: "('u, 'sk) id_api \<Rightarrow> byte list \<Rightarrow> byte list" where
  "verifying_key api secret = ed_public (ia_crypto api) (ia_from_bytes api secret)"

definition load_or_create_keypair ::
  "('u, 'sk) id_api \<Rightarrow> 'u id_env \<Rightarrow> path \<Rightarrow> disk \<Rightarrow> disk \<times> (identity_error, byte list \<times> byte list) result" where
  "load_or_create_keypair api env dir d =
     (let sp = secret_path dir; pp = public_path dir in
      if path_exists env d sp then
        (case fs_read (ie_faults env) (dk_files d) sp of
           Inl e \<Rightarrow> (d, Err (IdIo sp e))
         | Inr s \<Rightarrow>
             let secret = as_bytes s in
             if length secret \<noteq> 32 then (d, Err (BadKeyLength sp))
             else let public = verifying_key api secret
                  in (fst (disk_write env d pp (bytes_as_content public)), Ok (secret, public)))
      else
        let secret = ie_random env;
            public = verifying_key api secret
        in case disk_write env d sp (bytes_as_content secret) of
             (d1, Inl e) \<Rightarrow> (d1, Err (IdIo sp e))
           | (d1, Inr _) \<Rightarrow>
               (case disk_write env (restrict_secret env sp d1) pp (bytes_as_content public) of
                  (d2, Inl e) \<Rightarrow> (d2, Err (IdIo pp e))
                | (d2, Inr _) \<Rightarrow> (d2, Ok (secret, public))))"

definition load_or_create ::
  "('u, 'sk) id_api \<Rightarrow> 'u id_env \<Rightarrow> path \<Rightarrow> disk \<Rightarrow> disk \<times> (identity_error, 'u identity) result" where
  "load_or_create api env dir d =
     (case fs_mkdir (ie_faults env) dir of
        Inl e \<Rightarrow> (d, Err (IdIo dir e))
      | Inr _ \<Rightarrow>
          (case load_or_create_machine_id api env dir d of
             (d1, Inl e) \<Rightarrow> (d1, Err e)
           | (d1, Inr mid) \<Rightarrow>
               (case load_or_create_keypair api env dir d1 of
                  (d2, Inl e) \<Rightarrow> (d2, Err e)
                | (d2, Inr (secret, public)) \<Rightarrow>
                    (d2, Ok \<lparr> id_machine_id = mid, id_public_key = public, id_secret_key = secret,
                              id_fingerprint = fingerprint_for (ia_crypto api) public \<rparr>))))"

text \<open>Successive starts of the daemon on one directory, with what each of them returned.\<close>

fun starts :: "('u, 'sk) id_api \<Rightarrow> path \<Rightarrow> disk \<Rightarrow> 'u id_env list \<Rightarrow> disk \<times> (identity_error, 'u identity) result list" where
  "starts api dir d [] = (d, [])"
| "starts api dir d (env # envs) =
     (case load_or_create api env dir d of
        (d1, r) \<Rightarrow> (case starts api dir d1 envs of (d2, rs) \<Rightarrow> (d2, r # rs)))"

subsection \<open>What a later start finds\<close>

text \<open>\<^verbatim>\<open>uuid\<close> reads back what it printed; the printed form has no surrounding white space.\<close>

definition uuid_law :: "('u, 'sk) id_api \<Rightarrow> bool" where
  "uuid_law api \<longleftrightarrow> (\<forall>u. is_utf8 (ia_uuid_show api u) \<and> ia_uuid_parse api (str_trim (ia_uuid_show api u)) = Some u)"

text \<open>Reads and metadata calls may fail, but not by denying that an existing file exists.\<close>

definition truthful :: "'u id_env \<Rightarrow> bool" where
  "truthful env \<longleftrightarrow> (\<forall>p. ie_stat env p) \<and> (\<forall>p left. ie_faults env (Op_Read p) \<noteq> Some (NotFound, left))"

definition settled :: "('u, 'sk) id_api \<Rightarrow> path \<Rightarrow> 'u identity \<Rightarrow> disk \<Rightarrow> bool" where
  "settled api dir ident d \<longleftrightarrow>
     (\<exists>s. dk_files d (machine_id_path dir) = Some s \<and> is_utf8 s \<and> ia_uuid_parse api (str_trim s) = Some (id_machine_id ident))
   \<and> (\<exists>s. dk_files d (secret_path dir) = Some s \<and> as_bytes s = id_secret_key ident)
   \<and> length (id_secret_key ident) = 32
   \<and> id_public_key ident = verifying_key api (id_secret_key ident)
   \<and> id_fingerprint ident = fingerprint_for (ia_crypto api) (id_public_key ident)"

lemma id_paths_distinct [simp]:
  "machine_id_path dir \<noteq> secret_path dir" "secret_path dir \<noteq> machine_id_path dir"
  "machine_id_path dir \<noteq> public_path dir" "public_path dir \<noteq> machine_id_path dir"
  "secret_path dir \<noteq> public_path dir" "public_path dir \<noteq> secret_path dir"
  by (simp_all add: machine_id_path_def secret_path_def public_path_def)

lemma byte_mod [simp]: "unat (b :: byte) mod 256 = unat b"
proof -
  have "unat b < 2 ^ LENGTH(8)" by (rule unsigned_less)
  then show ?thesis by simp
qed

lemma as_bytes_content [simp]: "as_bytes (bytes_as_content bs) = bs"
  by (induction bs) (auto simp: as_bytes_def bytes_as_content_def)

lemma length_bytes_as_content [simp]: "length (bytes_as_content bs) = length bs"
  by (simp add: bytes_as_content_def)

lemma disk_write_frame: "disk_write env d p body = (d', r) \<Longrightarrow> q \<noteq> p \<Longrightarrow> dk_files d' q = dk_files d q"
  by (auto simp: disk_write_def fs_write_def split: option.splits prod.splits)

lemma disk_write_Ok: "disk_write env d p body = (d', Inr x) \<Longrightarrow> dk_files d' p = Some body"
  by (auto simp: disk_write_def fs_write_def split: option.splits prod.splits)

lemma restrict_secret_files [simp]: "dk_files (restrict_secret env p d) = dk_files d"
  by (simp add: restrict_secret_def)

text \<open>How each of the two halves can succeed.\<close>

lemma machine_id_cases:
  assumes "load_or_create_machine_id api env dir d = (d', Ok mid)"
  obtains (found) s where "d' = d" "dk_files d (machine_id_path dir) = Some s" "is_utf8 s"
      "ia_uuid_parse api (str_trim s) = Some mid"
    | (fresh) "mid = ie_uuid env" "dk_files d' (machine_id_path dir) = Some (ia_uuid_show api mid)"
      "\<And>q. q \<noteq> machine_id_path dir \<Longrightarrow> dk_files d' q = dk_files d q"
proof (cases "fs_read (ie_faults env) (dk_files d) (machine_id_path dir)")
  case (Inr s)
  then show thesis using assms found
    by (auto simp: load_or_create_machine_id_def fs_read_def ok_or_Ok_iff Let_def split: option.splits if_splits)
next
  case (Inl e)
  obtain d1 r1 where w: "disk_write env d (machine_id_path dir) (ia_uuid_show api (ie_uuid env)) = (d1, r1)"
    by fastforce
  show thesis
    using assms Inl w fresh disk_write_frame [OF w]
    by (auto simp: load_or_create_machine_id_def Let_def dest: disk_write_Ok split: if_splits sum.splits)
qed

lemma keypair_cases:
  assumes "load_or_create_keypair api env dir d = (d', Ok (secret, public))"
  obtains (found) s where "dk_files d (secret_path dir) = Some s" "as_bytes s = secret" "length secret = 32"
      "public = verifying_key api secret" "\<And>q. q \<noteq> public_path dir \<Longrightarrow> dk_files d' q = dk_files d q"
    | (fresh) "secret = ie_random env" "public = verifying_key api secret"
      "dk_files d' (secret_path dir) = Some (bytes_as_content secret)"
      "\<And>q. q \<noteq> secret_path dir \<Longrightarrow> q \<noteq> public_path dir \<Longrightarrow> dk_files d' q = dk_files d q"
proof (cases "path_exists env d (secret_path dir)")
  case True
  obtain d1 r1 where w: "disk_write env d (public_path dir) (bytes_as_content (verifying_key api secret)) = (d1, r1)"
    by fastforce
  show thesis
    using assms True w found disk_write_frame [OF w]
    by (auto simp: load_or_create_keypair_def fs_read_def Let_def path_exists_def ok_or_Ok_iff
        split: sum.splits if_splits option.splits)
next
  case False
  obtain d1 r1 where w1: "disk_write env d (secret_path dir) (bytes_as_content (ie_random env)) = (d1, r1)"
    by fastforce
  obtain d2 r2 where w2: "disk_write env (restrict_secret env (secret_path dir) d1) (public_path dir)
       (bytes_as_content (verifying_key api (ie_random env))) = (d2, r2)" by fastforce
  have r: "\<exists>x. r1 = Inr x" "d' = d2" "secret = ie_random env" "public = verifying_key api (ie_random env)"
    using assms False w1 w2 by (auto simp: load_or_create_keypair_def Let_def split: sum.splits)
  have "dk_files d1 (secret_path dir) = Some (bytes_as_content secret)"
    using w1 r(1,3) disk_write_Ok by fastforce
  then have "dk_files d' (secret_path dir) = Some (bytes_as_content secret)"
    using disk_write_frame [OF w2, of "secret_path dir"] r(2) by simp
  moreover have "dk_files d' q = dk_files d q" if "q \<noteq> secret_path dir" "q \<noteq> public_path dir" for q
    using disk_write_frame [OF w1 that(1)] disk_write_frame [OF w2 that(2)] r(2) by simp
  ultimately show thesis using fresh r(3,4) by blast
qed

lemma load_or_create_cases:
  assumes "load_or_create api env dir d = (d', Ok ident)"
  obtains d1 where "load_or_create_machine_id api env dir d = (d1, Ok (id_machine_id ident))"
    "load_or_create_keypair api env dir d1 = (d', Ok (id_secret_key ident, id_public_key ident))"
    "id_fingerprint ident = fingerprint_for (ia_crypto api) (id_public_key ident)"
  using assms by (auto simp: load_or_create_def split: sum.splits prod.splits)

lemma load_settles:
  assumes "load_or_create api env dir d = (d', Ok ident)" and "uuid_law api" and "length (ie_random env) = 32"
  shows "settled api dir ident d'"
proof -
  obtain d1 where m: "load_or_create_machine_id api env dir d = (d1, Ok (id_machine_id ident))"
    and k: "load_or_create_keypair api env dir d1 = (d', Ok (id_secret_key ident, id_public_key ident))"
    and f: "id_fingerprint ident = fingerprint_for (ia_crypto api) (id_public_key ident)"
    using assms(1) by (rule load_or_create_cases)
  have "\<exists>s. dk_files d1 (machine_id_path dir) = Some s \<and> is_utf8 s
          \<and> ia_uuid_parse api (str_trim s) = Some (id_machine_id ident)"
    using assms(2) by (cases rule: machine_id_cases [OF m]) (auto simp: uuid_law_def)
  then show ?thesis
    using f assms(3) by (cases rule: keypair_cases [OF k]) (auto simp: settled_def)
qed

lemma machine_id_settled:
  assumes "settled api dir ident d" and "truthful env"
  shows "load_or_create_machine_id api env dir d = (d, Ok (id_machine_id ident))
    \<or> (\<exists>e. load_or_create_machine_id api env dir d = (d, Err (IdIo (machine_id_path dir) e)))"
    and "ie_faults env = no_faults \<Longrightarrow> load_or_create_machine_id api env dir d = (d, Ok (id_machine_id ident))"
  using assms
  by (auto simp: load_or_create_machine_id_def settled_def truthful_def fs_read_def Let_def no_faults_def
      split: option.splits)

lemma keypair_settled:
  assumes "settled api dir ident d" and "truthful env" and "load_or_create_keypair api env dir d = (d', r)"
  shows "(r = Ok (id_secret_key ident, id_public_key ident) \<or> (\<exists>e. r = Err (IdIo (secret_path dir) e)))"
    and "settled api dir ident d'"
    and "ie_faults env = no_faults \<Longrightarrow> r = Ok (id_secret_key ident, id_public_key ident)"
proof -
  obtain s where s: "dk_files d (secret_path dir) = Some s" "as_bytes s = id_secret_key ident"
    "length (id_secret_key ident) = 32" "id_public_key ident = verifying_key api (id_secret_key ident)" "path_exists env d (secret_path dir)"
    using assms(1,2) by (auto simp: settled_def path_exists_def truthful_def)
  obtain d1 r1 where w: "disk_write env d (public_path dir) (bytes_as_content (verifying_key api (as_bytes s))) = (d1, r1)"
    by fastforce
  consider "d' = d1" "r = Ok (id_secret_key ident, id_public_key ident)"
    | e where "d' = d" "r = Err (IdIo (secret_path dir) e)" "ie_faults env (Op_Read (secret_path dir)) \<noteq> None"
    using assms(3) s w
    by (cases "ie_faults env (Op_Read (secret_path dir))")
      (auto simp: load_or_create_keypair_def fs_read_def Let_def)
  moreover have "settled api dir ident d1"
    using assms(1) disk_write_frame [OF w] by (auto simp: settled_def)
  ultimately show "(r = Ok (id_secret_key ident, id_public_key ident) \<or> (\<exists>e. r = Err (IdIo (secret_path dir) e)))"
    "settled api dir ident d'" "ie_faults env = no_faults \<Longrightarrow> r = Ok (id_secret_key ident, id_public_key ident)"
    using assms(1) by (auto simp: no_faults_def)
qed

lemma load_settled:
  assumes "settled api dir ident d" and "truthful env" and "load_or_create api env dir d = (d', r)"
  shows "r = Ok ident \<or> (\<exists>p e. r = Err (IdIo p e))" and "settled api dir ident d'"
    and "ie_faults env = no_faults \<Longrightarrow> r = Ok ident"
proof -
  obtain d2 r2 where k: "load_or_create_keypair api env dir d = (d2, r2)" by fastforce
  note ks = keypair_settled [OF assms(1,2) k]
  have fp: "id_fingerprint ident = fingerprint_for (ia_crypto api) (id_public_key ident)"
    using assms(1) by (simp add: settled_def)
  have mi: "ie_faults env = no_faults \<longrightarrow> load_or_create_machine_id api env dir d = (d, Ok (id_machine_id ident))"
    using machine_id_settled(2) [OF assms(1,2)] by blast
  have nf: "ie_faults env \<noteq> no_faults" if "ie_faults env (Op_Mkdir dir) = Some x" for x
    using that by (auto simp: no_faults_def)
  consider (failed) p e where "d' = d" "r = Err (IdIo p e)" "ie_faults env \<noteq> no_faults"
    | (bad) e where "d' = d2" "r2 = Err (IdIo (secret_path dir) e)" "r = Err (IdIo (secret_path dir) e)"
    | (loaded) "d' = d2" "r2 = Ok (id_secret_key ident, id_public_key ident)" "r = Ok ident"
    using assms(3) machine_id_settled(1) [OF assms(1,2)] mi k ks(1) fp nf
    by (cases "ie_faults env (Op_Mkdir dir)") (auto simp: load_or_create_def fs_mkdir_def)
  then show "r = Ok ident \<or> (\<exists>p e. r = Err (IdIo p e))" "settled api dir ident d'"
    "ie_faults env = no_faults \<Longrightarrow> r = Ok ident"
    using assms(1) ks by (cases, auto)+
qed

lemma starts_settled:
  assumes "settled api dir ident d" and "\<forall>env \<in> set envs. truthful env" and "starts api dir d envs = (d', rs)"
  shows "settled api dir ident d' \<and> (\<forall>r \<in> set rs. r = Ok ident \<or> (\<exists>p e. r = Err (IdIo p e)))"
  using assms
proof (induction envs arbitrary: d rs)
  case (Cons env envs)
  obtain d1 r where l: "load_or_create api env dir d = (d1, r)" by fastforce
  obtain d2 rs2 where st: "starts api dir d1 envs = (d2, rs2)" by fastforce
  have "d' = d2" "rs = r # rs2" using Cons.prems(3) l st by auto
  have t: "truthful env" using Cons.prems(2) by simp
  have "settled api dir ident d2 \<and> (\<forall>r \<in> set rs2. r = Ok ident \<or> (\<exists>p e. r = Err (IdIo p e)))"
    using Cons.IH [OF load_settled(2) [OF Cons.prems(1) t l], of rs2] st Cons.prems(2) \<open>d' = d2\<close> by simp
  then show ?case using load_settled(1) [OF Cons.prems(1) t l] \<open>d' = d2\<close> \<open>rs = r # rs2\<close> by simp
qed simp

text \<open>A secret file of another length than 32 bytes is never replaced.\<close>

lemma load_broken:
  assumes "dk_files d (secret_path dir) = Some s" and "length s \<noteq> 32" and "truthful env"
    and "load_or_create api env dir d = (d', r)"
  shows "\<not> is_ok r \<and> dk_files d' (secret_path dir) = Some s"
proof -
  obtain d1 r1 where m: "load_or_create_machine_id api env dir d = (d1, r1)" by fastforce
  obtain d0 r0 where w: "disk_write env d (machine_id_path dir) (ia_uuid_show api (ie_uuid env)) = (d0, r0)"
    by fastforce
  have "d1 = d \<or> d1 = d0"
    using m w by (auto simp: load_or_create_machine_id_def Let_def split: sum.splits if_splits)
  then have s1: "dk_files d1 (secret_path dir) = Some s"
    using assms(1) disk_write_frame [OF w, of "secret_path dir"] by auto
  then have "path_exists env d1 (secret_path dir)"
    using assms(3) by (simp add: path_exists_def truthful_def)
  then have "\<exists>e. load_or_create_keypair api env dir d1 = (d1, Err e)"
    using s1 assms(2) by (auto simp: load_or_create_keypair_def fs_read_def Let_def split: option.splits)
  then show ?thesis
    using assms(1,4) m s1
    by (cases "fs_mkdir (ie_faults env) dir"; cases r1) (auto simp: load_or_create_def)
qed

lemma starts_broken:
  assumes "dk_files d (secret_path dir) = Some s" and "length s \<noteq> 32" and "\<forall>env \<in> set envs. truthful env"
    and "starts api dir d envs = (d', rs)"
  shows "\<forall>r \<in> set rs. \<not> is_ok r"
  using assms
proof (induction envs arbitrary: d rs)
  case (Cons env envs)
  obtain d1 r where l: "load_or_create api env dir d = (d1, r)" by fastforce
  obtain d2 rs2 where st: "starts api dir d1 envs = (d2, rs2)" by fastforce
  have "d' = d2" "rs = r # rs2" using Cons.prems(4) l st by auto
  moreover have b: "\<not> is_ok r" "dk_files d1 (secret_path dir) = Some s"
    using load_broken [OF Cons.prems(1,2) _ l] Cons.prems(3) by auto
  moreover have "\<forall>r \<in> set rs2. \<not> is_ok r"
    using Cons.IH [OF b(2) Cons.prems(2), of rs2] Cons.prems(3) st \<open>d' = d2\<close> by simp
  ultimately show ?case by simp
qed simp

text \<open>A failed write of the secret leaves what the fault says.\<close>

lemma keypair_torn:
  assumes "dk_files d (secret_path dir) = None" and "ie_faults env (Op_Write (secret_path dir)) = Some (e, Some part)"
    and "load_or_create api env dir d = (d', Err (IdIo (secret_path dir) e))"
    and "ie_faults env (Op_Mkdir dir) = None"
  shows "dk_files d' (secret_path dir) = Some part"
proof -
  obtain d1 r1 where m: "load_or_create_machine_id api env dir d = (d1, r1)" by fastforce
  obtain d0 r0 where w: "disk_write env d (machine_id_path dir) (ia_uuid_show api (ie_uuid env)) = (d0, r0)"
    by fastforce
  have cases1: "d1 = d \<or> d1 = d0" and own: "r1 = Err (IdIo q x) \<Longrightarrow> q = machine_id_path dir" for q x
    using m w by (auto simp: load_or_create_machine_id_def Let_def ok_or_def split: sum.splits if_splits option.splits)
  have none: "dk_files d1 (secret_path dir) = None"
    using cases1 assms(1) disk_write_frame [OF w, of "secret_path dir"] by auto
  have "is_ok r1" using assms(3,4) m own by (cases r1) (auto simp: load_or_create_def fs_mkdir_def)
  then show ?thesis
    using assms m none
    by (auto simp: load_or_create_def load_or_create_keypair_def fs_mkdir_def path_exists_def disk_write_def fs_write_def
        Let_def is_ok_iff)
qed

text \<open>Sixteen characters in groups of four.\<close>

lemma hyphenate_group:
  assumes "length g = 4"
  shows "hyphenate 4 (4 * k) (g @ s) = (if k = 0 then [] else ''-'') @ g @ hyphenate 4 (4 * Suc k) s"
proof -
  obtain a b c d where "g = [a, b, c, d]"
    using assms by (auto simp: length_Suc_conv numeral_eq_Suc)
  moreover have "Suc (4 * k) mod 4 \<noteq> 0" "Suc (Suc (4 * k)) mod 4 \<noteq> 0" "Suc (Suc (Suc (4 * k))) mod 4 \<noteq> 0"
    by presburger+
  moreover have "4 * Suc k = Suc (Suc (Suc (Suc (4 * k))))" by simp
  ultimately show ?thesis by (simp del: mult_Suc_right)
qed

lemma hyphenate_16:
  assumes "length s = 16"
  shows "hyphenate 4 0 s = take 4 s @ ''-'' @ take 4 (drop 4 s) @ ''-'' @ take 4 (drop 8 s) @ ''-'' @ drop 12 s"
proof -
  let ?a = "take 4 s" and ?b = "take 4 (drop 4 s)" and ?c = "take 4 (drop 8 s)" and ?d = "drop 12 s"
  have "s = ?a @ drop 4 s" "drop 4 s = ?b @ drop 8 s" "drop 8 s = ?c @ ?d"
    using append_take_drop_id [of 4 s] append_take_drop_id [of 4 "drop 4 s"] append_take_drop_id [of 4 "drop 8 s"]
    by simp_all
  then have "hyphenate 4 0 s = hyphenate 4 (4 * 0) (?a @ ?b @ ?c @ ?d @ [])" by (metis append_Nil2 mult_0_right)
  also have "\<dots> = ?a @ ''-'' @ ?b @ ''-'' @ ?c @ ''-'' @ ?d"
    using assms by (simp only: hyphenate_group length_take length_drop) simp
  finally show ?thesis .
qed

subsection \<open>Properties\<close>


text \<open>C34. Every identity a start returns is well typed: 32-byte secret and public keys, the public key a valid curve
  point derived from the secret, and a fingerprint of nineteen characters, the first sixteen hex digits of the SHA-256
  of the public key in four groups joined by hyphens.\<close>

theorem identity_well_typed:
  assumes "load_or_create api env dir d = (d1, Ok ident)"
    and "hex_law (ia_crypto api)" and "sign_law (ia_crypto api)" and "\<forall>bs. length (sha256 (ia_crypto api) bs) = 32"
    and "length (ie_random env) = 32"
  shows "length (id_secret_key ident) = 32 \<and> length (id_public_key ident) = 32
       \<and> ed_key_ok (ia_crypto api) (id_public_key ident)
       \<and> id_public_key ident = ed_public (ia_crypto api) (ia_from_bytes api (id_secret_key ident))
       \<and> length (id_fingerprint ident) = 19
       \<and> (let x = hex_encode (ia_crypto api) (take 8 (sha256 (ia_crypto api) (id_public_key ident)))
          in id_fingerprint ident = take 4 x @ ''-'' @ take 4 (drop 4 x) @ ''-'' @ take 4 (drop 8 x) @ ''-'' @ drop 12 x)"
proof -
  obtain d0 where k: "load_or_create_keypair api env dir d0 = (d1, Ok (id_secret_key ident, id_public_key ident))"
    and f: "id_fingerprint ident = fingerprint_for (ia_crypto api) (id_public_key ident)"
    using assms(1) by (rule load_or_create_cases)
  have "length (id_secret_key ident) = 32 \<and> id_public_key ident = verifying_key api (id_secret_key ident)"
    using assms(5) by (cases rule: keypair_cases [OF k]) auto
  moreover have "length (hex_encode (ia_crypto api) (take 8 (sha256 (ia_crypto api) (id_public_key ident)))) = 16"
    using assms(2,4) by (simp add: hex_law_def)
  ultimately show ?thesis
    using assms(3) f hyphenate_16 by (auto simp: sign_law_def verifying_key_def fingerprint_for_def Let_def)
qed

text \<open>A torn key file is fatal: when the first start is interrupted while it writes the secret and leaves a file of
  another length than 32 bytes, no later start ever returns an identity.\<close>

theorem torn_secret_is_fatal:
  assumes "dk_files d (secret_path dir) = None"
    and "ie_faults env (Op_Write (secret_path dir)) = Some (e, Some part)" and "length part \<noteq> 32"
    and "ie_faults env (Op_Mkdir dir) = None"
    and "load_or_create api env dir d = (d1, Err (IdIo (secret_path dir) e))"
    and "\<forall>env \<in> set envs. truthful env" and "starts api dir d1 envs = (d2, rs)"
  shows "\<forall>r \<in> set rs. \<not> is_ok r"
  using starts_broken [OF keypair_torn [OF assms(1,2,5,4)] assms(3,6,7)] .

subsection \<open>A concrete machine\<close>

definition demo_id_api :: "(bool, byte) id_api" where
  "demo_id_api = \<lparr> ia_crypto = demo_crypto, ia_from_bytes = hd,
     ia_uuid_parse = (\<lambda>s. if s = ''a'' then Some True else if s = ''b'' then Some False else None),
     ia_uuid_show = (\<lambda>u. if u then ''a'' else ''b'') \<rparr>"

definition demo_id_env :: "bool id_env" where
  "demo_id_env = \<lparr> ie_faults = no_faults, ie_stat = (\<lambda>_. True), ie_chmod = True, ie_new_mode = 420, ie_uuid = True,
     ie_random = replicate 32 7 \<rparr>"

text \<open>A start in which every write fails and leaves a stub, and other random values are drawn.\<close>

definition bad_id_env :: "bool id_env" where
  "bad_id_env = \<lparr> ie_faults = (\<lambda>op. case op of Op_Write p \<Rightarrow> if last p = ''machine-id'' then None else Some (OtherIo, Some ''x'') | _ \<Rightarrow> None),
     ie_stat = (\<lambda>_. True), ie_chmod = False, ie_new_mode = 420, ie_uuid = False, ie_random = replicate 32 9 \<rparr>"

definition empty_disk :: disk where
  "empty_disk = \<lparr> dk_files = (\<lambda>_. None), dk_modes = (\<lambda>_. 0) \<rparr>"

lemmas id_defs = load_or_create_def load_or_create_machine_id_def load_or_create_keypair_def machine_id_path_def
  secret_path_def public_path_def disk_write_def fs_write_def fs_read_def fs_mkdir_def path_exists_def restrict_secret_def
  no_faults_def verifying_key_def Let_def

lemmas demo_id_defs = demo_id_api_def demo_id_env_def bad_id_env_def empty_disk_def

lemma demo_uuid_law: "uuid_law demo_id_api"
proof -
  have "is_utf8 ''a''" "is_utf8 ''b''" "str_trim ''a'' = ''a''" "str_trim ''b'' = ''b''" by code_simp+
  then show ?thesis by (auto simp: uuid_law_def demo_id_api_def)
qed

lemma demo_truthful: "truthful demo_id_env" "truthful bad_id_env"
  by (simp_all add: truthful_def demo_id_env_def bad_id_env_def no_faults_def)

lemma demo_first_start:
  "load_or_create demo_id_api demo_id_env [''i''] empty_disk
   = (fst (load_or_create demo_id_api demo_id_env [''i''] empty_disk),
      Ok \<lparr> id_machine_id = True, id_public_key = replicate 32 7, id_secret_key = replicate 32 7,
           id_fingerprint = fingerprint_for demo_crypto (replicate 32 7) \<rparr>)"
  by (simp add: id_defs demo_id_defs demo_crypto_def)


theorem identity_well_typed_witness:
  "\<exists>ident. snd (load_or_create demo_id_api demo_id_env [''i''] empty_disk) = Ok ident \<and> length (id_fingerprint ident) = 19"
proof -
  have "length (ie_random demo_id_env) = 32" by (simp add: demo_id_env_def)
  moreover have "ia_crypto demo_id_api = demo_crypto" by (simp add: demo_id_api_def)
  moreover have "\<forall>bs. length (sha256 demo_crypto bs) = 32" by (auto simp: demo_crypto_def)
  ultimately show ?thesis
    using identity_well_typed [OF demo_first_start] demo_hex_law demo_sign_law demo_first_start by (metis snd_conv)
qed

theorem torn_secret_is_fatal_witness:
  "\<not> is_ok (snd (load_or_create demo_id_api demo_id_env [''i'']
       (fst (load_or_create demo_id_api bad_id_env [''i''] empty_disk))))"
proof -
  let ?d1 = "fst (load_or_create demo_id_api bad_id_env [''i''] empty_disk)"
  obtain d2 r where l: "load_or_create demo_id_api demo_id_env [''i''] ?d1 = (d2, r)" by fastforce
  then have st: "starts demo_id_api [''i''] ?d1 [demo_id_env] = (d2, [r])" by simp
  have torn: "load_or_create demo_id_api bad_id_env [''i''] empty_disk = (?d1, Err (IdIo (secret_path [''i'']) OtherIo))"
    by (simp add: id_defs demo_id_defs)
  have "dk_files empty_disk (secret_path [''i'']) = None"
    "ie_faults bad_id_env (Op_Write (secret_path [''i''])) = Some (OtherIo, Some ''x'')"
    "ie_faults bad_id_env (Op_Mkdir [''i'']) = None"
    by (simp_all add: demo_id_defs secret_path_def)
  then have "\<forall>r \<in> set [r]. \<not> is_ok r"
    using torn_secret_is_fatal [OF _ _ _ _ torn _ st] demo_truthful(1) by simp
  then show ?thesis using l by simp
qed

end
