(* ===== verification/Advertise.thy ===== *)
theory Advertise
  imports Identity Sessions "HOL-Library.Product_Lexorder"
begin

text \<open>
  How a machine announces itself (\<^verbatim>\<open>crates/synbad-discovery/src/advertiser.rs\<close> and \<^verbatim>\<open>interfaces.rs\<close>) and how a
  browser reads the announcement (\<^verbatim>\<open>peer_from\<close> of \<^verbatim>\<open>browser.rs\<close>).  \<^verbatim>\<open>mdns-sd\<close> is a parameter: the constructor of a
  service record, and whether its daemon accepts a call.  The standard library's addresses and number texts are written
  out.
\<close>

subsection \<open>Addresses\<close>

datatype ip_addr = V4 u32 | V6 "128 word"

instantiation ip_addr :: linorder
begin

definition less_eq_ip_addr :: "ip_addr \<Rightarrow> ip_addr \<Rightarrow> bool" where
  "a \<le> b \<longleftrightarrow> (case (a, b) of (V4 x, V4 y) \<Rightarrow> x \<le> y | (V6 x, V6 y) \<Rightarrow> x \<le> y | (V4 _, V6 _) \<Rightarrow> True | (V6 _, V4 _) \<Rightarrow> False)"

definition less_ip_addr :: "ip_addr \<Rightarrow> ip_addr \<Rightarrow> bool" where
  "a < b \<longleftrightarrow> a \<le> b \<and> \<not> b \<le> (a :: ip_addr)"

instance
  by standard (auto simp: less_eq_ip_addr_def less_ip_addr_def split: ip_addr.splits)

end

definition ip_is_loopback :: "ip_addr \<Rightarrow> bool" where
  "ip_is_loopback ip = (case ip of V4 a \<Rightarrow> drop_bit 24 a = 127 | V6 a \<Rightarrow> a = 1)"

definition ip_is_ipv6 :: "ip_addr \<Rightarrow> bool" where
  "ip_is_ipv6 ip = (case ip of V4 _ \<Rightarrow> False | V6 _ \<Rightarrow> True)"

text \<open>fe80::/10.\<close>

definition is_unicast_link_local :: "ip_addr \<Rightarrow> bool" where
  "is_unicast_link_local ip = (case ip of V4 _ \<Rightarrow> False | V6 a \<Rightarrow> drop_bit 118 a = 0x3FA)"

fun join_with :: "string \<Rightarrow> string list \<Rightarrow> string" where
  "join_with sep [] = []"
| "join_with sep [x] = x"
| "join_with sep (x # y # xs) = x @ sep @ join_with sep (y # xs)"

definition hex_digit :: "nat \<Rightarrow> char" where
  "hex_digit n = (if n < 10 then char_of (48 + n) else char_of (87 + n))"

fun hex_digits :: "nat \<Rightarrow> string" where
  "hex_digits n = (if n < 16 then [hex_digit n] else hex_digits (n div 16) @ [hex_digit (n mod 16)])"

declare hex_digits.simps [simp del]

definition show_ipv4 :: "u32 \<Rightarrow> string" where
  "show_ipv4 a = join_with ''.'' (map (\<lambda>k. dec_digits (unat (take_bit 8 (drop_bit (24 - 8 * k) a)))) [0..<4])"

definition segments :: "128 word \<Rightarrow> nat list" where
  "segments a = map (\<lambda>k. unat (take_bit 16 (drop_bit (112 - 16 * k) a))) [0..<8]"

text \<open>The first longest run of zero segments, as its start and length.\<close>

fun zero_run :: "nat \<Rightarrow> nat \<times> nat \<Rightarrow> nat \<times> nat \<Rightarrow> nat list \<Rightarrow> nat \<times> nat" where
  "zero_run i cur longest [] = longest"
| "zero_run i cur longest (seg # segs) =
     (if seg = 0 then
        let cur' = (if snd cur = 0 then i else fst cur, Suc (snd cur))
        in zero_run (Suc i) cur' (if snd longest < snd cur' then cur' else longest) segs
      else zero_run (Suc i) (0, 0) longest segs)"

definition show_ipv6 :: "128 word \<Rightarrow> string" where
  "show_ipv6 a =
     (let segs = segments a; groups = (\<lambda>xs. join_with '':'' (map hex_digits xs)) in
      if take 6 segs = [0, 0, 0, 0, 0, 0xFFFF] then ''::ffff:'' @ show_ipv4 (ucast a)
      else case zero_run 0 (0, 0) (0, 0) segs of
             (i, n) \<Rightarrow> if 1 < n then groups (take i segs) @ ''::'' @ groups (drop (i + n) segs) else groups segs)"

definition ip_to_string :: "ip_addr \<Rightarrow> string" where
  "ip_to_string ip = (case ip of V4 a \<Rightarrow> show_ipv4 a | V6 a \<Rightarrow> show_ipv6 a)"

subsection \<open>Numbers\<close>

text \<open>\<^verbatim>\<open>str::parse\<close> of an unsigned integer: an optional plus sign, at least one digit, no overflow.\<close>

fun parse_digits :: "nat \<Rightarrow> nat \<Rightarrow> string \<Rightarrow> nat option" where
  "parse_digits bound acc [] = Some acc"
| "parse_digits bound acc (c # cs) =
     (let n = of_char c :: nat in
      if 48 \<le> n \<and> n \<le> 57 \<and> 10 * acc + (n - 48) < bound then parse_digits bound (10 * acc + (n - 48)) cs else None)"

definition parse_uint :: "nat \<Rightarrow> string \<Rightarrow> nat option" where
  "parse_uint bound s =
     (let ds = (case s of c # cs \<Rightarrow> if c = CHR ''+'' then cs else s | [] \<Rightarrow> [])
      in if ds = [] then None else parse_digits bound 0 ds)"

definition parse_u16 :: "string \<Rightarrow> u16 option" where
  "parse_u16 s = map_option of_nat (parse_uint (2 ^ 16) s)"

definition parse_u32 :: "string \<Rightarrow> u32 option" where
  "parse_u32 s = map_option of_nat (parse_uint (2 ^ 32) s)"


lemma parse_digits_snoc:
  "parse_digits bound acc (xs @ [c]) =
     (case parse_digits bound acc xs of None \<Rightarrow> None | Some v \<Rightarrow> parse_digits bound v [c])"
  by (induction xs arbitrary: acc) (auto simp: Let_def)

lemma parse_digits_dec: "n < bound \<Longrightarrow> parse_digits bound 0 (dec_digits n) = Some n"
proof (induction n rule: dec_digits.induct)
  case (1 n)
  have d: "of_char (char_of (48 + k) :: char) = 48 + k" if "k < 10" for k :: nat
    using that by simp
  show ?case
  proof (cases "n < 10")
    case True
    then show ?thesis using 1(2) by (subst dec_digits.simps) (simp add: d)
  next
    case False
    then have "n div 10 < bound" using 1(2) by simp
    then have "parse_digits bound 0 (dec_digits (n div 10)) = Some (n div 10)" using 1(1) False by simp
    then show ?thesis
      using False 1(2) by (subst dec_digits.simps) (simp add: parse_digits_snoc d)
  qed
qed

lemma dec_digits_hd: "dec_digits n \<noteq> [] \<and> 48 \<le> (of_char (hd (dec_digits n)) :: nat)"
proof (induction n rule: dec_digits.induct)
  case (1 n)
  then show ?case by (subst (1 2) dec_digits.simps) (auto simp: hd_append)
qed

lemma parse_uint_dec: "n < bound \<Longrightarrow> parse_uint bound (dec_digits n) = Some n"
proof -
  assume n: "n < bound"
  obtain c cs where cs: "dec_digits n = c # cs" "48 \<le> (of_char c :: nat)"
    using dec_digits_hd [of n] by (cases "dec_digits n") auto
  then have "c \<noteq> CHR ''+''" by auto
  then show ?thesis using cs(1) parse_digits_dec [OF n] by (simp add: parse_uint_def)
qed

lemma parse_u16_show [simp]: "parse_u16 (u16_to_string p) = Some p"
proof -
  have "unat p < 2 ^ LENGTH(16)" by (rule unsigned_less)
  then have "parse_uint (2 ^ 16) (dec_digits (unat p)) = Some (unat p)" by (intro parse_uint_dec) simp
  then show ?thesis by (simp add: parse_u16_def u16_to_string_def)
qed

lemma parse_u32_show [simp]: "parse_u32 (show_u32 n) = Some n"
proof -
  have "unat n < 2 ^ LENGTH(32)" by (rule unsigned_less)
  then have "parse_uint (2 ^ 32) (dec_digits (unat n)) = Some (unat n)" by (intro parse_uint_dec) simp
  then show ?thesis by (simp add: parse_u32_def show_u32_def)
qed

subsection \<open>Network interfaces\<close>

record iface =
  if_name :: string
  if_ip :: ip_addr

record interface_policy =
  ip_initialized :: bool
  ip_enabled :: "string set"
  ip_addresses :: "(string \<times> ip_addr) set"

definition default_policy :: interface_policy where
  "default_policy = \<lparr> ip_initialized = False, ip_enabled = {}, ip_addresses = {} \<rparr>"

text \<open>
  What a refresh meets: the platform, whether the daemon accepts the two calls, and the interfaces the operating system
  lists, or that it cannot.
\<close>

record if_world =
  iw_macos :: bool
  iw_disable_ok :: bool
  iw_enable_ok :: "string \<Rightarrow> bool"
  iw_interfaces :: "iface list option"

definition excluded :: "string \<Rightarrow> bool \<Rightarrow> bool" where
  "excluded name macos \<longleftrightarrow> name = ''lo'' \<or> name = ''lo0''
     \<or> (macos \<and> (starts_with name ''utun'' \<or> name = ''awdl0'' \<or> name = ''llw0''))"

definition advertised_addresses :: "interface_policy \<Rightarrow> ip_addr list" where
  "advertised_addresses p = sorted_list_of_set (snd ` ip_addresses p)"

text \<open>The loop over the interfaces: the names enabled and the addresses collected so far; \<open>Err\<close> when a call fails.\<close>

fun collect_interfaces ::
  "if_world \<Rightarrow> iface list \<Rightarrow> string set \<Rightarrow> (string \<times> ip_addr) set
   \<Rightarrow> string set \<times> (unit, (string \<times> ip_addr) set) result" where
  "collect_interfaces w [] enabled addrs = (enabled, Ok addrs)"
| "collect_interfaces w (i # is) enabled addrs =
     (if excluded (if_name i) (iw_macos w) \<or> ip_is_loopback (if_ip i) then collect_interfaces w is enabled addrs
      else if if_name i \<notin> enabled \<and> \<not> iw_enable_ok w (if_name i) then (enabled, Err ())
      else collect_interfaces w is (insert (if_name i) enabled) (insert (if_name i, if_ip i) addrs))"

definition refresh_interfaces :: "if_world \<Rightarrow> interface_policy \<Rightarrow> interface_policy \<times> (unit, bool) result" where
  "refresh_interfaces w p =
     (if \<not> ip_initialized p \<and> \<not> iw_disable_ok w then (p, Err ())
      else
        let p1 = p\<lparr> ip_initialized := True \<rparr> in
        case iw_interfaces w of
          None \<Rightarrow> (p1, Ok False)
        | Some is \<Rightarrow>
            (case collect_interfaces w is (ip_enabled p1) {} of
               (en, Inl e) \<Rightarrow> (p1\<lparr> ip_enabled := en \<rparr>, Err e)
             | (en, Inr addrs) \<Rightarrow>
                 (p1\<lparr> ip_enabled := en, ip_addresses := addrs \<rparr>, Ok (ip_addresses p1 \<noteq> addrs))))"

text \<open>Only interfaces that are neither excluded nor loopback are ever enabled or give an address.\<close>

definition lan_only :: "bool \<Rightarrow> interface_policy \<Rightarrow> bool" where
  "lan_only macos p \<longleftrightarrow> (\<forall>n \<in> ip_enabled p. \<not> excluded n macos) \<and> finite (ip_addresses p)
     \<and> (\<forall>n a. (n, a) \<in> ip_addresses p \<longrightarrow> \<not> excluded n macos \<and> \<not> ip_is_loopback a \<and> n \<in> ip_enabled p)"

lemma collect_interfaces_lan:
  assumes "collect_interfaces w is en addrs = (en', r)" and "finite addrs"
    and "\<forall>n \<in> en. \<not> excluded n (iw_macos w)"
    and "\<forall>n a. (n, a) \<in> addrs \<longrightarrow> \<not> excluded n (iw_macos w) \<and> \<not> ip_is_loopback a \<and> n \<in> en"
  shows "en \<subseteq> en' \<and> (\<forall>n \<in> en'. \<not> excluded n (iw_macos w))
       \<and> (\<forall>addrs'. r = Ok addrs' \<longrightarrow> finite addrs'
            \<and> (\<forall>n a. (n, a) \<in> addrs' \<longrightarrow> \<not> excluded n (iw_macos w) \<and> \<not> ip_is_loopback a \<and> n \<in> en'))"
  using assms
proof (induction "is" arbitrary: en addrs)
  case (Cons i "is")
  consider (skip) "excluded (if_name i) (iw_macos w) \<or> ip_is_loopback (if_ip i)"
    | (fails) "\<not> (excluded (if_name i) (iw_macos w) \<or> ip_is_loopback (if_ip i))" "en' = en" "r = Err ()"
    | (takes) "\<not> (excluded (if_name i) (iw_macos w) \<or> ip_is_loopback (if_ip i))"
        "collect_interfaces w is (insert (if_name i) en) (insert (if_name i, if_ip i) addrs) = (en', r)"
    using Cons.prems(1)
    by (cases "excluded (if_name i) (iw_macos w) \<or> ip_is_loopback (if_ip i)";
        cases "if_name i \<notin> en \<and> \<not> iw_enable_ok w (if_name i)") simp_all
  then show ?case
  proof cases
    case skip
    then show ?thesis using Cons.IH [of en addrs] Cons.prems by simp
  next
    case fails
    then show ?thesis using Cons.prems by simp
  next
    case takes
    have "insert (if_name i) en \<subseteq> en' \<and> (\<forall>n \<in> en'. \<not> excluded n (iw_macos w))
       \<and> (\<forall>addrs'. r = Ok addrs' \<longrightarrow> finite addrs'
            \<and> (\<forall>n a. (n, a) \<in> addrs' \<longrightarrow> \<not> excluded n (iw_macos w) \<and> \<not> ip_is_loopback a \<and> n \<in> en'))"
      by (rule Cons.IH [OF takes(2)]) (use Cons.prems takes(1) in auto)
    then show ?thesis by blast
  qed
qed auto

lemma refresh_interfaces_lan:
  assumes "lan_only (iw_macos w) p" and "refresh_interfaces w p = (p', r)"
  shows "lan_only (iw_macos w) p'"
proof (cases "(\<not> ip_initialized p \<and> \<not> iw_disable_ok w) \<or> iw_interfaces w = None")
  case True
  then show ?thesis using assms by (auto simp: refresh_interfaces_def lan_only_def Let_def split: if_splits)
next
  case False
  then obtain "is" where i: "iw_interfaces w = Some is" by auto
  obtain en r1 where c: "collect_interfaces w is (ip_enabled p) {} = (en, r1)" by fastforce
  have l: "ip_enabled p \<subseteq> en \<and> (\<forall>n \<in> en. \<not> excluded n (iw_macos w))
       \<and> (\<forall>addrs'. r1 = Ok addrs' \<longrightarrow> finite addrs'
            \<and> (\<forall>n a. (n, a) \<in> addrs' \<longrightarrow> \<not> excluded n (iw_macos w) \<and> \<not> ip_is_loopback a \<and> n \<in> en))"
    by (rule collect_interfaces_lan [OF c]) (use assms(1) in \<open>auto simp: lan_only_def\<close>)
  have sub: "\<forall>n a. (n, a) \<in> ip_addresses p \<longrightarrow> n \<in> en" using assms(1) l by (auto simp: lan_only_def)
  show ?thesis
    using assms l sub c i False
    by (cases r1) (auto simp: refresh_interfaces_def lan_only_def Let_def, blast+)
qed

lemma refresh_interfaces_unchanged:
  "refresh_interfaces w p = (p', r) \<Longrightarrow> r \<noteq> Ok True \<Longrightarrow> ip_addresses p' = ip_addresses p"
  by (auto simp: refresh_interfaces_def Let_def split: if_splits option.splits prod.splits sum.splits)

lemma lan_only_default: "lan_only macos default_policy"
  by (simp add: lan_only_def default_policy_def)

subsection \<open>The announcement\<close>

definition SERVICE_TYPE :: string where "SERVICE_TYPE = ''_synbad._tcp.local.''"
definition DISCOVERY_VERSION :: u32 where "DISCOVERY_VERSION = 1"

record service_info =
  si_fullname :: string
  si_hostname :: string
  si_addresses :: "ip_addr list"
  si_port :: u16
  si_property :: "string \<Rightarrow> string option"

datatype advertise_error = AeMdns | AeBadName string

record advertised_fields = advert +
  af_machine_id :: string
  af_fingerprint :: string
  af_display_name :: string
  af_host_name :: string

text \<open>The daemon keeps the record registered last.\<close>

record advertiser =
  ad_full_name :: string
  ad_fields :: advertised_fields
  ad_interfaces :: interface_policy
  ad_reannounce :: bool
  ad_registered :: service_info

text \<open>What a call of the advertiser meets besides the interfaces.\<close>

record adv_world =
  aw_if :: if_world
  aw_daemon_starts :: bool
  aw_register_ok :: bool
  aw_proc_hostname :: "string option"
  aw_env_hostname :: "string option"

type_synonym new_service =
  "string \<Rightarrow> string \<Rightarrow> string \<Rightarrow> ip_addr list \<Rightarrow> u16 \<Rightarrow> (string \<Rightarrow> string option) \<Rightarrow> (unit, service_info) result"

definition hostname :: "adv_world \<Rightarrow> string" where
  "hostname w = (case aw_proc_hostname w of
       Some s \<Rightarrow> str_trim s
     | None \<Rightarrow> (case aw_env_hostname w of Some s \<Rightarrow> s | None \<Rightarrow> []))"

text \<open>One hyphen for every character that is not an ASCII letter, digit or hyphen; continuation bytes are no characters.\<close>

definition sanitize :: "string \<Rightarrow> string" where
  "sanitize s = map (\<lambda>c. let n = of_char c :: nat in
       if (48 \<le> n \<and> n \<le> 57) \<or> (65 \<le> n \<and> n \<le> 90) \<or> (97 \<le> n \<and> n \<le> 122) \<or> c = CHR ''-'' then c else CHR ''-'')
     (filter (\<lambda>c. let n = of_char c :: nat in \<not> (128 \<le> n \<and> n < 192)) s)"

definition ensure_local_dot :: "string \<Rightarrow> string" where
  "ensure_local_dot host =
     (let h = rev (dropWhile (\<lambda>c. c = CHR ''.'') (rev host)) in
      if ends_with h ''.local'' then h @ ''.'' else sanitize h @ ''.local.'')"

definition service_props :: "adv_world \<Rightarrow> advertised_fields \<Rightarrow> string \<Rightarrow> string option" where
  "service_props w f =
     (let props = [''v'' \<mapsto> show_u32 DISCOVERY_VERSION, ''id'' \<mapsto> af_machine_id f, ''fp'' \<mapsto> af_fingerprint f,
                   ''core_port'' \<mapsto> u16_to_string (adv_core_port f), ''sync_port'' \<mapsto> u16_to_string (adv_sync_port f)];
          props = (if adv_audio_port f \<noteq> 0 then props(''audio_port'' \<mapsto> u16_to_string (adv_audio_port f)) else props);
          props = (if adv_config_head f \<noteq> [] then props(''cfg'' \<mapsto> adv_config_head f) else props)
      in props(''host'' \<mapsto> hostname w))"

definition build_service_info ::
  "new_service \<Rightarrow> adv_world \<Rightarrow> advertised_fields \<Rightarrow> ip_addr list \<Rightarrow> (advertise_error, service_info) result" where
  "build_service_info new_info w f addrs =
     map_err (\<lambda>_. AeMdns)
       (new_info SERVICE_TYPE (af_display_name f) (af_host_name f) addrs (adv_service_port f) (service_props w f))"

definition advertiser_start ::
  "new_service \<Rightarrow> adv_world \<Rightarrow> ('u \<Rightarrow> string) \<Rightarrow> 'u identity \<Rightarrow> string \<Rightarrow> advert \<Rightarrow> (advertise_error, advertiser) result" where
  "advertiser_start new_info w show_id ident display_name a =
     (if display_name = [] \<or> CHR ''.'' \<in> set display_name then Err (AeBadName display_name)
      else if \<not> aw_daemon_starts w then Err AeMdns
      else case refresh_interfaces (aw_if w) default_policy of
        (p, Inl _) \<Rightarrow> Err AeMdns
      | (p, Inr _) \<Rightarrow>
          let host_name = (if hostname w \<noteq> [] then ensure_local_dot (hostname w) else sanitize display_name @ ''.local.'');
              fields = advert.extend a
                \<lparr> af_machine_id = show_id (id_machine_id ident), af_fingerprint = id_fingerprint ident,
                  af_display_name = display_name, af_host_name = host_name \<rparr>
          in case build_service_info new_info w fields (advertised_addresses p) of
               Inl e \<Rightarrow> Err e
             | Inr service \<Rightarrow>
                 if \<not> aw_register_ok w then Err AeMdns
                 else Ok \<lparr> ad_full_name = si_fullname service, ad_fields = fields, ad_interfaces = p,
                           ad_reannounce = False, ad_registered = service \<rparr>)"

definition advertiser_refresh ::
  "new_service \<Rightarrow> adv_world \<Rightarrow> u16 \<Rightarrow> u16 \<Rightarrow> u16 \<Rightarrow> u16 \<Rightarrow> string \<Rightarrow> advertiser
   \<Rightarrow> advertiser \<times> (advertise_error, unit) result" where
  "advertiser_refresh new_info w service_p sync_p core_p audio_p head a =
     (let fields = (ad_fields a)\<lparr> adv_service_port := service_p, adv_sync_port := sync_p, adv_core_port := core_p,
                                  adv_audio_port := audio_p, adv_config_head := head \<rparr>
      in case refresh_interfaces (aw_if w) (ad_interfaces a) of
           (p, Inl _) \<Rightarrow> (a\<lparr> ad_interfaces := p \<rparr>, Err AeMdns)
         | (p, Inr changed) \<Rightarrow>
             let a1 = a\<lparr> ad_interfaces := p, ad_reannounce := ad_reannounce a \<or> changed \<rparr> in
             if fields = ad_fields a1 \<and> \<not> ad_reannounce a1 then (a1, Ok ())
             else case build_service_info new_info w fields (advertised_addresses p) of
                    Inl e \<Rightarrow> (a1, Err e)
                  | Inr service \<Rightarrow>
                      if \<not> aw_register_ok w then (a1, Err AeMdns)
                      else (a1\<lparr> ad_fields := fields, ad_reannounce := False, ad_registered := service \<rparr>, Ok ()))"

definition advertiser_set_audio_port ::
  "new_service \<Rightarrow> adv_world \<Rightarrow> u16 \<Rightarrow> advertiser \<Rightarrow> advertiser \<times> (advertise_error, unit) result" where
  "advertiser_set_audio_port new_info w audio_p a =
     advertiser_refresh new_info w (adv_service_port (ad_fields a)) (adv_sync_port (ad_fields a))
       (adv_core_port (ad_fields a)) audio_p (adv_config_head (ad_fields a)) a"

subsection \<open>Reading an announcement\<close>

definition txt_u16 :: "service_info \<Rightarrow> string \<Rightarrow> u16" where
  "txt_u16 info key = (case Option.bind (si_property info key) parse_u16 of Some n \<Rightarrow> n | None \<Rightarrow> 0)"

definition peer_addresses :: "ip_addr list \<Rightarrow> ip_addr list" where
  "peer_addresses addrs =
     sort_key (\<lambda>ip. (ip_is_loopback ip, ip_is_ipv6 ip, ip))
       (filter (\<lambda>ip. \<not> ip_is_loopback ip \<and> \<not> is_unicast_link_local ip) addrs)"

definition peer_from :: "service_info \<Rightarrow> discovered_peer option" where
  "peer_from info =
     (case si_property info ''id'' of
        None \<Rightarrow> None
      | Some machine_id \<Rightarrow>
          (case si_property info ''fp'' of
             None \<Rightarrow> None
           | Some fingerprint \<Rightarrow>
               let addresses = map ip_to_string (peer_addresses (si_addresses info)) in
               Some \<lparr> dp_machine_id = machine_id,
                      dp_display_name = takeWhile (\<lambda>c. c \<noteq> CHR ''.'') (si_fullname info),
                      dp_host = (case addresses of a # _ \<Rightarrow> a | [] \<Rightarrow> si_hostname info),
                      dp_addresses = addresses,
                      dp_service_port = si_port info,
                      dp_core_port = txt_u16 info ''core_port'',
                      dp_sync_port = txt_u16 info ''sync_port'',
                      dp_audio_port = txt_u16 info ''audio_port'',
                      dp_fingerprint = fingerprint,
                      dp_protocol_version =
                        (case Option.bind (si_property info ''v'') parse_u32 of Some n \<Rightarrow> n | None \<Rightarrow> 0),
                      dp_config_head = (case si_property info ''cfg'' of Some h \<Rightarrow> h | None \<Rightarrow> []) \<rparr>))"

text \<open>The order in which the system enumerates a peer's addresses does not show.\<close>

lemma peer_addresses_order: "mset xs = mset ys \<Longrightarrow> peer_addresses xs = peer_addresses ys"
  unfolding peer_addresses_def
  by (rule sort_key_inj_key_eq) (auto simp: inj_on_def)

lemma peer_from_order:
  "mset xs = mset ys \<Longrightarrow> peer_from (info\<lparr> si_addresses := xs \<rparr>) = peer_from (info\<lparr> si_addresses := ys \<rparr>)"
  using peer_addresses_order [of xs ys] by (auto simp: peer_from_def txt_u16_def Let_def split: option.splits list.splits)

subsection \<open>The life of an advertiser\<close>

text \<open>\<^verbatim>\<open>ServiceInfo::new\<close> keeps what it is given; the full name is the instance name before the type.\<close>

definition service_law :: "new_service \<Rightarrow> bool" where
  "service_law new_info \<longleftrightarrow> (\<forall>ty name host addrs p props si. new_info ty name host addrs p props = Ok si \<longrightarrow>
      si_fullname si = name @ ''.'' @ ty \<and> si_hostname si = host \<and> set (si_addresses si) = set addrs
    \<and> si_port si = p \<and> si_property si = props)"

record refresh_call =
  rc_world :: adv_world
  rc_advert :: advert

definition refresh_with :: "new_service \<Rightarrow> refresh_call \<Rightarrow> advertiser \<Rightarrow> advertiser \<times> (advertise_error, unit) result" where
  "refresh_with new_info c a =
     advertiser_refresh new_info (rc_world c) (adv_service_port (rc_advert c)) (adv_sync_port (rc_advert c))
       (adv_core_port (rc_advert c)) (adv_audio_port (rc_advert c)) (adv_config_head (rc_advert c)) a"

definition refreshes :: "new_service \<Rightarrow> refresh_call list \<Rightarrow> advertiser \<Rightarrow> advertiser" where
  "refreshes new_info calls a = foldl (\<lambda>a c. fst (refresh_with new_info c a)) a calls"

text \<open>
  What the registered record says: it was built from the current fields, with the addresses of some earlier state of
  the interfaces, and of the present one unless an announcement is due.
\<close>

definition adv_inv :: "new_service \<Rightarrow> bool \<Rightarrow> advertiser \<Rightarrow> bool" where
  "adv_inv new_info macos a \<longleftrightarrow>
     lan_only macos (ad_interfaces a) \<and>
     (\<exists>w p. build_service_info new_info w (ad_fields a) (advertised_addresses p) = Ok (ad_registered a) \<and> lan_only macos p
        \<and> (\<not> ad_reannounce a \<longrightarrow> ip_addresses p = ip_addresses (ad_interfaces a)))"

lemma refresh_inv:
  assumes "adv_inv new_info (iw_macos (aw_if w)) a"
    and "advertiser_refresh new_info w sp yp cp ap h a = (a', r)"
  shows "adv_inv new_info (iw_macos (aw_if w)) a'"
    and "advert.truncate (ad_fields a') = refresh_advert (is_ok r) sp yp cp ap h (advert.truncate (ad_fields a))"
    and "af_machine_id (ad_fields a') = af_machine_id (ad_fields a) \<and> af_fingerprint (ad_fields a') = af_fingerprint (ad_fields a)
       \<and> af_display_name (ad_fields a') = af_display_name (ad_fields a)"
    and "is_ok r \<Longrightarrow> \<not> ad_reannounce a'"
proof -
  obtain p r1 where i: "refresh_interfaces (aw_if w) (ad_interfaces a) = (p, r1)" by fastforce
  let ?f = "(ad_fields a)\<lparr> adv_service_port := sp, adv_sync_port := yp, adv_core_port := cp,
              adv_audio_port := ap, adv_config_head := h \<rparr>"
  let ?a1 = "\<lambda>changed. a\<lparr> ad_interfaces := p, ad_reannounce := ad_reannounce a \<or> changed \<rparr>"
  have lan: "lan_only (iw_macos (aw_if w)) p"
    using refresh_interfaces_lan [OF _ i] assms(1) by (simp add: adv_inv_def)
  have same: "r1 \<noteq> Ok True \<Longrightarrow> ip_addresses p = ip_addresses (ad_interfaces a)"
    using refresh_interfaces_unchanged [OF i] by blast
  consider (no_if) "r1 = Inl ()" "a' = a\<lparr> ad_interfaces := p \<rparr>" "r = Err AeMdns"
    | (same) changed where "r1 = Inr changed" "a' = ?a1 changed" "r = Ok ()" "?f = ad_fields a" "\<not> ad_reannounce a" "\<not> changed"
    | (failed) changed e where "r1 = Inr changed" "a' = ?a1 changed" "r = Err e"
    | (registered) changed si where "r1 = Inr changed"
        "build_service_info new_info w ?f (advertised_addresses p) = Ok si"
        "a' = (?a1 changed)\<lparr> ad_fields := ?f, ad_reannounce := False, ad_registered := si \<rparr>" "r = Ok ()"
    using assms(2) i by (cases r1) (auto simp: advertiser_refresh_def Let_def split: sum.splits if_splits)
  note cases = this
  show "adv_inv new_info (iw_macos (aw_if w)) a'"
    using cases
  proof cases
    case registered
    then show ?thesis using lan by (auto simp: adv_inv_def)
  next
    case (failed changed e)
    then show ?thesis using assms(1) lan same by (cases changed) (auto simp: adv_inv_def)
  qed (use assms(1) lan same in \<open>auto simp: adv_inv_def\<close>)
  show "advert.truncate (ad_fields a') = refresh_advert (is_ok r) sp yp cp ap h (advert.truncate (ad_fields a))"
    using cases
  proof cases
    case same
    have "sp = adv_service_port ?f" "yp = adv_sync_port ?f" "cp = adv_core_port ?f" "ap = adv_audio_port ?f"
      "h = adv_config_head ?f" by simp_all
    then have "sp = adv_service_port (ad_fields a)" "yp = adv_sync_port (ad_fields a)" "cp = adv_core_port (ad_fields a)"
      "ap = adv_audio_port (ad_fields a)" "h = adv_config_head (ad_fields a)"
      unfolding same(4) by simp_all
    then show ?thesis using same(2,3) by (simp add: refresh_advert_def advert.defs)
  qed (auto simp: refresh_advert_def advert.defs)
  show "af_machine_id (ad_fields a') = af_machine_id (ad_fields a) \<and> af_fingerprint (ad_fields a') = af_fingerprint (ad_fields a)
       \<and> af_display_name (ad_fields a') = af_display_name (ad_fields a)"
    using cases by cases simp_all
  show "is_ok r \<Longrightarrow> \<not> ad_reannounce a'"
    using cases by cases simp_all
qed

lemma start_inv:
  assumes "advertiser_start new_info w show_id ident name a0 = Ok a"
  shows "adv_inv new_info (iw_macos (aw_if w)) a" and "\<not> ad_reannounce a"
    and "advert.truncate (ad_fields a) = a0"
    and "af_machine_id (ad_fields a) = show_id (id_machine_id ident)" and "af_fingerprint (ad_fields a) = id_fingerprint ident"
    and "af_display_name (ad_fields a) = name" and "CHR ''.'' \<notin> set name"
proof -
  obtain p r1 where i: "refresh_interfaces (aw_if w) default_policy = (p, r1)" by fastforce
  have "lan_only (iw_macos (aw_if w)) p" using refresh_interfaces_lan [OF lan_only_default i] .
  then show "adv_inv new_info (iw_macos (aw_if w)) a" "\<not> ad_reannounce a" "advert.truncate (ad_fields a) = a0"
    "af_machine_id (ad_fields a) = show_id (id_machine_id ident)" "af_fingerprint (ad_fields a) = id_fingerprint ident"
    "af_display_name (ad_fields a) = name" "CHR ''.'' \<notin> set name"
    using assms i
    by (auto simp: advertiser_start_def adv_inv_def advert.defs Let_def split: if_splits sum.splits, blast+)
qed

text \<open>The identity part of the fields never changes, and the rest follows \<^const>\<open>refresh_advert\<close>.\<close>

lemma refreshes_inv:
  assumes "adv_inv new_info macos a" and "\<forall>c \<in> set calls. iw_macos (aw_if (rc_world c)) = macos"
  shows "adv_inv new_info macos (refreshes new_info calls a)
       \<and> af_machine_id (ad_fields (refreshes new_info calls a)) = af_machine_id (ad_fields a)
       \<and> af_fingerprint (ad_fields (refreshes new_info calls a)) = af_fingerprint (ad_fields a)
       \<and> af_display_name (ad_fields (refreshes new_info calls a)) = af_display_name (ad_fields a)"
  using assms
proof (induction calls arbitrary: a)
  case (Cons c calls)
  obtain a' r where r: "refresh_with new_info c a = (a', r)" by fastforce
  have m: "iw_macos (aw_if (rc_world c)) = macos" using Cons.prems(2) by simp
  have i: "adv_inv new_info macos a'" "af_machine_id (ad_fields a') = af_machine_id (ad_fields a)"
    "af_fingerprint (ad_fields a') = af_fingerprint (ad_fields a)" "af_display_name (ad_fields a') = af_display_name (ad_fields a)"
    using refresh_inv(1,3) [of new_info "rc_world c" a] r Cons.prems(1) m by (auto simp: refresh_with_def)
  then show ?case using Cons.IH [OF i(1)] Cons.prems(2) r by (simp add: refreshes_def)
qed (simp add: refreshes_def)

text \<open>What a browser reads from a record built from the fields.\<close>

lemma peer_from_service:
  assumes "service_law new_info" and "build_service_info new_info w f addrs = Ok si" and "CHR ''.'' \<notin> set (af_display_name f)"
  shows "peer_from (si\<lparr> si_addresses := as \<rparr>) = Some
     \<lparr> dp_machine_id = af_machine_id f, dp_display_name = af_display_name f,
       dp_host = (case map ip_to_string (peer_addresses as) of a # _ \<Rightarrow> a | [] \<Rightarrow> af_host_name f),
       dp_addresses = map ip_to_string (peer_addresses as),
       dp_service_port = adv_service_port f, dp_core_port = adv_core_port f, dp_sync_port = adv_sync_port f,
       dp_audio_port = adv_audio_port f, dp_fingerprint = af_fingerprint f, dp_protocol_version = DISCOVERY_VERSION,
       dp_config_head = adv_config_head f \<rparr>"
proof -
  have "new_info SERVICE_TYPE (af_display_name f) (af_host_name f) addrs (adv_service_port f) (service_props w f) = Ok si"
    using assms(2) by (simp add: build_service_info_def map_err_Ok_iff)
  then have "si_fullname si = af_display_name f @ ''.'' @ SERVICE_TYPE \<and> si_hostname si = af_host_name f
    \<and> si_port si = adv_service_port f \<and> si_property si = service_props w f"
    using assms(1) unfolding service_law_def by blast
  moreover have "takeWhile (\<lambda>c. c \<noteq> CHR ''.'') (af_display_name f @ ''.'' @ SERVICE_TYPE) = af_display_name f"
    using assms(3) by (simp add: takeWhile_append)
  ultimately show ?thesis
    by (simp add: peer_from_def txt_u16_def service_props_def Let_def split: list.split)
qed

subsection \<open>Properties\<close>

text \<open>C19. An announcement is read back unchanged: after any sequence of refreshes, failed ones included, a browser that
  resolves the record registered last, with whatever addresses it sees, obtains the machine id and fingerprint of the
  announcing identity, the display name, this protocol version, and exactly the ports and the configuration head of the
  advertiser's fields, which are those of the last refresh if it succeeded.\<close>

theorem advert_roundtrip:
  assumes "service_law new_info"
    and "advertiser_start new_info w show_id ident name a0 = Ok a"
    and "\<forall>c \<in> set (calls @ [c']). iw_macos (aw_if (rc_world c)) = iw_macos (aw_if w)"
    and "refresh_with new_info c' (refreshes new_info calls a) = (a', r)"
  shows "\<exists>p. peer_from ((ad_registered a')\<lparr> si_addresses := as \<rparr>) = Some p
       \<and> dp_machine_id p = show_id (id_machine_id ident) \<and> dp_fingerprint p = id_fingerprint ident
       \<and> dp_display_name p = name \<and> dp_protocol_version p = DISCOVERY_VERSION
       \<and> \<lparr> adv_service_port = dp_service_port p, adv_sync_port = dp_sync_port p, adv_core_port = dp_core_port p,
           adv_audio_port = dp_audio_port p, adv_config_head = dp_config_head p \<rparr> = advert.truncate (ad_fields a')
       \<and> (is_ok r \<longrightarrow> advert.truncate (ad_fields a') = rc_advert c')"
proof -
  let ?b = "refreshes new_info calls a" and ?m = "iw_macos (aw_if w)"
  note st = start_inv [OF assms(2)]
  have "refreshes new_info (calls @ [c']) a = a'" using assms(4) by (simp add: refreshes_def)
  then have i: "adv_inv new_info ?m a'" "af_machine_id (ad_fields a') = show_id (id_machine_id ident)"
    "af_fingerprint (ad_fields a') = id_fingerprint ident" "af_display_name (ad_fields a') = name"
    using refreshes_inv [OF st(1) assms(3)] st(4-6) by auto
  then obtain w' p' where b: "build_service_info new_info w' (ad_fields a') (advertised_addresses p') = Ok (ad_registered a')"
    unfolding adv_inv_def by blast
  have "adv_inv new_info (iw_macos (aw_if (rc_world c'))) ?b"
    using refreshes_inv [OF st(1), of calls] assms(3) by auto
  then have "is_ok r \<longrightarrow> advert.truncate (ad_fields a') = rc_advert c'"
    using refresh_inv(2) assms(4) unfolding refresh_with_def by (fastforce simp: refresh_advert_def)
  then show ?thesis
    using peer_from_service [OF assms(1) b, of as] i(2-4) st(7) by (simp add: advert.defs)
qed


subsection \<open>A concrete machine\<close>

definition demo_new_info :: new_service where
  "demo_new_info ty name host addrs p props =
     Ok \<lparr> si_fullname = name @ ''.'' @ ty, si_hostname = host, si_addresses = addrs, si_port = p, si_property = props \<rparr>"

lemma demo_service_law: "service_law demo_new_info"
  by (auto simp: service_law_def demo_new_info_def)

text \<open>A machine on a local network with a tunnel; later it loses its name and its local address changes.\<close>

definition demo_adv_world :: "u32 \<Rightarrow> string option \<Rightarrow> adv_world" where
  "demo_adv_world ip host = \<lparr> aw_if = \<lparr> iw_macos = True, iw_disable_ok = True, iw_enable_ok = (\<lambda>_. True),
       iw_interfaces = Some [\<lparr> if_name = ''utun3'', if_ip = V4 0x0A000001 \<rparr>, \<lparr> if_name = ''en0'', if_ip = V4 ip \<rparr>] \<rparr>,
     aw_daemon_starts = True, aw_register_ok = True, aw_proc_hostname = None, aw_env_hostname = host \<rparr>"

definition demo_ident :: "bool identity" where
  "demo_ident = \<lparr> id_machine_id = True, id_public_key = replicate 32 7, id_secret_key = replicate 32 7, id_fingerprint = ''fp'' \<rparr>"

definition demo_advert :: "u16 \<Rightarrow> advert" where
  "demo_advert ap = \<lparr> adv_service_port = 24850, adv_sync_port = 24851, adv_core_port = 24800, adv_audio_port = ap,
     adv_config_head = ''h'' \<rparr>"

definition demo_call :: refresh_call where
  "demo_call = \<lparr> rc_world = demo_adv_world 0xC0A80026 None, rc_advert = demo_advert 24852 \<rparr>"

definition demo_started :: "(advertise_error, advertiser) result" where
  "demo_started = advertiser_start demo_new_info (demo_adv_world 0xC0A80025 (Some ''alpha''))
     (\<lambda>b. if b then ''id'' else ''x'') demo_ident ''alpha'' (demo_advert 0)"

lemma demo_utun: "excluded ''utun3'' True" "\<not> excluded ''en0'' True"
  "\<not> ip_is_loopback (V4 0xC0A80025)" "\<not> ip_is_loopback (V4 0xC0A80026)" "\<not> ip_is_loopback (V4 0x0A000001)"
  by code_simp+

lemmas demo_adv_defs = demo_call_def demo_adv_world_def demo_advert_def demo_ident_def demo_new_info_def

lemma demo_start: "\<exists>a. demo_started = Ok a \<and> \<not> ad_reannounce a"
  by (simp add: demo_started_def advertiser_start_def demo_adv_defs refresh_interfaces_def demo_utun default_policy_def
      build_service_info_def Let_def)

lemma demo_refresh: "demo_started = Ok a \<Longrightarrow> is_ok (snd (refresh_with demo_new_info demo_call a))"
  by (auto simp: refresh_with_def advertiser_refresh_def demo_adv_defs refresh_interfaces_def demo_utun
      build_service_info_def Let_def split: if_splits)

theorem advert_roundtrip_witness:
  "\<exists>a p. demo_started = Ok a
     \<and> peer_from ((ad_registered (fst (refresh_with demo_new_info demo_call a)))\<lparr> si_addresses := [] \<rparr>) = Some p
     \<and> dp_machine_id p = ''id'' \<and> dp_audio_port p = 24852"
proof -
  obtain a where a: "demo_started = Ok a" using demo_start by blast
  obtain a' r where r: "refresh_with demo_new_info demo_call (refreshes demo_new_info [] a) = (a', r)" by fastforce
  then have ra: "refresh_with demo_new_info demo_call a = (a', r)" by (simp add: refreshes_def)
  have ok: "is_ok r" using demo_refresh [OF a] ra by simp
  have m: "\<forall>c \<in> set ([] @ [demo_call]). iw_macos (aw_if (rc_world c)) = iw_macos (aw_if (demo_adv_world 0xC0A80025 (Some ''alpha'')))"
    by (simp add: demo_call_def demo_adv_world_def)
  have "id_machine_id demo_ident" "adv_audio_port (rc_advert demo_call) = 24852"
    by (simp_all add: demo_ident_def demo_call_def demo_advert_def)
  then show ?thesis
    using advert_roundtrip [OF demo_service_law a [unfolded demo_started_def] m r, of "[]"] a ra ok
    by (metis advert.select_convs(4) fst_conv)
qed


end
