(* ===== verification/Browse.thy ===== *)
theory Browse
  imports Advertise Reconcile
begin

text \<open>
  The browser thread (\<^verbatim>\<open>crates/synbad-discovery/src/browser.rs\<close>): it turns the service events of \<^verbatim>\<open>mdns-sd\<close> into the
  peers found and lost that the supervisor handles, restarts its query at most every thirty seconds and re-reads the
  network interfaces.  One iteration of its loop is one step; clocks (in milliseconds) and the answers of the daemon and
  the channel come from the environment.
\<close>

datatype service_event =
    SearchStarted
  | SearchStopped
  | ServiceFound
  | ServiceResolved service_info
  | ServiceRemoved string

datatype raw_recv = Raw_Event service_event | Raw_Timeout | Raw_Disconnected

record pump_world =
  pw_closed :: bool
  pw_network_event :: bool
  pw_now :: nat
  pw_if :: if_world
  pw_stop_ok :: bool
  pw_recv :: raw_recv
  pw_browse_ok :: bool
  pw_later :: nat
  pw_send_ok :: bool

record pump_state =
  ps_full_to_peer :: "(string \<times> discovered_peer) list"
  ps_next_query :: nat
  ps_next_interfaces :: nat
  ps_restarting :: bool
  ps_policy :: interface_policy

definition pump_init :: "nat \<Rightarrow> interface_policy \<Rightarrow> pump_state" where
  "pump_init now p = \<lparr> ps_full_to_peer = [], ps_next_query = now + 30000, ps_next_interfaces = now + 5000,
     ps_restarting = False, ps_policy = p \<rparr>"

definition pump_refresh :: "pump_world \<Rightarrow> pump_state \<Rightarrow> pump_state" where
  "pump_refresh w st =
     (if pw_network_event w \<or> ps_next_interfaces st \<le> pw_now w then
        case refresh_interfaces (pw_if w) (ps_policy st) of
          (p, r) \<Rightarrow> st\<lparr> ps_policy := p,
                       ps_next_query := (if r = Ok True then min (ps_next_query st) (pw_now w + 1000) else ps_next_query st),
                       ps_next_interfaces := pw_now w + 5000 \<rparr>
      else st)"

definition pump_query :: "pump_world \<Rightarrow> pump_state \<Rightarrow> pump_state" where
  "pump_query w st = (if ps_next_query st \<le> pw_now w \<and> \<not> ps_restarting st then st\<lparr> ps_restarting := True \<rparr> else st)"

text \<open>The events that change the table, and what is sent for them.\<close>

definition pump_resolved :: "string \<Rightarrow> service_info \<Rightarrow> pump_state \<Rightarrow> pump_state \<times> discovery_event option" where
  "pump_resolved own info st =
     (case peer_from info of
        None \<Rightarrow> (st, None)
      | Some peer \<Rightarrow>
          if dp_machine_id peer = own then (st, None)
          else if map_of (ps_full_to_peer st) (si_fullname info) = Some peer then (st, None)
          else (st\<lparr> ps_full_to_peer := AList.update (si_fullname info) peer (ps_full_to_peer st) \<rparr>, Some (Found peer)))"

definition pump_removed :: "string \<Rightarrow> pump_state \<Rightarrow> pump_state \<times> discovery_event option" where
  "pump_removed name st =
     (let rest = AList.delete name (ps_full_to_peer st); st1 = st\<lparr> ps_full_to_peer := rest \<rparr> in
      case map_of (ps_full_to_peer st) name of
        None \<Rightarrow> (st1, None)
      | Some peer \<Rightarrow>
          (st1, if list_ex (\<lambda>(_, other). dp_machine_id other = dp_machine_id peer) rest then None
                else Some (Lost (dp_machine_id peer))))"

text \<open>One iteration; \<open>None\<close> when the thread returns, with the event that was sent.\<close>

definition pump_step :: "string \<Rightarrow> pump_world \<Rightarrow> pump_state \<Rightarrow> pump_state option \<times> discovery_event option" where
  "pump_step own w st =
     (if pw_closed w then (None, None)
      else
        let st1 = pump_refresh w st in
        if ps_next_query st1 \<le> pw_now w \<and> \<not> ps_restarting st1 \<and> \<not> pw_stop_ok w then (None, None)
        else
          let st2 = pump_query w st1 in
          case pw_recv w of
            Raw_Disconnected \<Rightarrow> (None, None)
          | Raw_Timeout \<Rightarrow> (Some st2, None)
          | Raw_Event ev \<Rightarrow>
              if ev = SearchStopped \<and> ps_restarting st2 \<and> \<not> pw_browse_ok w then (None, None)
              else
                case (case ev of
                        SearchStopped \<Rightarrow>
                          (if ps_restarting st2
                           then st2\<lparr> ps_next_query := pw_later w + 30000, ps_restarting := False \<rparr> else st2, None)
                      | ServiceResolved info \<Rightarrow> pump_resolved own info st2
                      | ServiceRemoved name \<Rightarrow> pump_removed name st2
                      | _ \<Rightarrow> (st2, None)) of
                  (st3, None) \<Rightarrow> (Some st3, None)
                | (st3, Some out) \<Rightarrow> if pw_send_ok w then (Some st3, Some out) else (None, None))"

fun pump :: "string \<Rightarrow> pump_state \<Rightarrow> pump_world list \<Rightarrow> pump_state option \<times> discovery_event list" where
  "pump own st [] = (Some st, [])"
| "pump own st (w # ws) =
     (case pump_step own w st of
        (None, out) \<Rightarrow> (None, [])
      | (Some st1, out) \<Rightarrow>
          (case pump own st1 ws of (st2, outs) \<Rightarrow> (st2, (case out of None \<Rightarrow> outs | Some ev \<Rightarrow> ev # outs))))"

subsection \<open>What the network says, and what a listener has heard\<close>

type_synonym lan = "string \<Rightarrow> discovered_peer option"

fun lan_step :: "string \<Rightarrow> lan \<Rightarrow> service_event \<Rightarrow> lan" where
  "lan_step own v (ServiceResolved info) =
     (case peer_from info of
        None \<Rightarrow> v
      | Some p \<Rightarrow> if dp_machine_id p = own then v else v(si_fullname info \<mapsto> p))"
| "lan_step own v (ServiceRemoved name) = v(name := None)"
| "lan_step own v _ = v"

definition received :: "pump_world list \<Rightarrow> service_event list" where
  "received ws = concat (map (\<lambda>w. case pw_recv w of Raw_Event ev \<Rightarrow> [ev] | _ \<Rightarrow> []) ws)"

fun hear :: "lan \<Rightarrow> discovery_event \<Rightarrow> lan" where
  "hear h (Found p) = h(dp_machine_id p \<mapsto> p)"
| "hear h (Lost m) = h(m := None)"

definition machines :: "lan \<Rightarrow> string set" where
  "machines v = dp_machine_id ` ran v"

text \<open>A service keeps its machine id while it is resolved.\<close>

definition keeps_id :: "string \<Rightarrow> lan \<Rightarrow> service_event \<Rightarrow> bool" where
  "keeps_id own v ev \<longleftrightarrow>
     (case ev of
        ServiceResolved info \<Rightarrow>
          (case (peer_from info, v (si_fullname info)) of
             (Some p, Some q) \<Rightarrow> dp_machine_id p = own \<or> dp_machine_id p = dp_machine_id q
           | _ \<Rightarrow> True)
      | _ \<Rightarrow> True)"

fun steady :: "string \<Rightarrow> lan \<Rightarrow> service_event list \<Rightarrow> bool" where
  "steady own v [] = True"
| "steady own v (ev # evs) =
     (keeps_id own v ev \<and> steady own (lan_step own v ev) evs)"

text \<open>No two services are resolved with the same machine id at the same time.\<close>

definition one_name :: "lan \<Rightarrow> bool" where
  "one_name v \<longleftrightarrow> (\<forall>a b p q. v a = Some p \<longrightarrow> v b = Some q \<longrightarrow> dp_machine_id p = dp_machine_id q \<longrightarrow> a = b)"

fun one_name_always :: "string \<Rightarrow> lan \<Rightarrow> service_event list \<Rightarrow> bool" where
  "one_name_always own v [] \<longleftrightarrow> one_name v"
| "one_name_always own v (ev # evs) \<longleftrightarrow> one_name v \<and> one_name_always own (lan_step own v ev) evs"

lemma pump_refresh_table [simp]:
  "ps_full_to_peer (pump_refresh w st) = ps_full_to_peer st"
  by (auto simp: pump_refresh_def split: prod.splits)

lemma pump_query_table [simp]: "ps_full_to_peer (pump_query w st) = ps_full_to_peer st"
  by (simp add: pump_query_def)

text \<open>
  A step that does not return: the table takes the step of the network's view, and what is sent depends on that view
  and the event only, not on the query restarts in between.
\<close>

definition announce :: "string \<Rightarrow> lan \<Rightarrow> service_event \<Rightarrow> discovery_event option" where
  "announce own v ev =
     (case ev of
        ServiceResolved info \<Rightarrow>
          (case peer_from info of
             None \<Rightarrow> None
           | Some p \<Rightarrow> if dp_machine_id p = own \<or> v (si_fullname info) = Some p then None else Some (Found p))
      | ServiceRemoved name \<Rightarrow>
          (case v name of
             None \<Rightarrow> None
           | Some p \<Rightarrow> if dp_machine_id p \<in> machines (v(name := None)) then None else Some (Lost (dp_machine_id p)))
      | _ \<Rightarrow> None)"

lemma pump_resolved_view:
  assumes "pump_resolved own info st = (st', out)"
  shows "map_of (ps_full_to_peer st') = lan_step own (map_of (ps_full_to_peer st)) (ServiceResolved info)
       \<and> out = announce own (map_of (ps_full_to_peer st)) (ServiceResolved info)"
  using assms by (auto simp: pump_resolved_def announce_def update_conv' fun_upd_idem split: option.splits if_splits)

lemma list_ex_machines:
  "distinct (map fst xs) \<Longrightarrow> list_ex (\<lambda>(_, other). dp_machine_id other = m) xs \<longleftrightarrow> m \<in> machines (map_of xs)"
  by (auto simp: list_ex_iff machines_def ran_distinct) force

lemma pump_removed_view:
  assumes "pump_removed name st = (st', out)" and "distinct (map fst (ps_full_to_peer st))"
  shows "map_of (ps_full_to_peer st') = lan_step own (map_of (ps_full_to_peer st)) (ServiceRemoved name)
       \<and> out = announce own (map_of (ps_full_to_peer st)) (ServiceRemoved name)"
proof -
  have d: "distinct (map fst (AList.delete name (ps_full_to_peer st)))" using assms(2) by (rule distinct_delete)
  have m: "map_of (AList.delete name (ps_full_to_peer st)) = (map_of (ps_full_to_peer st))(name := None)"
    by (rule delete_conv')
  show ?thesis
    using assms(1) list_ex_machines [OF d] m
    by (auto simp: pump_removed_def announce_def Let_def split: option.splits)
qed

lemma pump_step_cases:
  assumes "pump_step own w st = (Some st', out)"
  obtains (idle) "st' = pump_query w (pump_refresh w st)" "out = None" "pw_recv w = Raw_Timeout"
    | (plain) ev where "st' = pump_query w (pump_refresh w st)" "out = None" "pw_recv w = Raw_Event ev"
        "ev = SearchStarted \<or> ev = SearchStopped \<or> ev = ServiceFound"
    | (restart) "st' = (pump_query w (pump_refresh w st))\<lparr> ps_next_query := pw_later w + 30000, ps_restarting := False \<rparr>"
        "out = None" "pw_recv w = Raw_Event SearchStopped"
    | (resolved) info where "pw_recv w = Raw_Event (ServiceResolved info)"
        "pump_resolved own info (pump_query w (pump_refresh w st)) = (st', out)"
    | (removed) name where "pw_recv w = Raw_Event (ServiceRemoved name)"
        "pump_removed name (pump_query w (pump_refresh w st)) = (st', out)"
  using assms
  by (auto simp: pump_step_def Let_def split: if_splits raw_recv.splits service_event.splits prod.splits option.splits)

lemma pump_step_view:
  assumes "pump_step own w st = (Some st', out)" and "distinct (map fst (ps_full_to_peer st))"
  shows "distinct (map fst (ps_full_to_peer st'))"
    and "case pw_recv w of
           Raw_Event ev \<Rightarrow> map_of (ps_full_to_peer st') = lan_step own (map_of (ps_full_to_peer st)) ev
             \<and> out = announce own (map_of (ps_full_to_peer st)) ev
         | _ \<Rightarrow> map_of (ps_full_to_peer st') = map_of (ps_full_to_peer st) \<and> out = None"
proof -
  show "distinct (map fst (ps_full_to_peer st'))"
    using assms(1)
    by (cases rule: pump_step_cases) (use assms(2) in \<open>auto simp: pump_resolved_def pump_removed_def Let_def distinct_update distinct_delete
        split: option.splits if_splits\<close>)
  show "case pw_recv w of
           Raw_Event ev \<Rightarrow> map_of (ps_full_to_peer st') = lan_step own (map_of (ps_full_to_peer st)) ev
             \<and> out = announce own (map_of (ps_full_to_peer st)) ev
         | _ \<Rightarrow> map_of (ps_full_to_peer st') = map_of (ps_full_to_peer st) \<and> out = None"
    using assms(1)
  proof (cases rule: pump_step_cases)
    case resolved
    then show ?thesis using pump_resolved_view [OF resolved(2)] by simp
  next
    case removed
    then show ?thesis using pump_removed_view [OF removed(2)] assms(2) by simp
  qed (auto simp: announce_def)
qed

text \<open>How the two views of one event differ.\<close>

definition sent_for :: "string \<Rightarrow> lan \<Rightarrow> lan \<Rightarrow> service_event \<Rightarrow> discovery_event option \<Rightarrow> bool" where
  "sent_for own v v' ev out \<longleftrightarrow>
     (case ev of
        ServiceResolved info \<Rightarrow>
          (v' = v \<and> out = None) \<or> (\<exists>p. v' = v(si_fullname info \<mapsto> p) \<and> peer_from info = Some p
            \<and> dp_machine_id p \<noteq> own \<and> out = Some (Found p))
      | ServiceRemoved name \<Rightarrow>
          v' = v(name := None) \<and>
          (case v name of
             None \<Rightarrow> out = None
           | Some p \<Rightarrow> out = (if dp_machine_id p \<in> machines v' then None else Some (Lost (dp_machine_id p))))
      | _ \<Rightarrow> v' = v \<and> out = None)"

lemma announce_sent: "sent_for own v (lan_step own v ev) ev (announce own v ev)"
  by (cases ev) (auto simp: sent_for_def announce_def fun_upd_idem split: option.split)

text \<open>
  The query never sleeps longer than thirty seconds: after an iteration it is being restarted, or its next restart is
  still ahead, at most thirty seconds after the iteration unless it was already further away.
\<close>

lemma pump_resolved_clock: "pump_resolved own info st = (st', out) \<Longrightarrow>
    ps_next_query st' = ps_next_query st \<and> ps_restarting st' = ps_restarting st"
  by (auto simp: pump_resolved_def split: option.splits if_splits)

lemma pump_removed_clock: "pump_removed name st = (st', out) \<Longrightarrow>
    ps_next_query st' = ps_next_query st \<and> ps_restarting st' = ps_restarting st"
  by (auto simp: pump_removed_def Let_def split: option.splits)

lemma pump_refresh_clock: "ps_next_query (pump_refresh w st) \<le> ps_next_query st" "ps_restarting (pump_refresh w st) = ps_restarting st"
  by (auto simp: pump_refresh_def split: prod.splits)

lemma pump_query_cap:
  assumes "pump_step own w st = (Some st', out)" and "pw_now w \<le> pw_later w"
  shows "ps_next_query st' \<le> max (ps_next_query st) (pw_later w + 30000)
       \<and> (ps_restarting st' \<or> pw_now w < ps_next_query st')"
proof -
  let ?st2 = "pump_query w (pump_refresh w st)"
  have q: "ps_next_query ?st2 \<le> ps_next_query st" "ps_restarting ?st2 \<or> pw_now w < ps_next_query ?st2"
    using pump_refresh_clock [of w st] by (auto simp: pump_query_def)
  show ?thesis
    using assms(1)
  proof (cases rule: pump_step_cases)
    case resolved
    then show ?thesis using q pump_resolved_clock [OF resolved(2)] by auto
  next
    case removed
    then show ?thesis using q pump_removed_clock [OF removed(2)] by auto
  qed (use q assms(2) in auto)
qed

subsection \<open>What a listener knows\<close>

definition hear_opt :: "lan \<Rightarrow> discovery_event option \<Rightarrow> lan" where
  "hear_opt h out = (case out of None \<Rightarrow> h | Some ev \<Rightarrow> hear h ev)"

definition exact :: "lan \<Rightarrow> lan \<Rightarrow> bool" where
  "exact v h \<longleftrightarrow> (\<forall>m p. h m = Some p \<longleftrightarrow> p \<in> ran v \<and> dp_machine_id p = m)"

lemma machines_insert: "machines (v(n \<mapsto> p)) \<subseteq> insert (dp_machine_id p) (machines v)"
  by (auto simp: machines_def ran_def split: if_splits)

lemma machines_insert_in: "dp_machine_id p \<in> machines (v(n \<mapsto> p))"
  by (auto simp: machines_def ran_def)

lemma machines_remove: "machines (v(n := None)) \<subseteq> machines v"
  by (auto simp: machines_def ran_def split: if_splits)

lemma machines_insert_steady:
  assumes "\<And>q. v n = Some q \<Longrightarrow> dp_machine_id q = dp_machine_id p"
  shows "machines (v(n \<mapsto> p)) = insert (dp_machine_id p) (machines v)"
proof (rule subset_antisym [OF machines_insert], rule subsetI)
  fix m
  assume "m \<in> insert (dp_machine_id p) (machines v)"
  then consider "m = dp_machine_id p" | a q where "v a = Some q" "dp_machine_id q = m" by (auto simp: machines_def ran_def)
  then show "m \<in> machines (v(n \<mapsto> p))"
  proof cases
    case 2
    then show ?thesis
      using assms [of q] machines_insert_in [of p v n] by (cases "a = n") (auto simp: machines_def ran_def)
  qed (simp add: machines_insert_in)
qed

lemma machines_remove_eq: "v n = Some p \<Longrightarrow> machines v = insert (dp_machine_id p) (machines (v(n := None)))"
  using machines_insert_steady [of "v(n := None)" n p] by (simp add: fun_upd_idem)

text \<open>No resolved machine is missing, and the own one is never heard of.\<close>

lemma hear_covers:
  assumes "sent_for own v v' ev out" and "machines v \<subseteq> dom h"
  shows "machines v' \<subseteq> dom (hear_opt h out)"
proof (cases ev)
  case (ServiceResolved info)
  then show ?thesis using assms machines_insert by (fastforce simp: sent_for_def hear_opt_def)
next
  case (ServiceRemoved n)
  then show ?thesis
    using assms machines_remove [of v n] by (auto simp: sent_for_def hear_opt_def split: option.splits if_splits)
qed (use assms in \<open>auto simp: sent_for_def hear_opt_def\<close>)

lemma hear_own: "sent_for own v v' ev out \<Longrightarrow> own \<notin> dom h \<Longrightarrow> own \<notin> dom (hear_opt h out)"
  by (cases ev) (auto simp: sent_for_def hear_opt_def split: option.splits if_splits)

text \<open>While services keep their machine ids, nobody is heard of who is not resolved.\<close>

lemma hear_dom:
  assumes "sent_for own v v' ev out" and "keeps_id own v ev" and "machines v = dom h"
  shows "machines v' = dom (hear_opt h out)"
proof (cases ev)
  case (ServiceResolved info)
  consider "v' = v" "out = None"
    | p where "v' = v(si_fullname info \<mapsto> p)" "out = Some (Found p)" "peer_from info = Some p" "dp_machine_id p \<noteq> own"
    using assms(1) ServiceResolved by (auto simp: sent_for_def)
  then show ?thesis
  proof cases
    case (2 p)
    have "dp_machine_id q = dp_machine_id p" if "v (si_fullname info) = Some q" for q
      using assms(2) 2(3,4) that ServiceResolved by (auto simp: keeps_id_def)
    then have "machines v' = insert (dp_machine_id p) (machines v)" unfolding 2(1) by (rule machines_insert_steady)
    then show ?thesis using 2(2) assms(3) by (simp add: hear_opt_def)
  qed (use assms(3) in \<open>simp add: hear_opt_def\<close>)
next
  case (ServiceRemoved n)
  show ?thesis
  proof (cases "v n")
    case None
    then have "v(n := None) = v" by (simp add: fun_upd_idem)
    then show ?thesis using None assms(1,3) ServiceRemoved by (simp add: sent_for_def hear_opt_def)
  next
    case (Some p)
    then show ?thesis
      using machines_remove_eq [of v n p] assms(1,3) ServiceRemoved
      by (cases "dp_machine_id p \<in> machines (v(n := None))")
        (simp_all add: sent_for_def hear_opt_def insert_absorb)
  qed
qed (use assms in \<open>auto simp: sent_for_def hear_opt_def\<close>)

text \<open>While every machine has one service, the record heard is the one resolved.\<close>

lemma hear_exact:
  assumes "sent_for own v v' ev out" and "keeps_id own v ev" and "one_name v" and "one_name v'" and "exact v h"
  shows "exact v' (hear_opt h out)"
proof (cases ev)
  case (ServiceResolved info)
  let ?n = "si_fullname info"
  consider "v' = v" "out = None"
    | p where "v' = v(?n \<mapsto> p)" "out = Some (Found p)" "peer_from info = Some p" "dp_machine_id p \<noteq> own"
    using assms(1) ServiceResolved by (auto simp: sent_for_def)
  then show ?thesis
  proof cases
    case (2 p)
    have old: "dp_machine_id q = dp_machine_id p" if "v ?n = Some q" for q
      using assms(2) 2(3,4) that ServiceResolved by (auto simp: keeps_id_def)
    have "(p' \<in> ran v' \<and> dp_machine_id p' = m) \<longleftrightarrow> (if m = dp_machine_id p then p' = p else p' \<in> ran v \<and> dp_machine_id p' = m)" for m p'
    proof (cases "m = dp_machine_id p")
      case True
      have at: "v' ?n = Some p" using 2(1) by simp
      then have "v' a = Some p' \<Longrightarrow> dp_machine_id p' = dp_machine_id p \<Longrightarrow> p' = p" for a
        using assms(4) unfolding one_name_def by (metis option.inject)
      then have "p' \<in> ran v' \<and> dp_machine_id p' = dp_machine_id p \<longleftrightarrow> p' = p"
        using at unfolding ran_def by blast
      then show ?thesis using True by simp
    next
      case False
      then show ?thesis using old 2(1) by (auto simp: ran_def split: if_splits) (metis)
    qed
    then show ?thesis using assms(5) 2(2) by (auto simp: exact_def hear_opt_def)
  qed (use assms(5) in \<open>simp add: hear_opt_def\<close>)
next
  case (ServiceRemoved n)
  show ?thesis
  proof (cases "v n")
    case None
    then have "v(n := None) = v" by (simp add: fun_upd_idem)
    then show ?thesis using None assms(1,5) ServiceRemoved by (simp add: sent_for_def hear_opt_def)
  next
    case (Some p)
    have v': "v' = v(n := None)" using assms(1) ServiceRemoved by (simp add: sent_for_def)
    have others: "v a = Some q \<Longrightarrow> dp_machine_id q = dp_machine_id p \<Longrightarrow> a = n" for a q
      using assms(3) Some unfolding one_name_def by blast
    then have "dp_machine_id p \<notin> machines v'" using v' by (auto simp: machines_def ran_def split: if_splits)
    then have out: "out = Some (Lost (dp_machine_id p))" using assms(1) ServiceRemoved Some by (simp add: sent_for_def)
    have "(q \<in> ran v' \<and> dp_machine_id q = m) \<longleftrightarrow> m \<noteq> dp_machine_id p \<and> q \<in> ran v \<and> dp_machine_id q = m" for m q
    proof -
      have "q \<in> ran v' \<longleftrightarrow> (\<exists>a. a \<noteq> n \<and> v a = Some q)" using v' by (auto simp: ran_def)
      moreover have "q \<in> ran v \<longleftrightarrow> q = p \<or> (\<exists>a. a \<noteq> n \<and> v a = Some q)"
        using Some by (auto simp: ran_def) (metis option.inject)
      ultimately show ?thesis using others by blast
    qed
    then show ?thesis using assms(5) out by (auto simp: exact_def hear_opt_def)
  qed
qed (use assms in \<open>auto simp: sent_for_def hear_opt_def\<close>)

text \<open>A whole run of the thread.\<close>

fun announcements :: "string \<Rightarrow> lan \<Rightarrow> service_event list \<Rightarrow> discovery_event list" where
  "announcements own v [] = []"
| "announcements own v (ev # evs) =
     (case announce own v ev of None \<Rightarrow> [] | Some out \<Rightarrow> [out]) @ announcements own (lan_step own v ev) evs"

lemma received_simps [simp]:
  "received [] = []"
  "received (w # ws) = (case pw_recv w of Raw_Event ev \<Rightarrow> [ev] | _ \<Rightarrow> []) @ received ws"
  by (simp_all add: received_def)

lemma pump_view:
  assumes "pump own st ws = (Some st', outs)" and "distinct (map fst (ps_full_to_peer st))"
  shows "map_of (ps_full_to_peer st') = foldl (lan_step own) (map_of (ps_full_to_peer st)) (received ws)
       \<and> outs = announcements own (map_of (ps_full_to_peer st)) (received ws)"
  using assms
proof (induction ws arbitrary: st outs)
  case (Cons w ws)
  obtain st1 out where step: "pump_step own w st = (Some st1, out)"
    using Cons.prems(1) by (cases "pump_step own w st"; cases "fst (pump_step own w st)") auto
  obtain outs' where rest: "pump own st1 ws = (Some st', outs')"
    "outs = (case out of None \<Rightarrow> outs' | Some ev \<Rightarrow> ev # outs')"
    using Cons.prems(1) step by (cases "pump own st1 ws") auto
  note v = pump_step_view [OF step Cons.prems(2)]
  have "map_of (ps_full_to_peer st') = foldl (lan_step own) (map_of (ps_full_to_peer st1)) (received ws)
       \<and> outs' = announcements own (map_of (ps_full_to_peer st1)) (received ws)"
    using Cons.IH [OF rest(1) v(1)] .
  then show ?case using v(2) rest(2) by (cases "pw_recv w") (auto split: option.split)
qed simp

lemma heard_Cons:
  "foldl hear h (announcements own v (ev # evs)) =
   foldl hear (hear_opt h (announce own v ev)) (announcements own (lan_step own v ev) evs)"
  by (cases "announce own v ev") (simp_all add: hear_opt_def)

lemma heard_covers:
  "machines v \<subseteq> dom h \<Longrightarrow> machines (foldl (lan_step own) v evs) \<subseteq> dom (foldl hear h (announcements own v evs))"
proof (induction evs arbitrary: v h)
  case (Cons ev evs)
  show ?case unfolding heard_Cons foldl_Cons by (rule Cons.IH [OF hear_covers [OF announce_sent Cons.prems]])
qed simp

lemma heard_own: "own \<notin> dom h \<Longrightarrow> own \<notin> dom (foldl hear h (announcements own v evs))"
proof (induction evs arbitrary: v h)
  case (Cons ev evs)
  show ?case unfolding heard_Cons by (rule Cons.IH [OF hear_own [OF announce_sent Cons.prems]])
qed simp

lemma heard_dom:
  "steady own v evs \<Longrightarrow> machines v = dom h
     \<Longrightarrow> machines (foldl (lan_step own) v evs) = dom (foldl hear h (announcements own v evs))"
proof (induction evs arbitrary: v h)
  case (Cons ev evs)
  show ?case
    unfolding heard_Cons foldl_Cons
    by (rule Cons.IH [OF _ hear_dom [OF announce_sent _ Cons.prems(2)]]) (use Cons.prems(1) in auto)
qed simp

lemma heard_exact:
  "steady own v evs \<Longrightarrow> one_name_always own v evs \<Longrightarrow> exact v h
     \<Longrightarrow> exact (foldl (lan_step own) v evs) (foldl hear h (announcements own v evs))"
proof (induction evs arbitrary: v h)
  case (Cons ev evs)
  have "one_name v" "one_name (lan_step own v ev)" "keeps_id own v ev" "steady own (lan_step own v ev) evs"
    "one_name_always own (lan_step own v ev) evs"
    using Cons.prems(1,2) by (cases evs; simp)+
  then show ?case
    unfolding heard_Cons foldl_Cons using Cons.IH hear_exact [OF announce_sent _ _ _ Cons.prems(3)] by blast
qed simp

lemmas announcements_heard = heard_covers heard_own heard_dom heard_exact

text \<open>The supervisor handles the events in the order they were sent, each at its own time.\<close>

definition supervise :: "(versioned_config \<Rightarrow> string) \<Rightarrow> supervisor \<Rightarrow> ((string \<Rightarrow> bool) \<times> nat \<times> discovery_event) list \<Rightarrow> supervisor" where
  "supervise head s xs = foldl (\<lambda>s (busy, now, ev). handle_discovery head busy now ev s) s xs"

lemma supervise_peers:
  "map_of (v_peers (supervise head s xs)) = foldl hear (map_of (v_peers s)) (map (\<lambda>(_, _, ev). ev) xs)"
proof (induction xs arbitrary: s)
  case (Cons x xs)
  obtain busy now ev where x: "x = (busy, now, ev)" by (cases x) auto
  have "map_of (v_peers (handle_discovery head busy now ev s)) = hear (map_of (v_peers s)) ev"
    by (cases ev) (simp_all add: handle_discovery_peers update_conv' delete_conv')
  then show ?case using Cons.IH [of "handle_discovery head busy now ev s"] by (simp add: supervise_def x)
qed (simp add: supervise_def)

subsection \<open>Properties\<close>

text \<open>C10. The supervisor's peer table follows the network: whatever the browser thread goes through (restarts of the
  query, interface changes, timeouts, repeated resolutions), once the supervisor has handled the events sent, every
  machine whose service is resolved is in the table and the own machine never is; while services keep their machine id,
  exactly the resolved machines are in it; and while each machine has one service, with exactly the record resolved
  last.\<close>

theorem supervisor_follows_the_lan:
  assumes "pump own (pump_init now pol) ws = (Some st, outs)"
    and "map (\<lambda>(_, _, ev). ev) xs = outs" and "v_peers s = []"
  shows "let lan = foldl (lan_step own) Map.empty (received ws); peers = map_of (v_peers (supervise head s xs)) in
      machines lan \<subseteq> dom peers \<and> own \<notin> dom peers
    \<and> (steady own Map.empty (received ws) \<longrightarrow> dom peers = machines lan)
    \<and> (steady own Map.empty (received ws) \<and> one_name_always own Map.empty (received ws)
         \<longrightarrow> (\<forall>m p. peers m = Some p \<longleftrightarrow> p \<in> ran lan \<and> dp_machine_id p = m))"
proof -
  have i: "map_of (ps_full_to_peer (pump_init now pol)) = Map.empty" "distinct (map fst (ps_full_to_peer (pump_init now pol)))"
    by (simp_all add: pump_init_def)
  have o: "map_of (v_peers (supervise head s xs)) = foldl hear Map.empty (announcements own Map.empty (received ws))"
    using pump_view [OF assms(1) i(2)] i(1) supervise_peers [of head s xs] assms(2,3) by simp
  have e: "exact Map.empty Map.empty" "machines Map.empty = {}" by (auto simp: exact_def machines_def)
  show ?thesis
    unfolding Let_def o
    using announcements_heard(1) [of Map.empty Map.empty own "received ws"]
      announcements_heard(2) [of own Map.empty Map.empty "received ws"]
      announcements_heard(3) [of own Map.empty "received ws" Map.empty]
      announcements_heard(4) [of own Map.empty "received ws" Map.empty] e
    by (simp add: exact_def)
qed

text \<open>C40. A service that comes back under the same name with a new identity leaves a ghost: after the first record, a
  second record of that name with another machine id, and the removal of the service, nothing is resolved any more but
  the first machine is still in the supervisor's table, since replacing the record never reports the first machine as
  lost.\<close>

theorem reidentified_service_leaves_ghost:
  assumes "peer_from old = Some p" and "peer_from new = Some q" and "si_fullname old = si_fullname new"
    and "dp_machine_id p \<noteq> dp_machine_id q" and "own \<noteq> dp_machine_id p" and "own \<noteq> dp_machine_id q"
    and "received ws = [ServiceResolved old, ServiceResolved new, ServiceRemoved (si_fullname new)]"
    and "pump own (pump_init now pol) ws = (Some st, outs)"
    and "map (\<lambda>(_, _, ev). ev) xs = outs" and "v_peers s = []"
  shows "ps_full_to_peer st = [] \<and> map_of (v_peers (supervise head s xs)) = [dp_machine_id p \<mapsto> p]"
proof -
  have i: "map_of (ps_full_to_peer (pump_init now pol)) = Map.empty" "distinct (map fst (ps_full_to_peer (pump_init now pol)))"
    by (simp_all add: pump_init_def)
  note v = pump_view [OF assms(8) i(2), unfolded i(1) assms(7)]
  have "map_of (ps_full_to_peer st) = Map.empty" using v assms(1-6) by auto
  moreover have "outs = [Found p, Found q, Lost (dp_machine_id q)]"
    using v assms(1-6) by (auto simp: announce_def machines_def)
  then have "map_of (v_peers (supervise head s xs)) = [dp_machine_id p \<mapsto> p]"
    using supervise_peers [of head s xs] assms(4,9,10) by auto
  ultimately show ?thesis by (simp add: map_of_eq_empty_iff)
qed

subsection \<open>A concrete network\<close>

definition demo_info :: "string \<Rightarrow> service_info" where
  "demo_info mid = \<lparr> si_fullname = ''alpha._synbad._tcp.local.'', si_hostname = ''alpha.local.'', si_addresses = [], si_port = 24850,
     si_property = [''id'' \<mapsto> mid, ''fp'' \<mapsto> ''f''] \<rparr>"

definition demo_found :: "string \<Rightarrow> discovered_peer" where
  "demo_found mid = \<lparr> dp_machine_id = mid, dp_display_name = ''alpha'', dp_host = ''alpha.local.'', dp_addresses = [],
     dp_service_port = 24850, dp_core_port = 0, dp_sync_port = 0, dp_audio_port = 0, dp_fingerprint = ''f'',
     dp_protocol_version = 0, dp_config_head = [] \<rparr>"

definition demo_pump_world :: "raw_recv \<Rightarrow> pump_world" where
  "demo_pump_world r = \<lparr> pw_closed = False, pw_network_event = False, pw_now = 1, pw_if = aw_if (demo_adv_world 0 None),
     pw_stop_ok = True, pw_recv = r, pw_browse_ok = True, pw_later = 2, pw_send_ok = True \<rparr>"

lemma demo_peer_from: "peer_from (demo_info mid) = Some (demo_found mid)"
  by (simp add: peer_from_def demo_info_def demo_found_def txt_u16_def peer_addresses_def Let_def)

definition demo_listener :: supervisor where
  "demo_listener = demo_supervisor\<lparr> v_peers := [] \<rparr>"

definition at_once :: "discovery_event list \<Rightarrow> ((string \<Rightarrow> bool) \<times> nat \<times> discovery_event) list" where
  "at_once outs = map (\<lambda>ev. (\<lambda>_. False, 0, ev)) outs"

lemma at_once_events: "map (\<lambda>(_, _, ev). ev) (at_once outs) = outs"
  by (simp add: at_once_def comp_def)

lemma demo_pump_runs:
  "\<exists>st outs. pump ''me'' (pump_init 0 default_policy) (map demo_pump_world
     [Raw_Event (ServiceResolved (demo_info ''a'')), Raw_Timeout]) = (Some st, outs)"
  "\<exists>st outs. pump ''me'' (pump_init 0 default_policy) (map demo_pump_world
     [Raw_Event (ServiceResolved (demo_info ''a'')), Raw_Event (ServiceResolved (demo_info ''b'')),
      Raw_Event (ServiceRemoved ''alpha._synbad._tcp.local.'')]) = (Some st, outs)"
  by (simp_all add: pump_step_def pump_refresh_def pump_query_def pump_resolved_def pump_removed_def demo_pump_world_def
      pump_init_def demo_peer_from demo_found_def Let_def demo_info_def [THEN arg_cong [where f = si_fullname]])

lemma demo_recv [simp]: "pw_recv (demo_pump_world r) = r"
  by (simp add: demo_pump_world_def)

lemma demo_fullname [simp]: "si_fullname (demo_info mid) = ''alpha._synbad._tcp.local.''" "dp_machine_id (demo_found mid) = mid"
  by (simp_all add: demo_info_def demo_found_def)

theorem supervisor_follows_the_lan_witness:
  "\<exists>st outs. pump ''me'' (pump_init 0 default_policy) (map demo_pump_world
       [Raw_Event (ServiceResolved (demo_info ''a'')), Raw_Timeout]) = (Some st, outs)
     \<and> map_of (v_peers (supervise (\<lambda>_. []) demo_listener (at_once outs))) ''a'' = Some (demo_found ''a'')"
proof -
  let ?ws = "map demo_pump_world [Raw_Event (ServiceResolved (demo_info ''a'')), Raw_Timeout]"
  obtain st outs where p: "pump ''me'' (pump_init 0 default_policy) ?ws = (Some st, outs)" using demo_pump_runs(1) by blast
  have r: "received ?ws = [ServiceResolved (demo_info ''a'')]" by simp
  have "steady ''me'' Map.empty (received ?ws)" by (simp add: r keeps_id_def demo_peer_from)
  moreover have "one_name_always ''me'' Map.empty (received ?ws)"
    by (simp add: r one_name_def demo_peer_from)
  moreover have "foldl (lan_step ''me'') Map.empty (received ?ws) = [''alpha._synbad._tcp.local.'' \<mapsto> demo_found ''a'']"
    by (simp add: r demo_peer_from)
  moreover have "v_peers demo_listener = []" by (simp add: demo_listener_def)
  ultimately have "map_of (v_peers (supervise (\<lambda>_. []) demo_listener (at_once outs))) ''a'' = Some (demo_found ''a'')"
    using supervisor_follows_the_lan [OF p at_once_events, of demo_listener "\<lambda>_. []"] unfolding Let_def by simp
  with p show ?thesis by blast
qed

theorem reidentified_service_leaves_ghost_witness:
  "\<exists>st outs. pump ''me'' (pump_init 0 default_policy) (map demo_pump_world
       [Raw_Event (ServiceResolved (demo_info ''a'')), Raw_Event (ServiceResolved (demo_info ''b'')),
        Raw_Event (ServiceRemoved ''alpha._synbad._tcp.local.'')]) = (Some st, outs)
     \<and> ps_full_to_peer st = [] \<and> map_of (v_peers (supervise (\<lambda>_. []) demo_listener (at_once outs))) = [''a'' \<mapsto> demo_found ''a'']"
proof -
  let ?ws = "map demo_pump_world [Raw_Event (ServiceResolved (demo_info ''a'')), Raw_Event (ServiceResolved (demo_info ''b'')),
        Raw_Event (ServiceRemoved ''alpha._synbad._tcp.local.'')]"
  obtain st outs where p: "pump ''me'' (pump_init 0 default_policy) ?ws = (Some st, outs)" using demo_pump_runs(2) by blast
  have r: "received ?ws = [ServiceResolved (demo_info ''a''), ServiceResolved (demo_info ''b''), ServiceRemoved (si_fullname (demo_info ''b''))]"
    by simp
  have "v_peers demo_listener = []" by (simp add: demo_listener_def)
  then show ?thesis
    using reidentified_service_leaves_ghost [OF demo_peer_from demo_peer_from _ _ _ _ r p at_once_events, of demo_listener "\<lambda>_. []"] p
    by auto
qed

end
