(* ===== verification/Gui_Ipc.thy ===== *)
theory Gui_Ipc
  imports Browse Requests
begin

text \<open>
  The two threads that connect the GUI to the daemon (\<^verbatim>\<open>crates/synbad-gui/src/ipc_thread.rs\<close>): the reader, which keeps a
  subscribed connection, bootstraps the GUI from snapshots, forwards events and launches the daemon when nothing
  listens; and the dispatcher, which sends each command of the user on a connection of its own.  Connections and
  processes are answers of the environment (what a call over the socket does is \<^verbatim>\<open>Ipc_Server\<close>); clocks are in milliseconds.
\<close>

datatype cmd =
    Cmd_Start
  | Cmd_Stop
  | Cmd_Restart
  | Cmd_SetConfig config
  | Cmd_Refresh
  | Cmd_RefreshPeers
  | Cmd_StartPairing string
  | Cmd_ConfirmPairing string bool
  | Cmd_RevokeTrust string
  | Cmd_ListAudioDevices
  | Cmd_SetAudioConfig audio_config
  | Cmd_GetAudioStatus

datatype gui_update =
    Upd_Connected
  | Upd_Disconnected string
  | Upd_Launching string
  | Upd_Status daemon_state "string list" "string list" "string option"
  | Upd_Config config
  | Upd_Log string
  | Upd_StateChanged daemon_state
  | Upd_Error string
  | Upd_PeerConnected string
  | Upd_PeerDisconnected string
  | Upd_ActiveScreen string
  | Upd_PeerDiscovered discovered_peer
  | Upd_PeerLost string
  | Upd_PeerSnapshot "discovered_peer list"
  | Upd_LocalIdentity string string
  | Upd_PairingProposed string string string string string
  | Upd_PairingCompleted trusted_peer
  | Upd_PairingFailed string string
  | Upd_TrustedSnapshot "trusted_peer list"
  | Upd_TrustRevoked string
  | Upd_SyncStarted string sync_direction
  | Upd_SyncCompleted string sync_direction bool
  | Upd_SyncFailed string sync_direction string
  | Upd_AudioDevices "audio_device_info list" "audio_device_info list"
  | Upd_AudioDevicesChanged
  | Upd_AudioPeerStatus peer_audio_status
  | Upd_AudioPeerRemoved string
  | Upd_AudioError "string option" string
  | Upd_AudioStatusSnapshot "peer_audio_status list"

subsection \<open>Translations\<close>

text \<open>An event of the daemon; a changed configuration is fetched, and dropped when that fails.\<close>

fun event_update :: "config option \<Rightarrow> event \<Rightarrow> gui_update option" where
  "event_update cfg (EvLog l) = Some (Upd_Log l)"
| "event_update cfg (EvState s) = Some (Upd_StateChanged s)"
| "event_update cfg EvConfigChanged = map_option Upd_Config cfg"
| "event_update cfg (EvPeerConnected n) = Some (Upd_PeerConnected n)"
| "event_update cfg (EvPeerDisconnected n) = Some (Upd_PeerDisconnected n)"
| "event_update cfg (EvActiveScreen n) = Some (Upd_ActiveScreen n)"
| "event_update cfg (EvPeerDiscovered p) = Some (Upd_PeerDiscovered p)"
| "event_update cfg (EvPeerLost m) = Some (Upd_PeerLost m)"
| "event_update cfg (EvPairingProposed sid mid name fp code) = Some (Upd_PairingProposed sid mid name fp code)"
| "event_update cfg (EvPairingCompleted p) = Some (Upd_PairingCompleted p)"
| "event_update cfg (EvPairingFailed sid r) = Some (Upd_PairingFailed sid r)"
| "event_update cfg (EvTrustRevoked m) = Some (Upd_TrustRevoked m)"
| "event_update cfg (EvSyncStarted m d) = Some (Upd_SyncStarted m d)"
| "event_update cfg (EvSyncCompleted m d u head) = Some (Upd_SyncCompleted m d u)"
| "event_update cfg (EvSyncFailed m d r) = Some (Upd_SyncFailed m d r)"
| "event_update cfg EvAudioDevicesChanged = Some Upd_AudioDevicesChanged"
| "event_update cfg (EvAudioPeerStatus st) = Some (Upd_AudioPeerStatus st)"
| "event_update cfg (EvAudioPeerRemoved m) = Some (Upd_AudioPeerRemoved m)"
| "event_update cfg (EvAudioError p msg) = Some (Upd_AudioError p msg)"

fun cmd_request :: "cmd \<Rightarrow> request" where
  "cmd_request Cmd_Start = Start"
| "cmd_request Cmd_Stop = Stop"
| "cmd_request Cmd_Restart = Restart"
| "cmd_request (Cmd_SetConfig c) = SetConfig c"
| "cmd_request Cmd_Refresh = GetStatus"
| "cmd_request Cmd_RefreshPeers = ListPeers"
| "cmd_request (Cmd_StartPairing m) = StartPairing m"
| "cmd_request (Cmd_ConfirmPairing sid ok) = ConfirmPairing sid ok"
| "cmd_request (Cmd_RevokeTrust m) = RevokeTrust m"
| "cmd_request Cmd_ListAudioDevices = ListAudioDevices"
| "cmd_request (Cmd_SetAudioConfig a) = SetAudioConfig a"
| "cmd_request Cmd_GetAudioStatus = GetAudioStatus"

fun response_update :: "response \<Rightarrow> gui_update option" where
  "response_update (RespStatus s l ps a) = Some (Upd_Status s l ps a)"
| "response_update (RespConfig c) = Some (Upd_Config c)"
| "response_update (RespPeers ps) = Some (Upd_PeerSnapshot ps)"
| "response_update (RespLocalIdentity m f) = Some (Upd_LocalIdentity m f)"
| "response_update (RespTrustedPeers ps) = Some (Upd_TrustedSnapshot ps)"
| "response_update (RespAudioDevices i out) = Some (Upd_AudioDevices i out)"
| "response_update (RespAudioStatus ps) = Some (Upd_AudioStatusSnapshot ps)"
| "response_update RespOk = None"
| "response_update (RespError e) = None"

subsection \<open>The dispatcher\<close>

definition COMMAND_CONNECT_TIMEOUT :: nat where "COMMAND_CONNECT_TIMEOUT = 5000"

text \<open>
  Connection attempts, each with the time since the first: the first success, or the first failure after the timeout.
  \<open>None\<close> while the attempts seen so far do not settle it.
\<close>

fun connect_retry :: "(nat \<times> (string, 'c) result) list \<Rightarrow> (string, 'c) result option" where
  "connect_retry [] = None"
| "connect_retry ((elapsed, Inr c) # rest) = Some (Ok c)"
| "connect_retry ((elapsed, Inl e) # rest) =
     (if COMMAND_CONNECT_TIMEOUT \<le> elapsed then Some (Err e) else connect_retry rest)"

text \<open>What one command gives the user interface; an open connection is the answer it gives to a request.\<close>

definition run_command :: "(string, request \<Rightarrow> (string, response) result) result \<Rightarrow> cmd \<Rightarrow> gui_update list" where
  "run_command conn c =
     (case conn of
        Inl e \<Rightarrow> [Upd_Error (''dispatch connect: '' @ e)]
      | Inr ask \<Rightarrow>
          (case ask (cmd_request c) of
             Inr r \<Rightarrow> (case response_update r of Some u \<Rightarrow> [u] | None \<Rightarrow> [])
           | Inl e \<Rightarrow> [Upd_Error e]))"

subsection \<open>The reader\<close>

text \<open>A step of the bootstrap: an error of the call ends it, an answer of another kind is ignored.\<close>

definition ask_for ::
  "(request \<Rightarrow> (string, response) result) \<Rightarrow> request \<Rightarrow> (response \<Rightarrow> bool) \<Rightarrow> (string, gui_update list) result" where
  "ask_for ask req expected =
     (case ask req of
        Inl e \<Rightarrow> Err e
      | Inr r \<Rightarrow> Ok (if expected r then (case response_update r of Some u \<Rightarrow> [u] | None \<Rightarrow> []) else []))"

definition bootstrap_plan :: "(request \<times> (response \<Rightarrow> bool)) list" where
  "bootstrap_plan =
     [(GetConfig, \<lambda>r. case r of RespConfig _ \<Rightarrow> True | _ \<Rightarrow> False),
      (GetStatus, \<lambda>r. case r of RespStatus _ _ _ _ \<Rightarrow> True | _ \<Rightarrow> False),
      (GetLocalIdentity, \<lambda>r. case r of RespLocalIdentity _ _ \<Rightarrow> True | _ \<Rightarrow> False),
      (ListPeers, \<lambda>r. case r of RespPeers _ \<Rightarrow> True | _ \<Rightarrow> False),
      (ListTrustedPeers, \<lambda>r. case r of RespTrustedPeers _ \<Rightarrow> True | _ \<Rightarrow> False),
      (GetAudioStatus, \<lambda>r. case r of RespAudioStatus _ \<Rightarrow> True | _ \<Rightarrow> False)]"

text \<open>The \<open>k\<close>-th call meets the daemon as it is then.  The updates already sent stay sent when a call fails.\<close>

fun bootstrap_from ::
  "(nat \<Rightarrow> request \<Rightarrow> (string, response) result) \<Rightarrow> nat \<Rightarrow> (request \<times> (response \<Rightarrow> bool)) list
   \<Rightarrow> gui_update list \<times> (string, unit) result" where
  "bootstrap_from ask k [] = ([], Ok ())"
| "bootstrap_from ask k ((req, expected) # plan) =
     (case ask_for (ask k) req expected of
        Inl e \<Rightarrow> ([], Err e)
      | Inr us \<Rightarrow> (case bootstrap_from ask (Suc k) plan of (us', r) \<Rightarrow> (us @ us', r)))"

definition bootstrap :: "(nat \<Rightarrow> request \<Rightarrow> (string, response) result) \<Rightarrow> gui_update list \<times> (string, unit) result" where
  "bootstrap ask = bootstrap_from ask 0 bootstrap_plan"

definition LAUNCH_GRACE :: nat where "LAUNCH_GRACE = 5000"
definition SPAWN_THROTTLE :: nat where "SPAWN_THROTTLE = 3000"

definition in_launch_grace :: "nat option \<Rightarrow> nat \<Rightarrow> nat \<Rightarrow> bool" where
  "in_launch_grace last_spawn now grace = (case last_spawn of None \<Rightarrow> False | Some t \<Rightarrow> now - t < grace)"

definition should_spawn :: "bool \<Rightarrow> nat option \<Rightarrow> nat \<Rightarrow> bool" where
  "should_spawn wanted last_spawn now \<longleftrightarrow>
     wanted \<and> (case last_spawn of None \<Rightarrow> True | Some t \<Rightarrow> SPAWN_THROTTLE \<le> now - t)"

record reader =
  rd_backoff :: nat
  rd_last_spawn :: "nat option"
  rd_spawn_error :: "string option"

definition reader_init :: reader where
  "reader_init = \<lparr> rd_backoff = 500, rd_last_spawn = None, rd_spawn_error = None \<rparr>"

text \<open>
  One iteration of the reader meets: the connection (or its error), the answer to \<^verbatim>\<open>Subscribe\<close>, the second connection
  for the snapshots and its answers, whether the first can be made blocking, the messages streamed with the configuration
  a refetch gives, the error that ends the stream and how long the connection lasted; and without a connection the time,
  whether a daemon is wanted, what launching it gives and when.
\<close>

record reader_world =
  rw_connect :: "(string, unit) result"
  rw_subscribe :: "(string, response) result"
  rw_unexpected :: "response \<Rightarrow> string"
  rw_snapshot :: "(string, nat \<Rightarrow> request \<Rightarrow> (string, response) result) result"
  rw_blocking :: "(string, unit) result"
  rw_stream :: "(event \<times> config option) list"
  rw_stream_error :: string
  rw_lasted :: nat
  rw_now :: nat
  rw_no_socket :: "string \<Rightarrow> string"
  rw_wanted :: bool
  rw_spawn :: "(string, unit) result"
  rw_spawned_at :: nat

definition starting_msg :: string where
  "starting_msg = ''starting synbadd'' @ [CHR 0xE2, CHR 0x80, CHR 0xA6]"

definition next_backoff :: "nat \<Rightarrow> nat" where
  "next_backoff b = min (2 * b) 10000"

definition reader_setup :: "reader_world \<Rightarrow> gui_update list \<times> (string, unit) result" where
  "reader_setup w =
     (case rw_subscribe w of
        Inl e \<Rightarrow> ([], Err e)
      | Inr r \<Rightarrow>
          if r \<noteq> RespOk then ([], Err (''unexpected subscribe response: '' @ rw_unexpected w r))
          else
            (case rw_snapshot w of
               Inl e \<Rightarrow> ([], Err e)
             | Inr ask \<Rightarrow>
                 (case bootstrap ask of
                    (us, Inl e) \<Rightarrow> (us, Err e)
                  | (us, Inr _) \<Rightarrow> (us, rw_blocking w))))"

definition stream_updates :: "(event \<times> config option) list \<Rightarrow> gui_update list" where
  "stream_updates evs = concat (map (\<lambda>(ev, cfg). case event_update cfg ev of Some u \<Rightarrow> [u] | None \<Rightarrow> []) evs)"

definition reader_step :: "reader_world \<Rightarrow> reader \<Rightarrow> reader \<times> gui_update list" where
  "reader_step w r =
     (case rw_connect w of
        Inr _ \<Rightarrow>
          (let r1 = r\<lparr> rd_spawn_error := None \<rparr> in
           case reader_setup w of
             (us, Inl e) \<Rightarrow> (r1\<lparr> rd_backoff := next_backoff (rd_backoff r1) \<rparr>, us @ [Upd_Disconnected e])
           | (us, Inr _) \<Rightarrow>
               (let b = (if 2000 \<le> rw_lasted w then 500 else rd_backoff r1) in
                (r1\<lparr> rd_backoff := next_backoff b \<rparr>,
                 us @ [Upd_Connected] @ stream_updates (rw_stream w) @ [Upd_Disconnected (rw_stream_error w)])))
      | Inl e \<Rightarrow>
          (let now = rw_now w;
               status = (case rd_spawn_error r of
                   Some msg \<Rightarrow> Upd_Disconnected msg
                 | None \<Rightarrow> if in_launch_grace (rd_last_spawn r) now LAUNCH_GRACE then Upd_Launching starting_msg
                           else Upd_Disconnected (rw_no_socket w e));
               (r1, us) =
                 (if should_spawn (rw_wanted w) (rd_last_spawn r) now then
                    (case rw_spawn w of
                       Inl msg \<Rightarrow> (r\<lparr> rd_spawn_error := Some msg, rd_last_spawn := Some (rw_spawned_at w) \<rparr>, [Upd_Disconnected msg])
                     | Inr _ \<Rightarrow> (r\<lparr> rd_spawn_error := None, rd_last_spawn := Some (rw_spawned_at w) \<rparr>, [Upd_Launching starting_msg]))
                  else (r, []))
           in (r1\<lparr> rd_backoff := next_backoff (rd_backoff r1) \<rparr>, status # us)))"

definition autostart_at_startup :: "(config_error, config option) result \<Rightarrow> bool" where
  "autostart_at_startup loaded = (case loaded of Inr (Some cfg) \<Rightarrow> autostart cfg | _ \<Rightarrow> True)"

definition synbadd_binary :: "path option \<Rightarrow> (path \<Rightarrow> bool) \<Rightarrow> path" where
  "synbadd_binary self_exe exists =
     (case Option.bind self_exe parent of
        Some dir \<Rightarrow> if exists (dir @ [''synbadd'']) then dir @ [''synbadd''] else [''synbadd'']
      | None \<Rightarrow> [''synbadd''])"

definition launch_failure_msg :: "path \<Rightarrow> string \<Rightarrow> string" where
  "launch_failure_msg p err = ''could not launch synbadd at '' @ to_string_lossy p @ '': '' @ err"

subsection \<open>Launching the daemon\<close>

definition spawns :: "reader_world \<Rightarrow> reader \<Rightarrow> bool" where
  "spawns w r \<longleftrightarrow> \<not> is_ok (rw_connect w) \<and> should_spawn (rw_wanted w) (rd_last_spawn r) (rw_now w)"

text \<open>A run of iterations, with the time of every launch.\<close>

fun reader_run :: "reader \<Rightarrow> reader_world list \<Rightarrow> reader \<times> nat list" where
  "reader_run r [] = (r, [])"
| "reader_run r (w # ws) =
     (case reader_run (fst (reader_step w r)) ws of
        (r', ts) \<Rightarrow> (r', if spawns w r then rw_now w # ts else ts))"

text \<open>The clock never runs backwards within an iteration or from one to the next.\<close>

definition clocked :: "reader_world list \<Rightarrow> bool" where
  "clocked ws \<longleftrightarrow> sorted (concat (map (\<lambda>w. [rw_now w, rw_spawned_at w]) ws))"

lemma clocked_Cons: "clocked (w # ws) \<longleftrightarrow>
    rw_now w \<le> rw_spawned_at w \<and> (\<forall>v \<in> set ws. rw_spawned_at w \<le> rw_now v \<and> rw_spawned_at w \<le> rw_spawned_at v) \<and> clocked ws"
  by (auto simp: clocked_def)

lemma reader_step_spawn: "rd_last_spawn (fst (reader_step w r)) = (if spawns w r then Some (rw_spawned_at w) else rd_last_spawn r)"
  by (auto simp: reader_step_def spawns_def Let_def is_ok_def split: sum.splits prod.splits if_splits)

lemma reader_step_backoff:
  "500 \<le> rd_backoff r \<Longrightarrow> rd_backoff r \<le> 10000 \<Longrightarrow>
   500 \<le> rd_backoff (fst (reader_step w r)) \<and> rd_backoff (fst (reader_step w r)) \<le> 10000"
  by (auto simp: reader_step_def next_backoff_def Let_def split: sum.splits prod.splits if_splits)

lemma fst_reader_run: "fst (reader_run r (w # ws)) = fst (reader_run (fst (reader_step w r)) ws)"
  by (simp split: prod.split)

lemma reader_run_backoff:
  "500 \<le> rd_backoff r \<Longrightarrow> rd_backoff r \<le> 10000 \<Longrightarrow>
   500 \<le> rd_backoff (fst (reader_run r ws)) \<and> rd_backoff (fst (reader_run r ws)) \<le> 10000"
proof (induction ws arbitrary: r)
  case (Cons w ws)
  then show ?case unfolding fst_reader_run using reader_step_backoff by blast
qed simp

text \<open>Launches come in order, each later than the throttle after the last one before.\<close>

lemma reader_run_spaced:
  assumes "clocked ws" and "reader_run r ws = (r', ts)"
  shows "sorted_wrt (\<lambda>a b. a + SPAWN_THROTTLE \<le> b) ts
       \<and> (\<forall>t. rd_last_spawn r = Some t \<longrightarrow> (\<forall>b \<in> set ts. t + SPAWN_THROTTLE \<le> b \<or> b < t))
       \<and> set ts \<subseteq> rw_now ` {w \<in> set ws. rw_wanted w \<and> \<not> is_ok (rw_connect w)}"
  using assms
proof (induction ws arbitrary: r ts)
  case (Cons w ws)
  obtain ts' where t: "reader_run (fst (reader_step w r)) ws = (r', ts')" "ts = (if spawns w r then rw_now w # ts' else ts')"
    using Cons.prems(2) by (cases "reader_run (fst (reader_step w r)) ws") auto
  have c: "clocked ws" "rw_now w \<le> rw_spawned_at w" "\<And>v. v \<in> set ws \<Longrightarrow> rw_spawned_at w \<le> rw_now v"
    using Cons.prems(1) by (auto simp: clocked_Cons)
  note ih = Cons.IH [OF c(1) t(1)]
  show ?case
  proof (cases "spawns w r")
    case False
    then show ?thesis using ih t(2) by (auto simp: reader_step_spawn)
  next
    case True
    have later: "rw_spawned_at w \<le> b" if "b \<in> set ts'" for b using ih c(3) that by auto
    then have "rw_now w + SPAWN_THROTTLE \<le> b" if "b \<in> set ts'" for b
      using ih True that c(2) by (fastforce simp: reader_step_spawn)
    moreover have "t + SPAWN_THROTTLE \<le> rw_now w" if "rd_last_spawn r = Some t" for t
      using True that by (auto simp: spawns_def should_spawn_def SPAWN_THROTTLE_def)
    ultimately show ?thesis
      using ih True t(2) by (auto simp: spawns_def should_spawn_def SPAWN_THROTTLE_def intro: order_trans) (meson add_leD1 le_trans)+
  qed
qed simp

subsection \<open>Properties\<close>

text \<open>A crashing daemon is not relaunched in a loop: over any run of the reader, two launches are at least three
  seconds apart, the daemon is only launched when the connection failed and the user wants it, and the pause between
  attempts stays between half a second and ten seconds.\<close>

theorem launches_are_throttled:
  assumes "clocked ws" and "reader_run reader_init ws = (r, ts)"
  shows "sorted_wrt (\<lambda>a b. a + 3000 \<le> b) ts
       \<and> set ts \<subseteq> rw_now ` {w \<in> set ws. rw_wanted w \<and> \<not> is_ok (rw_connect w)}
       \<and> 500 \<le> rd_backoff r \<and> rd_backoff r \<le> 10000"
proof -
  have "500 \<le> rd_backoff r \<and> rd_backoff r \<le> 10000"
    using reader_run_backoff [of reader_init ws] assms(2) by (simp add: reader_init_def)
  then show ?thesis using reader_run_spaced [OF assms] by (simp add: SPAWN_THROTTLE_def)
qed

definition absent_daemon :: "nat \<Rightarrow> reader_world" where
  "absent_daemon now = \<lparr> rw_connect = Err ''refused'', rw_subscribe = Err [], rw_unexpected = (\<lambda>_. []), rw_snapshot = Err [],
     rw_blocking = Ok (), rw_stream = [], rw_stream_error = [], rw_lasted = 0, rw_now = now, rw_no_socket = (\<lambda>e. e),
     rw_wanted = True, rw_spawn = Ok (), rw_spawned_at = now \<rparr>"

text \<open>A daemon that never comes up is launched at once, not half a second later, and again after three seconds.\<close>

theorem launches_are_throttled_witness:
  "snd (reader_run reader_init (map absent_daemon [0, 500, 3500])) = [0, 3500]
   \<and> sorted_wrt (\<lambda>a b. a + 3000 \<le> b) (snd (reader_run reader_init (map absent_daemon [0, 500, 3500])))"
proof -
  let ?ws = "map absent_daemon [0, 500, 3500]"
  obtain r ts where run: "reader_run reader_init ?ws = (r, ts)" by fastforce
  have "clocked ?ws" by (simp add: clocked_def absent_daemon_def)
  then have "sorted_wrt (\<lambda>a b. a + 3000 \<le> b) ts" using launches_are_throttled [OF _ run] by blast
  moreover have "ts = [0, 3500]"
    using run by (auto simp: reader_step_def spawns_def should_spawn_def SPAWN_THROTTLE_def absent_daemon_def reader_init_def
        in_launch_grace_def LAUNCH_GRACE_def Let_def)
  ultimately show ?thesis using run by simp
qed

end
