(* ===== verification/Event_Mirror.thy ===== *)
theory Event_Mirror
  imports Run_Loop
begin

text \<open>
  What the daemon shows its clients, and the events it sends about it.  \<open>daemon_view\<close> is what a status and a peer
  request answer; \<open>view_step\<close> is what a client does to such a view when an event arrives.  Every operation of the
  supervisor keeps the two in step: the view changes exactly as the events it appends say.
\<close>

text \<open>A peer without its protocol version, the one field whose change alone is not announced.\<close>

definition announced :: "discovered_peer \<Rightarrow> discovered_peer" where
  "announced p = p\<lparr> dp_protocol_version := 0 \<rparr>"

record view =
  vw_state :: daemon_state
  vw_connected :: "string set"
  vw_active :: "string option"
  vw_peers :: "string \<Rightarrow> discovered_peer option"

definition daemon_view :: "supervisor \<Rightarrow> view" where
  "daemon_view s = \<lparr> vw_state = s_state s, vw_connected = s_connected_peers s, vw_active = s_active_screen s,
     vw_peers = (\<lambda>m. map_option announced (map_of (v_peers s) m)) \<rparr>"

fun view_step :: "view \<Rightarrow> event \<Rightarrow> view" where
  "view_step v (EvState st) =
     (if is_running st then v\<lparr> vw_state := st \<rparr> else v\<lparr> vw_state := st, vw_connected := {}, vw_active := None \<rparr>)"
| "view_step v (EvPeerConnected n) = v\<lparr> vw_connected := insert n (vw_connected v) \<rparr>"
| "view_step v (EvPeerDisconnected n) = v\<lparr> vw_connected := vw_connected v - {n} \<rparr>"
| "view_step v (EvActiveScreen n) = v\<lparr> vw_active := Some n \<rparr>"
| "view_step v (EvPeerDiscovered p) = v\<lparr> vw_peers := (vw_peers v)(dp_machine_id p \<mapsto> announced p) \<rparr>"
| "view_step v (EvPeerLost m) = v\<lparr> vw_peers := (vw_peers v)(m := None) \<rparr>"
| "view_step v _ = v"

text \<open>Since the events \<open>E\<close> and the view \<open>V\<close>, the supervisor has sent events that lead from \<open>V\<close> to its view.\<close>

definition tracks :: "event list \<Rightarrow> view \<Rightarrow> supervisor \<Rightarrow> bool" where
  "tracks E V s \<longleftrightarrow> (\<exists>es. s_events s = E @ es \<and> daemon_view s = foldl view_step V es)"

lemma tracks_refl: "tracks (s_events s) (daemon_view s) s"
  by (simp add: tracks_def)

lemma tracks_cong:
  "s_events t = s_events s \<Longrightarrow> daemon_view t = daemon_view s \<Longrightarrow> tracks E V t = tracks E V s"
  by (simp add: tracks_def)

lemma tracks_sent:
  assumes "tracks E V s" and "s_events t = s_events s @ [e]" and "daemon_view t = view_step (daemon_view s) e"
  shows "tracks E V t"
proof -
  obtain es where "s_events s = E @ es" "daemon_view s = foldl view_step V es" using assms(1) by (auto simp: tracks_def)
  then have "s_events t = E @ (es @ [e])" "daemon_view t = foldl view_step V (es @ [e])" using assms(2,3) by simp_all
  then show ?thesis unfolding tracks_def by blast
qed

lemma tracks_fields [simp]:
  "tracks E V (s\<lparr> s_config := x1 \<rparr>) = tracks E V s" "tracks E V (s\<lparr> s_log_tail := x2 \<rparr>) = tracks E V s"
  "tracks E V (s\<lparr> s_desired_running := x3 \<rparr>) = tracks E V s" "tracks E V (s\<lparr> s_child_kill := x4 \<rparr>) = tracks E V s"
  "tracks E V (s\<lparr> s_backoff := x5 \<rparr>) = tracks E V s" "tracks E V (s\<lparr> s_restart_at := x6 \<rparr>) = tracks E V s"
  "tracks E V (s\<lparr> s_exits := x7 \<rparr>) = tracks E V s" "tracks E V (s\<lparr> s_child_pid := x8 \<rparr>) = tracks E V s"
  "tracks E V (s\<lparr> s_core_resolving := x9 \<rparr>) = tracks E V s" "tracks E V (s\<lparr> s_shutdown := x10 \<rparr>) = tracks E V s"
  "tracks E V (s\<lparr> s_core_ready_at := x11 \<rparr>) = tracks E V s" "tracks E V (s\<lparr> s_core_connect_deadline := x12 \<rparr>) = tracks E V s"
  "tracks E V (s\<lparr> s_core_disk_log := x13 \<rparr>) = tracks E V s" "tracks E V (s\<lparr> s_fast_fail_count := x14 \<rparr>) = tracks E V s"
  "tracks E V (s\<lparr> s_fs := x15 \<rparr>) = tracks E V s" "tracks E V (s\<lparr> s_tasks := x16 \<rparr>) = tracks E V s"
  "tracks E V (s\<lparr> s_spawns := x17 \<rparr>) = tracks E V s" "tracks E V (s\<lparr> s_killed := x18 \<rparr>) = tracks E V s"
  "tracks E V (s\<lparr> v_versioned := y1 \<rparr>) = tracks E V s" "tracks E V (s\<lparr> v_trust := y2 \<rparr>) = tracks E V s"
  "tracks E V (s\<lparr> v_pairing_confirm := y3 \<rparr>) = tracks E V s" "tracks E V (s\<lparr> v_pairing_tasks := y4 \<rparr>) = tracks E V s"
  "tracks E V (s\<lparr> v_decisions := y5 \<rparr>) = tracks E V s" "tracks E V (s\<lparr> v_sync_tasks := y6 \<rparr>) = tracks E V s"
  "tracks E V (s\<lparr> v_sync_confirmed := y7 \<rparr>) = tracks E V s" "tracks E V (s\<lparr> v_sync_backoff := y8 \<rparr>) = tracks E V s"
  "tracks E V (s\<lparr> v_audio := y9 \<rparr>) = tracks E V s" "tracks E V (s\<lparr> v_audio_listener := y10 \<rparr>) = tracks E V s"
  "tracks E V (s\<lparr> v_audio_dial_deps := y11 \<rparr>) = tracks E V s" "tracks E V (s\<lparr> v_audio_inflight := y12 \<rparr>) = tracks E V s"
  "tracks E V (s\<lparr> v_audio_live := y13 \<rparr>) = tracks E V s" "tracks E V (s\<lparr> v_audio_backoff := y14 \<rparr>) = tracks E V s"
  "tracks E V (s\<lparr> v_advert := y15 \<rparr>) = tracks E V s" "tracks E V (s\<lparr> v_browser := y16 \<rparr>) = tracks E V s"
  "tracks E V (s\<lparr> v_pairing_name := y17 \<rparr>) = tracks E V s" "tracks E V (s\<lparr> v_pairing_listener := y18 \<rparr>) = tracks E V s"
  "tracks E V (s\<lparr> v_incoming_pairings := y19 \<rparr>) = tracks E V s" "tracks E V (s\<lparr> v_sync_listener := y20 \<rparr>) = tracks E V s"
  "tracks E V (s\<lparr> v_listener_ports := y21 \<rparr>) = tracks E V s" "tracks E V (s\<lparr> v_audio_dials := y22 \<rparr>) = tracks E V s"
  "tracks E V (s\<lparr> v_audio_cmds := y23 \<rparr>) = tracks E V s"
  by (simp_all add: tracks_def daemon_view_def)

subsection \<open>The operations of the Core\<close>

text \<open>Events that no client's view depends on.\<close>

definition silent :: "event \<Rightarrow> bool" where
  "silent e \<longleftrightarrow> (\<forall>v. view_step v e = v)"

lemma tracks_silent: "silent e \<Longrightarrow> tracks E V s \<Longrightarrow> tracks E V (send_event e s)"
  by (rule tracks_sent) (auto simp: silent_def send_event_def daemon_view_def)

lemma silent_events [simp]:
  "silent (EvLog l)" "silent EvConfigChanged" "silent (EvTrustRevoked m)" "silent (EvAudioPeerStatus st)"
  "silent (EvAudioError p msg)" "silent EvAudioDevicesChanged" "silent (EvAudioPeerRemoved m)"
  by (simp_all add: silent_def)

lemma tracks_set_state: "tracks E V s \<Longrightarrow> tracks E V (set_state st s)"
  by (cases "s_state s = st")
    (auto simp: set_state_def Let_def send_event_def daemon_view_def intro: tracks_sent)

lemma tracks_record_log: "tracks E V s \<Longrightarrow> tracks E V (record_log line s)"
proof -
  assume t: "tracks E V s"
  let ?s1 = "s\<lparr> s_log_tail := push_log line (s_log_tail s) \<rparr>"
  have "tracks E V ?s1" using t by simp
  then have "tracks E V (case log_parse line of Some e \<Rightarrow> send_event e (note_structured e ?s1) | None \<Rightarrow> ?s1)"
    by (auto simp: log_parse_def Let_def note_structured_def send_event_def daemon_view_def
        intro: tracks_sent split: option.splits)
  then show ?thesis by (simp add: record_log_def Let_def tracks_silent)
qed

lemma tracks_schedule: "tracks E V (fst (schedule_restart now s)) = tracks E V s"
  by (simp add: schedule_restart_def restart_backoff_def Let_def)

named_theorems tracks_intro \<open>operations that keep the view in step with the events\<close>

lemmas [tracks_intro] = tracks_set_state tracks_record_log tracks_silent

lemma tracks_start_core [tracks_intro]: "tracks E V s \<Longrightarrow> tracks E V (start_core s)"
  by (simp add: start_core_def Let_def tracks_set_state)

lemma tracks_start_failed [tracks_intro]: "tracks E V s \<Longrightarrow> tracks E V (start_failed now what s)"
  by (auto simp: start_failed_def Let_def schedule_restart_def restart_backoff_def intro!: tracks_intro)

lemma tracks_artefacts: "write_core_artefacts d fl s = (t, r) \<Longrightarrow> tracks E V s \<Longrightarrow> tracks E V t"
  by (auto simp: write_core_artefacts_def Let_def split: prod.splits sum.splits)

lemma tracks_spawn: "spawn_child now ans program args s = (t, r) \<Longrightarrow> tracks E V s \<Longrightarrow> tracks E V t"
  by (auto simp: spawn_child_def Let_def intro!: tracks_intro split: spawn_answer.splits option.splits if_splits)

lemma tracks_on_core_resolved [tracks_intro]:
  assumes "tracks E V s" shows "tracks E V (on_core_resolved d show_io fl now ans outcome s)"
proof -
  let ?s = "s\<lparr> s_core_resolving := False \<rparr>"
  obtain s1 r1 where a: "write_core_artefacts d fl ?s = (s1, r1)" by fastforce
  have t: "tracks E V ?s" "tracks E V s1" using assms tracks_artefacts [OF a] by simp_all
  have "tracks E V (case spawn_child now ans program args s1 of (s2, Inl e) \<Rightarrow> start_failed now e s2 | (s2, Inr _) \<Rightarrow> s2)"
    for program args
    using tracks_spawn [OF _ t(2)] tracks_start_failed
    by (cases "spawn_child now ans program args s1"; cases "snd (spawn_child now ans program args s1)") auto
  then have "tracks E V (case build_command resolved (s_config s1) (generated_conf d) (generated_settings d) of
      Inl e \<Rightarrow> set_state (Crashed None) (record_log (''[synbad] bad Core command line: '' @ e) s1)
    | Inr (program, args) \<Rightarrow>
        (case spawn_child now ans program args s1 of (s2, Inl e) \<Rightarrow> start_failed now e s2 | (s2, Inr _) \<Rightarrow> s2))" for resolved
    using t(2) tracks_set_state tracks_record_log by (simp split: sum.split prod.split)
  then show ?thesis
    unfolding on_core_resolved_def Let_def a
    using t tracks_start_failed by (cases outcome; cases r1) simp_all
qed

lemma tracks_stop_core [tracks_intro]: "tracks E V s \<Longrightarrow> tracks E V (stop_core arrivals s)"
  by (auto simp: stop_core_def Let_def intro!: tracks_intro split: option.splits)

lemma tracks_restart_core [tracks_intro]: "tracks E V s \<Longrightarrow> tracks E V (restart_core arrivals s)"
  by (simp add: restart_core_def tracks_intro)

lemma tracks_retire [tracks_intro]: "tracks E V s \<Longrightarrow> tracks E V (retire_child now pid status s)"
  by (simp add: retire_child_def Let_def tracks_record_log)

lemma tracks_repeated [tracks_intro]: "tracks E V s \<Longrightarrow> tracks E V (note_repeated_failure code s)"
  by (simp add: note_repeated_failure_def tracks_record_log)

lemma tracks_retry [tracks_intro]: "tracks E V s \<Longrightarrow> tracks E V (retry_after_exit now code s)"
proof -
  assume "tracks E V s"
  then have "tracks E V (fst (schedule_restart now (note_repeated_failure code s)))"
    by (simp add: tracks_schedule tracks_repeated)
  then show ?thesis
    by (simp add: retry_after_exit_def Let_def case_prod_beta tracks_set_state tracks_record_log)
qed

lemma tracks_child_exit [tracks_intro]: "tracks E V s \<Longrightarrow> tracks E V (handle_child_exit now pid status s)"
  by (simp add: handle_child_exit_def Let_def tracks_set_state tracks_retire tracks_retry)

lemma tracks_core_stalled [tracks_intro]: "tracks E V s \<Longrightarrow> tracks E V (core_stalled s)"
  by (auto simp: core_stalled_def Let_def intro!: tracks_intro split: option.splits)

lemma tracks_restart_due [tracks_intro]: "tracks E V s \<Longrightarrow> tracks E V (restart_due s)"
  by (simp add: restart_due_def Let_def tracks_intro)

lemma tracks_core_log [tracks_intro]: "tracks E V s \<Longrightarrow> tracks E V (handle_core_log now pid line s)"
  by (auto simp: handle_core_log_def maybe_force_reconnect_def Let_def intro!: tracks_intro split: option.splits)

lemma tracks_requests [tracks_intro]:
  "tracks E V s \<Longrightarrow> tracks E V (request_start d fl s)" "tracks E V s \<Longrightarrow> tracks E V (request_stop d fl arrivals s)"
  "tracks E V s \<Longrightarrow> tracks E V (request_restart d fl arrivals s)" "tracks E V s \<Longrightarrow> tracks E V (launch d fl s)"
  "tracks E V s \<Longrightarrow> tracks E V (restart_if_needed arrivals b s)"
  by (simp_all add: request_start_def request_stop_def request_restart_def launch_def restart_if_needed_def
      persist_user_stopped_def tracks_intro)

subsection \<open>The operations of the supervisor\<close>

lemma tracks_same_core:
  assumes "same_core t s" and "v_peers t = v_peers s"
  shows "tracks E V t = tracks E V s"
proof -
  have "core_sup.truncate t = core_sup.truncate s" using assms(1) by (simp add: same_core_def)
  then have "s_events t = s_events s" "daemon_view t = daemon_view s"
    using assms(2) by (simp_all add: core_sup.truncate_def daemon_view_def)
  then show ?thesis by (rule tracks_cong)
qed

lemma tracks_offer [simp]: "tracks E V (offer_command c s) = tracks E V s"
  by (simp add: offer_command_def)

lemma tracks_dials [simp]: "tracks E V (reconcile_audio_sessions busy now s) = tracks E V s"
proof -
  have "tracks E V (fold (dial_audio_one busy now) ps s) = tracks E V s" for ps
    by (induction ps arbitrary: s) (simp_all add: dial_audio_one_def Let_def)
  then show ?thesis by (simp add: reconcile_audio_sessions_def)
qed

lemma tracks_pull [simp]: "tracks E V (maybe_pull_from head busy now p s) = tracks E V s"
  by (simp add: maybe_pull_from_def Let_def)

lemma tracks_pulls [simp]: "tracks E V (fold (maybe_pull_from head busy now) ps s) = tracks E V s"
  by (induction ps arbitrary: s) simp_all

lemma tracks_audio [simp]:
  "tracks E V (teardown_audio_subsystem w s) = tracks E V s" "tracks E V (ensure_audio_subsystem w s) = tracks E V s"
  "tracks E V (reconcile_audio_subsystem w s) = tracks E V s"
  by (simp_all add: teardown_audio_subsystem_def ensure_audio_subsystem_def reconcile_audio_subsystem_def Let_def)

lemma tracks_push [simp]: "tracks E V (push_to_trusted_peers head busy now s) = tracks E V s"
  by (simp add: push_to_trusted_peers_def)

lemma tracks_settle [simp]: "tracks E V (fold (settle_sync now) ts s) = tracks E V s"
  by (induction ts arbitrary: s) (simp_all add: settle_sync_def Let_def split: prod.split)

lemma tracks_repairs [simp]:
  "tracks E V (repair_discovery head w s) = tracks E V s" "tracks E V (repair_pairing w s) = tracks E V s"
  "tracks E V (repair_sync w s) = tracks E V s"
  by (simp_all add: repair_discovery_def repair_pairing_def repair_sync_def Let_def)

lemma tracks_repair_audio [simp]: "tracks E V (repair_audio w s) = tracks E V s"
proof -
  let ?s1 = "if snd (snd (v_listener_ports s)) \<noteq> signal_port (audio (s_config s)) \<or> (v_audio s \<and> w_audio_ended w)
     then teardown_audio_subsystem w s else s"
  have "tracks E V (offer_command (Reconfigure (audio (s_config s))) (reconcile_audio_subsystem w ?s1)) = tracks E V s"
    by simp
  moreover define s2 where "s2 = offer_command (Reconfigure (audio (s_config s))) (reconcile_audio_subsystem w ?s1)"
  ultimately show ?thesis by (simp add: repair_audio_def Let_def flip: s2_def)
qed

lemma tracks_services [simp]: "tracks E V (reconcile_network_services head w s) = tracks E V s"
  by (simp add: reconcile_network_services_def Let_def)

lemma tracks_tick [simp]: "tracks E V (reconcile_tick api w s) = tracks E V s"
  by (simp add: reconcile_tick_def gc_pairing_tasks_def reconcile_sync_sessions_def Let_def)

lemma tracks_local_edit [tracks_intro]: "tracks E V s \<Longrightarrow> tracks E V (apply_local_edit api d w c b s)"
  by (auto simp: apply_local_edit_def Let_def persist_sidecar_def intro!: tracks_intro split: prod.splits)

lemma tracks_set_config [tracks_intro]: "tracks E V s \<Longrightarrow> tracks E V (fst (set_config api d w c s))"
  by (auto simp: set_config_def intro!: tracks_intro split: sum.splits prod.splits)

lemma tracks_config_changed [tracks_intro]: "tracks E V s \<Longrightarrow> tracks E V (handle_config_changed api d w s)"
  by (auto simp: handle_config_changed_def intro!: tracks_intro split: sum.splits option.splits)

lemma tracks_sync_op [tracks_intro]: "tracks E V s \<Longrightarrow> tracks E V (fst (handle_sync_op api d w op s))"
  by (auto simp: handle_sync_op_def roll_back_merge_def adopt_merge_def persist_sidecar_def Let_def intro!: tracks_intro
      split: sync_op.splits prod.splits sum.splits option.splits)

lemma tracks_audio_event [tracks_intro]: "tracks E V s \<Longrightarrow> tracks E V (handle_audio_event now ev s)"
  by (auto simp: handle_audio_event_def intro!: tracks_intro split: audio_event.splits option.splits)

lemma tracks_dial_outcome [simp]: "tracks E V (handle_audio_dial_outcome now outcome s) = tracks E V s"
  by (simp add: handle_audio_dial_outcome_def split: audio_dial_outcome.split)

lemma tracks_register [simp]: "tracks E V (register_pairing w sid s) = tracks E V s"
  by (simp add: register_pairing_def gc_pairing_tasks_def)

lemma same_peer_announced: "same_peer p q \<Longrightarrow> announced p = announced q"
  by (cases p; cases q) (simp add: same_peer_def announced_def)

lemma tracks_discovery [tracks_intro]:
  assumes "tracks E V s" shows "tracks E V (handle_discovery head busy now ev s)"
proof (cases ev)
  case (Found p)
  let ?s1 = "s\<lparr> v_peers := AList.update (dp_machine_id p) p (v_peers s) \<rparr>"
  have sent: "tracks E V (send_event (EvPeerDiscovered p) ?s1)"
    using assms by (rule tracks_sent) (auto simp: send_event_def daemon_view_def update_conv' fun_eq_iff)
  have quiet: "tracks E V ?s1" if "map_of (v_peers s) (dp_machine_id p) = Some q" "same_peer q p" for q
  proof -
    have "announced q = announced p" using that(2) by (rule same_peer_announced)
    then have "daemon_view ?s1 = daemon_view s"
      using that(1) by (auto simp: daemon_view_def update_conv' fun_eq_iff)
    then show ?thesis using assms tracks_cong [of ?s1 s] by simp
  qed
  show ?thesis
    using sent quiet by (auto simp: Found handle_discovery_def Let_def split: option.splits)
next
  case (Lost m)
  have "tracks E V (send_event (EvPeerLost m) (s\<lparr> v_peers := AList.delete m (v_peers s) \<rparr>))"
    using assms by (rule tracks_sent) (auto simp: send_event_def daemon_view_def delete_conv' fun_eq_iff)
  then show ?thesis using assms by (simp add: Lost handle_discovery_def)
qed

lemma tracks_handle_request:
  assumes "tracks E V s" and "handle_request api d tx w req s = (t, reply)"
  shows "tracks E V t"
proof -
  have sc: "tracks E V u" if "set_config api d w c s = (u, r)" for c u r
    using tracks_set_config [OF assms(1), of api d w c] that by simp
  have uac: "tracks E V u" if "update_audio_config api d w a s = (u, r)" for a u r
    using that sc
    by (cases "set_config api d w ((s_config s)\<lparr> audio := a \<rparr>) s"; cases "snd (set_config api d w ((s_config s)\<lparr> audio := a \<rparr>) s)")
      (auto simp: update_audio_config_def forget_demoted_def Let_def)
  have rv: "tracks E V u" if "revoke_trust api tx w m s = (u, r)" for m u r
    using assms(1) that by (auto simp: revoke_trust_def Let_def intro!: tracks_intro split: prod.splits sum.splits bool.splits)
  have sp: "tracks E V u" if "start_pairing tx w m s = (u, r)" for m u r
    using assms(1) that by (auto simp: start_pairing_def gc_pairing_tasks_def Let_def split: option.splits if_splits)
  show ?thesis
    using assms sc uac rv sp
    by (cases req) (auto simp: handle_request_def tracks_requests split: prod.splits sum.splits if_splits)
qed

lemma tracks_sup_step:
  assumes "sup_step api d tx show_io s t" and "tracks E V s" shows "tracks E V t"
  using assms
proof (cases rule: sup_step.cases)
  case (request w req reply)
  then show ?thesis using tracks_handle_request assms(2) by blast
qed (use assms(2) in \<open>simp_all add: tracks_intro\<close>)

inductive sup_run :: "daemon_api \<Rightarrow> dirs \<Rightarrow> texts \<Rightarrow> (path \<times> io_kind \<Rightarrow> string) \<Rightarrow> supervisor \<Rightarrow> supervisor \<Rightarrow> bool"
  for api :: daemon_api and d :: dirs and tx :: texts and show_io :: "path \<times> io_kind \<Rightarrow> string" where
  none: "sup_run api d tx show_io s s"
| more_steps: "sup_run api d tx show_io s t \<Longrightarrow> sup_step api d tx show_io t u \<Longrightarrow> sup_run api d tx show_io s u"

lemma sup_run_tracks: "sup_run api d tx show_io s t \<Longrightarrow> tracks E V s \<Longrightarrow> tracks E V t"
  by (induction rule: sup_run.induct) (auto dest: tracks_sup_step)

text \<open>Any two moments of a run: the events in between lead from one view to the other.\<close>

lemma run_view:
  assumes "sup_run api d tx show_io s t"
  obtains es where "s_events t = s_events s @ es" "daemon_view t = foldl view_step (daemon_view s) es"
  using sup_run_tracks [OF assms tracks_refl] by (auto simp: tracks_def)

lemma sup_run_trans: "sup_run api d tx show_io t u \<Longrightarrow> sup_run api d tx show_io s t \<Longrightarrow> sup_run api d tx show_io s u"
  by (induction rule: sup_run.induct) (auto intro: sup_run.more_steps)

lemma sup_run_reachable: "sup_run api d tx show_io s t \<Longrightarrow> sup_reachable api d tx show_io s \<Longrightarrow> sup_reachable api d tx show_io t"
  by (induction rule: sup_run.induct) (auto intro: sup_reachable.step)

subsection \<open>Replaying events over a newer snapshot\<close>

text \<open>
  A state whose observable registers are each left alone or overwritten by a step, whatever they held: running a
  sequence of steps again on a state that already has part of their effect gives the same registers.
\<close>

locale last_writer =
  fixes act :: "'u \<Rightarrow> 's \<Rightarrow> 's" and look :: "'s \<Rightarrow> 'k \<Rightarrow> 'v"
  assumes writes: "(\<forall>s. look (act u s) k = look s k) \<or> (\<exists>v. \<forall>s. look (act u s) k = v)"
begin

lemma run_writes:
  "(\<forall>s. look (foldl (\<lambda>s u. act u s) s us) k = look s k) \<or> (\<exists>v. \<forall>s. look (foldl (\<lambda>s u. act u s) s us) k = v)"
proof (induction us)
  case (Cons u us)
  from Cons show ?case
  proof
    assume same: "\<forall>s. look (foldl (\<lambda>s u. act u s) s us) k = look s k"
    show ?thesis unfolding foldl_Cons same [rule_format] by (rule writes)
  next
    assume "\<exists>v. \<forall>s. look (foldl (\<lambda>s u. act u s) s us) k = v"
    then show ?thesis unfolding foldl_Cons by blast
  qed
qed simp

lemma run_cong:
  assumes "look s k = look t k"
  shows "look (foldl (\<lambda>s u. act u s) s us) k = look (foldl (\<lambda>s u. act u s) t us) k"
  using run_writes [of us k] assms by metis

lemma replay:
  assumes "look t k = look (foldl (\<lambda>s u. act u s) s us) k"
  shows "look (foldl (\<lambda>s u. act u s) t (us @ vs)) k = look (foldl (\<lambda>s u. act u s) s (us @ vs)) k"
proof -
  have "look (foldl (\<lambda>s u. act u s) t us) k = look (foldl (\<lambda>s u. act u s) s us) k"
    using run_writes [of us k] assms by metis
  then show ?thesis unfolding foldl_append by (rule run_cong)
qed

end

text \<open>The registers of a view: the state, the active screen, each connected screen and each peer.\<close>

datatype view_register = Vr_State | Vr_Active | Vr_Connected string | Vr_Peer string

datatype view_value =
    Vv_State daemon_state
  | Vv_Active "string option"
  | Vv_Connected bool
  | Vv_Peer "discovered_peer option"

fun view_look :: "view \<Rightarrow> view_register \<Rightarrow> view_value" where
  "view_look v Vr_State = Vv_State (vw_state v)"
| "view_look v Vr_Active = Vv_Active (vw_active v)"
| "view_look v (Vr_Connected n) = Vv_Connected (n \<in> vw_connected v)"
| "view_look v (Vr_Peer m) = Vv_Peer (vw_peers v m)"

lemma view_eqI: "(\<And>k. view_look v k = view_look w k) \<Longrightarrow> v = w"
proof -
  assume eq: "\<And>k. view_look v k = view_look w k"
  have "vw_state v = vw_state w" "vw_active v = vw_active w" using eq [of Vr_State] eq [of Vr_Active] by simp_all
  moreover have "vw_connected v = vw_connected w"
    using eq [of "Vr_Connected n" for n] by (simp add: set_eq_iff)
  moreover have "vw_peers v = vw_peers w" using eq [of "Vr_Peer m" for m] by (simp add: fun_eq_iff)
  ultimately show ?thesis by (cases v; cases w) simp
qed

interpretation vw: last_writer "\<lambda>e v. view_step v e" view_look
proof
  fix e k
  show "(\<forall>v. view_look (view_step v e) k = view_look v k) \<or> (\<exists>x. \<forall>v. view_look (view_step v e) k = x)"
    by (cases e; cases k) auto
qed

subsection \<open>Properties\<close>

text \<open>The daemon announces everything it shows: between any two moments of a run, through any sequence of arms of
  the run loop, the events sent in between lead exactly from what a status and a peer request would have answered first
  (the Core's state, the connected screens, the active screen, every discovered peer but for its protocol version) to
  what they would answer now, and no event already sent is changed.\<close>

theorem daemon_announces_everything:
  assumes "sup_run api d tx show_io s t"
  shows "\<exists>es. s_events t = s_events s @ es \<and> daemon_view t = foldl view_step (daemon_view s) es"
  using assms by (rule run_view) blast

theorem daemon_announces_everything_witness:
  "\<exists>es. s_events (record_log ''[synbad] x'' demo_supervisor) = s_events demo_supervisor @ es
      \<and> daemon_view (record_log ''[synbad] x'' demo_supervisor) = foldl view_step (daemon_view demo_supervisor) es"
proof -
  have "sup_run demo_daemon_api demo_dirs demo_texts (\<lambda>_. ''io'') demo_supervisor (record_log ''[synbad] x'' demo_supervisor)"
    by (rule sup_run.more_steps [OF sup_run.none sup_step.daemon_log])
  then show ?thesis by (rule daemon_announces_everything)
qed

end
