(* ===== verification/Gui_App.thy ===== *)
theory Gui_App
  imports Gui_Ipc Event_Mirror
begin

text \<open>
  The state of the GUI (\<^verbatim>\<open>crates/synbad-gui/src/app/mod.rs\<close>): how it takes the updates of the two threads, the periodic
  reconciliation of the edited configuration, the buttons of the bottom bar, closing the window, and the update dialog
  (\<^verbatim>\<open>crates/synbad-gui/src/update.rs\<close>).  Drawing is left out.  Ordered maps are association lists, iterated in key order.
\<close>

record pending_pairing =
  pp_session_id :: string
  pp_machine_id :: string
  pp_display_name :: string
  pp_fingerprint :: string
  pp_code :: string

record sync_status =
  ss_message :: string
  ss_ok :: bool
  ss_at :: nat

text \<open>\<open>g_sent\<close> is what the GUI has put on the command channel, \<open>g_shutdowns\<close> how often it told the daemon to exit.\<close>

record gui_app =
  g_connected :: bool
  g_last_error :: "string option"
  g_launching :: "string option"
  g_state :: daemon_state
  g_log :: "string list"
  g_config :: config
  g_dirty :: bool
  g_pending_remote :: "config option"
  g_connected_peers :: "string set"
  g_active_screen :: "string option"
  g_discovered :: "(string \<times> discovered_peer) list"
  g_trusted :: "(string \<times> trusted_peer) list"
  g_pending_pairings :: "pending_pairing list"
  g_local_machine_id :: "string option"
  g_local_fingerprint :: "string option"
  g_has_tray :: bool
  g_quitting :: bool
  g_shutdown_sent :: bool
  g_shutdowns :: nat
  g_active_syncs :: "(string \<times> sync_direction) list"
  g_sync_status :: "sync_status option"
  g_local_monitors :: "monitor_info list"
  g_last_reconcile :: "nat option"
  g_input_devices :: "audio_device_info list"
  g_output_devices :: "audio_device_info list"
  g_audio_status :: "(string \<times> peer_audio_status) list"
  g_audio_error :: "string option"
  g_devices_loaded :: bool
  g_sent :: "cmd list"

definition LOG_CAP :: nat where "LOG_CAP = 1000"
definition RECONCILE_INTERVAL :: nat where "RECONCILE_INTERVAL = 5000"

definition gui_new :: "bool \<Rightarrow> monitor_info list \<Rightarrow> gui_app" where
  "gui_new tray monitors = \<lparr> g_connected = False, g_last_error = None, g_launching = None, g_state = Stopped, g_log = [],
     g_config = config_default, g_dirty = False, g_pending_remote = None, g_connected_peers = {}, g_active_screen = None,
     g_discovered = [], g_trusted = [], g_pending_pairings = [], g_local_machine_id = None, g_local_fingerprint = None,
     g_has_tray = tray, g_quitting = False, g_shutdown_sent = False, g_shutdowns = 0, g_active_syncs = [],
     g_sync_status = None, g_local_monitors = monitors, g_last_reconcile = None, g_input_devices = [],
     g_output_devices = [], g_audio_status = [], g_audio_error = None, g_devices_loaded = False, g_sent = [] \<rparr>"

subsection \<open>Taking updates\<close>

definition gui_send :: "cmd \<Rightarrow> gui_app \<Rightarrow> gui_app" where
  "gui_send c a = a\<lparr> g_sent := g_sent a @ [c] \<rparr>"

definition gui_push_log :: "string \<Rightarrow> gui_app \<Rightarrow> gui_app" where
  "gui_push_log l a = a\<lparr> g_log := (if LOG_CAP \<le> length (g_log a) then tl (g_log a) else g_log a) @ [l] \<rparr>"

definition peer_label :: "gui_app \<Rightarrow> string \<Rightarrow> string" where
  "peer_label a machine_id =
     (case map_of (g_trusted a) machine_id of
        Some p \<Rightarrow> tp_display_name p
      | None \<Rightarrow> (case map_of (g_discovered a) machine_id of Some p \<Rightarrow> dp_display_name p | None \<Rightarrow> machine_id))"

definition table_of :: "('v \<Rightarrow> string) \<Rightarrow> 'v list \<Rightarrow> (string \<times> 'v) list" where
  "table_of key vs = foldl (\<lambda>m v. AList.update (key v) v m) [] vs"

text \<open>One update, at a time \<open>now\<close>.\<close>

fun apply_update :: "nat \<Rightarrow> gui_update \<Rightarrow> gui_app \<Rightarrow> gui_app" where
  "apply_update now Upd_Connected a = a\<lparr> g_connected := True, g_last_error := None, g_launching := None \<rparr>"
| "apply_update now (Upd_Disconnected msg) a =
     a\<lparr> g_connected := False, g_connected_peers := {}, g_active_screen := None, g_active_syncs := [],
       g_pending_pairings := [], g_discovered := [], g_audio_status := [], g_last_error := Some msg, g_launching := None \<rparr>"
| "apply_update now (Upd_Launching msg) a = a\<lparr> g_connected := False, g_launching := Some msg, g_last_error := None \<rparr>"
| "apply_update now (Upd_Status st recent peers active) a =
     fold gui_push_log recent
       (a\<lparr> g_state := st, g_connected_peers := set peers, g_active_screen := active, g_log := [] \<rparr>)"
| "apply_update now (Upd_Config c) a =
     (if g_dirty a then a\<lparr> g_pending_remote := Some c \<rparr> else a\<lparr> g_config := c, g_pending_remote := None \<rparr>)"
| "apply_update now (Upd_Log l) a = gui_push_log l a"
| "apply_update now (Upd_StateChanged st) a =
     (let a1 = (if is_running st then a else a\<lparr> g_connected_peers := {}, g_active_screen := None \<rparr>)
      in a1\<lparr> g_state := st \<rparr>)"
| "apply_update now (Upd_Error e) a = a\<lparr> g_last_error := Some e \<rparr>"
| "apply_update now (Upd_PeerConnected n) a = a\<lparr> g_connected_peers := insert n (g_connected_peers a) \<rparr>"
| "apply_update now (Upd_PeerDisconnected n) a = a\<lparr> g_connected_peers := g_connected_peers a - {n} \<rparr>"
| "apply_update now (Upd_ActiveScreen n) a = a\<lparr> g_active_screen := Some n \<rparr>"
| "apply_update now (Upd_PeerDiscovered p) a = a\<lparr> g_discovered := AList.update (dp_machine_id p) p (g_discovered a) \<rparr>"
| "apply_update now (Upd_PeerLost m) a = a\<lparr> g_discovered := AList.delete m (g_discovered a) \<rparr>"
| "apply_update now (Upd_PeerSnapshot ps) a = a\<lparr> g_discovered := table_of dp_machine_id ps \<rparr>"
| "apply_update now (Upd_LocalIdentity m f) a = a\<lparr> g_local_machine_id := Some m, g_local_fingerprint := Some f \<rparr>"
| "apply_update now (Upd_PairingProposed sid mid name fp code) a =
     a\<lparr> g_pending_pairings := g_pending_pairings a @ [\<lparr> pp_session_id = sid, pp_machine_id = mid, pp_display_name = name,
          pp_fingerprint = fp, pp_code = code \<rparr>] \<rparr>"
| "apply_update now (Upd_PairingCompleted p) a =
     a\<lparr> g_pending_pairings := filter (\<lambda>x. pp_machine_id x \<noteq> tp_machine_id p) (g_pending_pairings a),
       g_trusted := AList.update (tp_machine_id p) p (g_trusted a), g_last_reconcile := None \<rparr>"
| "apply_update now (Upd_PairingFailed sid reason) a =
     a\<lparr> g_pending_pairings := filter (\<lambda>x. pp_session_id x \<noteq> sid) (g_pending_pairings a),
       g_last_error := Some (''pairing failed: '' @ reason) \<rparr>"
| "apply_update now (Upd_TrustedSnapshot ps) a = a\<lparr> g_trusted := table_of tp_machine_id ps \<rparr>"
| "apply_update now (Upd_TrustRevoked m) a = a\<lparr> g_trusted := AList.delete m (g_trusted a) \<rparr>"
| "apply_update now (Upd_SyncStarted m d) a = a\<lparr> g_active_syncs := AList.update m d (g_active_syncs a) \<rparr>"
| "apply_update now (Upd_SyncCompleted m d updated) a =
     (let a1 = a\<lparr> g_active_syncs := AList.delete m (g_active_syncs a) \<rparr>
      in a1\<lparr> g_sync_status := Some
           \<lparr> ss_message = ''config '' @ (case d of Outbound \<Rightarrow> ''pushed to'' | Inbound \<Rightarrow> ''received from'') @ '' ''
               @ peer_label a1 m @ '' ('' @ (if updated then ''merged'' else ''no changes'') @ '')'',
             ss_ok = True, ss_at = now \<rparr> \<rparr>)"
| "apply_update now (Upd_SyncFailed m d reason) a =
     (let a1 = a\<lparr> g_active_syncs := AList.delete m (g_active_syncs a) \<rparr>
      in a1\<lparr> g_sync_status := Some
           \<lparr> ss_message = ''config sync '' @ (case d of Outbound \<Rightarrow> ''to'' | Inbound \<Rightarrow> ''from'') @ '' ''
               @ peer_label a1 m @ '' failed: '' @ reason,
             ss_ok = False, ss_at = now \<rparr> \<rparr>)"
| "apply_update now (Upd_AudioDevices i out) a =
     a\<lparr> g_input_devices := i, g_output_devices := out, g_devices_loaded := True \<rparr>"
| "apply_update now Upd_AudioDevicesChanged a = gui_send Cmd_ListAudioDevices a"
| "apply_update now (Upd_AudioPeerStatus st) a = a\<lparr> g_audio_status := AList.update (as_machine_id st) st (g_audio_status a) \<rparr>"
| "apply_update now (Upd_AudioPeerRemoved m) a = a\<lparr> g_audio_status := AList.delete m (g_audio_status a) \<rparr>"
| "apply_update now (Upd_AudioStatusSnapshot ps) a = a\<lparr> g_audio_status := table_of as_machine_id ps \<rparr>"
| "apply_update now (Upd_AudioError p msg) a =
     a\<lparr> g_audio_error := Some (case p of Some m \<Rightarrow> peer_label a m @ '': '' @ msg | None \<Rightarrow> msg) \<rparr>"

definition drain_ipc :: "nat \<Rightarrow> gui_update list \<Rightarrow> gui_app \<Rightarrow> gui_app" where
  "drain_ipc now us a = foldl (\<lambda>a u. apply_update now u a) a us"

subsection \<open>The edited configuration\<close>

definition added_screen :: "screen list \<Rightarrow> string \<Rightarrow> screen" where
  "added_screen scs name =
     (let idx = length scs in
      \<lparr> screen_name = name, screen_aliases = [],
        screen_position = \<lparr> pos_x = of_nat ((idx mod 3) * 200), pos_y = of_nat ((idx div 3) * 160), pos_w = 160, pos_h = 120 \<rparr>,
        screen_monitors = [] \<rparr>)"

text \<open>The first screen with our name takes the monitors.\<close>

fun set_monitors :: "string \<Rightarrow> monitor_info list \<Rightarrow> screen list \<Rightarrow> screen list" where
  "set_monitors name ms [] = []"
| "set_monitors name ms (s # ss) =
     (if screen_name s = name then s\<lparr> screen_monitors := ms \<rparr> # ss else s # set_monitors name ms ss)"

definition missing_peers :: "config \<Rightarrow> (string \<times> trusted_peer) list \<Rightarrow> string list" where
  "missing_peers c trusted =
     filter (\<lambda>n. n \<noteq> server_name c \<and> n \<notin> set (map screen_name (screens c)))
       (map (tp_display_name \<circ> snd) (sort_key fst trusted))"

definition reconcile_config :: "monitor_info list \<Rightarrow> (string \<times> trusted_peer) list \<Rightarrow> config \<Rightarrow> config" where
  "reconcile_config ms trusted c =
     (let c1 = c\<lparr> screens := set_monitors (server_name c) ms (screens c) \<rparr>
      in c1\<lparr> screens := foldl (\<lambda>scs n. scs @ [added_screen scs n]) (screens c1) (missing_peers c1 trusted) \<rparr>)"

definition gui_reconcile :: "monitor_info list \<Rightarrow> bool \<Rightarrow> gui_app \<Rightarrow> gui_app" where
  "gui_reconcile fresh dragging a =
     (if \<not> g_connected a \<or> g_pending_remote a \<noteq> None \<or> dragging then a
      else
        let a1 = a\<lparr> g_local_monitors := fresh \<rparr>;
            c = reconcile_config fresh (g_trusted a1) (g_config a1)
        in if c = g_config a1 then a1
           else (gui_send (Cmd_SetConfig c) (a1\<lparr> g_config := c \<rparr>))\<lparr> g_dirty := False \<rparr>)"

text \<open>The pass runs at most every five seconds, or at once after a pairing.\<close>

definition gui_tick :: "nat \<Rightarrow> monitor_info list \<Rightarrow> bool \<Rightarrow> gui_app \<Rightarrow> gui_app" where
  "gui_tick now fresh dragging a =
     (if (case g_last_reconcile a of None \<Rightarrow> True | Some t \<Rightarrow> RECONCILE_INTERVAL \<le> now - t)
      then gui_reconcile fresh dragging (a\<lparr> g_last_reconcile := Some now \<rparr>) else a)"

definition connect_as_client_to :: "discovered_peer \<Rightarrow> gui_app \<Rightarrow> gui_app" where
  "connect_as_client_to p a =
     (let prt = (if dp_core_port p = 0 then port (g_config a) else dp_core_port p);
          c = (g_config a)\<lparr> role := Client, server_address := Some (host_port (dp_host p) prt) \<rparr>
      in gui_send Cmd_Start
           ((gui_send (Cmd_SetConfig c) a)\<lparr> g_config := c, g_dirty := False, g_pending_remote := None \<rparr>))"

definition click_apply :: "gui_app \<Rightarrow> gui_app" where
  "click_apply a =
     (if g_connected a \<and> g_dirty a
      then (gui_send (Cmd_SetConfig (g_config a)) a)\<lparr> g_dirty := False, g_pending_remote := None \<rparr> else a)"

definition click_revert :: "gui_app \<Rightarrow> gui_app" where
  "click_revert a =
     (if g_dirty a \<or> g_pending_remote a \<noteq> None then
        (case g_pending_remote a of
           Some c \<Rightarrow> a\<lparr> g_dirty := False, g_pending_remote := None, g_config := c \<rparr>
         | None \<Rightarrow> gui_send Cmd_Refresh (a\<lparr> g_dirty := False \<rparr>))
      else a)"

subsection \<open>Closing\<close>

datatype viewport_cmd = Cancel_Close | Set_Visible bool | Set_Focus | Do_Close

definition shutdown_daemon_once :: "gui_app \<Rightarrow> gui_app" where
  "shutdown_daemon_once a =
     (if g_shutdown_sent a then a else a\<lparr> g_shutdown_sent := True, g_shutdowns := Suc (g_shutdowns a) \<rparr>)"

definition handle_close :: "bool \<Rightarrow> gui_app \<Rightarrow> gui_app \<times> viewport_cmd list" where
  "handle_close close_requested a =
     (if g_has_tray a \<and> \<not> g_quitting a then (a, if close_requested then [Cancel_Close, Set_Visible False] else [])
      else if close_requested \<or> g_quitting a then (shutdown_daemon_once a, [])
      else (a, []))"

definition tray_quit :: "gui_app \<Rightarrow> gui_app \<times> viewport_cmd list" where
  "tray_quit a = (if g_has_tray a then (a\<lparr> g_quitting := True \<rparr>, [Do_Close]) else (a, []))"

subsection \<open>The update dialog\<close>

datatype 'r check_msg = Check_Ok 'r | Check_Err string

datatype install_msg =
    Prog_Stage string
  | Prog_Download nat nat
  | Install_Done "(string, string \<times> bool \<times> path) result"

text \<open>A running worker carries the messages still in its channel.\<close>

datatype 'r update_state =
    Checking "'r check_msg list"
  | Update_Ready 'r
  | Check_Failed string
  | Installing "install_msg list" string nat nat
  | Installed string bool path
  | Install_Failed string

fun drain_install :: "install_msg list \<Rightarrow> string \<Rightarrow> nat \<Rightarrow> nat \<Rightarrow> 'r update_state" where
  "drain_install [] stage dn tot = Installing [] stage dn tot"
| "drain_install (Prog_Stage s # ms) stage dn tot = drain_install ms s dn tot"
| "drain_install (Prog_Download d t # ms) stage dn tot = drain_install ms stage d (if 0 < t then t else tot)"
| "drain_install (Install_Done r # ms) stage dn tot =
     (case r of Inr (tag, elevated, exe) \<Rightarrow> Installed tag elevated exe | Inl e \<Rightarrow> Install_Failed e)"

fun update_poll :: "'r update_state option \<Rightarrow> 'r update_state option" where
  "update_poll (Some (Checking (Check_Ok r # ms))) = Some (Update_Ready r)"
| "update_poll (Some (Checking (Check_Err e # ms))) = Some (Check_Failed e)"
| "update_poll (Some (Installing ms stage dn tot)) = Some (drain_install ms stage dn tot)"
| "update_poll st = st"

definition in_flight :: "'r update_state option \<Rightarrow> bool" where
  "in_flight st = (case st of Some (Checking _) \<Rightarrow> True | Some (Installing _ _ _ _) \<Rightarrow> True | _ \<Rightarrow> False)"

definition needs_check :: "'r update_state option \<Rightarrow> bool" where
  "needs_check st = (case st of None \<Rightarrow> True | Some (Check_Failed _) \<Rightarrow> True | Some (Install_Failed _) \<Rightarrow> True | _ \<Rightarrow> False)"

definition open_update_dialog :: "'r check_msg list \<Rightarrow> 'r update_state option \<Rightarrow> 'r update_state option" where
  "open_update_dialog channel st = (if needs_check st then Some (Checking channel) else st)"

subsection \<open>Replaying events over a newer snapshot\<close>

text \<open>The registers the GUI shows of the daemon.\<close>

datatype gui_register =
    Reg_State
  | Reg_Active
  | Reg_Connected string
  | Reg_Discovered string
  | Reg_Trusted string
  | Reg_Audio string

datatype gui_value =
    Val_State daemon_state
  | Val_Active "string option"
  | Val_Connected bool
  | Val_Discovered "discovered_peer option"
  | Val_Trusted "trusted_peer option"
  | Val_Audio "peer_audio_status option"

fun shown :: "gui_app \<Rightarrow> gui_register \<Rightarrow> gui_value" where
  "shown a Reg_State = Val_State (g_state a)"
| "shown a Reg_Active = Val_Active (g_active_screen a)"
| "shown a (Reg_Connected n) = Val_Connected (n \<in> g_connected_peers a)"
| "shown a (Reg_Discovered m) = Val_Discovered (map_of (g_discovered a) m)"
| "shown a (Reg_Trusted m) = Val_Trusted (map_of (g_trusted a) m)"
| "shown a (Reg_Audio m) = Val_Audio (map_of (g_audio_status a) m)"

lemma gui_push_logs_frame [simp]:
  "g_state (fold gui_push_log ls a) = g_state a" "g_active_screen (fold gui_push_log ls a) = g_active_screen a"
  "g_connected_peers (fold gui_push_log ls a) = g_connected_peers a" "g_discovered (fold gui_push_log ls a) = g_discovered a"
  "g_trusted (fold gui_push_log ls a) = g_trusted a" "g_audio_status (fold gui_push_log ls a) = g_audio_status a"
  "g_config (fold gui_push_log ls a) = g_config a" "g_dirty (fold gui_push_log ls a) = g_dirty a"
  "g_connected (fold gui_push_log ls a) = g_connected a" "g_pending_remote (fold gui_push_log ls a) = g_pending_remote a"
  "g_sent (fold gui_push_log ls a) = g_sent a"
  by (induction ls arbitrary: a) (simp_all add: gui_push_log_def)

lemma apply_update_writes:
  "(\<forall>a. shown (apply_update now u a) k = shown a k) \<or> (\<exists>v. \<forall>a. shown (apply_update now u a) k = v)"
  by (cases u; cases k) (auto simp: gui_push_log_def gui_send_def Let_def update_conv' delete_conv')

interpretation gui: last_writer "apply_update now" shown
  by unfold_locales (rule apply_update_writes)

lemma gui_replay:
  assumes "shown a k = shown (drain_ipc now us b) k"
  shows "shown (drain_ipc now (us @ vs) a) k = shown (drain_ipc now (us @ vs) b) k"
  using gui.replay [of a k now b us vs] assms by (simp add: drain_ipc_def)

subsection \<open>Bounds\<close>

lemma gui_push_log_cap: "length (g_log a) \<le> LOG_CAP \<Longrightarrow> length (g_log (gui_push_log l a)) \<le> LOG_CAP"
  by (auto simp: gui_push_log_def LOG_CAP_def)

lemma gui_push_logs_cap: "length (g_log a) \<le> LOG_CAP \<Longrightarrow> length (g_log (fold gui_push_log ls a)) \<le> LOG_CAP"
  by (induction ls arbitrary: a) (simp_all add: gui_push_log_cap)

lemma drain_log_cap: "length (g_log a) \<le> LOG_CAP \<Longrightarrow> length (g_log (drain_ipc now us a)) \<le> LOG_CAP"
proof (induction us arbitrary: a)
  case (Cons u us)
  have "length (g_log (apply_update now u a)) \<le> LOG_CAP"
    using Cons.prems by (cases u) (auto simp: gui_push_log_cap gui_push_logs_cap gui_send_def Let_def)
  then show ?case using Cons.IH by (simp add: drain_ipc_def)
qed (simp add: drain_ipc_def)

text \<open>However many frames the close takes, the daemon is told to exit once.\<close>

lemma shutdown_once:
  assumes "g_shutdowns a = (if g_shutdown_sent a then 1 else 0)" and "handle_close req a = (b, cmds)"
  shows "g_shutdowns b = (if g_shutdown_sent b then 1 else 0)"
  using assms by (auto simp: handle_close_def shutdown_daemon_once_def split: if_splits)

text \<open>An install that runs to its end is reported once its last message is in the channel; a worker that is gone without
  one leaves the dialog where it was.\<close>

lemma drain_install_done:
  assumes "\<forall>p \<in> set ps. \<forall>x. p \<noteq> Install_Done x"
  shows "drain_install (ps @ [Install_Done r]) stage dn tot = (drain_install [Install_Done r] stage dn tot :: 'r update_state)"
  using assms
proof (induction ps arbitrary: stage dn tot)
  case (Cons p ps)
  then show ?case by (cases p) auto
qed simp

lemma silent_worker_stays_in_flight:
  "update_poll (Some (Checking [] :: 'r update_state)) = Some (Checking [])"
  "open_update_dialog ch (Some (Checking [] :: 'r update_state)) = Some (Checking [])"
  by (simp_all add: open_update_dialog_def needs_check_def)

end
