(* ===== verification/Gui_Mirror.thy ===== *)
theory Gui_Mirror
  imports Gui_App
begin

text \<open>
  The GUI, the IPC threads and the supervisor together: what the window shows of the daemon after the bootstrap and
  while events stream in, and what reconciliation and the buttons do to the edited configuration.
\<close>

subsection \<open>What the window shows\<close>

definition gui_view :: "gui_app \<Rightarrow> view" where
  "gui_view a = \<lparr> vw_state = g_state a, vw_connected = g_connected_peers a, vw_active = g_active_screen a,
     vw_peers = (\<lambda>m. map_option announced (map_of (g_discovered a) m)) \<rparr>"

lemma stream_updates_Cons [simp]:
  "stream_updates ((ev, cfg) # evs) = (case event_update cfg ev of Some u \<Rightarrow> [u] | None \<Rightarrow> []) @ stream_updates evs"
  by (simp add: stream_updates_def)

lemma drain_append [simp]: "drain_ipc now (us @ vs) a = drain_ipc now vs (drain_ipc now us a)"
  by (simp add: drain_ipc_def)

lemma drain_Cons [simp]: "drain_ipc now (u # us) a = drain_ipc now us (apply_update now u a)"
  by (simp add: drain_ipc_def)

lemma drain_Nil [simp]: "drain_ipc now [] a = a"
  by (simp add: drain_ipc_def)

text \<open>An event changes the window's view the way it changes a client's view of the daemon.\<close>

lemma event_shown:
  "gui_view (drain_ipc now (case event_update cfg ev of Some u \<Rightarrow> [u] | None \<Rightarrow> []) a) = view_step (gui_view a) ev"
proof (cases ev)
  case (EvPeerDiscovered p)
  then show ?thesis by (simp add: gui_view_def update_conv' fun_eq_iff)
next
  case (EvPeerLost m)
  then show ?thesis by (simp add: gui_view_def delete_conv' fun_eq_iff)
qed (auto simp: gui_view_def gui_push_log_def gui_send_def Let_def split: option.split)

lemma stream_shown: "gui_view (drain_ipc now (stream_updates evs) a) = foldl view_step (gui_view a) (map fst evs)"
proof (induction evs arbitrary: a)
  case (Cons x evs)
  obtain ev cfg where x: "x = (ev, cfg)" by fastforce
  show ?case using Cons.IH event_shown [of now cfg ev a] by (simp add: x)
qed (simp add: stream_updates_def)

subsection \<open>The bootstrap\<close>

text \<open>A call over the socket returns the daemon's answer, or its error message.\<close>

definition answer :: "response \<Rightarrow> (string, response) result" where
  "answer r = (case r of RespError e \<Rightarrow> Err e | _ \<Rightarrow> Ok r)"

text \<open>The updates of a bootstrap whose \<open>k\<close>-th call meets the supervisor in the state \<open>S k\<close>.\<close>

lemma bootstrap_updates:
  assumes "\<And>k req. ask k req = answer (snd (handle_request api d tx (w k) req (S k)))"
    and "bootstrap ask = (us, Ok ())"
  shows "\<exists>st. us = [Upd_Config (s_config (S 0)),
            Upd_Status (s_state (S 1)) (s_log_tail (S 1)) (sorted_list_of_set (s_connected_peers (S 1))) (s_active_screen (S 1)),
            Upd_LocalIdentity (v_machine_id (S 2)) (v_fingerprint (S 2)), Upd_PeerSnapshot (map snd (v_peers (S 3))),
            Upd_TrustedSnapshot (trust_list (v_trust (S 4))), Upd_AudioStatusSnapshot st]"
  using assms(2)
  by (auto simp: bootstrap_def bootstrap_plan_def ask_for_def assms(1) handle_request_def answer_def audio_status_snapshot_def
      eval_nat_numeral split: option.splits if_splits)

lemma map_of_table: "map_of (table_of key vs) = map_of (rev (map (\<lambda>v. (key v, v)) vs))"
proof -
  have "map_of (foldl (\<lambda>m v. AList.update (key v) v m) m vs) = map_of m ++ map_of (rev (map (\<lambda>v. (key v, v)) vs))" for m
    by (induction vs arbitrary: m) (simp_all add: update_conv' map_add_def fun_eq_iff split: option.split)
  then show ?thesis by (simp add: table_of_def)
qed

lemma table_of_peers:
  assumes "peers_ok s" shows "map_of (table_of dp_machine_id (map snd (v_peers s))) = map_of (v_peers s)"
proof -
  have "map (\<lambda>p. (dp_machine_id p, p)) (map snd (v_peers s)) = v_peers s"
    using assms by (auto simp: peers_ok_def intro!: map_idI)
  moreover have "map_of (rev (v_peers s)) = map_of (v_peers s)"
    using assms by (subst map_of_inject_set) (auto simp: peers_ok_def rev_map [symmetric])
  ultimately show ?thesis by (simp add: map_of_table)
qed

text \<open>From its start, the daemon's view is what its events say.\<close>

lemma reachable_tracks:
  "sup_reachable api d tx show_io s \<Longrightarrow>
   tracks [] \<lparr> vw_state = Stopped, vw_connected = {}, vw_active = None, vw_peers = Map.empty \<rparr> s"
proof (induction rule: sup_reachable.induct)
  case (boot w machine_id fingerprint m s)
  have "tracks [] \<lparr> vw_state = Stopped, vw_connected = {}, vw_active = None, vw_peers = Map.empty \<rparr>
      (supervisor_init api w machine_id fingerprint c v trust m1)" for c v trust m1
    by (simp add: tracks_def daemon_view_def supervisor_init_def core_boot_def core_sup.defs fun_eq_iff)
  then show ?case
    using boot
    by (auto simp: supervisor_new_def Let_def tracks_requests split: sum.splits prod.splits)
next
  case (step s t)
  then show ?case by (blast intro: tracks_sup_step)
qed

lemma view_finite: "finite (vw_connected v) \<Longrightarrow> finite (vw_connected (foldl view_step v es))"
proof (induction es arbitrary: v)
  case (Cons e es)
  have "finite (vw_connected (view_step v e))" using Cons.prems by (cases e) auto
  then show ?case using Cons.IH by simp
qed simp

lemma reachable_finite: "sup_reachable api d tx show_io s \<Longrightarrow> finite (s_connected_peers s)"
proof -
  assume "sup_reachable api d tx show_io s"
  then obtain es where "daemon_view s = foldl view_step
      \<lparr> vw_state = Stopped, vw_connected = {}, vw_active = None, vw_peers = Map.empty \<rparr> es"
    using reachable_tracks by (auto simp: tracks_def)
  then have "finite (vw_connected (daemon_view s))" using view_finite by simp
  then show ?thesis by (simp add: daemon_view_def)
qed

lemma reachable_peers_ok: "sup_reachable api d tx show_io s \<Longrightarrow> peers_ok s"
  using sup_reachable_inv by (auto simp: sup_inv_def)

text \<open>After the bootstrap each register has the value it had at the call that fetched it.\<close>

lemma bootstrap_shown:
  assumes "us = [Upd_Config c,
      Upd_Status (s_state s1) (s_log_tail s1) (sorted_list_of_set (s_connected_peers s1)) (s_active_screen s1),
      Upd_LocalIdentity m f, Upd_PeerSnapshot (map snd (v_peers s3)), Upd_TrustedSnapshot ts, Upd_AudioStatusSnapshot st]"
    and "finite (s_connected_peers s1)" and "peers_ok s3"
  shows "gui_view (drain_ipc now (us @ [Upd_Connected]) a) =
     \<lparr> vw_state = vw_state (daemon_view s1), vw_connected = vw_connected (daemon_view s1), vw_active = vw_active (daemon_view s1),
       vw_peers = vw_peers (daemon_view s3) \<rparr>"
  using assms(2,3) by (simp add: assms(1) gui_view_def daemon_view_def table_of_peers split: if_split)

subsection \<open>Properties\<close>

text \<open>C9. The window shows the daemon: a GUI that subscribes, then fetches its snapshots one after the other while the
  daemon runs on, and then takes all events since it subscribed, shows exactly what the daemon would answer now (the
  Core's state, the connected screens, the active screen, and every discovered peer), whatever it showed before and
  although the events it takes are in part older than the snapshots.\<close>

theorem window_shows_the_daemon:
  assumes "sup_reachable api d tx show_io s0"
    and "sup_run api d tx show_io s0 (S 0)" and "\<And>k. sup_run api d tx show_io (S k) (S (Suc k))"
    and "sup_run api d tx show_io (S 5) t"
    and "\<And>k req. ask k req = answer (snd (handle_request api d tx (w k) req (S k)))"
    and "bootstrap ask = (us, Ok ())"
    and "s_events t = s_events s0 @ map fst evs"
  shows "gui_view (drain_ipc now (us @ [Upd_Connected] @ stream_updates evs) a) = daemon_view t"
proof -
  have from0: "sup_run api d tx show_io s0 (S k)" for k
  proof (induction k)
    case (Suc k)
    then show ?case using assms(3) [of k] sup_run_trans by blast
  qed (rule assms(2))
  have to5: "sup_run api d tx show_io (S k) t" if "k \<le> 5" for k
  proof -
    have "sup_run api d tx show_io (S k) (S (k + n))" for n
      by (induction n) (auto intro: sup_run.none sup_run_trans assms(3))
    from this [of "5 - k"] that show ?thesis using assms(4) sup_run_trans by fastforce
  qed
  let ?a1 = "drain_ipc now (us @ [Upd_Connected]) a"
  obtain st where us: "us = [Upd_Config (s_config (S 0)),
      Upd_Status (s_state (S 1)) (s_log_tail (S 1)) (sorted_list_of_set (s_connected_peers (S 1))) (s_active_screen (S 1)),
      Upd_LocalIdentity (v_machine_id (S 2)) (v_fingerprint (S 2)), Upd_PeerSnapshot (map snd (v_peers (S 3))),
      Upd_TrustedSnapshot (trust_list (v_trust (S 4))), Upd_AudioStatusSnapshot st]"
    using bootstrap_updates [OF assms(5,6)] by blast
  have reach: "sup_reachable api d tx show_io (S k)" for k using sup_run_reachable [OF from0 assms(1)] .
  have v1: "gui_view ?a1 = \<lparr> vw_state = vw_state (daemon_view (S 1)), vw_connected = vw_connected (daemon_view (S 1)),
      vw_active = vw_active (daemon_view (S 1)), vw_peers = vw_peers (daemon_view (S 3)) \<rparr>"
    by (rule bootstrap_shown [OF us reachable_finite [OF reach] reachable_peers_ok [OF reach]])
  have replayed: "view_look (foldl view_step (gui_view ?a1) (map fst evs)) k = view_look (daemon_view t) k"
    if same: "view_look (gui_view ?a1) k = view_look (daemon_view (S j)) k" and le: "j \<le> 5" for k j
  proof -
    obtain es where es: "s_events (S j) = s_events s0 @ es" "daemon_view (S j) = foldl view_step (daemon_view s0) es"
      using from0 by (rule run_view)
    obtain rest where rest: "s_events t = s_events (S j) @ rest" "daemon_view t = foldl view_step (daemon_view (S j)) rest"
      using to5 [OF le] by (rule run_view)
    have "map fst evs = es @ rest" using assms(7) es(1) rest(1) by simp
    then show ?thesis using vw.replay [of "gui_view ?a1" k "daemon_view s0" es rest] same es(2) rest(2) by simp
  qed
  have "foldl view_step (gui_view ?a1) (map fst evs) = daemon_view t"
  proof (rule view_eqI)
    fix k
    show "view_look (foldl view_step (gui_view ?a1) (map fst evs)) k = view_look (daemon_view t) k"
      by (cases k) (use replayed [of k 1] replayed [of k 3] v1 in auto)
  qed
  then show ?thesis using stream_shown [of now evs ?a1] by simp
qed

lemma quiet_bootstrap:
  "\<exists>us. bootstrap (\<lambda>k req. answer (snd (handle_request api d tx demo_world req s))) = (us, Ok ())"
  by (simp add: bootstrap_def bootstrap_plan_def ask_for_def handle_request_def answer_def audio_status_snapshot_def
      demo_world_def)

theorem window_shows_the_daemon_witness:
  "\<exists>s us evs. supervisor_new demo_daemon_api demo_dirs demo_world ''a'' ''fa'' Map.empty = Ok s
     \<and> gui_view (drain_ipc 0 (us @ [Upd_Connected] @ stream_updates evs) (gui_new True [])) = daemon_view (record_log ''x'' s)"
proof -
  obtain s where s: "supervisor_new demo_daemon_api demo_dirs demo_world ''a'' ''fa'' Map.empty = Ok s" by (rule demo_boot)
  let ?run = "sup_run demo_daemon_api demo_dirs demo_texts (\<lambda>_. ''io'')"
  have r: "sup_reachable demo_daemon_api demo_dirs demo_texts (\<lambda>_. ''io'') s" by (rule sup_reachable.boot [OF s])
  have logged: "?run s (record_log ''x'' s)" by (rule sup_run.more_steps [OF sup_run.none sup_step.daemon_log])
  obtain es where es: "s_events (record_log ''x'' s) = s_events s @ es" using logged by (rule run_view)
  define evs where "evs = map (\<lambda>e. (e, None :: config option)) es"
  have "s_events (record_log ''x'' s) = s_events s @ map fst evs" using es by (simp add: evs_def comp_def)
  moreover obtain us where "bootstrap (\<lambda>k req. answer (snd (handle_request demo_daemon_api demo_dirs demo_texts demo_world req s))) = (us, Ok ())"
    using quiet_bootstrap by blast
  ultimately have "gui_view (drain_ipc 0 (us @ [Upd_Connected] @ stream_updates evs) (gui_new True [])) = daemon_view (record_log ''x'' s)"
    using window_shows_the_daemon [OF r sup_run.none sup_run.none logged refl, where w = "\<lambda>_. demo_world" and us = us and evs = evs]
    by blast
  with s show ?thesis by blast
qed

subsection \<open>Reconciliation\<close>

lemma names_set_monitors [simp]: "map screen_name (set_monitors n ms ss) = map screen_name ss"
  by (induction ss) auto

lemma name_set_monitors [simp]: "screen_name ` set (set_monitors n ms ss) = screen_name ` set ss"
  by (metis names_set_monitors set_map)

lemma set_monitors_idem [simp]: "set_monitors n ms (set_monitors n ms ss) = set_monitors n ms ss"
  by (induction ss) auto

lemma set_monitors_append: "n \<in> set (map screen_name ss) \<Longrightarrow> set_monitors n ms (ss @ ts) = set_monitors n ms ss @ ts"
  by (induction ss) auto

lemma set_monitors_other: "n \<notin> set (map screen_name ss) \<Longrightarrow> set_monitors n ms ss = ss"
  by (induction ss) auto

lemma added_screens:
  "\<exists>new. foldl (\<lambda>scs n. scs @ [added_screen scs n]) ss ns = ss @ new \<and> map screen_name new = ns"
proof (induction ns arbitrary: ss)
  case (Cons n ns)
  obtain new where "foldl (\<lambda>scs n. scs @ [added_screen scs n]) (ss @ [added_screen ss n]) ns = (ss @ [added_screen ss n]) @ new"
    "map screen_name new = ns" using Cons.IH by blast
  then show ?case by (intro exI [of _ "added_screen ss n # new"]) (simp add: added_screen_def Let_def)
qed simp

lemma reconcile_config_names:
  "\<exists>new. screens (reconcile_config ms tr c) = set_monitors (server_name c) ms (screens c) @ new
       \<and> map screen_name new = missing_peers c tr"
  using added_screens [of "set_monitors (server_name c) ms (screens c)" "missing_peers c tr"]
  by (simp add: reconcile_config_def missing_peers_def Let_def)

lemma reconcile_config_rest [simp]:
  "server_name (reconcile_config ms tr c) = server_name c" "links (reconcile_config ms tr c) = links c"
  "role (reconcile_config ms tr c) = role c" "server_address (reconcile_config ms tr c) = server_address c"
  by (simp_all add: reconcile_config_def Let_def)

lemma missing_after: "missing_peers (reconcile_config ms tr c) tr = []"
proof -
  obtain new where n: "screens (reconcile_config ms tr c) = set_monitors (server_name c) ms (screens c) @ new"
    "map screen_name new = missing_peers c tr" using reconcile_config_names by blast
  have "set (map screen_name (screens (reconcile_config ms tr c))) = set (map screen_name (screens c)) \<union> set (missing_peers c tr)"
    unfolding n(1) map_append names_set_monitors n(2) by simp
  then show ?thesis by (auto simp: missing_peers_def filter_empty_conv)
qed

lemma reconcile_idem:
  assumes "server_name c \<in> set (map screen_name (screens c))"
  shows "reconcile_config ms tr (reconcile_config ms tr c) = reconcile_config ms tr c"
proof -
  let ?c = "reconcile_config ms tr c"
  obtain new where n: "screens ?c = set_monitors (server_name c) ms (screens c) @ new" using reconcile_config_names by blast
  have "set_monitors (server_name c) ms (screens ?c) = screens ?c"
    unfolding n using assms by (simp add: set_monitors_append del: set_map)
  then have "reconcile_config ms tr ?c = ?c\<lparr> screens := foldl (\<lambda>scs n. scs @ [added_screen scs n]) (screens ?c) (missing_peers ?c tr) \<rparr>"
    by (simp add: reconcile_config_def [of ms tr ?c] Let_def)
  then show ?thesis by (simp add: missing_after)
qed

lemma reconcile_valid:
  assumes "validate c = Ok ()" shows "validate (reconcile_config ms tr c) = Ok ()"
proof -
  let ?c = "reconcile_config ms tr c"
  obtain new where n: "screens ?c = set_monitors (server_name c) ms (screens c) @ new" using reconcile_config_names by blast
  have "set (map screen_name (screens c)) \<subseteq> set (map screen_name (screens ?c))"
    unfolding n map_append names_set_monitors by simp
  then have "screen_name ` set (screens c) \<subseteq> screen_name ` set (screens ?c)" by simp
  then show ?thesis using assms by (auto simp: validate_iff)
qed


text \<open>C39. Revert does not revert: with unsaved edits and no newer configuration at hand, the button clears the mark of
  the edits and asks the daemon for its status, which does not carry the configuration; whatever state the daemon is in,
  the editor still holds the edits when the answer has come, and the next reconciliation that has something to fix sends
  them to the daemon.\<close>

theorem revert_keeps_the_edits:
  assumes "g_dirty a" and "g_pending_remote a = None" and "g_connected a"
    and "us = run_command (Ok (\<lambda>req. answer (snd (handle_request api d tx w req s)))) Cmd_Refresh"
    and "b = drain_ipc now us (click_revert a)"
    and "reconcile_config fresh (g_trusted b) (g_config a) \<noteq> g_config a"
  shows "g_sent (click_revert a) = g_sent a @ [Cmd_Refresh]
       \<and> g_config b = g_config a \<and> \<not> g_dirty b
       \<and> g_sent (gui_reconcile fresh False b) =
           g_sent a @ [Cmd_Refresh, Cmd_SetConfig (reconcile_config fresh (g_trusted b) (g_config a))]"
proof -
  have us: "us = [Upd_Status (s_state s) (s_log_tail s) (sorted_list_of_set (s_connected_peers s)) (s_active_screen s)]"
    unfolding assms(4) by (simp add: run_command_def handle_request_def answer_def)
  have "g_config b = g_config a \<and> \<not> g_dirty b \<and> g_connected b \<and> g_pending_remote b = None \<and> g_sent b = g_sent a @ [Cmd_Refresh]"
    using assms(1-3) unfolding assms(5) us by (simp add: click_revert_def gui_send_def)
  then show ?thesis
    using assms(1,2,6) by (auto simp: gui_reconcile_def click_revert_def gui_send_def Let_def)
qed

subsection \<open>A concrete window\<close>

definition demo_trusted :: trusted_peer where
  "demo_trusted = \<lparr> tp_machine_id = ''b'', tp_display_name = ''laptop'', tp_public_key_hex = [], tp_fingerprint = [], tp_paired_at_unix = 0 \<rparr>"

definition demo_window :: gui_app where
  "demo_window = (gui_new True [])\<lparr> g_connected := True, g_dirty := True, g_trusted := [(''b'', demo_trusted)] \<rparr>"

lemma demo_window_fields:
  "g_connected demo_window" "g_pending_remote demo_window = None" "g_config demo_window = config_default" "g_dirty demo_window"
  "g_trusted demo_window = [(''b'', demo_trusted)]"
  by (simp_all add: demo_window_def gui_new_def)

lemma demo_missing: "missing_peers config_default [(''b'', demo_trusted)] = [''laptop'']"
  by (simp add: missing_peers_def config_default_def demo_trusted_def)


theorem revert_keeps_the_edits_witness:
  "g_config (drain_ipc 0 (run_command (Ok (\<lambda>req. answer (snd (handle_request demo_daemon_api demo_dirs demo_texts demo_world req demo_supervisor))))
       Cmd_Refresh) (click_revert demo_window)) = config_default"
proof -
  let ?us = "run_command (Ok (\<lambda>req. answer (snd (handle_request demo_daemon_api demo_dirs demo_texts demo_world req demo_supervisor)))) Cmd_Refresh"
  have us: "?us = [Upd_Status (s_state demo_supervisor) (s_log_tail demo_supervisor) (sorted_list_of_set (s_connected_peers demo_supervisor))
      (s_active_screen demo_supervisor)]"
    by (simp add: run_command_def handle_request_def answer_def)
  have "g_trusted (drain_ipc 0 ?us (click_revert demo_window)) = [(''b'', demo_trusted)]"
    unfolding us by (simp add: click_revert_def gui_send_def demo_window_fields)
  moreover have "missing_peers config_default [(''b'', demo_trusted)] \<noteq> []" by (simp add: demo_missing)
  then have "reconcile_config [] [(''b'', demo_trusted)] config_default \<noteq> config_default"
    using missing_after [of "[]" "[(''b'', demo_trusted)]" config_default] by metis
  ultimately show ?thesis
    using revert_keeps_the_edits [OF demo_window_fields(4,2,1) refl refl, where fresh = "[]"] by (simp add: demo_window_fields)
qed

end
