(* ===== verification/Single_Instance.thy ===== *)
theory Single_Instance
  imports Prelude
begin

text \<open>
  The guard that keeps the GUI to one window (\<^verbatim>\<open>crates/synbad-gui/src/single_instance.rs\<close> and its use in \<^verbatim>\<open>main.rs\<close>).
  Launches are processes numbered at will.  Binding a socket creates the file; only after \<^verbatim>\<open>listen\<close> are connections
  accepted.  The guard is leaked, so a process that ends leaves its file behind, where connecting is refused.  A
  process whose guard is unsupported goes on without one.
\<close>

datatype gui_pc =
    Absent
  | Trying nat
  | Binding nat
  | Acquired
  | Probing nat
  | Removing
  | Forwarded
  | Unsupported

record gui_world =
  gw_file :: "nat option"
  gw_pc :: "nat \<Rightarrow> gui_pc"

definition goto :: "nat \<Rightarrow> gui_pc \<Rightarrow> gui_world \<Rightarrow> gui_world" where
  "goto p x w = w\<lparr> gw_pc := (gw_pc w)(p := x) \<rparr>"

text \<open>The steps of one process \<open>p\<close> of \<open>acquire\<close>; \<open>faults\<close>: binding may fail for another reason.\<close>

inductive acquire_step :: "bool \<Rightarrow> nat \<Rightarrow> gui_world \<Rightarrow> gui_world \<Rightarrow> bool" for faults :: bool and p :: nat where
  bind: "gw_pc w p = Trying a \<Longrightarrow> gw_file w = None \<Longrightarrow> acquire_step faults p w (goto p (Binding a) (w\<lparr> gw_file := Some p \<rparr>))"
| listen: "gw_pc w p = Binding a \<Longrightarrow> acquire_step faults p w (goto p Acquired w)"
| in_use: "gw_pc w p = Trying a \<Longrightarrow> a < 2 \<Longrightarrow> gw_file w \<noteq> None \<Longrightarrow> acquire_step faults p w (goto p (Probing a) w)"
| forwarded: "gw_pc w p = Probing a \<Longrightarrow> gw_file w = Some q \<Longrightarrow> gw_pc w q = Acquired \<Longrightarrow> acquire_step faults p w (goto p Forwarded w)"
| refused: "gw_pc w p = Probing 0 \<Longrightarrow> gw_file w = Some q \<Longrightarrow> gw_pc w q \<noteq> Acquired \<Longrightarrow> acquire_step faults p w (goto p Removing w)"
| refused_again: "gw_pc w p = Probing (Suc a) \<Longrightarrow> gw_file w = Some q \<Longrightarrow> gw_pc w q \<noteq> Acquired \<Longrightarrow>
    acquire_step faults p w (goto p Unsupported w)"
| vanished: "gw_pc w p = Probing a \<Longrightarrow> gw_file w = None \<Longrightarrow> acquire_step faults p w (goto p Unsupported w)"
| remove: "gw_pc w p = Removing \<Longrightarrow> acquire_step faults p w (goto p (Trying 1) (w\<lparr> gw_file := None \<rparr>))"
| bind_fails: "faults \<Longrightarrow> gw_pc w p = Trying a \<Longrightarrow> acquire_step faults p w (goto p Unsupported w)"

text \<open>Any number of launches at once: a launch begins, a process makes a step, or a process ends.\<close>

inductive launches :: "bool \<Rightarrow> gui_world \<Rightarrow> gui_world \<Rightarrow> bool" for faults :: bool where
  begin_launch: "gw_pc w p = Absent \<Longrightarrow> launches faults w (goto p (Trying 0) w)"
| own_step: "acquire_step faults p w w' \<Longrightarrow> launches faults w w'"
| exits: "gw_pc w p \<noteq> Absent \<Longrightarrow> launches faults w (goto p Absent w)"

inductive_cases acquire_stepE: "acquire_step faults p w w'"

definition window :: "gui_world \<Rightarrow> nat \<Rightarrow> bool" where
  "window w p \<longleftrightarrow> gw_pc w p = Acquired \<or> gw_pc w p = Unsupported"

definition settled_pc :: "gui_pc \<Rightarrow> bool" where
  "settled_pc x \<longleftrightarrow> x \<in> {Absent, Acquired, Forwarded, Unsupported}"

text \<open>Launches one after the other: each runs to its outcome before the next begins.\<close>

inductive serial :: "bool \<Rightarrow> gui_world \<Rightarrow> bool" for faults :: bool where
  nobody: "serial faults \<lparr> gw_file = f, gw_pc = (\<lambda>_. Absent) \<rparr>"
| launch: "serial faults w \<Longrightarrow> gw_pc w p = Absent \<Longrightarrow> (acquire_step faults p)\<^sup>*\<^sup>* (goto p (Trying 0) w) w' \<Longrightarrow>
    settled_pc (gw_pc w' p) \<Longrightarrow> serial faults w'"
| quit: "serial faults w \<Longrightarrow> serial faults (goto p Absent w)"

subsection \<open>One launch alone\<close>

definition calm :: "gui_world \<Rightarrow> bool" where
  "calm w \<longleftrightarrow> (\<forall>q. gw_pc w q \<in> {Absent, Acquired, Forwarded}) \<and> (\<forall>q. gw_pc w q = Acquired \<longrightarrow> gw_file w = Some q)"

text \<open>While \<open>p\<close> runs alone: the others are calm, and \<open>p\<close> owns the file once it has bound it, and removes it only while
  nobody else has a window.\<close>

definition alone :: "nat \<Rightarrow> gui_world \<Rightarrow> bool" where
  "alone p w \<longleftrightarrow>
     (\<forall>q. q \<noteq> p \<longrightarrow> gw_pc w q \<in> {Absent, Acquired, Forwarded} \<and> (gw_pc w q = Acquired \<longrightarrow> gw_file w = Some q))
   \<and> gw_pc w p \<noteq> Unsupported
   \<and> (case gw_pc w p of
        Trying a \<Rightarrow> a = 0 \<or> a = 1 \<and> gw_file w = None
      | Probing a \<Rightarrow> a = 0 \<and> gw_file w \<noteq> None
      | Binding a \<Rightarrow> gw_file w = Some p
      | Acquired \<Rightarrow> gw_file w = Some p
      | Removing \<Rightarrow> (\<forall>q. q \<noteq> p \<longrightarrow> gw_pc w q \<noteq> Acquired)
      | _ \<Rightarrow> True)"

lemma goto_simps [simp]:
  "gw_file (goto p x w) = gw_file w" "gw_pc (goto p x w) q = (if q = p then x else gw_pc w q)"
  "gw_pc (w\<lparr> gw_file := f \<rparr>) = gw_pc w"
  by (simp_all add: goto_def)

lemma alone_step:
  assumes "alone p w" and "acquire_step False p w w'" shows "alone p w'"
  using assms(2)
proof (cases rule: acquire_step.cases)
  case (bind a)
  then show ?thesis using assms(1) by (auto simp: alone_def)
next
  case (refused q)
  have "gw_pc w r \<noteq> Acquired" if "r \<noteq> p" for r using assms(1) refused that by (auto simp: alone_def)
  then show ?thesis using assms(1) refused by (auto simp: alone_def)
qed (use assms(1) in \<open>auto simp: alone_def\<close>)

lemma alone_run: "(acquire_step False p)\<^sup>*\<^sup>* w w' \<Longrightarrow> alone p w \<Longrightarrow> alone p w'"
  by (induction rule: rtranclp_induct) (auto intro: alone_step)

lemma calm_serial: "serial False w \<Longrightarrow> calm w"
proof (induction rule: serial.induct)
  case (launch w p w')
  have "alone p (goto p (Trying 0) w)" using launch.IH by (auto simp: alone_def calm_def)
  then have "alone p w'" using alone_run launch.hyps(3) by blast
  then have "gw_pc w' q \<in> {Absent, Acquired, Forwarded} \<and> (gw_pc w' q = Acquired \<longrightarrow> gw_file w' = Some q)" for q
    using launch.hyps(4) by (cases "q = p") (auto simp: alone_def settled_pc_def)
  then show ?case by (simp add: calm_def)
qed (auto simp: calm_def)

subsection \<open>One window, and two\<close>

lemma one_window_when_serial:
  assumes "serial False w" and "window w p" and "window w q"
  shows "p = q \<and> gw_file w = Some p"
proof -
  have c: "calm w" using assms(1) by (rule calm_serial)
  have "gw_file w = Some r" if "window w r" for r
  proof -
    have "gw_pc w r = Absent \<or> gw_pc w r = Acquired \<or> gw_pc w r = Forwarded" using c by (auto simp: calm_def)
    then have "gw_pc w r = Acquired" using that by (auto simp: window_def)
    then show ?thesis using c by (simp add: calm_def)
  qed
  from this [OF assms(2)] this [OF assms(3)] show ?thesis by simp
qed

definition stale_world :: gui_world where
  "stale_world = \<lparr> gw_file = Some 9, gw_pc = (\<lambda>_. Absent) \<rparr>"

lemma reclaim_run:
  assumes "gw_pc w p = Absent" and "gw_file w = Some q" and "gw_pc w q = Absent" and "q \<noteq> p"
  shows "(acquire_step False p)\<^sup>*\<^sup>* (goto p (Trying 0) w)
           (goto p Acquired (goto p (Binding 1) ((goto p (Trying 1) ((goto p Removing (goto p (Probing 0) (goto p (Trying 0) w)))\<lparr> gw_file := None \<rparr>))\<lparr> gw_file := Some p \<rparr>)))"
proof -
  let ?a = "goto p (Probing 0) (goto p (Trying 0) w)"
  let ?b = "goto p Removing ?a"
  let ?c = "goto p (Trying 1) (?b\<lparr> gw_file := None \<rparr>)"
  let ?d = "goto p (Binding 1) (?c\<lparr> gw_file := Some p \<rparr>)"
  have "acquire_step False p (goto p (Trying 0) w) ?a" by (rule acquire_step.in_use) (use assms in auto)
  moreover have "acquire_step False p ?a ?b" by (rule acquire_step.refused) (use assms in auto)
  moreover have "acquire_step False p ?b ?c" by (rule acquire_step.remove) simp
  moreover have "acquire_step False p ?c ?d" by (rule acquire_step.bind) (simp_all add: goto_def)
  moreover have "acquire_step False p ?d (goto p Acquired ?d)" by (rule acquire_step.listen) simp
  ultimately show ?thesis by (meson converse_rtranclp_into_rtranclp r_into_rtranclp)
qed

text \<open>Two launches at once can both become the window, without any error: after a crash has left a stale socket, both
  find it refused before either removes it, and the one that removes it second removes the fresh socket of the first and
  binds its own.\<close>

lemma concurrent_launches_race:
  "\<exists>w. (launches False)\<^sup>*\<^sup>* stale_world w \<and> gw_pc w 1 = Acquired \<and> gw_pc w 2 = Acquired"
proof -
  let ?s1 = "goto 1 (Trying 0) stale_world"
  let ?s2 = "goto 2 (Trying 0) ?s1"
  let ?s3 = "goto 1 (Probing 0) ?s2"
  let ?s4 = "goto 2 (Probing 0) ?s3"
  let ?s5 = "goto 1 Removing ?s4"
  let ?s6 = "goto 2 Removing ?s5"
  let ?s7 = "goto 1 (Trying 1) (?s6\<lparr> gw_file := None \<rparr>)"
  let ?s8 = "goto 1 (Binding 1) (?s7\<lparr> gw_file := Some 1 \<rparr>)"
  let ?s9 = "goto 1 Acquired ?s8"
  let ?s10 = "goto 2 (Trying 1) (?s9\<lparr> gw_file := None \<rparr>)"
  let ?s11 = "goto 2 (Binding 1) (?s10\<lparr> gw_file := Some 2 \<rparr>)"
  let ?s12 = "goto 2 Acquired ?s11"
  have f: "gw_file stale_world = Some 9" "gw_pc stale_world x = Absent" for x by (simp_all add: stale_world_def)
  have "launches False stale_world ?s1" "launches False ?s1 ?s2" by (rule launches.begin_launch; simp add: f)+
  moreover have "launches False ?s2 ?s3" "launches False ?s3 ?s4"
    by (rule launches.own_step, rule acquire_step.in_use; simp add: f)+
  moreover have "launches False ?s4 ?s5" "launches False ?s5 ?s6"
    by (rule launches.own_step, rule acquire_step.refused [of _ _ 9]; simp add: f)+
  moreover have "launches False ?s6 ?s7" by (rule launches.own_step, rule acquire_step.remove) simp
  moreover have "launches False ?s7 ?s8" by (rule launches.own_step, rule acquire_step.bind) (simp_all add: goto_def)
  moreover have "launches False ?s8 ?s9" by (rule launches.own_step, rule acquire_step.listen) simp
  moreover have "launches False ?s9 ?s10" by (rule launches.own_step, rule acquire_step.remove) simp
  moreover have "launches False ?s10 ?s11" by (rule launches.own_step, rule acquire_step.bind) (simp_all add: goto_def)
  moreover have "launches False ?s11 ?s12" by (rule launches.own_step, rule acquire_step.listen) simp
  ultimately have "(launches False)\<^sup>*\<^sup>* stale_world ?s12" by (meson converse_rtranclp_into_rtranclp r_into_rtranclp)
  moreover have "gw_pc ?s12 1 = Acquired" "gw_pc ?s12 2 = Acquired" by simp_all
  ultimately show ?thesis by blast
qed

subsection \<open>Properties\<close>

text \<open>C35. There is one window, as long as launches do not overlap: launched one after the other, however many times and
  whatever file a crashed process left behind, at most one process has a window and the socket file leads to it.  Two
  launches at once can both become the window without any error, since each may remove the socket the other has just
  bound.\<close>

theorem one_window_unless_launches_overlap:
  "(\<forall>w p q. serial False w \<and> window w p \<and> window w q \<longrightarrow> p = q \<and> gw_file w = Some p)
   \<and> (\<exists>w. (launches False)\<^sup>*\<^sup>* stale_world w \<and> gw_pc w 1 = Acquired \<and> gw_pc w 2 = Acquired)"
  using one_window_when_serial concurrent_launches_race by blast

theorem one_window_unless_launches_overlap_witness:
  "\<exists>w. serial False w \<and> window w 1 \<and> gw_file w = Some 1"
proof -
  obtain w' where run: "(acquire_step False 1)\<^sup>*\<^sup>* (goto 1 (Trying 0) stale_world) w'" and win: "gw_pc w' 1 = Acquired"
    using reclaim_run [of stale_world 1 9] by (auto simp: stale_world_def goto_def)
  have "serial False stale_world" unfolding stale_world_def by (rule serial.nobody)
  then have s: "serial False w'"
    by (rule serial.launch [OF _ _ run]) (use win in \<open>simp_all add: stale_world_def settled_pc_def\<close>)
  have "window w' 1" using win by (simp add: window_def)
  then show ?thesis using one_window_unless_launches_overlap s by blast
qed

end
