(* ===== verification/Spec2Isabelle.thy ===== *)
theory Spec2Isabelle
  imports Sync_Session Pairing Rotating_Log Run_Loop Ipc_Server Core_Binaries Updater Gui_Mirror
    Single_Instance
begin

text \<open>
  \<^bold>\<open>Synbad.\<close>  Synbad shares keyboard, mouse and clipboard between the computers of a local network.  A daemon
  (\<^verbatim>\<open>synbadd\<close>) supervises the third-party Deskflow Core, finds the other machines by mDNS, pairs with them after the two
  users have compared a short code, keeps the configuration of all paired machines in step, and connects their sound
  devices.  A GUI (\<^verbatim>\<open>synbad-gui\<close>) talks to the daemon over a local socket.  This development translates the Rust crates
  under \<^verbatim>\<open>src/crates/\<close> into functions, records and step relations and proves what makes them correct.

  \<^bold>\<open>The parts and how they interact.\<close>  The supervisor owns all state of the daemon.  Its run loop takes one input at a
  time: a request of the GUI, a line or the exit of the Core, a resolved Core binary, a timer, a discovery event, the end
  of an audio or sync session, a merge asked for by a sync session, a change of the configuration file.  Network tasks
  run beside it: accept loops and dials for pairing, sync and audio, each of which authenticates its peer by the
  handshake against the trust store and then speaks its own protocol over the encrypted channel.  The browser thread
  turns mDNS records into discovery events, and the advertiser publishes the ports and the configuration head.  Every
  change is broadcast as an event, which the IPC server forwards to the GUI's reader thread.

  \<^bold>\<open>Theories, by source.\<close>

  \<^item> \<^verbatim>\<open>Prelude\<close>, \<^verbatim>\<open>Crypto_Api\<close>, \<^verbatim>\<open>Files\<close>, \<^verbatim>\<open>Ip_Addr\<close>: machine integers, results, association lists and shared lemmas; the
    cryptographic primitives as a record of functions; files and directories under injected I/O faults; address parsing
    of the standard library.
  \<^item> \<^verbatim>\<open>Config\<close>: \<^verbatim>\<open>synbad-config/src/lib.rs\<close> and \<^verbatim>\<open>paths.rs\<close>.  \<^verbatim>\<open>Rotating_Log\<close>: \<^verbatim>\<open>logging.rs\<close>.
  \<^item> \<^verbatim>\<open>Versioned\<close>, \<^verbatim>\<open>Gossip\<close>, \<^verbatim>\<open>Sync_Protocol\<close>: \<^verbatim>\<open>synbad-sync\<close>, the stamped configuration and its merge, the network of
    editing and merging machines as a transition system, and the signed frame.  \<^verbatim>\<open>Sync_Session\<close>: \<^verbatim>\<open>synbadd/src/sync.rs\<close>.
  \<^item> \<^verbatim>\<open>Cipher\<close>, \<^verbatim>\<open>Handshake\<close>: \<^verbatim>\<open>synbad-crypto\<close>.  \<^verbatim>\<open>Transport\<close>: \<^verbatim>\<open>synbadd/src/transport.rs\<close> and the four accept loops.
  \<^item> \<^verbatim>\<open>Identity\<close>, \<^verbatim>\<open>Trust_Store\<close>, \<^verbatim>\<open>Pairing\<close>, \<^verbatim>\<open>Advertise\<close>, \<^verbatim>\<open>Browse\<close>: \<^verbatim>\<open>synbad-discovery\<close> (\<^verbatim>\<open>identity.rs\<close>, \<^verbatim>\<open>trust.rs\<close>,
    \<^verbatim>\<open>pairing.rs\<close>, \<^verbatim>\<open>advertiser.rs\<close> with \<^verbatim>\<open>interfaces.rs\<close>, \<^verbatim>\<open>browser.rs\<close>) and the pairing session of
    \<^verbatim>\<open>synbadd/src/pairing.rs\<close>.
  \<^item> \<^verbatim>\<open>Core_Proc\<close>, \<^verbatim>\<open>Core_Lifecycle\<close>, \<^verbatim>\<open>Core_Retry\<close>, \<^verbatim>\<open>Log_Files\<close>, \<^verbatim>\<open>Log_Parse\<close>: \<^verbatim>\<open>supervisor/core_proc.rs\<close> with the arms of
    the run loop that concern the Core, and \<^verbatim>\<open>synbad-ipc/src/log_parse.rs\<close>.  \<^verbatim>\<open>Core_Binaries\<close>: \<^verbatim>\<open>synbadd/src/binaries.rs\<close>.
  \<^item> \<^verbatim>\<open>Sessions\<close>, \<^verbatim>\<open>Reconcile\<close>, \<^verbatim>\<open>Config_Edit\<close>, \<^verbatim>\<open>Requests\<close>, \<^verbatim>\<open>Daemon\<close>, \<^verbatim>\<open>Run_Loop\<close>: the rest of the supervisor
    (\<^verbatim>\<open>supervisor/mod.rs\<close>, \<^verbatim>\<open>config_edit.rs\<close>, \<^verbatim>\<open>requests.rs\<close>).  The record \<^verbatim>\<open>supervisor\<close> extends the record of the Core's
    part field by field; \<^verbatim>\<open>sup_step\<close> has one rule per arm of the loop.
  \<^item> \<^verbatim>\<open>Audio_Bridge\<close>, \<^verbatim>\<open>Links\<close>: \<^verbatim>\<open>synbad-audio/src/bridge.rs\<close> with what it sees of \<^verbatim>\<open>session.rs\<close>, and \<^verbatim>\<open>synbadd/src/audio.rs\<close>.
  \<^item> \<^verbatim>\<open>Ipc_Types\<close>, \<^verbatim>\<open>Ipc_Server\<close>: \<^verbatim>\<open>synbad-ipc\<close>.  \<^verbatim>\<open>Event_Mirror\<close>: the daemon's view as a function of its events.
  \<^item> \<^verbatim>\<open>Gui_Ipc\<close>, \<^verbatim>\<open>Gui_App\<close>, \<^verbatim>\<open>Gui_Mirror\<close>, \<^verbatim>\<open>Single_Instance\<close>: \<^verbatim>\<open>synbad-gui\<close> (\<^verbatim>\<open>ipc_thread.rs\<close>, \<^verbatim>\<open>app/mod.rs\<close> with
    \<^verbatim>\<open>update.rs\<close>, the three together with the supervisor, \<^verbatim>\<open>single_instance.rs\<close>).
  \<^item> \<^verbatim>\<open>Updater\<close>: \<^verbatim>\<open>synbad-update\<close>.

  \<^bold>\<open>Interfaces.\<close>  \<^verbatim>\<open>lww_replica\<close> (what a join must satisfy for replicas to converge; the merge of the shared fields
  provides it), \<^verbatim>\<open>keyed_store\<close> (lookup after put and drop; the trust store), \<^verbatim>\<open>cancel_safe\<close> (a receive that may be dropped
  at any await loses nothing; the cipher reader, the stream reader and the IPC reader), \<^verbatim>\<open>accept_loop\<close> (bounded tasks,
  nothing dropped below the bound; the four listeners), \<^verbatim>\<open>last_writer\<close> (registers overwritten by updates, so replaying
  old updates before new ones is harmless; the daemon's view and the GUI's state).

  \<^bold>\<open>What is shown.\<close>

  \<^item> Configuration sync: the merge refines the last-writer-wins join; replicas that have received the same states agree;
    stamps identify values in every reachable state of the network; a local edit propagates; a complete session between
    two paired daemons ends with both holding the join; only states signed with the stored key are ever merged; and the
    two ways in which convergence is lost (a wrapped clock, a rolled back merge).
  \<^item> Security: the handshake completes between honest peers, accepts only trusted machines and gives agreement; the
    channel delivers in order and accepts only what was sent; nonces are unique; equal codes mean equal hellos; pairing
    establishes trust only on both verdicts and is mutual; a revoked machine stays revoked; only trusted streams reach
    the bridge.
  \<^item> Supervisor: a coherence invariant over every arm of the loop; a wanted Core is never stranded; the exact retry
    schedule; one tick repairs every network service.
  \<^item> Discovery: a stable and well-formed identity; an announcement read back unchanged; only LAN addresses announced;
    the peer table follows the network; a service that changes its identity leaves a ghost.
  \<^item> IPC and GUI: one daemon owns the socket; a subscriber misses nothing or is disconnected; the window shows what the
    daemon would answer; the reconciliation pass completes the layout and settles; Revert keeps the edits; one window
    unless launches overlap.
  \<^item> Persistence: atomic saves of the configuration, verified Core caches, complete programs after any update, bounded
    logs, and a log reader independent of how its input is cut into chunks.

  \<^bold>\<open>Conventions.\<close>  Fallible code returns \<^verbatim>\<open>error + 'a\<close>; awaits return whether they completed, failed or were dropped.
  Integers that may wrap are words of the source's width.  Text is its UTF-8 bytes.  Hash maps are association lists
  where iteration order is visible and maps or sets elsewhere.  Times are milliseconds; every reading of a clock is an
  argument.  What the network, the file system, processes and tasks do is a record of answers given to the operation,
  over which the theorems quantify.  Recursive loops are total functions with a termination measure; a loop that runs
  once per answer of the environment recurses over the list of answers; the write loop of the rotating log is a partial
  function, and that it returns is proved.  No fuel is used.

  \<^bold>\<open>Parameters.\<close>  TOML, JSON, hex, SHA-256, HKDF, X25519, Ed25519, ChaCha20-Poly1305, uuid, semver, tar and ar archives,
  \<^verbatim>\<open>self_replace\<close>, mdns-sd, HTTP and the elevation tools are arguments of the definitions.  What the code relies on is a
  named predicate (\<^verbatim>\<open>hex_law\<close>, \<^verbatim>\<open>aead_law\<close>, \<^verbatim>\<open>service_law\<close> and so on) or a stated hypothesis (round trips of codecs,
  unforgeability on one run, a service carrying the fields it was built from), and each theorem that uses one has a
  witness on a concrete instance.

  \<^bold>\<open>Not modelled.\<close>  Drawing (\<^verbatim>\<open>app/views.rs\<close>, \<^verbatim>\<open>layout_editor.rs\<close>, \<^verbatim>\<open>monitors.rs\<close>, \<^verbatim>\<open>tray.rs\<close>): immediate-mode calls into
  egui with floating-point geometry.  Audio media (\<^verbatim>\<open>capture.rs\<close>, \<^verbatim>\<open>playback.rs\<close>, \<^verbatim>\<open>rtc.rs\<close>, the driver inside
  \<^verbatim>\<open>session.rs\<close>): plumbing around WebRTC, Opus and the sound system.  Process entry, tracing layers and argument parsing
  (\<^verbatim>\<open>main.rs\<close>, \<^verbatim>\<open>log_sink.rs\<close>).  The macOS and Windows branches of the Core cache and of the updater, restarting programs
  after an update, and the named-pipe variant of the IPC client.  Directories chosen by the platform.
\<close>

end
